(* ===== verification/Wp_Prelude.thy ===== *)
theory Wp_Prelude
  imports Main "HOL-Library.Word" "HOL-Library.AList" "HOL-Library.Char_ord"
begin

text \<open>
  Shared vocabulary of the development: the machine integer types of the Rust code, byte
  strings and the standard-library string routines the crates use, decimal and hexadecimal
  parsing with Rust's rules, little- and big-endian words, UTF-8 validation, and the
  \<open>HashMap\<close> interface. A Rust byte slice, a \<open>Vec<u8>\<close> and a \<open>String\<close> are all of
  type \<open>string\<close> here: a list of 8-bit characters, where a Rust string is the list of
  its UTF-8 bytes. \<open>usize\<close> is \<open>nat\<close>, with the 64-bit bound written out
  where an addition can overflow.
\<close>

section \<open>Machine integers and results\<close>

type_synonym u8 = "8 word"
type_synonym u16 = "16 word"
type_synonym u32 = "32 word"
type_synonym u64 = "64 word"
type_synonym ipv4 = "u8 list"

named_theorems rust_simps "library rewriting for the string and number routines"

text \<open>The largest \<open>usize\<close> on the 64-bit targets the daemon is built for.\<close>

definition usize_max :: nat where
  "usize_max = 18446744073709551615"

lemma usize_max_pos [simp]: "0 < usize_max"
  by (simp add: usize_max_def)

abbreviation byte :: "char \<Rightarrow> nat" where
  "byte c \<equiv> of_char c"

definition u8_of_char :: "char \<Rightarrow> u8" where
  "u8_of_char c = of_nat (of_char c)"

definition char_of_u8 :: "u8 \<Rightarrow> char" where
  "char_of_u8 w = char_of (unat w)"

lemma unat_u8_less [simp]: "unat (w :: u8) < 256"
  using unsigned_less [of w, where ?'a = nat] by simp

lemma unat_u8_of_char [rust_simps]: "unat (u8_of_char c) = of_char c"
  by (simp add: u8_of_char_def unat_of_nat)

lemma u8_char_inverse [rust_simps]: "u8_of_char (char_of_u8 w) = w"
proof -
  have "unat w < 256" by simp
  then show ?thesis by (simp add: u8_of_char_def char_of_u8_def)
qed

lemma char_u8_inverse [rust_simps]: "char_of_u8 (u8_of_char c) = c"
  by (simp add: char_of_u8_def unat_u8_of_char)

lemma of_char_char_of_u8 [rust_simps]: "of_char (char_of_u8 w) = unat w"
proof -
  have "unat w < 256" by simp
  then show ?thesis by (simp add: char_of_u8_def)
qed

section \<open>Character classes\<close>

definition is_ascii_digit :: "char \<Rightarrow> bool" where
  "is_ascii_digit c \<longleftrightarrow> 48 \<le> byte c \<and> byte c \<le> 57"

definition is_ascii_upper :: "char \<Rightarrow> bool" where
  "is_ascii_upper c \<longleftrightarrow> 65 \<le> byte c \<and> byte c \<le> 90"

definition is_ascii_lower :: "char \<Rightarrow> bool" where
  "is_ascii_lower c \<longleftrightarrow> 97 \<le> byte c \<and> byte c \<le> 122"

definition is_ascii_alphanumeric :: "char \<Rightarrow> bool" where
  "is_ascii_alphanumeric c \<longleftrightarrow> is_ascii_digit c \<or> is_ascii_upper c \<or> is_ascii_lower c"

definition ascii_lower :: "char \<Rightarrow> char" where
  "ascii_lower c = (if is_ascii_upper c then char_of (byte c + 32) else c)"

definition to_ascii_lowercase :: "string \<Rightarrow> string" where
  "to_ascii_lowercase s = map ascii_lower s"

definition eq_ignore_ascii_case :: "string \<Rightarrow> string \<Rightarrow> bool" where
  "eq_ignore_ascii_case a b \<longleftrightarrow> to_ascii_lowercase a = to_ascii_lowercase b"

text \<open>Carriage return and line feed, written once.\<close>

definition CR :: char where
  "CR = CHR 0x0D"

definition LF :: char where
  "LF = CHR 0x0A"

definition crlf :: string where
  "crlf = [CR, LF]"

lemma crlf_simps [simp]: "CR \<noteq> LF" "LF \<noteq> CR"
  by (simp_all add: CR_def LF_def)

section \<open>Searching and splitting\<close>

fun starts_with :: "'a list \<Rightarrow> 'a list \<Rightarrow> bool" where
  "starts_with s [] = True"
| "starts_with [] (_ # _) = False"
| "starts_with (c # s) (p # ps) = (c = p \<and> starts_with s ps)"

lemma starts_with_take: "starts_with s p \<longleftrightarrow> take (length p) s = p"
  by (induction s p rule: starts_with.induct) auto

lemma starts_with_append [simp]: "starts_with (p @ s) p"
  by (simp add: starts_with_take)

lemma starts_with_iff: "starts_with s p \<longleftrightarrow> (\<exists>t. s = p @ t)"
  by (metis append_take_drop_id starts_with_append starts_with_take)

definition ends_with :: "'a list \<Rightarrow> 'a list \<Rightarrow> bool" where
  "ends_with s p \<longleftrightarrow> starts_with (rev s) (rev p)"

fun contains :: "'a list \<Rightarrow> 'a list \<Rightarrow> bool" where
  "contains [] p = (p = [])"
| "contains (c # s) p = (starts_with (c # s) p \<or> contains s p)"

text \<open>The offset of the first occurrence of \<open>p\<close>, as \<open>windows(n).position(..)\<close> gives it.\<close>

fun find_sub :: "'a list \<Rightarrow> 'a list \<Rightarrow> nat option" where
  "find_sub [] p = (if p = [] then Some 0 else None)"
| "find_sub (c # s) p =
     (if starts_with (c # s) p then Some 0 else map_option Suc (find_sub s p))"

lemma find_sub_Some:
  "find_sub s p = Some i \<Longrightarrow> i + length p \<le> length s \<and> take (length p) (drop i s) = p"
proof (induction s p arbitrary: i rule: find_sub.induct)
  case (1 p)
  then show ?case by (auto split: if_splits)
next
  case (2 c s p)
  show ?case
  proof (cases "starts_with (c # s) p")
    case True
    with 2(2) have "i = 0" by simp
    from True have "take (length p) (c # s) = p" by (simp add: starts_with_take)
    moreover from this have "length p \<le> length (c # s)" by (metis length_take min.cobounded1)
    ultimately show ?thesis using \<open>i = 0\<close> by simp
  next
    case False
    with 2(2) obtain j where "find_sub s p = Some j" "i = Suc j" by auto
    with 2(1) [OF False] show ?thesis by auto
  qed
qed

lemma find_sub_append:
  "p \<noteq> [] \<Longrightarrow> find_sub s p = Some i \<Longrightarrow> find_sub (s @ t) p = Some i"
proof (induction s p arbitrary: i rule: find_sub.induct)
  case (1 p)
  then show ?case by simp
next
  case (2 c s p)
  show ?case
  proof (cases "starts_with (c # s) p")
    case True
    then obtain u where "c # s = p @ u" by (auto simp: starts_with_iff)
    then have "c # s @ t = p @ u @ t" by (metis append.assoc append_Cons)
    then have "starts_with (c # s @ t) p" by (metis starts_with_append)
    with True 2(3) show ?thesis by simp
  next
    case False
    with 2(3) obtain j where j: "find_sub s p = Some j" "i = Suc j" by auto
    have "length p \<le> length s" using find_sub_Some [OF j(1)] by simp
    then have "\<not> starts_with (c # s @ t) p"
      using False by (simp add: starts_with_take take_Cons' split: if_splits)
    moreover have "find_sub (s @ t) p = Some j" using 2(1) [OF False 2(2) j(1)] .
    ultimately show ?thesis using j by simp
  qed
qed

fun split_char :: "'a \<Rightarrow> 'a list \<Rightarrow> 'a list list" where
  "split_char d [] = [[]]"
| "split_char d (c # s) =
     (if c = d then [] # split_char d s
      else case split_char d s of [] \<Rightarrow> [[c]] | x # xs \<Rightarrow> (c # x) # xs)"

lemma split_char_nonempty [simp]: "split_char d s \<noteq> []"
  by (cases s) (auto split: list.splits)

lemma split_char_clean: "d \<notin> set s \<Longrightarrow> split_char d s = [s]"
  by (induction s) auto

lemma split_char_append: "d \<notin> set s \<Longrightarrow> split_char d (s @ d # t) = s # split_char d t"
  by (induction s) auto

fun split_crlf_aux :: "string \<Rightarrow> string \<Rightarrow> string list" where
  "split_crlf_aux acc [] = [rev acc]"
| "split_crlf_aux acc [c] = [rev (c # acc)]"
| "split_crlf_aux acc (c # d # s) =
     (if c = CR \<and> d = LF then rev acc # split_crlf_aux [] s
      else split_crlf_aux (c # acc) (d # s))"

text \<open>\<open>text.split("\\r\\n")\<close>.\<close>

definition split_crlf :: "string \<Rightarrow> string list" where
  "split_crlf s = split_crlf_aux [] s"

fun split_once :: "'a \<Rightarrow> 'a list \<Rightarrow> ('a list \<times> 'a list) option" where
  "split_once d [] = None"
| "split_once d (c # s) =
     (if c = d then Some ([], s)
      else map_option (\<lambda>(a, b). (c # a, b)) (split_once d s))"

lemma split_once_append: "d \<notin> set s \<Longrightarrow> split_once d (s @ d # t) = Some (s, t)"
  by (induction s) auto

lemma split_once_None [simp]: "split_once d s = None \<longleftrightarrow> d \<notin> set s"
  by (induction s) auto

text \<open>\<open>str::lines\<close>: split at line feeds, drop one carriage return before each of them and
  the empty piece after a final line feed.\<close>

definition strip_cr :: "string \<Rightarrow> string" where
  "strip_cr l = (if l \<noteq> [] \<and> last l = CR then butlast l else l)"

definition lines :: "string \<Rightarrow> string list" where
  "lines s =
     (let ps = split_char LF s;
          body = butlast ps;
          end = last ps
      in map strip_cr body @ (if end = [] then [] else [end]))"

lemma ball_enumerate:
  "(\<forall>x \<in> set (enumerate 0 xs). P x) \<longleftrightarrow> (\<forall>i < length xs. P (i, xs ! i))"
  by (auto simp: in_set_enumerate_eq)

section \<open>White space\<close>

text \<open>
  Length of the white-space character at the head of a UTF-8 string, 0 when there is none:
  the \<open>White_Space\<close> code points that \<open>str::trim\<close> removes, in their UTF-8 encodings.
\<close>

definition ws_len :: "nat list \<Rightarrow> nat" where
  "ws_len bs =
     (case bs of
        [] \<Rightarrow> 0
      | b # r1 \<Rightarrow>
          if b = 32 \<or> 9 \<le> b \<and> b \<le> 13 then 1
          else case r1 of
            [] \<Rightarrow> 0
          | c # r2 \<Rightarrow>
              if b = 0xC2 \<and> (c = 0x85 \<or> c = 0xA0) then 2
              else case r2 of
                [] \<Rightarrow> 0
              | d # _ \<Rightarrow>
                  if b = 0xE1 \<and> c = 0x9A \<and> d = 0x80
                   \<or> b = 0xE2 \<and> c = 0x80 \<and> (0x80 \<le> d \<and> d \<le> 0x8A \<or> d = 0xA8 \<or> d = 0xA9 \<or> d = 0xAF)
                   \<or> b = 0xE2 \<and> c = 0x81 \<and> d = 0x9F
                   \<or> b = 0xE3 \<and> c = 0x80 \<and> d = 0x80
                  then 3 else 0)"

text \<open>The same at the end of a string, on the reversed bytes.\<close>

definition ws_len_rev :: "nat list \<Rightarrow> nat" where
  "ws_len_rev rs =
     (if ws_len (take 1 rs) = 1 then 1
      else if 2 \<le> length rs \<and> ws_len (rev (take 2 rs)) = 2 then 2
      else if 3 \<le> length rs \<and> ws_len (rev (take 3 rs)) = 3 then 3
      else 0)"

function trim_start :: "string \<Rightarrow> string" where
  "trim_start s =
     (let n = ws_len (map of_char (take 3 s))
      in if n = 0 \<or> s = [] then s else trim_start (drop n s))"
  by pat_completeness auto
termination
  by (relation "measure length") auto

declare trim_start.simps [simp del]

function trim_end_rev :: "string \<Rightarrow> string" where
  "trim_end_rev s =
     (let n = ws_len_rev (map of_char (take 3 s))
      in if n = 0 \<or> s = [] then s else trim_end_rev (drop n s))"
  by pat_completeness auto
termination
  by (relation "measure length") auto

declare trim_end_rev.simps [simp del]

definition trim_end :: "string \<Rightarrow> string" where
  "trim_end s = rev (trim_end_rev (rev s))"

definition trim :: "string \<Rightarrow> string" where
  "trim s = trim_end (trim_start s)"

text \<open>The longest prefix without white space, and \<open>str::split_whitespace\<close>.\<close>

function word_prefix :: "string \<Rightarrow> string" where
  "word_prefix s =
     (if s = [] \<or> ws_len (map of_char (take 3 s)) \<noteq> 0 then []
      else hd s # word_prefix (tl s))"
  by pat_completeness auto
termination
  by (relation "measure length") (auto simp: length_greater_0_conv [symmetric] simp del: length_greater_0_conv)

declare word_prefix.simps [simp del]

lemma trim_start_length: "length (trim_start s) \<le> length s"
proof (induction s rule: trim_start.induct)
  case (1 s)
  then show ?case
    by (subst trim_start.simps) (auto simp: Let_def intro: order_trans)
qed

lemma trim_start_stop:
  "trim_start s \<noteq> [] \<Longrightarrow> ws_len (map of_char (take 3 (trim_start s))) = 0"
proof (induction s rule: trim_start.induct)
  case (1 s)
  show ?case
  proof (cases "ws_len (map of_char (take 3 s)) = 0 \<or> s = []")
    case True
    with 1(2) show ?thesis by (auto simp: trim_start.simps [of s] Let_def)
  next
    case False
    then have "trim_start s = trim_start (drop (ws_len (map of_char (take 3 s))) s)"
      by (simp add: trim_start.simps [of s] Let_def)
    with 1 False show ?thesis by simp
  qed
qed

lemma word_prefix_nonempty:
  "s \<noteq> [] \<Longrightarrow> ws_len (map of_char (take 3 s)) = 0 \<Longrightarrow> 0 < length (word_prefix s)"
  by (subst word_prefix.simps) simp

function split_whitespace :: "string \<Rightarrow> string list" where
  "split_whitespace s =
     (let t = trim_start s
      in if t = [] then [] else word_prefix t # split_whitespace (drop (length (word_prefix t)) t))"
  by pat_completeness auto
termination
proof (relation "measure length")
  fix s x
  assume x: "x = trim_start s" and ne: "x \<noteq> ([] :: string)"
  then have "0 < length (word_prefix x)"
    using word_prefix_nonempty [OF ne] trim_start_stop [of s] by simp
  then have "length (drop (length (word_prefix x)) x) < length x"
    using ne by (simp add: diff_less)
  also have "length x \<le> length s" using x trim_start_length by simp
  finally show "(drop (length (word_prefix x)) x, s) \<in> measure length" by simp
qed simp

declare split_whitespace.simps [simp del]

section \<open>Printing and parsing numbers\<close>

definition digit_char :: "nat \<Rightarrow> char" where
  "digit_char d = char_of (48 + d)"

fun show_nat :: "nat \<Rightarrow> string" where
  "show_nat n = (if n < 10 then [digit_char n] else show_nat (n div 10) @ [digit_char (n mod 10)])"

declare show_nat.simps [simp del]

definition show_int :: "int \<Rightarrow> string" where
  "show_int i = (if i < 0 then CHR ''-'' # show_nat (nat (- i)) else show_nat (nat i))"

text \<open>\<open>char::to_digit(radix)\<close>.\<close>

definition digit_val :: "nat \<Rightarrow> char \<Rightarrow> nat option" where
  "digit_val radix c =
     (let v = (if is_ascii_digit c then byte c - 48
               else if is_ascii_lower c then byte c - 87
               else if is_ascii_upper c then byte c - 55
               else radix)
      in if v < radix then Some v else None)"

fun parse_digits :: "nat \<Rightarrow> nat \<Rightarrow> string \<Rightarrow> nat option" where
  "parse_digits radix acc [] = Some acc"
| "parse_digits radix acc (c # s) =
     (case digit_val radix c of None \<Rightarrow> None | Some d \<Rightarrow> parse_digits radix (acc * radix + d) s)"

text \<open>
  \<open>from_str_radix\<close> of an unsigned type whose largest value is below \<open>bound\<close>: one
  optional plus sign, at least one digit, no overflow.
\<close>

definition parse_uint :: "nat \<Rightarrow> nat \<Rightarrow> string \<Rightarrow> nat option" where
  "parse_uint radix bound s =
     (let ds = (if s \<noteq> [] \<and> hd s = CHR ''+'' then tl s else s)
      in if ds = [] then None
         else case parse_digits radix 0 ds of
           None \<Rightarrow> None
         | Some v \<Rightarrow> if v < bound then Some v else None)"

definition parse_u8 :: "string \<Rightarrow> u8 option" where
  "parse_u8 s = map_option of_nat (parse_uint 10 256 s)"

definition parse_u16 :: "string \<Rightarrow> u16 option" where
  "parse_u16 s = map_option of_nat (parse_uint 10 65536 s)"

definition parse_u32 :: "string \<Rightarrow> u32 option" where
  "parse_u32 s = map_option of_nat (parse_uint 10 4294967296 s)"

text \<open>\<open>parse::<i64>\<close>: an optional sign, at least one digit, the value in range.\<close>

definition parse_i64 :: "string \<Rightarrow> int option" where
  "parse_i64 s =
     (if s \<noteq> [] \<and> hd s = CHR ''-'' then
        (if tl s = [] then None
         else case parse_digits 10 0 (tl s) of
           None \<Rightarrow> None
         | Some v \<Rightarrow> if v \<le> 9223372036854775808 then Some (- int v) else None)
      else map_option int (parse_uint 10 9223372036854775808 s))"

lemma byte_digit_char: "d < 10 \<Longrightarrow> byte (digit_char d) = 48 + d"
  by (simp add: digit_char_def)

lemma digit_val_digit_char [rust_simps]: "d < 10 \<Longrightarrow> digit_val 10 (digit_char d) = Some d"
  by (simp add: digit_val_def is_ascii_digit_def byte_digit_char)

lemma parse_digits_append:
  "parse_digits r acc (s @ t) = Option.bind (parse_digits r acc s) (\<lambda>v. parse_digits r v t)"
  by (induction r acc s rule: parse_digits.induct) (auto split: option.splits)

lemma parse_digits_show_nat [rust_simps]: "parse_digits 10 0 (show_nat n) = Some n"
proof (induction n rule: show_nat.induct)
  case (1 n)
  show ?case
  proof (cases "n < 10")
    case True
    then show ?thesis by (simp add: show_nat.simps [of n] digit_val_digit_char)
  next
    case False
    with 1 show ?thesis
      by (simp add: show_nat.simps [of n] parse_digits_append digit_val_digit_char)
  qed
qed

lemma show_nat_nonempty [simp]: "show_nat n \<noteq> []"
  by (subst show_nat.simps) simp

lemma show_nat_digits: "c \<in> set (show_nat n) \<Longrightarrow> is_ascii_digit c"
proof (induction n arbitrary: c rule: show_nat.induct)
  case (1 n)
  have d: "is_ascii_digit (digit_char d)" if "d < 10" for d
    using that by (simp add: is_ascii_digit_def byte_digit_char)
  from 1 show ?case
    by (subst (asm) (2) show_nat.simps) (auto split: if_splits intro: d)
qed

lemma not_digit_simps [simp]:
  "\<not> is_ascii_digit (CHR ''+'')" "\<not> is_ascii_digit (CHR ''-'')" "\<not> is_ascii_digit (CHR '':'')"
  "\<not> is_ascii_digit (CHR ''%'')" "\<not> is_ascii_digit (CHR ''&'')" "\<not> is_ascii_digit CR"
  "\<not> is_ascii_digit (CHR ''='')" "\<not> is_ascii_digit (CHR ''.'')"
  by (simp_all add: is_ascii_digit_def CR_def)

lemma hd_show_nat: "hd (show_nat n) \<in> set (show_nat n)"
  by simp

lemma parse_uint_show_nat [rust_simps]:
  assumes "n < b" shows "parse_uint 10 b (show_nat n) = Some n"
proof -
  have "hd (show_nat n) \<noteq> CHR ''+''"
    using show_nat_digits [OF hd_show_nat] by (metis not_digit_simps(1))
  with assms show ?thesis
    by (simp add: parse_uint_def parse_digits_show_nat Let_def)
qed

lemma parse_uint_less: "parse_uint r b s = Some v \<Longrightarrow> v < b"
  by (auto simp: parse_uint_def Let_def split: if_splits option.splits)

lemma show_nat_inj: "show_nat m = show_nat n \<Longrightarrow> m = n"
  by (metis option.inject parse_digits_show_nat)

lemma parse_u16_show [rust_simps]: "parse_u16 (show_nat (unat p)) = Some p"
proof -
  have "unat p < 65536" using unsigned_less [of p, where ?'a = nat] by simp
  then show ?thesis by (simp add: parse_u16_def parse_uint_show_nat)
qed

lemma parse_u8_show [rust_simps]: "parse_u8 (show_nat (unat p)) = Some p"
  by (simp add: parse_u8_def parse_uint_show_nat)

section \<open>Words in bytes\<close>

definition u16_le_bytes :: "u16 \<Rightarrow> string" where
  "u16_le_bytes w = [char_of (unat w mod 256), char_of (unat w div 256)]"

definition u32_le_bytes :: "u32 \<Rightarrow> string" where
  "u32_le_bytes w =
     [char_of (unat w mod 256), char_of (unat w div 256 mod 256),
      char_of (unat w div 65536 mod 256), char_of (unat w div 16777216)]"

definition u16_from_le :: "char \<Rightarrow> char \<Rightarrow> u16" where
  "u16_from_le a b = of_nat (byte a + 256 * byte b)"

definition u32_from_le :: "char \<Rightarrow> char \<Rightarrow> char \<Rightarrow> char \<Rightarrow> u32" where
  "u32_from_le a b c d = of_nat (byte a + 256 * byte b + 65536 * byte c + 16777216 * byte d)"

definition u16_be_bytes :: "u16 \<Rightarrow> string" where
  "u16_be_bytes w = [char_of (unat w div 256), char_of (unat w mod 256)]"

lemma unat_u16_less [simp]: "unat (w :: u16) < 65536"
  using unsigned_less [of w, where ?'a = nat] by simp

lemma unat_u32_less [simp]: "unat (w :: u32) < 4294967296"
  using unsigned_less [of w, where ?'a = nat] by simp

lemma byte_char_of: "n < 256 \<Longrightarrow> byte (char_of n) = n"
  by simp

lemma u16_div_256 [simp]: "unat (w :: u16) div 256 < 256"
  by (simp add: div_less_iff_less_mult)

lemma u16_le_roundtrip [rust_simps]:
  "u16_from_le (char_of (unat w mod 256)) (char_of (unat w div 256)) = w"
proof -
  have "byte (char_of (unat w mod 256)) + 256 * byte (char_of (unat w div 256)) = unat w"
    by (simp add: byte_char_of)
  then show ?thesis by (simp add: u16_from_le_def)
qed

lemma base256_digits:
  fixes n :: nat
  shows "n mod 256 + 256 * (n div 256 mod 256) + 65536 * (n div 65536 mod 256)
    + 16777216 * (n div 16777216) = n"
proof -
  have d: "n div 65536 = n div 256 div 256" "n div 16777216 = n div 256 div 256 div 256"
    by (simp_all add: div_mult2_eq [symmetric])
  have s: "m = m mod 256 + 256 * (m div 256)" for m :: nat by simp
  from s [of n] s [of "n div 256"] s [of "n div 256 div 256"] show ?thesis
    unfolding d by linarith
qed

lemma u32_le_roundtrip [rust_simps]:
  "u32_le_bytes w = [a, b, c, d] \<Longrightarrow> u32_from_le a b c d = w"
proof -
  assume "u32_le_bytes w = [a, b, c, d]"
  then have "byte a = unat w mod 256" "byte b = unat w div 256 mod 256"
    "byte c = unat w div 65536 mod 256" "byte d = unat w div 16777216"
    by (auto simp: u32_le_bytes_def byte_char_of div_less_iff_less_mult)
  moreover have "unat w mod 256 + 256 * (unat w div 256 mod 256)
      + 65536 * (unat w div 65536 mod 256) + 16777216 * (unat w div 16777216) = unat w"
    by (rule base256_digits)
  ultimately show ?thesis by (simp add: u32_from_le_def)
qed

section \<open>UTF-8\<close>

text \<open>
  \<open>utf8_step\<close> looks at the head of a non-empty byte string: \<open>(True, n)\<close> for a
  well-formed character of \<open>n\<close> bytes, \<open>(False, n)\<close> for an ill-formed sequence whose
  maximal prefix, the bytes that one replacement character stands for, has length \<open>n\<close>
  (the table of well-formed UTF-8 that \<open>str::from_utf8\<close> checks).
\<close>

definition is_cont :: "nat \<Rightarrow> bool" where
  "is_cont b \<longleftrightarrow> 128 \<le> b \<and> b \<le> 191"

definition second_ok :: "nat \<Rightarrow> nat \<Rightarrow> bool" where
  "second_ok a b \<longleftrightarrow>
     (if a = 0xE0 then 0xA0 \<le> b \<and> b \<le> 0xBF
      else if a = 0xED then 0x80 \<le> b \<and> b \<le> 0x9F
      else if a = 0xF0 then 0x90 \<le> b \<and> b \<le> 0xBF
      else if a = 0xF4 then 0x80 \<le> b \<and> b \<le> 0x8F
      else is_cont b)"

definition utf8_width :: "nat \<Rightarrow> nat" where
  "utf8_width a =
     (if a < 128 then 1
      else if 0xC2 \<le> a \<and> a \<le> 0xDF then 2
      else if 0xE0 \<le> a \<and> a \<le> 0xEF then 3
      else if 0xF0 \<le> a \<and> a \<le> 0xF4 then 4
      else 0)"

definition utf8_step :: "nat list \<Rightarrow> bool \<times> nat" where
  "utf8_step bs =
     (case bs of
        [] \<Rightarrow> (True, 0)
      | a # r1 \<Rightarrow>
          if utf8_width a = 1 then (True, 1)
          else if utf8_width a = 0 then (False, 1)
          else case r1 of
            [] \<Rightarrow> (False, 1)
          | b # r2 \<Rightarrow>
              if \<not> second_ok a b then (False, 1)
              else if utf8_width a = 2 then (True, 2)
              else case r2 of
                [] \<Rightarrow> (False, 2)
              | c # r3 \<Rightarrow>
                  if \<not> is_cont c then (False, 2)
                  else if utf8_width a = 3 then (True, 3)
                  else case r3 of
                    [] \<Rightarrow> (False, 3)
                  | d # _ \<Rightarrow> if is_cont d then (True, 4) else (False, 3))"

lemma utf8_step_pos: "bs \<noteq> [] \<Longrightarrow> 0 < snd (utf8_step bs)"
  by (auto simp: utf8_step_def split: list.splits)

lemma utf8_step_shrinks:
  assumes "s \<noteq> []" and "(ok, n) = utf8_step (map of_char (take 4 s))"
  shows "length s - n < length s"
  using assms utf8_step_pos [of "map of_char (take 4 s)"] by (cases s) (auto simp: prod_eq_iff)

function utf8_valid :: "string \<Rightarrow> bool" where
  "utf8_valid s =
     (if s = [] then True
      else case utf8_step (map of_char (take 4 s)) of
        (ok, n) \<Rightarrow> ok \<and> utf8_valid (drop n s))"
  by pat_completeness auto
termination
  by (relation "measure length") (auto dest: utf8_step_shrinks)

declare utf8_valid.simps [simp del]

text \<open>\<open>str::from_utf8\<close>.\<close>

definition from_utf8 :: "string \<Rightarrow> string option" where
  "from_utf8 bs = (if utf8_valid bs then Some bs else None)"

text \<open>The replacement character U+FFFD, and \<open>String::from_utf8_lossy\<close>.\<close>

definition replacement :: string where
  "replacement = [CHR 0xEF, CHR 0xBF, CHR 0xBD]"

function from_utf8_lossy :: "string \<Rightarrow> string" where
  "from_utf8_lossy s =
     (if s = [] then []
      else case utf8_step (map of_char (take 4 s)) of
        (ok, n) \<Rightarrow> (if ok then take n s else replacement) @ from_utf8_lossy (drop n s))"
  by pat_completeness auto
termination
  by (relation "measure length") (auto dest: utf8_step_shrinks)

declare from_utf8_lossy.simps [simp del]

definition is_ascii :: "string \<Rightarrow> bool" where
  "is_ascii s \<longleftrightarrow> (\<forall>c \<in> set s. byte c < 128)"

lemma utf8_step_ascii: "b < 128 \<Longrightarrow> utf8_step (b # bs) = (True, 1)"
  by (simp add: utf8_step_def utf8_width_def)

lemma utf8_valid_ascii [rust_simps]: "is_ascii s \<Longrightarrow> utf8_valid s"
proof (induction s)
  case Nil
  then show ?case by (subst utf8_valid.simps) simp
next
  case (Cons c s)
  then show ?case by (subst utf8_valid.simps) (simp add: utf8_step_ascii is_ascii_def)
qed

lemma from_utf8_lossy_ascii [rust_simps]: "is_ascii s \<Longrightarrow> from_utf8_lossy s = s"
proof (induction s)
  case Nil
  then show ?case by (subst from_utf8_lossy.simps) simp
next
  case (Cons c s)
  then have "from_utf8_lossy (c # s) = [c] @ from_utf8_lossy s"
    by (subst from_utf8_lossy.simps) (simp add: utf8_step_ascii is_ascii_def)
  with Cons show ?case by (simp add: is_ascii_def)
qed

lemma from_utf8_Some [simp]: "from_utf8 b = Some t \<longleftrightarrow> utf8_valid b \<and> t = b"
  by (auto simp: from_utf8_def)

section \<open>Results\<close>

text \<open>\<open>Result<T, E>\<close> is the sum type with \<open>Inl\<close> for \<open>Err\<close>; \<open>rbind\<close> is the \<open>?\<close> operator,
  \<open>ok_map\<close> and \<open>map_err\<close> are \<open>Result::map\<close> and \<open>Result::map_err\<close>.\<close>

definition rbind :: "'e + 'a \<Rightarrow> ('a \<Rightarrow> 'e + 'b) \<Rightarrow> 'e + 'b" where
  "rbind r f = (case r of Inl e \<Rightarrow> Inl e | Inr x \<Rightarrow> f x)"

definition ok_map :: "('a \<Rightarrow> 'b) \<Rightarrow> 'e + 'a \<Rightarrow> 'e + 'b" where
  "ok_map f r = (case r of Inl e \<Rightarrow> Inl e | Inr x \<Rightarrow> Inr (f x))"

definition map_err :: "('e \<Rightarrow> 'f) \<Rightarrow> 'e + 'a \<Rightarrow> 'f + 'a" where
  "map_err f r = (case r of Inl e \<Rightarrow> Inl (f e) | Inr x \<Rightarrow> Inr x)"

definition is_ok :: "'e + 'a \<Rightarrow> bool" where
  "is_ok r \<longleftrightarrow> (case r of Inl _ \<Rightarrow> False | Inr _ \<Rightarrow> True)"

lemma rbind_simps [simp]: "rbind (Inl e) f = Inl e" "rbind (Inr x) f = f x"
  by (simp_all add: rbind_def)

lemma ok_map_simps [simp]: "ok_map f (Inl e) = Inl e" "ok_map f (Inr x) = Inr (f x)"
  by (simp_all add: ok_map_def)

lemma map_err_simps [simp]: "map_err f (Inl e) = Inl (f e)" "map_err f (Inr x) = Inr x"
  by (simp_all add: map_err_def)

lemma is_ok_simps [simp]: "\<not> is_ok (Inl e)" "is_ok (Inr x)"
  by (simp_all add: is_ok_def)

lemma rbind_eq_Inr: "rbind r f = Inr y \<longleftrightarrow> (\<exists>x. r = Inr x \<and> f x = Inr y)"
  by (cases r) auto

lemma map_err_eq_Inr [simp]: "map_err f r = Inr y \<longleftrightarrow> r = Inr y"
  by (cases r) auto

text \<open>\<open>Vec<String>\<close> and \<open>String\<close> under \<open>{:?}\<close>, for printable ASCII text.\<close>

definition debug_string :: "string \<Rightarrow> string" where
  "debug_string s =
     CHR 0x22 # concat (map (\<lambda>c. if c = CHR 0x22 \<or> c = CHR 0x5C then [CHR 0x5C, c] else [c]) s) @ [CHR 0x22]"

fun join :: "string \<Rightarrow> string list \<Rightarrow> string" where
  "join sep [] = []"
| "join sep [x] = x"
| "join sep (x # y # ys) = x @ sep @ join sep (y # ys)"

lemma split_join:
  "ss \<noteq> [] \<Longrightarrow> list_all (\<lambda>s. d \<notin> set s) ss \<Longrightarrow> split_char d (join [d] ss) = ss"
proof (induction ss rule: induct_list012)
  case (3 s t ss)
  then show ?case by (simp add: split_char_append)
qed (simp_all add: split_char_clean)

definition debug_string_list :: "string list \<Rightarrow> string" where
  "debug_string_list xs = ''['' @ join '', '' (map debug_string xs) @ '']''"

section \<open>Paths\<close>

text \<open>
  Unix paths as \<open>std::path\<close> reads them: empty and \<open>.\<close> components are skipped.
  \<open>path_file_name\<close> is the last component unless it is \<open>..\<close>; \<open>path_parent\<close> is
  written without repeated separators.
\<close>

definition path_comps :: "string \<Rightarrow> string list" where
  "path_comps p = filter (\<lambda>c. c \<noteq> [] \<and> c \<noteq> ''.'') (split_char (CHR ''/'') p)"

definition path_file_name :: "string \<Rightarrow> string option" where
  "path_file_name p =
     (let comps = path_comps p
      in if comps = [] \<or> last comps = ''..'' then None else Some (last comps))"

definition path_parent :: "string \<Rightarrow> string option" where
  "path_parent p =
     (let root = (if starts_with p ''/'' then ''/'' else []);
          comps = path_comps p
      in if p = [] \<or> (comps = [] \<and> root \<noteq> []) then None
         else Some (root @ join ''/'' (butlast comps)))"

definition path_join :: "string \<Rightarrow> string \<Rightarrow> string" where
  "path_join dir name =
     (if starts_with name ''/'' then name
      else if dir = [] \<or> ends_with dir ''/'' then dir @ name else dir @ ''/'' @ name)"

end
