(* ===== verification/Wp_Proto.thy ===== *)
theory Wp_Proto
  imports Wp_Prelude
begin

text \<open>
  The socket protocol of \<open>crates/wp-proto\<close>: request and result bodies as records, the
  method and job-state enums, and the conversion between the typed envelopes
  (\<open>Request\<close>, \<open>Response\<close>) and the flat envelope \<open>EnvelopeDto\<close> of \<open>wire.rs\<close>.
  The serde-derived conversions of the bodies to and from a JSON value are a parameter
  (\<open>codec\<close>), generic in the value type; its law \<open>codec_ok\<close> is that \<open>from_value\<close>
  inverts \<open>to_value\<close> and that a struct is never the JSON \<open>null\<close>.
\<close>

section \<open>Request bodies\<close>

datatype request_kind =
  K_Hello | K_Scan | K_Probe | K_Program | K_JobGet | K_JobWatch | K_JobCancel
| K_Identify | K_LinkStatus | K_UpdateFirmware

datatype reach_mode = RM_Ap | RM_Lan | RM_Usb | RM_Z21

record candidate_ref =
  cr_driver :: string
  cr_key :: string

record bigfred_creds_wire =
  bw_login :: string
  bw_pin :: string

record wifi_credentials_wire =
  ww_ssid :: string
  ww_psk :: "string option"

record throttle_server_wire =
  tw_host :: string
  tw_port :: u16
  tw_automatic :: "bool option"

record function_mapping_wire =
  fw_index :: u8
  fw_value :: u8

record roster_entry_wire =
  rw_address :: "u16 option"
  rw_long_address :: "bool option"
  rw_mode :: "string option"
  rw_direction :: "u8 option"
  rw_functions :: "function_mapping_wire list"

record program_request_wire =
  pw_identity :: string
  pw_wifi :: wifi_credentials_wire
  pw_server :: throttle_server_wire
  pw_roster :: "roster_entry_wire list"
  pw_bigfred :: "bigfred_creds_wire option"
  pw_roster_mode :: "string option"

record program_params =
  pp_candidate :: candidate_ref
  pp_request :: program_request_wire

record probe_params =
  pb_candidate :: candidate_ref

record job_params =
  jp_job_id :: string

record identify_params =
  ip_candidate :: candidate_ref
  ip_count :: "u32 option"

record scan_params =
  sp_mode :: reach_mode

record update_firmware_params =
  uf_mode :: reach_mode
  uf_candidate :: "candidate_ref option"
  uf_path :: string
  uf_host :: "string option"
  uf_port :: "string option"
  uf_partition_table :: "string option"

datatype params =
  P_Program program_params
| P_Probe probe_params
| P_Job job_params
| P_Identify identify_params
| P_Scan scan_params
| P_UpdateFirmware update_firmware_params
| P_None

record request =
  rq_kind :: request_kind
  rq_params :: "params option"

section \<open>Result bodies\<close>

datatype identity_format_wire = IFW_Digits u8 | IFW_Alphanumeric u8 | IFW_Any

datatype commissioning_kind_wire = CKW_SoftAp | CKW_Lan | CKW_Serial

record commissioning_net_wire =
  nw_host :: string
  nw_port :: u16
  nw_source :: string
  nw_prefix :: u8

record capabilities_wire =
  cw_max_roster_slots :: u8
  cw_max_function_index :: u8
  cw_identity_format :: identity_format_wire
  cw_supports_throttle_server :: bool
  cw_commissioning :: commissioning_kind_wire
  cw_supports_firmware_update :: bool
  cw_commissioning_net :: "commissioning_net_wire option"
  cw_max_firmware_bytes :: "u64 option"
  cw_firmware_modes :: "reach_mode list"
  cw_firmware_require_esp_app_bin :: bool

record driver_info_wire =
  di_id :: string
  di_name :: string
  di_capabilities :: capabilities_wire

record hello_result =
  hr_version :: string
  hr_commit :: "string option"
  hr_drivers :: "driver_info_wire list"

record candidate_wire =
  cd_driver :: string
  cd_key :: string
  cd_label :: string
  cd_rssi :: "int option"

record device_info_wire =
  dw_driver :: string
  dw_key :: string
  dw_firmware_revision :: "string option"
  dw_identity :: "string option"
  dw_battery_mv :: "u32 option"
  dw_roster :: "roster_entry_wire list"

record program_result =
  pr_job_id :: string

datatype job_state_wire =
  JW_Queued | JW_Joining | JW_Probing | JW_Writing | JW_Verifying | JW_Restarting
| JW_Done | JW_Failed | JW_Cancelled

record job_snapshot_wire =
  jsw_job_id :: string
  jsw_state :: job_state_wire
  jsw_driver :: string
  jsw_key :: string
  jsw_detail :: "string option"

record job_frame_wire =
  jfw_job_id :: string
  jfw_state :: job_state_wire
  jfw_step :: "string option"
  jfw_progress :: "u8 option"
  jfw_detail :: "string option"

record link_status_wire =
  lw_busy :: bool
  lw_interface :: "string option"
  lw_rfkill_blocked :: bool

datatype result_body =
  R_Hello hello_result
| R_Scan "candidate_wire list"
| R_Probe device_info_wire
| R_Program program_result
| R_UpdateFirmware program_result
| R_Job job_snapshot_wire
| R_JobWatch job_frame_wire
| R_JobCancelled job_snapshot_wire
| R_Identify
| R_LinkStatus link_status_wire

record error_body =
  eb_code :: string
  eb_message :: string

record response =
  rs_kind :: request_kind
  rs_result :: "result_body option"
  rs_error :: "error_body option"

fun jw_is_terminal :: "job_state_wire \<Rightarrow> bool" where
  "jw_is_terminal JW_Done = True"
| "jw_is_terminal JW_Failed = True"
| "jw_is_terminal JW_Cancelled = True"
| "jw_is_terminal _ = False"

fun jw_as_str :: "job_state_wire \<Rightarrow> string" where
  "jw_as_str JW_Queued = ''queued''"
| "jw_as_str JW_Joining = ''joining''"
| "jw_as_str JW_Probing = ''probing''"
| "jw_as_str JW_Writing = ''writing''"
| "jw_as_str JW_Verifying = ''verifying''"
| "jw_as_str JW_Restarting = ''restarting''"
| "jw_as_str JW_Done = ''done''"
| "jw_as_str JW_Failed = ''failed''"
| "jw_as_str JW_Cancelled = ''cancelled''"

lemma jw_as_str_inj: "jw_as_str s = jw_as_str t \<Longrightarrow> s = t"
  by (cases s; cases t; simp)

section \<open>The flat envelope\<close>

record 'v envelope_dto =
  dto_kind :: request_kind
  dto_params :: "'v option"
  dto_result :: "'v option"
  dto_error :: "error_body option"

record 'v codec =
  v_is_null :: "'v \<Rightarrow> bool"
  ser_program :: "program_params \<Rightarrow> string + 'v"
  ser_probe :: "probe_params \<Rightarrow> string + 'v"
  ser_job :: "job_params \<Rightarrow> string + 'v"
  ser_identify :: "identify_params \<Rightarrow> string + 'v"
  ser_scan :: "scan_params \<Rightarrow> string + 'v"
  ser_update_firmware :: "update_firmware_params \<Rightarrow> string + 'v"
  de_program :: "'v \<Rightarrow> string + program_params"
  de_probe :: "'v \<Rightarrow> string + probe_params"
  de_job :: "'v \<Rightarrow> string + job_params"
  de_identify :: "'v \<Rightarrow> string + identify_params"
  de_scan :: "'v \<Rightarrow> string + scan_params"
  de_update_firmware :: "'v \<Rightarrow> string + update_firmware_params"
  ser_hello_r :: "hello_result \<Rightarrow> string + 'v"
  ser_scan_r :: "candidate_wire list \<Rightarrow> string + 'v"
  ser_probe_r :: "device_info_wire \<Rightarrow> string + 'v"
  ser_program_r :: "program_result \<Rightarrow> string + 'v"
  ser_job_r :: "job_snapshot_wire \<Rightarrow> string + 'v"
  ser_frame_r :: "job_frame_wire \<Rightarrow> string + 'v"
  ser_link_r :: "link_status_wire \<Rightarrow> string + 'v"
  de_hello_r :: "'v \<Rightarrow> string + hello_result"
  de_scan_r :: "'v \<Rightarrow> string + candidate_wire list"
  de_probe_r :: "'v \<Rightarrow> string + device_info_wire"
  de_program_r :: "'v \<Rightarrow> string + program_result"
  de_job_r :: "'v \<Rightarrow> string + job_snapshot_wire"
  de_frame_r :: "'v \<Rightarrow> string + job_frame_wire"
  de_link_r :: "'v \<Rightarrow> string + link_status_wire"

definition codec_inverts :: "('v \<Rightarrow> bool) \<Rightarrow> ('a \<Rightarrow> string + 'v) \<Rightarrow> ('v \<Rightarrow> string + 'a) \<Rightarrow> bool" where
  "codec_inverts null ser de \<longleftrightarrow> (\<forall>x. \<exists>v. ser x = Inr v \<and> \<not> null v \<and> de v = Inr x)"

definition codec_ok :: "'v codec \<Rightarrow> bool" where
  "codec_ok C \<longleftrightarrow>
     codec_inverts (v_is_null C) (ser_program C) (de_program C)
   \<and> codec_inverts (v_is_null C) (ser_probe C) (de_probe C)
   \<and> codec_inverts (v_is_null C) (ser_job C) (de_job C)
   \<and> codec_inverts (v_is_null C) (ser_identify C) (de_identify C)
   \<and> codec_inverts (v_is_null C) (ser_scan C) (de_scan C)
   \<and> codec_inverts (v_is_null C) (ser_update_firmware C) (de_update_firmware C)
   \<and> codec_inverts (v_is_null C) (ser_hello_r C) (de_hello_r C)
   \<and> codec_inverts (v_is_null C) (ser_scan_r C) (de_scan_r C)
   \<and> codec_inverts (v_is_null C) (ser_probe_r C) (de_probe_r C)
   \<and> codec_inverts (v_is_null C) (ser_program_r C) (de_program_r C)
   \<and> codec_inverts (v_is_null C) (ser_job_r C) (de_job_r C)
   \<and> codec_inverts (v_is_null C) (ser_frame_r C) (de_frame_r C)
   \<and> codec_inverts (v_is_null C) (ser_link_r C) (de_link_r C)"

fun params_to_value :: "'v codec \<Rightarrow> params \<Rightarrow> string + 'v option" where
  "params_to_value C P_None = Inr None"
| "params_to_value C (P_Program p) = ok_map Some (ser_program C p)"
| "params_to_value C (P_Probe p) = ok_map Some (ser_probe C p)"
| "params_to_value C (P_Job p) = ok_map Some (ser_job C p)"
| "params_to_value C (P_Identify p) = ok_map Some (ser_identify C p)"
| "params_to_value C (P_Scan p) = ok_map Some (ser_scan C p)"
| "params_to_value C (P_UpdateFirmware p) = ok_map Some (ser_update_firmware C p)"

definition params_from_value :: "'v codec \<Rightarrow> request_kind \<Rightarrow> 'v option \<Rightarrow> string + params option" where
  "params_from_value C kind value =
     (case value of
        None \<Rightarrow> Inr None
      | Some v \<Rightarrow>
          if v_is_null C v then Inr None
          else case kind of
            K_Hello \<Rightarrow> Inr (Some P_None)
          | K_LinkStatus \<Rightarrow> Inr (Some P_None)
          | K_Scan \<Rightarrow> ok_map (Some \<circ> P_Scan) (de_scan C v)
          | K_Probe \<Rightarrow> ok_map (Some \<circ> P_Probe) (de_probe C v)
          | K_Program \<Rightarrow> ok_map (Some \<circ> P_Program) (de_program C v)
          | K_JobGet \<Rightarrow> ok_map (Some \<circ> P_Job) (de_job C v)
          | K_JobWatch \<Rightarrow> ok_map (Some \<circ> P_Job) (de_job C v)
          | K_JobCancel \<Rightarrow> ok_map (Some \<circ> P_Job) (de_job C v)
          | K_Identify \<Rightarrow> ok_map (Some \<circ> P_Identify) (de_identify C v)
          | K_UpdateFirmware \<Rightarrow> ok_map (Some \<circ> P_UpdateFirmware) (de_update_firmware C v))"

fun result_to_value :: "'v codec \<Rightarrow> result_body \<Rightarrow> string + 'v option" where
  "result_to_value C (R_Hello v) = ok_map Some (ser_hello_r C v)"
| "result_to_value C (R_Scan v) = ok_map Some (ser_scan_r C v)"
| "result_to_value C (R_Probe v) = ok_map Some (ser_probe_r C v)"
| "result_to_value C (R_Program v) = ok_map Some (ser_program_r C v)"
| "result_to_value C (R_UpdateFirmware v) = ok_map Some (ser_program_r C v)"
| "result_to_value C (R_Job v) = ok_map Some (ser_job_r C v)"
| "result_to_value C (R_JobCancelled v) = ok_map Some (ser_job_r C v)"
| "result_to_value C (R_JobWatch v) = ok_map Some (ser_frame_r C v)"
| "result_to_value C R_Identify = Inr None"
| "result_to_value C (R_LinkStatus v) = ok_map Some (ser_link_r C v)"

definition result_from_value ::
    "'v codec \<Rightarrow> request_kind \<Rightarrow> 'v option \<Rightarrow> string + result_body option" where
  "result_from_value C kind value =
     (case value of
        None \<Rightarrow> Inr (case kind of K_Identify \<Rightarrow> Some R_Identify | _ \<Rightarrow> None)
      | Some v \<Rightarrow>
          if v_is_null C v then Inr None
          else case kind of
            K_Hello \<Rightarrow> ok_map (Some \<circ> R_Hello) (de_hello_r C v)
          | K_Scan \<Rightarrow> ok_map (Some \<circ> R_Scan) (de_scan_r C v)
          | K_Probe \<Rightarrow> ok_map (Some \<circ> R_Probe) (de_probe_r C v)
          | K_Program \<Rightarrow> ok_map (Some \<circ> R_Program) (de_program_r C v)
          | K_UpdateFirmware \<Rightarrow> ok_map (Some \<circ> R_UpdateFirmware) (de_program_r C v)
          | K_JobGet \<Rightarrow> ok_map (Some \<circ> R_Job) (de_job_r C v)
          | K_JobWatch \<Rightarrow> ok_map (Some \<circ> R_JobWatch) (de_frame_r C v)
          | K_JobCancel \<Rightarrow> ok_map (Some \<circ> R_JobCancelled) (de_job_r C v)
          | K_Identify \<Rightarrow> Inr (Some R_Identify)
          | K_LinkStatus \<Rightarrow> ok_map (Some \<circ> R_LinkStatus) (de_link_r C v))"

definition request_serialize :: "'v codec \<Rightarrow> request \<Rightarrow> string + 'v envelope_dto" where
  "request_serialize C r =
     rbind (case rq_params r of None \<Rightarrow> Inr None | Some p \<Rightarrow> params_to_value C p)
       (\<lambda>ps. Inr \<lparr>dto_kind = rq_kind r, dto_params = ps, dto_result = None, dto_error = None\<rparr>)"

definition request_deserialize :: "'v codec \<Rightarrow> 'v envelope_dto \<Rightarrow> string + request" where
  "request_deserialize C dto =
     rbind (params_from_value C (dto_kind dto) (dto_params dto))
       (\<lambda>ps. Inr \<lparr>rq_kind = dto_kind dto, rq_params = ps\<rparr>)"

definition response_serialize :: "'v codec \<Rightarrow> response \<Rightarrow> string + 'v envelope_dto" where
  "response_serialize C r =
     rbind (case rs_result r of None \<Rightarrow> Inr None | Some b \<Rightarrow> result_to_value C b)
       (\<lambda>v. Inr \<lparr>dto_kind = rs_kind r, dto_params = None, dto_result = v, dto_error = rs_error r\<rparr>)"

definition response_deserialize :: "'v codec \<Rightarrow> 'v envelope_dto \<Rightarrow> string + response" where
  "response_deserialize C dto =
     rbind (result_from_value C (dto_kind dto) (dto_result dto))
       (\<lambda>b. Inr \<lparr>rs_kind = dto_kind dto, rs_result = b, rs_error = dto_error dto\<rparr>)"

section \<open>Round trips\<close>

text \<open>The params and the results that belong to a method.\<close>

fun params_for :: "request_kind \<Rightarrow> params \<Rightarrow> bool" where
  "params_for k P_None = True"
| "params_for k (P_Program _) = (k = K_Program)"
| "params_for k (P_Probe _) = (k = K_Probe)"
| "params_for k (P_Job _) = (k \<in> {K_JobGet, K_JobWatch, K_JobCancel})"
| "params_for k (P_Identify _) = (k = K_Identify)"
| "params_for k (P_Scan _) = (k = K_Scan)"
| "params_for k (P_UpdateFirmware _) = (k = K_UpdateFirmware)"

fun result_for :: "request_kind \<Rightarrow> result_body \<Rightarrow> bool" where
  "result_for k (R_Hello _) = (k = K_Hello)"
| "result_for k (R_Scan _) = (k = K_Scan)"
| "result_for k (R_Probe _) = (k = K_Probe)"
| "result_for k (R_Program _) = (k = K_Program)"
| "result_for k (R_UpdateFirmware _) = (k = K_UpdateFirmware)"
| "result_for k (R_Job _) = (k = K_JobGet)"
| "result_for k (R_JobWatch _) = (k = K_JobWatch)"
| "result_for k (R_JobCancelled _) = (k = K_JobCancel)"
| "result_for k R_Identify = (k = K_Identify)"
| "result_for k (R_LinkStatus _) = (k = K_LinkStatus)"

lemma codec_invertsE:
  assumes "codec_inverts null ser de"
  obtains v where "ser x = Inr v" and "\<not> null v" and "de v = Inr x"
  using assms unfolding codec_inverts_def by blast

lemma codec_okD:
  assumes "codec_ok C"
  shows "codec_inverts (v_is_null C) (ser_program C) (de_program C)"
    and "codec_inverts (v_is_null C) (ser_probe C) (de_probe C)"
    and "codec_inverts (v_is_null C) (ser_job C) (de_job C)"
    and "codec_inverts (v_is_null C) (ser_identify C) (de_identify C)"
    and "codec_inverts (v_is_null C) (ser_scan C) (de_scan C)"
    and "codec_inverts (v_is_null C) (ser_update_firmware C) (de_update_firmware C)"
    and "codec_inverts (v_is_null C) (ser_hello_r C) (de_hello_r C)"
    and "codec_inverts (v_is_null C) (ser_scan_r C) (de_scan_r C)"
    and "codec_inverts (v_is_null C) (ser_probe_r C) (de_probe_r C)"
    and "codec_inverts (v_is_null C) (ser_program_r C) (de_program_r C)"
    and "codec_inverts (v_is_null C) (ser_job_r C) (de_job_r C)"
    and "codec_inverts (v_is_null C) (ser_frame_r C) (de_frame_r C)"
    and "codec_inverts (v_is_null C) (ser_link_r C) (de_link_r C)"
  using assms unfolding codec_ok_def by simp_all

lemma params_roundtrip:
  assumes C: "codec_ok C" and p: "params_for k p"
  shows "\<exists>v. params_to_value C p = Inr v
      \<and> params_from_value C k v = Inr (if p = P_None then None else Some p)"
proof (cases p)
  case (P_Program x)
  obtain v where "ser_program C x = Inr v" "\<not> v_is_null C v" "de_program C v = Inr x"
    by (rule codec_invertsE [OF codec_okD(1) [OF C], of x])
  with P_Program p show ?thesis by (simp add: params_from_value_def)
next
  case (P_Probe x)
  obtain v where "ser_probe C x = Inr v" "\<not> v_is_null C v" "de_probe C v = Inr x"
    by (rule codec_invertsE [OF codec_okD(2) [OF C], of x])
  with P_Probe p show ?thesis by (simp add: params_from_value_def)
next
  case (P_Job x)
  obtain v where "ser_job C x = Inr v" "\<not> v_is_null C v" "de_job C v = Inr x"
    by (rule codec_invertsE [OF codec_okD(3) [OF C], of x])
  with P_Job p show ?thesis by (auto simp: params_from_value_def)
next
  case (P_Identify x)
  obtain v where "ser_identify C x = Inr v" "\<not> v_is_null C v" "de_identify C v = Inr x"
    by (rule codec_invertsE [OF codec_okD(4) [OF C], of x])
  with P_Identify p show ?thesis by (simp add: params_from_value_def)
next
  case (P_Scan x)
  obtain v where "ser_scan C x = Inr v" "\<not> v_is_null C v" "de_scan C v = Inr x"
    by (rule codec_invertsE [OF codec_okD(5) [OF C], of x])
  with P_Scan p show ?thesis by (simp add: params_from_value_def)
next
  case (P_UpdateFirmware x)
  obtain v where "ser_update_firmware C x = Inr v" "\<not> v_is_null C v"
      "de_update_firmware C v = Inr x"
    by (rule codec_invertsE [OF codec_okD(6) [OF C], of x])
  with P_UpdateFirmware p show ?thesis by (simp add: params_from_value_def)
next
  case P_None
  then show ?thesis by (simp add: params_from_value_def)
qed

lemma result_roundtrip:
  assumes C: "codec_ok C" and b: "result_for k b"
  shows "\<exists>v. result_to_value C b = Inr v \<and> result_from_value C k v = Inr (Some b)"
proof (cases b)
  case (R_Hello x)
  obtain v where "ser_hello_r C x = Inr v" "\<not> v_is_null C v" "de_hello_r C v = Inr x"
    by (rule codec_invertsE [OF codec_okD(7) [OF C], of x])
  with R_Hello b show ?thesis by (simp add: result_from_value_def)
next
  case (R_Scan x)
  obtain v where "ser_scan_r C x = Inr v" "\<not> v_is_null C v" "de_scan_r C v = Inr x"
    by (rule codec_invertsE [OF codec_okD(8) [OF C], of x])
  with R_Scan b show ?thesis by (simp add: result_from_value_def)
next
  case (R_Probe x)
  obtain v where "ser_probe_r C x = Inr v" "\<not> v_is_null C v" "de_probe_r C v = Inr x"
    by (rule codec_invertsE [OF codec_okD(9) [OF C], of x])
  with R_Probe b show ?thesis by (simp add: result_from_value_def)
next
  case (R_Program x)
  obtain v where "ser_program_r C x = Inr v" "\<not> v_is_null C v" "de_program_r C v = Inr x"
    by (rule codec_invertsE [OF codec_okD(10) [OF C], of x])
  with R_Program b show ?thesis by (simp add: result_from_value_def)
next
  case (R_UpdateFirmware x)
  obtain v where "ser_program_r C x = Inr v" "\<not> v_is_null C v" "de_program_r C v = Inr x"
    by (rule codec_invertsE [OF codec_okD(10) [OF C], of x])
  with R_UpdateFirmware b show ?thesis by (simp add: result_from_value_def)
next
  case (R_Job x)
  obtain v where "ser_job_r C x = Inr v" "\<not> v_is_null C v" "de_job_r C v = Inr x"
    by (rule codec_invertsE [OF codec_okD(11) [OF C], of x])
  with R_Job b show ?thesis by (simp add: result_from_value_def)
next
  case (R_JobWatch x)
  obtain v where "ser_frame_r C x = Inr v" "\<not> v_is_null C v" "de_frame_r C v = Inr x"
    by (rule codec_invertsE [OF codec_okD(12) [OF C], of x])
  with R_JobWatch b show ?thesis by (simp add: result_from_value_def)
next
  case (R_JobCancelled x)
  obtain v where "ser_job_r C x = Inr v" "\<not> v_is_null C v" "de_job_r C v = Inr x"
    by (rule codec_invertsE [OF codec_okD(11) [OF C], of x])
  with R_JobCancelled b show ?thesis by (simp add: result_from_value_def)
next
  case R_Identify
  with b show ?thesis by (simp add: result_from_value_def)
next
  case (R_LinkStatus x)
  obtain v where "ser_link_r C x = Inr v" "\<not> v_is_null C v" "de_link_r C v = Inr x"
    by (rule codec_invertsE [OF codec_okD(13) [OF C], of x])
  with R_LinkStatus b show ?thesis by (simp add: result_from_value_def)
qed

text \<open>A concrete codec: one constructor per body, each conversion the constructor and its match.\<close>

datatype demo_value =
  DV_Null | DV_Program program_params | DV_Probe probe_params | DV_Job job_params
| DV_Identify identify_params | DV_Scan scan_params | DV_UpdateFirmware update_firmware_params
| DV_HelloR hello_result | DV_ScanR "candidate_wire list" | DV_ProbeR device_info_wire
| DV_ProgramR program_result | DV_JobR job_snapshot_wire | DV_FrameR job_frame_wire
| DV_LinkR link_status_wire

definition demo_codec :: "demo_value codec" where
  "demo_codec =
     \<lparr>v_is_null = (\<lambda>v. v = DV_Null),
      ser_program = Inr \<circ> DV_Program, ser_probe = Inr \<circ> DV_Probe, ser_job = Inr \<circ> DV_Job,
      ser_identify = Inr \<circ> DV_Identify, ser_scan = Inr \<circ> DV_Scan,
      ser_update_firmware = Inr \<circ> DV_UpdateFirmware,
      de_program = (\<lambda>v. case v of DV_Program x \<Rightarrow> Inr x | _ \<Rightarrow> Inl ''type''),
      de_probe = (\<lambda>v. case v of DV_Probe x \<Rightarrow> Inr x | _ \<Rightarrow> Inl ''type''),
      de_job = (\<lambda>v. case v of DV_Job x \<Rightarrow> Inr x | _ \<Rightarrow> Inl ''type''),
      de_identify = (\<lambda>v. case v of DV_Identify x \<Rightarrow> Inr x | _ \<Rightarrow> Inl ''type''),
      de_scan = (\<lambda>v. case v of DV_Scan x \<Rightarrow> Inr x | _ \<Rightarrow> Inl ''type''),
      de_update_firmware = (\<lambda>v. case v of DV_UpdateFirmware x \<Rightarrow> Inr x | _ \<Rightarrow> Inl ''type''),
      ser_hello_r = Inr \<circ> DV_HelloR, ser_scan_r = Inr \<circ> DV_ScanR, ser_probe_r = Inr \<circ> DV_ProbeR,
      ser_program_r = Inr \<circ> DV_ProgramR, ser_job_r = Inr \<circ> DV_JobR, ser_frame_r = Inr \<circ> DV_FrameR,
      ser_link_r = Inr \<circ> DV_LinkR,
      de_hello_r = (\<lambda>v. case v of DV_HelloR x \<Rightarrow> Inr x | _ \<Rightarrow> Inl ''type''),
      de_scan_r = (\<lambda>v. case v of DV_ScanR x \<Rightarrow> Inr x | _ \<Rightarrow> Inl ''type''),
      de_probe_r = (\<lambda>v. case v of DV_ProbeR x \<Rightarrow> Inr x | _ \<Rightarrow> Inl ''type''),
      de_program_r = (\<lambda>v. case v of DV_ProgramR x \<Rightarrow> Inr x | _ \<Rightarrow> Inl ''type''),
      de_job_r = (\<lambda>v. case v of DV_JobR x \<Rightarrow> Inr x | _ \<Rightarrow> Inl ''type''),
      de_frame_r = (\<lambda>v. case v of DV_FrameR x \<Rightarrow> Inr x | _ \<Rightarrow> Inl ''type''),
      de_link_r = (\<lambda>v. case v of DV_LinkR x \<Rightarrow> Inr x | _ \<Rightarrow> Inl ''type'')\<rparr>"

lemma demo_codec_ok: "codec_ok demo_codec"
  by (simp add: codec_ok_def codec_inverts_def demo_codec_def)

text \<open>Both envelopes; clients and daemon are composed over these.\<close>

lemma request_wire:
  assumes "codec_ok C" and "pred_option (params_for (rq_kind r)) (rq_params r)"
  shows "\<exists>dto. request_serialize C r = Inr dto \<and> dto_result dto = None \<and> dto_error dto = None
       \<and> request_deserialize C dto
           = Inr (r\<lparr>rq_params := (if rq_params r = Some P_None then None else rq_params r)\<rparr>)"
proof (cases "rq_params r")
  case None
  then show ?thesis
    by (cases r) (simp add: request_serialize_def request_deserialize_def params_from_value_def)
next
  case (Some p)
  with assms have "params_for (rq_kind r) p" by simp
  from params_roundtrip [OF assms(1) this] Some show ?thesis
    by (cases r) (auto simp: request_serialize_def request_deserialize_def)
qed

lemma response_wire:
  assumes "codec_ok C" and "pred_option (result_for (rs_kind r)) (rs_result r)"
  shows "\<exists>dto. response_serialize C r = Inr dto \<and> dto_params dto = None
       \<and> response_deserialize C dto
           = Inr (r\<lparr>rs_result := (if rs_kind r = K_Identify then Some R_Identify else rs_result r)\<rparr>)"
proof (cases "rs_result r")
  case None
  then show ?thesis
    by (cases r) (auto simp: response_serialize_def response_deserialize_def result_from_value_def
        split: request_kind.splits)
next
  case (Some b)
  with assms have b: "result_for (rs_kind r) b" by simp
  have "rs_kind r = K_Identify \<Longrightarrow> b = R_Identify" using b by (cases b) auto
  with result_roundtrip [OF assms(1) b] Some show ?thesis
    by (cases r) (auto simp: response_serialize_def response_deserialize_def)
qed

section \<open>Properties\<close>

text \<open>C19: a request whose params belong to its method survives the flat envelope: it
  serialises, and reading the envelope back gives the same method and params (an explicit
  empty params object comes back as no params).\<close>

theorem request_envelope_roundtrip:
  assumes "codec_ok C" and "pred_option (params_for (rq_kind r)) (rq_params r)"
  shows "\<exists>dto. request_serialize C r = Inr dto \<and> dto_result dto = None \<and> dto_error dto = None
       \<and> request_deserialize C dto
           = Inr (r\<lparr>rq_params := (if rq_params r = Some P_None then None else rq_params r)\<rparr>)"
  using assms by (rule request_wire)

theorem request_envelope_roundtrip_witness:
  "\<exists>dto. request_serialize demo_codec
        \<lparr>rq_kind = K_JobGet, rq_params = Some (P_Job \<lparr>jp_job_id = ''job-1''\<rparr>)\<rparr> = Inr dto
     \<and> request_deserialize demo_codec dto
        = Inr \<lparr>rq_kind = K_JobGet, rq_params = Some (P_Job \<lparr>jp_job_id = ''job-1''\<rparr>)\<rparr>"
  using request_envelope_roundtrip [OF demo_codec_ok,
      of "\<lparr>rq_kind = K_JobGet, rq_params = Some (P_Job \<lparr>jp_job_id = ''job-1''\<rparr>)\<rparr>"] by auto

text \<open>C20: a response whose result belongs to its method survives the flat envelope with its
  error. The one exception is identify: its success has no JSON body, so a reader gives every
  identify response, an error included, the result \<open>R_Identify\<close>.\<close>

theorem response_envelope_roundtrip:
  assumes "codec_ok C" and "pred_option (result_for (rs_kind r)) (rs_result r)"
  shows "\<exists>dto. response_serialize C r = Inr dto \<and> dto_params dto = None
       \<and> response_deserialize C dto
           = Inr (r\<lparr>rs_result := (if rs_kind r = K_Identify then Some R_Identify else rs_result r)\<rparr>)"
  using assms by (rule response_wire)

theorem response_envelope_roundtrip_witness:
  "\<exists>dto. response_serialize demo_codec
        \<lparr>rs_kind = K_Identify, rs_result = None,
         rs_error = Some \<lparr>eb_code = ''driver_error'', eb_message = ''m''\<rparr>\<rparr> = Inr dto
     \<and> response_deserialize demo_codec dto
        = Inr \<lparr>rs_kind = K_Identify, rs_result = Some R_Identify,
               rs_error = Some \<lparr>eb_code = ''driver_error'', eb_message = ''m''\<rparr>\<rparr>"
  using response_envelope_roundtrip [OF demo_codec_ok,
      of "\<lparr>rs_kind = K_Identify, rs_result = None,
         rs_error = Some \<lparr>eb_code = ''driver_error'', eb_message = ''m''\<rparr>\<rparr>"] by auto

end
