(* ===== verification/Wp_Core.thy ===== *)
theory Wp_Core
  imports Wp_Proto
begin

text \<open>
  \<open>crates/wp-core\<close>: the domain request, driver capabilities and their wire form, the typed
  errors with the text that \<open>Display\<close> prints, the shared request validation
  (\<open>validate_common\<close>), and the effects a driver has on the world while it talks to a device:
  progress events and HTTP requests, recorded in order. The last section is the reference
  predicate \<open>request_ok\<close> and the proof that the validation loop decides it.
\<close>

section \<open>Programming request\<close>

record wifi_credentials =
  wc_ssid :: string
  wc_psk :: "string option"

record throttle_server =
  ts_host :: string
  ts_port :: u16
  ts_automatic :: bool

record function_mapping =
  fm_index :: u8
  fm_value :: u8

record roster_entry =
  re_address :: "u16 option"
  re_long_address :: "bool option"
  re_mode :: "string option"
  re_direction :: "u8 option"
  re_functions :: "function_mapping list"

record bigfred_creds =
  bf_login :: string
  bf_pin :: string

record program_request =
  pq_identity :: string
  pq_wifi :: wifi_credentials
  pq_server :: throttle_server
  pq_roster :: "roster_entry list"
  pq_bigfred :: "bigfred_creds option"
  pq_roster_mode :: "string option"

section \<open>Errors\<close>

datatype validation_error =
  VE_IdentityFormat
| VE_CapacityExceeded nat nat
| VE_FunctionIndexOutOfRange u8 u8
| VE_AddressOutOfRange u16
| VE_EmptySsid
| VE_ServerUnsupported
| VE_RosterEntry nat string

datatype driver_error =
  DE_RadioBlocked
| DE_NoInterface
| DE_AssociationTimedOut
| DE_DeviceUnreachable string
| DE_Http string
| DE_Parse string
| DE_UnsupportedStructureVersion string
| DE_VerificationFailed "string list"
| DE_Cancelled
| DE_DeadlineElapsed string
| DE_Other string

fun validation_error_text :: "validation_error \<Rightarrow> string" where
  "validation_error_text VE_IdentityFormat = ''identity does not match required format''"
| "validation_error_text (VE_CapacityExceeded capacity requested) =
     ''roster of '' @ show_nat requested @ '' entries exceeds '' @ show_nat capacity @ '' slots''"
| "validation_error_text (VE_FunctionIndexOutOfRange i m) =
     ''function index '' @ show_nat (unat i) @ '' exceeds maximum '' @ show_nat (unat m)"
| "validation_error_text (VE_AddressOutOfRange a) =
     ''dcc address '' @ show_nat (unat a) @ '' out of range 1..=10239''"
| "validation_error_text VE_EmptySsid = ''wifi ssid must not be empty''"
| "validation_error_text VE_ServerUnsupported = ''driver does not support a throttle server''"
| "validation_error_text (VE_RosterEntry slot reason) =
     ''roster entry at index '' @ show_nat slot @ '' is invalid: '' @ reason"

fun driver_error_text :: "driver_error \<Rightarrow> string" where
  "driver_error_text DE_RadioBlocked = ''radio blocked by rfkill''"
| "driver_error_text DE_NoInterface = ''no wireless interface available''"
| "driver_error_text DE_AssociationTimedOut = ''association timed out''"
| "driver_error_text (DE_DeviceUnreachable probed) = ''device unreachable: '' @ probed"
| "driver_error_text (DE_Http m) = ''http error: '' @ m"
| "driver_error_text (DE_Parse m) = ''device response parse error: '' @ m"
| "driver_error_text (DE_UnsupportedStructureVersion v) =
     ''unsupported device structure version: '' @ v"
| "driver_error_text (DE_VerificationFailed ms) = ''verification failed: '' @ debug_string_list ms"
| "driver_error_text DE_Cancelled = ''cancelled''"
| "driver_error_text (DE_DeadlineElapsed w) = ''deadline elapsed: '' @ w"
| "driver_error_text (DE_Other m) = m"

section \<open>Capabilities\<close>

datatype commissioning_kind = CK_SoftAp | CK_Lan | CK_Serial

datatype identity_format = IF_Digits u8 | IF_Alphanumeric u8 | IF_Any

record commissioning_net =
  cn_host :: ipv4
  cn_port :: u16
  cn_source :: ipv4
  cn_prefix :: u8

record firmware_modes =
  fwm_ap :: bool
  fwm_lan :: bool
  fwm_usb :: bool

record firmware_capabilities =
  fc_max_bytes :: u64
  fc_max_bytes_label :: string
  fc_modes :: firmware_modes
  fc_require_esp_app_bin :: bool
  fc_success_on_reset_after_write :: bool

record driver_capabilities =
  dcap_max_roster_slots :: u8
  dcap_max_function_index :: u8
  dcap_identity_format :: identity_format
  dcap_supports_throttle_server :: bool
  dcap_commissioning :: commissioning_kind
  dcap_commissioning_net :: "commissioning_net option"
  dcap_softap_psk :: "string option"
  dcap_firmware :: "firmware_capabilities option"

text \<open>\<open>Ipv4Addr::to_string\<close>.\<close>

definition show_ipv4 :: "ipv4 \<Rightarrow> string" where
  "show_ipv4 ip = join ''.'' (map (\<lambda>b. show_nat (unat b)) ip)"

fun commissioning_kind_to_wire :: "commissioning_kind \<Rightarrow> commissioning_kind_wire" where
  "commissioning_kind_to_wire CK_SoftAp = CKW_SoftAp"
| "commissioning_kind_to_wire CK_Lan = CKW_Lan"
| "commissioning_kind_to_wire CK_Serial = CKW_Serial"

definition commissioning_net_to_wire :: "commissioning_net \<Rightarrow> commissioning_net_wire" where
  "commissioning_net_to_wire n =
     \<lparr>nw_host = show_ipv4 (cn_host n), nw_port = cn_port n, nw_source = show_ipv4 (cn_source n),
      nw_prefix = cn_prefix n\<rparr>"

fun identity_matches :: "identity_format \<Rightarrow> string \<Rightarrow> bool" where
  "identity_matches (IF_Digits len) value =
     (length value = unat len \<and> list_all is_ascii_digit value)"
| "identity_matches (IF_Alphanumeric max_len) value =
     (value \<noteq> [] \<and> length value \<le> unat max_len \<and> list_all is_ascii_alphanumeric value)"
| "identity_matches IF_Any value = True"

fun identity_format_to_wire :: "identity_format \<Rightarrow> identity_format_wire" where
  "identity_format_to_wire (IF_Digits len) = IFW_Digits len"
| "identity_format_to_wire (IF_Alphanumeric max_len) = IFW_Alphanumeric max_len"
| "identity_format_to_wire IF_Any = IFW_Any"

definition FM_AP :: firmware_modes where
  "FM_AP = \<lparr>fwm_ap = True, fwm_lan = False, fwm_usb = False\<rparr>"

definition FM_AP_LAN_USB :: firmware_modes where
  "FM_AP_LAN_USB = \<lparr>fwm_ap = True, fwm_lan = True, fwm_usb = True\<rparr>"

fun modes_allow :: "firmware_modes \<Rightarrow> reach_mode \<Rightarrow> bool" where
  "modes_allow m RM_Ap = fwm_ap m"
| "modes_allow m RM_Lan = fwm_lan m"
| "modes_allow m RM_Usb = fwm_usb m"
| "modes_allow m RM_Z21 = False"

definition to_reach_modes :: "firmware_modes \<Rightarrow> reach_mode list" where
  "to_reach_modes m =
     (if fwm_ap m then [RM_Ap] else []) @ (if fwm_lan m then [RM_Lan] else [])
       @ (if fwm_usb m then [RM_Usb] else [])"

definition fw_allows :: "firmware_capabilities \<Rightarrow> reach_mode \<Rightarrow> bool" where
  "fw_allows fw mode = modes_allow (fc_modes fw) mode"

definition too_large_detail :: "firmware_capabilities \<Rightarrow> string" where
  "too_large_detail fw = ''firmware image exceeds '' @ fc_max_bytes_label fw"

definition mode_rejected_detail :: "firmware_capabilities \<Rightarrow> string" where
  "mode_rejected_detail fw =
     (if fc_modes fw = FM_AP then ''firmware update is Soft-AP only''
      else ''firmware update is not supported in this mode'')"

definition capabilities_to_wire :: "driver_capabilities \<Rightarrow> capabilities_wire" where
  "capabilities_to_wire c =
     \<lparr>cw_max_roster_slots = dcap_max_roster_slots c,
      cw_max_function_index = dcap_max_function_index c,
      cw_identity_format = identity_format_to_wire (dcap_identity_format c),
      cw_supports_throttle_server = dcap_supports_throttle_server c,
      cw_commissioning = commissioning_kind_to_wire (dcap_commissioning c),
      cw_supports_firmware_update = (dcap_firmware c \<noteq> None),
      cw_commissioning_net = map_option commissioning_net_to_wire (dcap_commissioning_net c),
      cw_max_firmware_bytes = map_option fc_max_bytes (dcap_firmware c),
      cw_firmware_modes =
        (case dcap_firmware c of None \<Rightarrow> [] | Some f \<Rightarrow> to_reach_modes (fc_modes f)),
      cw_firmware_require_esp_app_bin =
        (case dcap_firmware c of None \<Rightarrow> False | Some f \<Rightarrow> fc_require_esp_app_bin f)\<rparr>"

text \<open>The modes a client reads off the wire are exactly the ones the daemon will accept.\<close>

lemma to_reach_modes_allow: "m \<in> set (to_reach_modes fm) \<longleftrightarrow> modes_allow fm m"
  by (cases m) (auto simp: to_reach_modes_def)

section \<open>Scan observations, candidates and outcomes\<close>

record 'j observation =
  ob_ssid :: "string option"
  ob_bssid :: "string option"
  ob_rssi :: "int option"
  ob_extra :: 'j

record device_candidate =
  dc_driver :: string
  dc_key :: string
  dc_label :: string
  dc_rssi :: "int option"

record outcome =
  oc_restarted :: bool
  oc_mismatches :: "string list"

section \<open>Driver effects\<close>

text \<open>
  A driver acts on the world through its \<open>Transport\<close> (requests over an \<open>HttpClient\<close>) and its
  \<open>ProgressSink\<close>. Both are recorded in one trace. The answer to a request is a parameter of
  the model, a function of the whole trace before it, so that a device may answer the same
  request differently as it is being programmed.
\<close>

datatype io_kind =
  IOK_Interrupted | IOK_TimedOut | IOK_UnexpectedEof | IOK_ConnectionReset | IOK_BrokenPipe
| IOK_ConnectionAborted | IOK_ConnectionRefused | IOK_HostUnreachable | IOK_NetworkUnreachable
| IOK_AddrNotAvailable | IOK_WouldBlock | IOK_WriteZero | IOK_InvalidData | IOK_InvalidInput | IOK_NotFound
| IOK_Other

record io_error =
  ioe_kind :: io_kind
  ioe_text :: string

record http_request =
  hq_method :: string
  hq_path :: string
  hq_body :: "(string \<times> string) option"

datatype dev_event =
  Ev_Step string
| Ev_Progress u8
| Ev_Detail string
| Ev_Req http_request

type_synonym device = "dev_event list \<Rightarrow> http_request \<Rightarrow> io_error + string"

datatype transport = T_Http device | T_Bytes

type_synonym 'a dev_io = "dev_event list \<Rightarrow> (driver_error + 'a) \<times> dev_event list"

definition dev_return :: "'a \<Rightarrow> 'a dev_io" where
  "dev_return x = (\<lambda>tr. (Inr x, tr))"

definition dev_fail :: "driver_error \<Rightarrow> 'a dev_io" where
  "dev_fail e = (\<lambda>tr. (Inl e, tr))"

definition dev_bind :: "'a dev_io \<Rightarrow> ('a \<Rightarrow> 'b dev_io) \<Rightarrow> 'b dev_io" where
  "dev_bind m f = (\<lambda>tr. case m tr of (Inl e, tr') \<Rightarrow> (Inl e, tr') | (Inr x, tr') \<Rightarrow> f x tr')"

definition dev_then :: "unit dev_io \<Rightarrow> 'b dev_io \<Rightarrow> 'b dev_io" where
  "dev_then m k = dev_bind m (\<lambda>_. k)"

definition dev_lift :: "driver_error + 'a \<Rightarrow> 'a dev_io" where
  "dev_lift r = (\<lambda>tr. (r, tr))"

definition ev_step :: "string \<Rightarrow> unit dev_io" where
  "ev_step s = (\<lambda>tr. (Inr (), tr @ [Ev_Step s]))"

definition ev_detail :: "string \<Rightarrow> unit dev_io" where
  "ev_detail s = (\<lambda>tr. (Inr (), tr @ [Ev_Detail s]))"

text \<open>A request whose error is turned into a driver error by \<open>f\<close>.\<close>

definition dev_request_err ::
    "(io_error \<Rightarrow> driver_error) \<Rightarrow> device \<Rightarrow> http_request \<Rightarrow> string dev_io" where
  "dev_request_err f d q = (\<lambda>tr. (map_err f (d tr q), tr @ [Ev_Req q]))"

definition dev_request :: "device \<Rightarrow> http_request \<Rightarrow> string dev_io" where
  "dev_request d q = dev_request_err (\<lambda>e. DE_Http (ioe_text e)) d q"

definition http_get :: "string \<Rightarrow> http_request" where
  "http_get path = \<lparr>hq_method = ''GET'', hq_path = path, hq_body = None\<rparr>"

lemmas dev_io_defs = dev_return_def dev_fail_def dev_bind_def dev_then_def dev_lift_def
  ev_step_def ev_detail_def dev_request_err_def dev_request_def

text \<open>The requests of a trace, in order.\<close>

fun requests :: "dev_event list \<Rightarrow> http_request list" where
  "requests [] = []"
| "requests (Ev_Req q # tr) = q # requests tr"
| "requests (_ # tr) = requests tr"

lemma requests_append [simp]: "requests (a @ b) = requests a @ requests b"
  by (induction a rule: requests.induct) auto

text \<open>A computation that only adds to the trace.\<close>

definition extends :: "'a dev_io \<Rightarrow> bool" where
  "extends m \<longleftrightarrow> (\<forall>tr. \<exists>ext. snd (m tr) = tr @ ext)"

named_theorems extends_intro "computations that only add to the trace"

lemma extends_return [extends_intro]: "extends (dev_return x)"
  by (simp add: extends_def dev_return_def)

lemma extends_fail [extends_intro]: "extends (dev_fail e)"
  by (simp add: extends_def dev_fail_def)

lemma extends_lift [extends_intro]: "extends (dev_lift r)"
  by (simp add: extends_def dev_lift_def)

lemma extends_step [extends_intro]: "extends (ev_step s)"
  by (simp add: extends_def ev_step_def)

lemma extends_detail [extends_intro]: "extends (ev_detail s)"
  by (simp add: extends_def ev_detail_def)

lemma extends_request_err [extends_intro]: "extends (dev_request_err f d q)"
  by (simp add: extends_def dev_request_err_def)

lemma extends_request [extends_intro]: "extends (dev_request d q)"
  by (simp add: dev_request_def extends_intro)

lemma extends_bind [extends_intro]:
  assumes m: "extends m" and f: "\<And>x. extends (f x)"
  shows "extends (dev_bind m f)"
  unfolding extends_def
proof
  fix tr
  obtain r tr' where mt: "m tr = (r, tr')" by (cases "m tr")
  with m obtain e1 where e1: "tr' = tr @ e1" unfolding extends_def by (metis snd_conv)
  show "\<exists>ext. snd (dev_bind m f tr) = tr @ ext"
  proof (cases r)
    case (Inl e)
    then show ?thesis by (simp add: dev_bind_def mt e1)
  next
    case (Inr x)
    from f obtain e2 where "snd (f x tr') = tr' @ e2" unfolding extends_def by blast
    with Inr show ?thesis by (simp add: dev_bind_def mt e1)
  qed
qed

lemma extends_then [extends_intro]: "extends m \<Longrightarrow> extends k \<Longrightarrow> extends (dev_then m k)"
  by (simp add: dev_then_def extends_intro)

lemma extends_if [extends_intro]: "extends a \<Longrightarrow> extends b \<Longrightarrow> extends (if c then a else b)"
  by simp

fun for_each :: "('a \<Rightarrow> unit dev_io) \<Rightarrow> 'a list \<Rightarrow> unit dev_io" where
  "for_each f [] = dev_return ()"
| "for_each f (x # xs) = dev_then (f x) (for_each f xs)"

text \<open>
  \<open>issues m qs\<close>: whatever the device answers, \<open>m\<close> issues a prefix of the requests \<open>qs\<close>, in
  order, and all of them when it succeeds.
\<close>

definition issues :: "'a dev_io \<Rightarrow> http_request list \<Rightarrow> bool" where
  "issues m qs \<longleftrightarrow>
     (\<forall>tr. \<exists>k. requests (snd (m tr)) = requests tr @ take k qs
             \<and> (\<forall>x. fst (m tr) = Inr x \<longrightarrow> length qs \<le> k))"

named_theorems issues_intro "the requests of a computation"

lemma issues_pure [issues_intro]:
  "issues (dev_return x) []" "issues (dev_lift r) []" "issues (ev_step s) []" "issues (ev_detail s) []"
  "issues (dev_fail e) qs"
  by (auto simp: issues_def dev_io_defs intro: exI [of _ 0])

lemma issues_request_err [issues_intro]: "issues (dev_request_err f d q) [q]"
  unfolding issues_def dev_request_err_def by (auto intro: exI [of _ 1])

lemma issues_request [issues_intro]: "issues (dev_request d q) [q]"
  by (simp add: dev_request_def issues_intro)

lemma issues_bind [issues_intro]:
  assumes m: "issues m qs" and f: "\<And>x. issues (f x) rs"
  shows "issues (dev_bind m f) (qs @ rs)"
  unfolding issues_def
proof
  fix tr
  obtain r tr' where mt: "m tr = (r, tr')" by (cases "m tr")
  obtain k where k: "requests tr' = requests tr @ take k qs" "\<And>x. r = Inr x \<Longrightarrow> length qs \<le> k"
    using m unfolding issues_def by (metis mt fst_conv snd_conv)
  show "\<exists>j. requests (snd (dev_bind m f tr)) = requests tr @ take j (qs @ rs)
      \<and> (\<forall>x. fst (dev_bind m f tr) = Inr x \<longrightarrow> length (qs @ rs) \<le> j)"
  proof (cases r)
    case (Inl e)
    then show ?thesis using k(1)
      by (intro exI [of _ "min k (length qs)"]) (auto simp: dev_bind_def mt min_def)
  next
    case (Inr x)
    obtain j where j: "requests (snd (f x tr')) = requests tr' @ take j rs"
        "\<And>y. fst (f x tr') = Inr y \<Longrightarrow> length rs \<le> j"
      using f unfolding issues_def by metis
    have "requests tr' = requests tr @ qs" using k Inr by auto
    with j Inr show ?thesis
      by (intro exI [of _ "length qs + j"]) (auto simp: dev_bind_def mt)
  qed
qed

lemma issues_then [issues_intro]: "issues m qs \<Longrightarrow> issues k rs \<Longrightarrow> issues (dev_then m k) (qs @ rs)"
  by (simp add: dev_then_def issues_bind)

lemma issues_for_each:
  "(\<And>x. issues (f x) (g x)) \<Longrightarrow> issues (for_each f xs) (concat (map g xs))"
  by (induction xs) (auto intro: issues_intro)

lemma extends_for_each [extends_intro]: "(\<And>x. extends (f x)) \<Longrightarrow> extends (for_each f xs)"
  by (induction xs) (auto intro: extends_intro)

text \<open>Taking a successful sequence apart.\<close>

lemma dev_bind_Inr:
  "dev_bind m f tr = (Inr y, tr') \<longleftrightarrow> (\<exists>x tr1. m tr = (Inr x, tr1) \<and> f x tr1 = (Inr y, tr'))"
  by (auto simp: dev_bind_def split: prod.splits sum.splits)

lemma dev_then_Inr:
  "dev_then m k tr = (Inr y, tr') \<longleftrightarrow> (\<exists>x tr1. m tr = (Inr x, tr1) \<and> k tr1 = (Inr y, tr'))"
  by (simp add: dev_then_def dev_bind_Inr)

lemma dev_bind_lift_Inr: "dev_bind (dev_lift (Inr x)) f = f x"
  by (rule ext) (simp add: dev_bind_def dev_lift_def)

section \<open>Shared validation\<close>

fun check_functions ::
    "u8 \<Rightarrow> nat \<Rightarrow> (nat \<times> u8) set \<Rightarrow> function_mapping list \<Rightarrow> validation_error + (nat \<times> u8) set" where
  "check_functions mx slot seen [] = Inr seen"
| "check_functions mx slot seen (fm # fms) =
     (if fm_index fm > mx then Inl (VE_FunctionIndexOutOfRange (fm_index fm) mx)
      else if (slot, fm_index fm) \<in> seen then Inl (VE_RosterEntry slot ''duplicate function index'')
      else check_functions mx slot (insert (slot, fm_index fm) seen) fms)"

fun check_roster ::
    "u8 \<Rightarrow> nat \<Rightarrow> (nat \<times> u8) set \<Rightarrow> roster_entry list \<Rightarrow> validation_error + unit" where
  "check_roster mx slot seen [] = Inr ()"
| "check_roster mx slot seen (e # es) =
     rbind (case re_address e of
              None \<Rightarrow> Inr ()
            | Some addr \<Rightarrow>
                if \<not> (1 \<le> unat addr \<and> unat addr \<le> 10239) then Inl (VE_AddressOutOfRange addr) else Inr ())
       (\<lambda>_. rbind (check_functions mx slot seen (re_functions e))
              (\<lambda>seen'. check_roster mx (Suc slot) seen' es))"

definition validate_common :: "driver_capabilities \<Rightarrow> program_request \<Rightarrow> validation_error + unit" where
  "validate_common caps req =
     (if \<not> identity_matches (dcap_identity_format caps) (pq_identity req) then Inl VE_IdentityFormat
      else if wc_ssid (pq_wifi req) = [] then Inl VE_EmptySsid
      else if \<not> dcap_supports_throttle_server caps then Inl VE_ServerUnsupported
      else if length (pq_roster req) > unat (dcap_max_roster_slots caps) then
        Inl (VE_CapacityExceeded (unat (dcap_max_roster_slots caps)) (length (pq_roster req)))
      else check_roster (dcap_max_function_index caps) 0 {} (pq_roster req))"

text \<open>What the validation accepts, stated without its loop.\<close>

definition dcc_address_ok :: "u16 \<Rightarrow> bool" where
  "dcc_address_ok a \<longleftrightarrow> 1 \<le> unat a \<and> unat a \<le> 10239"

definition entry_ok :: "u8 \<Rightarrow> roster_entry \<Rightarrow> bool" where
  "entry_ok mx e \<longleftrightarrow>
     (case re_address e of None \<Rightarrow> True | Some a \<Rightarrow> dcc_address_ok a)
   \<and> list_all (\<lambda>fm. fm_index fm \<le> mx) (re_functions e)
   \<and> distinct (map fm_index (re_functions e))"

definition request_ok :: "driver_capabilities \<Rightarrow> program_request \<Rightarrow> bool" where
  "request_ok caps req \<longleftrightarrow>
     identity_matches (dcap_identity_format caps) (pq_identity req)
   \<and> wc_ssid (pq_wifi req) \<noteq> []
   \<and> dcap_supports_throttle_server caps
   \<and> length (pq_roster req) \<le> unat (dcap_max_roster_slots caps)
   \<and> list_all (entry_ok (dcap_max_function_index caps)) (pq_roster req)"

lemma check_functions_Inr:
  "check_functions mx slot seen fms = Inr seen' \<longleftrightarrow>
     list_all (\<lambda>fm. fm_index fm \<le> mx) fms \<and> distinct (map fm_index fms)
   \<and> (\<forall>fm \<in> set fms. (slot, fm_index fm) \<notin> seen)
   \<and> seen' = seen \<union> (\<lambda>fm. (slot, fm_index fm)) ` set fms"
  by (induction mx slot seen fms rule: check_functions.induct)
    (auto simp: not_less image_iff dest: bspec)

lemma check_roster_Inr:
  assumes "\<forall>(s, i) \<in> seen. s < slot"
  shows "check_roster mx slot seen es = Inr () \<longleftrightarrow> list_all (entry_ok mx) es"
  using assms
proof (induction es arbitrary: slot seen)
  case Nil
  then show ?case by simp
next
  case (Cons e es)
  have fresh: "(slot, i) \<notin> seen" for i using Cons.prems by auto
  let ?seen' = "seen \<union> (\<lambda>fm. (slot, fm_index fm)) ` set (re_functions e)"
  have "\<forall>(s, i) \<in> ?seen'. s < Suc slot" using Cons.prems by (auto intro: less_SucI)
  note IH = Cons.IH [OF this]
  show ?case
  proof (cases "list_all (\<lambda>fm. fm_index fm \<le> mx) (re_functions e)
      \<and> distinct (map fm_index (re_functions e))")
    case True
    then have "check_functions mx slot seen (re_functions e) = Inr ?seen'"
      by (simp add: check_functions_Inr fresh)
    with IH True show ?thesis
      by (auto simp: entry_ok_def dcc_address_ok_def split: option.splits)
  next
    case False
    then have "\<nexists>s. check_functions mx slot seen (re_functions e) = Inr s"
      by (auto simp: check_functions_Inr)
    then obtain er where "check_functions mx slot seen (re_functions e) = Inl er"
      by (metis old.sum.exhaust)
    with False show ?thesis
      by (auto simp: entry_ok_def rbind_def split: option.splits sum.splits if_splits)
  qed
qed

lemma check_roster_decides: "check_roster mx 0 {} es = Inr () \<longleftrightarrow> list_all (entry_ok mx) es"
  by (rule check_roster_Inr) simp

lemma validate_common_decides: "validate_common caps req = Inr () \<longleftrightarrow> request_ok caps req"
  unfolding validate_common_def request_ok_def by (auto simp: check_roster_decides not_less)

section \<open>Properties\<close>

text \<open>C26: the shared validation accepts a request exactly when the identity has the driver's
  format, the SSID is not empty, the driver takes a throttle server, the roster fits the
  slots, every address is in 1..10239, and every entry's function indices are in range and
  pairwise different.\<close>

theorem validate_common_iff: "validate_common caps req = Inr () \<longleftrightarrow> request_ok caps req"
  by (rule validate_common_decides)

lemma validate_common_server_unsupported:
  assumes "\<not> dcap_supports_throttle_server caps"
  shows "validate_common caps req \<noteq> Inr ()
       \<and> (identity_matches (dcap_identity_format caps) (pq_identity req) \<and> wc_ssid (pq_wifi req) \<noteq> [] \<longrightarrow>
            validate_common caps req = Inl VE_ServerUnsupported)"
  using assms by (simp add: validate_common_def)

end
