(* ===== verification/Wp_Http.thy ===== *)
theory Wp_Http
  imports Wp_Core
begin

text \<open>
  The bounded HTTP/1.1 client of \<open>crates/wp-link/src/http.rs\<close>: response framing
  (\<open>locate_body\<close>, \<open>parse_content_length\<close>, \<open>is_chunked\<close>, \<open>decode_chunked\<close>,
  \<open>http_message_complete\<close>, \<open>parse_status\<close>), the write and read loops of one request over a
  socket, the retry loop, percent encoding and the ICMP checksum.

  The socket is a parameter: a script of what each loop iteration observes (the clock, the
  cancel flag, the result of the system call). A script that runs out means that the call
  still blocks, which is the value \<open>None\<close>. Setting a socket timeout is taken to succeed. The workspace builds its release profile with
  overflow checks and \<open>panic = "abort"\<close>, so an addition that passes the largest \<open>usize\<close>
  is the outcome \<open>Panic\<close>.
\<close>

section \<open>Outcomes\<close>

datatype 'a io_run = Panic | Ret "io_error + 'a"

definition io_bind :: "'a io_run \<Rightarrow> ('a \<Rightarrow> 'b io_run) \<Rightarrow> 'b io_run" where
  "io_bind r f =
     (case r of Panic \<Rightarrow> Panic | Ret (Inl e) \<Rightarrow> Ret (Inl e) | Ret (Inr x) \<Rightarrow> f x)"

definition io_err :: "io_kind \<Rightarrow> string \<Rightarrow> io_error" where
  "io_err k t = \<lparr>ioe_kind = k, ioe_text = t\<rparr>"

lemma io_bind_simps [simp]:
  "io_bind Panic f = Panic" "io_bind (Ret (Inl e)) f = Ret (Inl e)" "io_bind (Ret (Inr x)) f = f x"
  by (simp_all add: io_bind_def)

section \<open>Percent encoding\<close>

definition is_unreserved :: "char \<Rightarrow> bool" where
  "is_unreserved c \<longleftrightarrow>
     is_ascii_alphanumeric c \<or> c = CHR ''-'' \<or> c = CHR ''.'' \<or> c = CHR ''_'' \<or> c = CHR ''~''"

text \<open>An upper-case hexadecimal digit, and \<open>{b:02X}\<close>.\<close>

definition hex_upper :: "nat \<Rightarrow> char" where
  "hex_upper d = (if d < 10 then char_of (48 + d) else char_of (55 + d))"

definition hex_byte :: "char \<Rightarrow> string" where
  "hex_byte c = [hex_upper (byte c div 16), hex_upper (byte c mod 16)]"

fun percent_encode :: "string \<Rightarrow> string" where
  "percent_encode [] = []"
| "percent_encode (c # s) =
     (if is_unreserved c then c # percent_encode s
      else CHR ''%'' # hex_byte c @ percent_encode s)"

section \<open>Response framing\<close>

definition locate_body :: "string \<Rightarrow> io_error + nat" where
  "locate_body buf =
     (case find (\<lambda>i. take 4 (drop (i - 3) buf) = crlf @ crlf) [3..<length buf] of
        Some i \<Rightarrow> Inr (i + 1)
      | None \<Rightarrow> Inl (io_err IOK_InvalidData ''no header/body separator''))"

text \<open>The value of the first header line named \<open>key\<close>, as both header scans find it.\<close>

fun header_value :: "string \<Rightarrow> string list \<Rightarrow> string option" where
  "header_value key [] = None"
| "header_value key (l # ls) =
     (case split_once (CHR '':'') l of
        None \<Rightarrow> header_value key ls
      | Some (name, value) \<Rightarrow>
          if eq_ignore_ascii_case name key then Some value else header_value key ls)"

definition parse_usize :: "nat \<Rightarrow> string \<Rightarrow> nat option" where
  "parse_usize radix s = parse_uint radix (usize_max + 1) s"

definition parse_content_length :: "string \<Rightarrow> nat option" where
  "parse_content_length headers =
     (case from_utf8 headers of
        None \<Rightarrow> None
      | Some text \<Rightarrow>
          (case header_value ''content-length'' (split_crlf text) of
             None \<Rightarrow> None
           | Some value \<Rightarrow> parse_usize 10 (trim value)))"

definition is_chunked :: "string \<Rightarrow> bool" where
  "is_chunked headers =
     (case from_utf8 headers of
        None \<Rightarrow> False
      | Some text \<Rightarrow>
          (case header_value ''transfer-encoding'' (split_crlf text) of
             None \<Rightarrow> False
           | Some value \<Rightarrow>
               list_ex (\<lambda>t. eq_ignore_ascii_case (trim t) ''chunked'') (split_char (CHR '','') value)))"

text \<open>The head of one chunk: the bytes before the next CRLF, up to a semicolon, as a size.\<close>

definition chunk_size :: "string \<Rightarrow> io_error + nat" where
  "chunk_size size_line =
     (case from_utf8 (hd (split_char (CHR '';'') size_line)) of
        None \<Rightarrow> Inl (io_err IOK_InvalidData ''invalid utf-8'')
      | Some t \<Rightarrow>
          (case parse_usize 16 (trim t) of
             None \<Rightarrow> Inl (io_err IOK_InvalidData ''chunk size'')
           | Some n \<Rightarrow> Inr n))"

text \<open>
  \<open>decode_chunked_from body pos out\<close> is the loop at position \<open>pos\<close>. The sum
  \<open>pos + size + 2\<close> is computed in \<open>usize\<close>.
\<close>

function decode_chunked_from :: "string \<Rightarrow> nat \<Rightarrow> string \<Rightarrow> string io_run" where
  "decode_chunked_from body pos out =
     (case find_sub (drop pos body) crlf of
        None \<Rightarrow> Ret (Inl (io_err IOK_InvalidData ''truncated chunk size''))
      | Some rel \<Rightarrow>
          (case chunk_size (take rel (drop pos body)) of
             Inl e \<Rightarrow> Ret (Inl e)
           | Inr sz \<Rightarrow>
               let p = pos + rel + 2
               in if sz = 0 then Ret (Inr out)
                  else if p + sz + 2 > usize_max then Panic
                  else if p + sz + 2 > length body then
                    Ret (Inl (io_err IOK_InvalidData ''truncated chunk data''))
                  else if take 2 (drop (p + sz) body) \<noteq> crlf then
                    Ret (Inl (io_err IOK_InvalidData ''missing chunk CRLF''))
                  else decode_chunked_from body (p + sz + 2) (out @ take sz (drop p body))))"
  by pat_completeness auto
termination
  by (relation "measure (\<lambda>(body, pos, out). length body - pos)") auto

declare decode_chunked_from.simps [simp del]

definition decode_chunked :: "string \<Rightarrow> string io_run" where
  "decode_chunked body = decode_chunked_from body 0 []"

text \<open>\<open>None\<close> is the panic that \<open>decode_chunked\<close> may raise.\<close>

definition http_message_complete :: "string \<Rightarrow> bool option" where
  "http_message_complete buf =
     (case locate_body buf of
        Inl _ \<Rightarrow> Some False
      | Inr start \<Rightarrow>
          let headers = take start buf; body = drop start buf
          in case parse_content_length headers of
               Some len \<Rightarrow> Some (length body \<ge> len)
             | None \<Rightarrow>
                 if is_chunked headers then
                   (case decode_chunked body of
                      Panic \<Rightarrow> None
                    | Ret (Inl _) \<Rightarrow> Some False
                    | Ret (Inr _) \<Rightarrow> Some True)
                 else Some False)"

definition parse_status :: "string \<Rightarrow> io_error + u16" where
  "parse_status buf =
     (case from_utf8 (takeWhile (\<lambda>c. c \<noteq> CR) buf) of
        None \<Rightarrow> Inl (io_err IOK_InvalidData ''invalid utf-8'')
      | Some line \<Rightarrow>
          (case split_whitespace line of
             _ # status # _ \<Rightarrow>
               (case parse_u16 status of
                  Some n \<Rightarrow> Inr n
                | None \<Rightarrow> Inl (io_err IOK_InvalidData ''invalid digit''))
           | _ \<Rightarrow> Inl (io_err IOK_InvalidData ''no status code'')))"

section \<open>The client\<close>

record bounded_http_client =
  hc_host :: string
  hc_port :: u16
  hc_source :: "ipv4 option"
  hc_device :: "string option"
  hc_deadline_ms :: nat
  hc_connect_deadline_ms :: nat
  hc_retries :: u32
  hc_retry_delay_ms :: nat
  hc_max_body :: nat
  hc_cancel :: bool
  hc_success_on_reset_after_write :: bool

definition MAX_BODY_BYTES :: nat where
  "MAX_BODY_BYTES = 64 * 1024"

definition http_client_new :: "string \<Rightarrow> u16 \<Rightarrow> bounded_http_client" where
  "http_client_new host port =
     \<lparr>hc_host = host, hc_port = port, hc_source = None, hc_device = None, hc_deadline_ms = 5000,
      hc_connect_deadline_ms = 3000, hc_retries = 3, hc_retry_delay_ms = 500,
      hc_max_body = MAX_BODY_BYTES, hc_cancel = False, hc_success_on_reset_after_write = False\<rparr>"

text \<open>
  What one iteration of an I/O loop sees: whether the cancel flag is set when it is read, the
  milliseconds left until the deadline when the clock is read, and what the system call gives
  (for a read: the bytes, empty at end of file; for a write: the bytes accepted). The last
  field is the clock in the guard of the retry arm, after the call.
\<close>

record 'a io_turn =
  it_cancelled :: bool
  it_remaining :: nat
  it_result :: "io_error + 'a"
  it_remaining_after :: nat

definition io_cancelled :: io_error where
  "io_cancelled = io_err IOK_Interrupted ''cancelled''"

text \<open>The request head.\<close>

definition request_head :: "bounded_http_client \<Rightarrow> http_request \<Rightarrow> string" where
  "request_head c q =
     hq_method q @ '' '' @ hq_path q @ '' HTTP/1.1'' @ crlf
     @ ''Host: '' @ hc_host c @ '':'' @ show_nat (unat (hc_port c)) @ crlf
     @ ''Connection: close'' @ crlf
     @ (case hq_body q of
          None \<Rightarrow> []
        | Some (content_type, bytes) \<Rightarrow>
            ''Content-Type: '' @ content_type @ crlf
            @ ''Content-Length: '' @ show_nat (length bytes) @ crlf)
     @ crlf"

text \<open>
  The write loop. It returns the bytes the peer was handed with the result, and the rest of
  the script.
\<close>

fun write_all_interruptible ::
    "bool \<Rightarrow> nat io_turn list \<Rightarrow> string \<Rightarrow> string \<Rightarrow> ((io_error + unit) \<times> string \<times> nat io_turn list) option" where
  "write_all_interruptible armed ts sent [] = Some (Inr (), sent, ts)"
| "write_all_interruptible armed [] sent (b # bs) = None"
| "write_all_interruptible armed (t # ts) sent (b # bs) =
     (if armed \<and> it_cancelled t then Some (Inl io_cancelled, sent, ts)
      else if it_remaining t = 0 then
        Some (Inl (io_err IOK_TimedOut ''write deadline elapsed''), sent, ts)
      else case it_result t of
        Inr 0 \<Rightarrow> Some (Inl (io_err IOK_WriteZero ''write zero''), sent, ts)
      | Inr n \<Rightarrow> write_all_interruptible armed ts (sent @ take n (b # bs)) (drop n (b # bs))
      | Inl e \<Rightarrow>
          if ioe_kind e = IOK_TimedOut \<or> ioe_kind e = IOK_WouldBlock
          then write_all_interruptible armed ts sent (b # bs)
          else Some (Inl e, sent, ts))"

fun flush_interruptible ::
    "bool \<Rightarrow> unit io_turn list \<Rightarrow> ((io_error + unit) \<times> unit io_turn list) option" where
  "flush_interruptible armed [] = None"
| "flush_interruptible armed (t # ts) =
     (if armed \<and> it_cancelled t then Some (Inl io_cancelled, ts)
      else if it_remaining t = 0 then
        Some (Inl (io_err IOK_TimedOut ''write deadline elapsed''), ts)
      else case it_result t of
        Inr _ \<Rightarrow> Some (Inr (), ts)
      | Inl e \<Rightarrow>
          if ioe_kind e = IOK_TimedOut \<or> ioe_kind e = IOK_WouldBlock
          then flush_interruptible armed ts
          else Some (Inl e, ts))"

text \<open>
  The read loop. \<open>Inl\<close> of an \<open>Inr\<close> outcome is the early \<open>return Ok(Vec::new())\<close> of a device
  that reboots; \<open>Inr\<close> is the buffer after \<open>break\<close>.
\<close>

datatype read_end = Early_Ok | Buffered string

fun read_loop :: "bounded_http_client \<Rightarrow> string io_turn list \<Rightarrow> string \<Rightarrow> read_end io_run option" where
  "read_loop c [] buf = None"
| "read_loop c (t # ts) buf =
     (if hc_cancel c \<and> it_cancelled t then Some (Ret (Inl io_cancelled))
      else if length buf > hc_max_body c then
        Some (Ret (Inl (io_err IOK_InvalidData ''response exceeds max body size'')))
      else case http_message_complete buf of
        None \<Rightarrow> Some Panic
      | Some True \<Rightarrow> Some (Ret (Inr (Buffered buf)))
      | Some False \<Rightarrow>
          if it_remaining t = 0 then Some (Ret (Inl (io_err IOK_TimedOut ''request deadline elapsed'')))
          else case it_result t of
            Inr [] \<Rightarrow>
              (if hc_success_on_reset_after_write c then Some (Ret (Inr Early_Ok))
               else Some (Ret (Inr (Buffered buf))))
          | Inr (b # bs) \<Rightarrow> read_loop c ts (buf @ b # bs)
          | Inl e \<Rightarrow>
              if (ioe_kind e = IOK_TimedOut \<or> ioe_kind e = IOK_WouldBlock) \<and> hc_cancel c
                 \<and> it_remaining_after t > 0
              then read_loop c ts buf
              else if ioe_kind e = IOK_TimedOut \<or> ioe_kind e = IOK_WouldBlock then
                Some (Ret (Inl (io_err IOK_TimedOut ''read deadline elapsed'')))
              else if ioe_kind e = IOK_ConnectionReset \<or> ioe_kind e = IOK_ConnectionAborted
                 \<or> ioe_kind e = IOK_UnexpectedEof then
                (if hc_success_on_reset_after_write c then Some (Ret (Inr Early_Ok))
                 else Some (Ret (Inl (io_err (ioe_kind e) (''read: '' @ ioe_text e)))))
              else Some (Ret (Inl (io_err (ioe_kind e) (''read: '' @ ioe_text e)))))"

text \<open>What is made of the buffered response.\<close>

definition decode_response :: "bounded_http_client \<Rightarrow> string \<Rightarrow> string io_run" where
  "decode_response c buf =
     io_bind (Ret (locate_body buf)) (\<lambda>start.
     io_bind (if is_chunked (take start buf) then decode_chunked (drop start buf)
              else Ret (Inr (drop start buf))) (\<lambda>body.
     if length body > hc_max_body c then
       Ret (Inl (io_err IOK_InvalidData ''response body exceeds max body size''))
     else io_bind (Ret (parse_status buf)) (\<lambda>status.
       if \<not> (200 \<le> unat status \<and> unat status < 300) then
         Ret (Inl (io_err IOK_UnexpectedEof (''unexpected HTTP status '' @ show_nat (unat status))))
       else Ret (Inr body))))"

text \<open>
  One request over a connected socket: the connection itself (address parsing, bind, connect)
  is the parameter \<open>connected\<close>. The result carries the bytes that were written.
\<close>

record socket_script =
  sk_connected :: "io_error + unit"
  sk_cancelled :: bool
  sk_head :: "nat io_turn list"
  sk_body :: "nat io_turn list"
  sk_flush :: "unit io_turn list"
  sk_read :: "string io_turn list"

definition wrap_err :: "string \<Rightarrow> io_error \<Rightarrow> io_error" where
  "wrap_err what e = io_err (ioe_kind e) (what @ '': '' @ ioe_text e)"

text \<open>The write phase: head, body, flush. The result carries the bytes the peer was handed.\<close>

definition send_body ::
    "bounded_http_client \<Rightarrow> socket_script \<Rightarrow> http_request \<Rightarrow> string \<Rightarrow> ((io_error + unit) \<times> string) option" where
  "send_body c sk q sent =
     (case hq_body q of
        None \<Rightarrow> Some (Inr (), sent)
      | Some (_, bytes) \<Rightarrow>
          map_option (\<lambda>(r, sent', _). (map_err (wrap_err ''write body'') r, sent'))
            (write_all_interruptible (hc_cancel c) (sk_body sk) sent bytes))"

definition send_request ::
    "bounded_http_client \<Rightarrow> socket_script \<Rightarrow> http_request \<Rightarrow> ((io_error + unit) \<times> string) option" where
  "send_request c sk q =
     (case write_all_interruptible (hc_cancel c) (sk_head sk) [] (request_head c q) of
        None \<Rightarrow> None
      | Some (Inl e, sent, _) \<Rightarrow> Some (Inl (wrap_err ''write headers'' e), sent)
      | Some (Inr _, sent, _) \<Rightarrow>
          (case send_body c sk q sent of
             None \<Rightarrow> None
           | Some (Inl e, sent') \<Rightarrow> Some (Inl e, sent')
           | Some (Inr _, sent') \<Rightarrow>
               map_option (\<lambda>(r, _). (map_err (wrap_err ''flush'') r, sent'))
                 (flush_interruptible (hc_cancel c) (sk_flush sk))))"

text \<open>The read phase.\<close>

definition read_response :: "bounded_http_client \<Rightarrow> string io_turn list \<Rightarrow> string io_run option" where
  "read_response c turns =
     map_option (\<lambda>r. io_bind r (\<lambda>e. case e of
         Early_Ok \<Rightarrow> Ret (Inr [])
       | Buffered buf \<Rightarrow> decode_response c buf))
       (read_loop c turns [])"

definition request_once ::
    "bounded_http_client \<Rightarrow> socket_script \<Rightarrow> http_request \<Rightarrow> (string io_run \<times> string) option" where
  "request_once c sk q =
     (case sk_connected sk of
        Inl e \<Rightarrow> Some (Ret (Inl e), [])
      | Inr _ \<Rightarrow>
          if hc_cancel c \<and> sk_cancelled sk then Some (Ret (Inl io_cancelled), [])
          else case send_request c sk q of
            None \<Rightarrow> None
          | Some (Inl e, sent) \<Rightarrow> Some (Ret (Inl e), sent)
          | Some (Inr _, sent) \<Rightarrow> map_option (\<lambda>r. (r, sent)) (read_response c (sk_read sk)))"

section \<open>Retries\<close>

text \<open>
  The attempts of \<open>request\<close>: \<open>once k\<close> is what the \<open>k\<close>-th attempt gives, counted from 1, and
  \<open>left\<close> how many remain. The second component is the number of attempts made.
\<close>

fun attempt_loop ::
    "(nat \<Rightarrow> string io_run) \<Rightarrow> nat \<Rightarrow> nat \<Rightarrow> io_error \<Rightarrow> string io_run \<times> nat" where
  "attempt_loop once k 0 prev = (Ret (Inl prev), k - 1)"
| "attempt_loop once k (Suc left) prev =
     (case once k of
        Panic \<Rightarrow> (Panic, k)
      | Ret (Inr body) \<Rightarrow> (Ret (Inr body), k)
      | Ret (Inl e) \<Rightarrow>
          if ioe_kind e = IOK_Interrupted then (Ret (Inl e), k)
          else attempt_loop once (k + 1) left e)"

definition http_request_retry :: "bounded_http_client \<Rightarrow> (nat \<Rightarrow> string io_run) \<Rightarrow> string io_run \<times> nat" where
  "http_request_retry c once =
     (if unat (hc_retries c) + 1 > 4294967295 then (Panic, 0)
      else attempt_loop once 1 (unat (hc_retries c) + 1) (io_err IOK_Other ''no attempt made''))"

section \<open>ICMP checksum\<close>

unbundle bit_operations_syntax

fun icmp_sum :: "nat \<Rightarrow> u8 list \<Rightarrow> nat \<Rightarrow> nat" where
  "icmp_sum i [] acc = acc"
| "icmp_sum i (b # bs) acc = icmp_sum (i + 1) bs (acc + (if i mod 2 = 0 then unat b * 256 else unat b))"

function icmp_fold :: "nat \<Rightarrow> nat" where
  "icmp_fold n = (if n div 65536 = 0 then n else icmp_fold (n mod 65536 + n div 65536))"
  by pat_completeness auto
termination
proof (relation "measure id")
  fix n :: nat
  assume "n div 65536 \<noteq> 0"
  moreover have "65536 * (n div 65536) + n mod 65536 = n" by (rule mult_div_mod_eq)
  ultimately have "n mod 65536 + n div 65536 < n" by linarith
  then show "(n mod 65536 + n div 65536, n) \<in> measure id" by simp
qed simp

declare icmp_fold.simps [simp del]

definition icmp_checksum :: "u8 list \<Rightarrow> u16" where
  "icmp_checksum data = ucast (NOT (of_nat (icmp_fold (icmp_sum 0 data 0)) :: u32))"

section \<open>Lemmas on framing\<close>

lemma find_sub_crlf:
  "CR \<notin> set h \<Longrightarrow> find_sub (h @ crlf @ t) crlf = Some (length h)"
proof (induction h)
  case Nil
  have "starts_with (crlf @ t) crlf" by simp
  then show ?case by (simp add: crlf_def)
next
  case (Cons c h)
  then have "\<not> starts_with (c # h @ crlf @ t) crlf" by (auto simp: crlf_def)
  with Cons show ?case by simp
qed

lemma ws_len_visible: "33 \<le> b \<Longrightarrow> b < 128 \<Longrightarrow> ws_len (b # bs) = 0"
  by (simp add: ws_len_def split: list.split)

lemma alnum_byte: "is_ascii_alphanumeric c \<Longrightarrow> 48 \<le> byte c \<and> byte c \<le> 122"
  by (auto simp: is_ascii_alphanumeric_def is_ascii_digit_def is_ascii_upper_def is_ascii_lower_def)

lemma alnum_no_ws: "is_ascii_alphanumeric c \<Longrightarrow> ws_len (byte c # bs) = 0"
  using alnum_byte [of c] by (intro ws_len_visible) auto

lemma trim_start_alnum:
  "list_all is_ascii_alphanumeric s \<Longrightarrow> trim_start s = s"
proof (cases s)
  case Nil
  then show ?thesis by (subst trim_start.simps) simp
next
  case (Cons c t)
  assume "list_all is_ascii_alphanumeric s"
  with Cons have "ws_len (map of_char (take 3 s)) = 0" by (simp add: alnum_no_ws)
  then show ?thesis by (subst trim_start.simps) simp
qed

lemma ws_len_rev_alnum:
  assumes "list_all is_ascii_alphanumeric s" shows "ws_len_rev (map of_char (take 3 s)) = 0"
proof (cases s)
  case Nil
  then show ?thesis by (simp add: ws_len_rev_def ws_len_def)
next
  case (Cons c t)
  show ?thesis
  proof (cases t)
    case Nil
    with Cons assms show ?thesis by (simp add: ws_len_rev_def alnum_no_ws)
  next
    case (Cons d u)
    note t = Cons
    show ?thesis
    proof (cases u)
      case Nil
      with \<open>s = c # t\<close> t assms show ?thesis by (simp add: ws_len_rev_def alnum_no_ws)
    next
      case (Cons e v)
      with \<open>s = c # t\<close> t assms show ?thesis by (simp add: ws_len_rev_def alnum_no_ws numeral_2_eq_2 numeral_3_eq_3)
    qed
  qed
qed

lemma trim_alnum: "list_all is_ascii_alphanumeric s \<Longrightarrow> trim s = s"
proof -
  assume s: "list_all is_ascii_alphanumeric s"
  then have "list_all is_ascii_alphanumeric (rev s)" by (simp add: list_all_iff)
  then have "trim_end_rev (rev s) = rev s"
    by (subst trim_end_rev.simps) (simp add: ws_len_rev_alnum)
  then show ?thesis by (simp add: trim_def trim_end_def trim_start_alnum [OF s])
qed

text \<open>A reference encoder for chunked bodies.\<close>

definition hex_lower :: "nat \<Rightarrow> char" where
  "hex_lower d = (if d < 10 then char_of (48 + d) else char_of (87 + d))"

fun show_hex :: "nat \<Rightarrow> string" where
  "show_hex n = (if n < 16 then [hex_lower n] else show_hex (n div 16) @ [hex_lower (n mod 16)])"

declare show_hex.simps [simp del]

definition encode_chunk :: "string \<Rightarrow> string" where
  "encode_chunk c = show_hex (length c) @ crlf @ c @ crlf"

definition encode_chunks :: "string list \<Rightarrow> string" where
  "encode_chunks cs = concat (map encode_chunk cs) @ ''0'' @ crlf @ crlf"

lemma byte_hex_lower: "d < 16 \<Longrightarrow> byte (hex_lower d) = (if d < 10 then 48 + d else 87 + d)"
  by (simp add: hex_lower_def)

lemma digit_val_hex_lower: "d < 16 \<Longrightarrow> digit_val 16 (hex_lower d) = Some d"
  by (simp add: digit_val_def is_ascii_digit_def is_ascii_lower_def byte_hex_lower)

lemma hex_lower_alnum: "d < 16 \<Longrightarrow> is_ascii_alphanumeric (hex_lower d)"
  by (auto simp: is_ascii_alphanumeric_def is_ascii_digit_def is_ascii_lower_def byte_hex_lower)

lemma show_hex_alnum: "list_all is_ascii_alphanumeric (show_hex n)"
proof (induction n rule: show_hex.induct)
  case (1 n)
  then show ?case by (subst show_hex.simps) (auto simp: hex_lower_alnum)
qed

lemma parse_digits_show_hex: "parse_digits 16 0 (show_hex n) = Some n"
proof (induction n rule: show_hex.induct)
  case (1 n)
  show ?case
  proof (cases "n < 16")
    case True
    then show ?thesis by (simp add: show_hex.simps [of n] digit_val_hex_lower)
  next
    case False
    with 1 show ?thesis
      by (simp add: show_hex.simps [of n] parse_digits_append digit_val_hex_lower)
  qed
qed

lemma show_hex_nonempty [simp]: "show_hex n \<noteq> []"
  by (subst show_hex.simps) simp

lemma not_alnum [simp]:
  "\<not> is_ascii_alphanumeric CR" "\<not> is_ascii_alphanumeric (CHR '';'')" "\<not> is_ascii_alphanumeric (CHR ''+'')"
  by (simp_all add: is_ascii_alphanumeric_def is_ascii_digit_def is_ascii_upper_def is_ascii_lower_def CR_def)

lemma alnum_not_in: "list_all is_ascii_alphanumeric s \<Longrightarrow> \<not> is_ascii_alphanumeric c \<Longrightarrow> c \<notin> set s"
  by (auto simp: list_all_iff)

lemma alnum_is_ascii: "list_all is_ascii_alphanumeric s \<Longrightarrow> is_ascii s"
  by (force simp: list_all_iff is_ascii_def is_ascii_alphanumeric_def is_ascii_digit_def
      is_ascii_upper_def is_ascii_lower_def)

lemma chunk_size_show_hex:
  assumes "n \<le> usize_max" shows "chunk_size (show_hex n) = Inr n"
proof -
  note a = show_hex_alnum [of n]
  have "split_char (CHR '';'') (show_hex n) = [show_hex n]"
    by (rule split_char_clean) (rule alnum_not_in [OF a], simp)
  moreover have "hd (show_hex n) \<noteq> CHR ''+''"
    using alnum_not_in [OF a, of "CHR ''+''"] hd_in_set [of "show_hex n"] by (metis not_alnum(3) show_hex_nonempty)
  then have "parse_usize 16 (show_hex n) = Some n"
    using assms by (simp add: parse_usize_def parse_uint_def Let_def parse_digits_show_hex)
  ultimately show ?thesis
    by (simp add: chunk_size_def from_utf8_def utf8_valid_ascii alnum_is_ascii [OF a] trim_alnum [OF a])
qed

lemma decode_chunk_step:
  assumes body: "body = pre @ show_hex (length c) @ crlf @ c @ crlf @ rest"
    and c: "c \<noteq> []" and fits: "length body \<le> usize_max"
  shows "decode_chunked_from body (length pre) out
    = decode_chunked_from body (length (pre @ encode_chunk c)) (out @ c)"
proof -
  let ?h = "show_hex (length c)"
  have "CR \<notin> set ?h" by (rule alnum_not_in [OF show_hex_alnum]) simp
  then have f: "find_sub (drop (length pre) body) crlf = Some (length ?h)"
    unfolding body using find_sub_crlf [of ?h "c @ crlf @ rest"] by simp
  have "length c \<le> usize_max" using fits unfolding body by simp
  then have sz: "chunk_size (take (length ?h) (drop (length pre) body)) = Inr (length c)"
    unfolding body by (simp add: chunk_size_show_hex)
  let ?p = "length pre + length ?h + 2"
  have p: "drop ?p body = c @ crlf @ rest"
    unfolding body by (simp add: crlf_def)
  have le: "?p + length c + 2 \<le> length body" unfolding body by (simp add: crlf_def)
  have cr: "take 2 (drop (?p + length c) body) = crlf"
    unfolding body by (simp add: crlf_def)
  have "decode_chunked_from body (length pre) out
      = decode_chunked_from body (?p + length c + 2) (out @ take (length c) (drop ?p body))"
    using f sz le fits c cr by (subst decode_chunked_from.simps) (simp add: Let_def)
  moreover have "take (length c) (drop ?p body) = c" unfolding p by simp
  moreover have "?p + length c + 2 = length (pre @ encode_chunk c)"
    by (simp add: encode_chunk_def crlf_def)
  ultimately show ?thesis by metis
qed

lemma decode_encoded:
  assumes "body = pre @ encode_chunks cs" and "\<forall>c \<in> set cs. c \<noteq> []" and "length body \<le> usize_max"
  shows "decode_chunked_from body (length pre) out = Ret (Inr (out @ concat cs))"
  using assms
proof (induction cs arbitrary: pre out)
  case Nil
  have f: "find_sub (drop (length pre) body) crlf = Some (length ''0'')"
    using Nil(1) find_sub_crlf [of "''0''" crlf] by (simp add: encode_chunks_def CR_def)
  have "chunk_size (show_hex 0) = Inr 0" by (rule chunk_size_show_hex) simp
  moreover have "show_hex 0 = ''0''"
    by (subst show_hex.simps) (simp add: hex_lower_def char_of_def bit_iff_odd)
  ultimately have "chunk_size (take 1 (drop (length pre) body)) = Inr 0"
    using Nil(1) by (simp add: encode_chunks_def)
  with f show ?case by (subst decode_chunked_from.simps) simp
next
  case (Cons c cs)
  have b: "body = pre @ show_hex (length c) @ crlf @ c @ crlf @ encode_chunks cs"
    using Cons.prems(1) by (simp add: encode_chunks_def encode_chunk_def)
  have b': "body = (pre @ encode_chunk c) @ encode_chunks cs"
    using Cons.prems(1) by (simp add: encode_chunks_def)
  have "decode_chunked_from body (length pre) out
      = decode_chunked_from body (length (pre @ encode_chunk c)) (out @ c)"
    by (rule decode_chunk_step [OF b]) (use Cons.prems in auto)
  also have "\<dots> = Ret (Inr ((out @ c) @ concat cs))"
    by (rule Cons.IH [OF b']) (use Cons.prems in auto)
  finally show ?case by simp
qed

text \<open>The only panic of the decoder is the sum of a declared size and a position.\<close>

lemma decode_panic:
  "decode_chunked_from body pos out = Panic \<Longrightarrow>
     \<exists>p rel sz. find_sub (drop p body) crlf = Some rel
       \<and> chunk_size (take rel (drop p body)) = Inr sz \<and> p + rel + sz + 4 > usize_max"
proof (induction body pos out rule: decode_chunked_from.induct)
  case (1 body pos out)
  obtain rel where f: "find_sub (drop pos body) crlf = Some rel"
    using 1(2) by (subst (asm) decode_chunked_from.simps) (auto split: option.splits)
  obtain sz where c: "chunk_size (take rel (drop pos body)) = Inr sz"
    using 1(2) f by (subst (asm) decode_chunked_from.simps) (auto split: sum.splits)
  show ?case
  proof (cases "pos + rel + 2 + sz + 2 > usize_max")
    case True
    with f c show ?thesis by (intro exI conjI) (assumption+, simp)
  next
    case False
    have "decode_chunked_from body (pos + rel + 2 + sz + 2) (out @ take sz (drop (pos + rel + 2) body)) = Panic"
      using 1(2) f c False
      by (subst (asm) decode_chunked_from.simps) (auto simp: Let_def split: if_splits)
    moreover have "sz \<noteq> 0" "\<not> pos + rel + 2 + sz + 2 > length body"
        "take 2 (drop (pos + rel + 2 + sz) body) = crlf"
      using 1(2) f c False
      by (subst (asm) decode_chunked_from.simps, auto simp: Let_def split: if_splits)+
    ultimately show ?thesis using 1(1) [OF f c refl] False by blast
  qed
qed

section \<open>Lemmas on the loops\<close>

lemma write_all_prefix:
  "write_all_interruptible armed ts sent bytes = Some (r, sent', ts') \<Longrightarrow>
     \<exists>k. sent' = sent @ take k bytes \<and> (r = Inr () \<longrightarrow> length bytes \<le> k)"
proof (induction armed ts sent bytes rule: write_all_interruptible.induct)
  case (1 armed ts sent)
  then show ?case by auto
next
  case (2 armed sent b bs)
  then show ?case by simp
next
  case (3 armed t ts sent b bs)
  show ?case
  proof (cases "armed \<and> it_cancelled t \<or> it_remaining t = 0")
    case True
    with 3(3) show ?thesis by (auto split: if_splits intro: exI [of _ 0])
  next
    case False
    then have g: "\<not> (armed \<and> it_cancelled t)" "it_remaining t \<noteq> 0" by auto
    show ?thesis
    proof (cases "it_result t")
      case (Inl e)
      show ?thesis
      proof (cases "ioe_kind e = IOK_TimedOut \<or> ioe_kind e = IOK_WouldBlock")
        case True
        with 3(3) Inl g have "write_all_interruptible armed ts sent (b # bs) = Some (r, sent', ts')"
          by (auto split: if_splits)
        with 3(1) [OF g Inl True] show ?thesis by blast
      next
        case False
        with 3(3) Inl g show ?thesis by (auto intro: exI [of _ 0])
      qed
    next
      case (Inr n)
      show ?thesis
      proof (cases n)
        case 0
        with 3(3) Inr g show ?thesis by (auto intro: exI [of _ 0])
      next
        case (Suc m)
        with 3(3) Inr g have "write_all_interruptible armed ts (sent @ take n (b # bs)) (drop n (b # bs))
            = Some (r, sent', ts')" by auto
        with 3(2) [OF g] Inr Suc obtain k where
          k: "sent' = (sent @ take n (b # bs)) @ take k (drop n (b # bs))"
          "r = Inr () \<longrightarrow> length (drop n (b # bs)) \<le> k" by blast
        then have "sent' = sent @ take (n + k) (b # bs)" by (simp only: take_add append_assoc)
        moreover have "r = Inr () \<longrightarrow> length (b # bs) \<le> n + k" using k(2) by auto
        ultimately show ?thesis by blast
      qed
    qed
  qed
qed

lemma write_all_Ok: "write_all_interruptible armed ts sent bytes = Some (Inr (), sent', ts') \<Longrightarrow> sent' = sent @ bytes"
  using write_all_prefix by fastforce

lemma write_all_once:
  "bytes \<noteq> [] \<Longrightarrow> \<not> (armed \<and> it_cancelled t) \<Longrightarrow> it_remaining t \<noteq> 0 \<Longrightarrow> it_result t = Inr (length bytes) \<Longrightarrow>
     write_all_interruptible armed (t # ts) sent bytes = Some (Inr (), sent @ bytes, ts)"
  by (cases bytes) auto

lemma write_all_returns:
  "list_ex (\<lambda>t. it_remaining t = 0) ts \<Longrightarrow> write_all_interruptible armed ts sent bytes \<noteq> None"
  by (induction armed ts sent bytes rule: write_all_interruptible.induct)
    (auto split: sum.splits nat.splits)

lemma flush_returns: "list_ex (\<lambda>t. it_remaining t = 0) ts \<Longrightarrow> flush_interruptible armed ts \<noteq> None"
  by (induction armed ts rule: flush_interruptible.induct) (auto split: sum.splits unit.splits)

lemma read_loop_returns: "list_ex (\<lambda>t. it_remaining t = 0) ts \<Longrightarrow> read_loop c ts buf \<noteq> None"
proof (induction c ts buf rule: read_loop.induct)
  case (2 c t ts buf)
  show ?case
  proof (cases "it_remaining t = 0")
    case True
    then show ?thesis by (auto split: option.splits bool.splits)
  next
    case False
    with 2(3) have "list_ex (\<lambda>t. it_remaining t = 0) ts" by simp
    with 2(1,2) False show ?thesis by (auto split: option.splits bool.splits sum.splits list.splits)
  qed
qed simp

text \<open>What the buffer looks like when the read loop stops without an error.\<close>

lemma read_loop_buffered:
  "read_loop c ts buf = Some (Ret (Inr (Buffered out))) \<Longrightarrow> length out \<le> hc_max_body c"
proof (induction c ts buf rule: read_loop.induct)
  case (2 c t ts buf)
  then show ?case
    by (auto split: option.splits bool.splits sum.splits list.splits if_splits)
qed simp

lemma read_loop_early: "read_loop c ts buf = Some (Ret (Inr Early_Ok)) \<Longrightarrow> hc_success_on_reset_after_write c"
proof (induction c ts buf rule: read_loop.induct)
  case (2 c t ts buf)
  then show ?case
    by (auto split: option.splits bool.splits sum.splits list.splits if_splits)
qed simp

lemma decode_response_ok:
  assumes "decode_response c buf = Ret (Inr body)"
  shows "length body \<le> hc_max_body c \<and> (\<exists>st. parse_status buf = Inr st \<and> 200 \<le> unat st \<and> unat st < 300)"
  using assms unfolding decode_response_def io_bind_def
  by (auto split: io_run.splits sum.splits if_splits)

lemma send_body_Ok:
  "send_body c sk q sent = Some (Inr u, sent') \<Longrightarrow>
     sent' = sent @ (case hq_body q of None \<Rightarrow> [] | Some (_, bytes) \<Rightarrow> bytes)"
  unfolding send_body_def by (auto split: option.splits dest: write_all_Ok)

lemma send_request_Ok:
  assumes "send_request c sk q = Some (Inr u, sent)"
  shows "sent = request_head c q @ (case hq_body q of None \<Rightarrow> [] | Some (_, bytes) \<Rightarrow> bytes)"
proof -
  obtain s1 ts v where head:
    "write_all_interruptible (hc_cancel c) (sk_head sk) [] (request_head c q) = Some (Inr (), s1, ts)"
    and rest: "send_body c sk q s1 = Some (Inr v, sent)"
    using assms unfolding send_request_def
    by (auto split: sum.splits option.splits prod.splits)
  from write_all_Ok [OF head] send_body_Ok [OF rest] show ?thesis by simp
qed

lemma send_request_returns:
  assumes "list_ex (\<lambda>t. it_remaining t = 0) (sk_head sk)" and "list_ex (\<lambda>t. it_remaining t = 0) (sk_body sk)"
    and "list_ex (\<lambda>t. it_remaining t = 0) (sk_flush sk)"
  shows "send_request c sk q \<noteq> None"
proof -
  have "send_body c sk q sent \<noteq> None" for sent
    unfolding send_body_def by (simp add: write_all_returns [OF assms(2)] del: not_None_eq split: option.split)
  then show ?thesis
    unfolding send_request_def
    by (simp add: write_all_returns [OF assms(1)] flush_returns [OF assms(3)] del: not_None_eq
        split: sum.split option.split prod.split)
qed

lemma io_bind_okE:
  assumes "io_bind r f = Ret (Inr y)" obtains x where "r = Ret (Inr x)" and "f x = Ret (Inr y)"
proof (cases r)
  case Panic
  with assms show ?thesis by simp
next
  case (Ret s)
  with assms that show ?thesis by (cases s) simp_all
qed

lemma read_response_Ok:
  assumes "read_response c turns = Some (Ret (Inr body))"
  shows "(hc_success_on_reset_after_write c \<and> body = [])
      \<or> (\<exists>buf st. decode_response c buf = Ret (Inr body) \<and> parse_status buf = Inr st
           \<and> 200 \<le> unat st \<and> unat st < 300 \<and> length body \<le> hc_max_body c)"
proof -
  obtain e where e: "read_loop c turns [] = Some (Ret (Inr e))"
      "(case e of Early_Ok \<Rightarrow> Ret (Inr []) | Buffered buf \<Rightarrow> decode_response c buf) = Ret (Inr body)"
    using assms unfolding read_response_def by (auto elim: io_bind_okE)
  show ?thesis
  proof (cases e)
    case Early_Ok
    with e read_loop_early show ?thesis by auto
  next
    case (Buffered buf)
    with e decode_response_ok show ?thesis by auto
  qed
qed

lemma read_response_returns:
  "list_ex (\<lambda>t. it_remaining t = 0) turns \<Longrightarrow> read_response c turns \<noteq> None"
  by (simp add: read_response_def read_loop_returns)

lemma attempt_loop_spec:
  "attempt_loop once k n prev = (r, m) \<Longrightarrow> 0 < k \<Longrightarrow>
     k \<le> m + 1 \<and> m < k + n
   \<and> (\<forall>i. k \<le> i \<and> i < m \<longrightarrow> (\<exists>e. once i = Ret (Inl e) \<and> ioe_kind e \<noteq> IOK_Interrupted))
   \<and> (if m + 1 = k then n = 0 \<and> r = Ret (Inl prev) else once m = r)
   \<and> (m + 1 < k + n \<longrightarrow> r = Panic \<or> (\<exists>b. r = Ret (Inr b)) \<or> (\<exists>e. r = Ret (Inl e) \<and> ioe_kind e = IOK_Interrupted))"
proof (induction once k n prev rule: attempt_loop.induct)
  case (1 once k prev)
  then show ?case by auto
next
  case (2 once k left prev)
  show ?case
  proof (cases "\<exists>e. once k = Ret (Inl e) \<and> ioe_kind e \<noteq> IOK_Interrupted")
    case True
    then obtain e where e: "once k = Ret (Inl e)" "ioe_kind e \<noteq> IOK_Interrupted" by blast
    with 2(2) have "attempt_loop once (k + 1) left e = (r, m)" by simp
    from 2(1) [OF e(1) refl e(2) this]
    have IH: "k \<le> m" "m < k + 1 + left"
      "\<forall>i. k + 1 \<le> i \<and> i < m \<longrightarrow> (\<exists>e. once i = Ret (Inl e) \<and> ioe_kind e \<noteq> IOK_Interrupted)"
      "if m = k then left = 0 \<and> r = Ret (Inl e) else once m = r"
      "m < k + left \<longrightarrow> r = Panic \<or> (\<exists>b. r = Ret (Inr b)) \<or> (\<exists>e. r = Ret (Inl e) \<and> ioe_kind e = IOK_Interrupted)"
      by simp_all
    have "\<exists>e. once i = Ret (Inl e) \<and> ioe_kind e \<noteq> IOK_Interrupted" if "k \<le> i" "i < m" for i
      using IH(3) e that by (cases "i = k") auto
    moreover have "once m = r" using IH(4) e by (auto split: if_splits)
    ultimately show ?thesis using IH by auto
  next
    case False
    with 2(2,3) show ?thesis by (cases "once k") (auto split: sum.splits if_splits, metis)
  qed
qed

section \<open>Properties\<close>

text \<open>C30: a chunked response body survives decoding: the chunked encoding of any sequence of
  non-empty chunks, of any length that fits the address space, decodes to exactly their
  concatenation, without a panic.\<close>

theorem decode_chunked_inverts_encoding:
  assumes "\<forall>c \<in> set cs. c \<noteq> []" and "length (encode_chunks cs) \<le> usize_max"
  shows "decode_chunked (encode_chunks cs) = Ret (Inr (concat cs))"
  using decode_encoded [of "encode_chunks cs" "[]" cs "[]"] assms by (simp add: decode_chunked_def)

theorem decode_chunked_inverts_encoding_witness:
  "decode_chunked (encode_chunks [''hello'', '' world'']) = Ret (Inr ''hello world'')"
proof -
  have "length (encode_chunks [''hello'', '' world'']) \<le> usize_max"
    by (simp add: encode_chunks_def encode_chunk_def crlf_def show_hex.simps usize_max_def)
  from decode_chunked_inverts_encoding [OF _ this] show ?thesis by simp
qed

text \<open>The chunk decoder panics exactly when, on the way, a chunk declares a size that
  together with its position passes the largest \<open>usize\<close>; a body that starts with a maximal
  size line does panic, so a device can abort the daemon with sixteen hex digits.\<close>

lemma decode_chunked_panics_on_huge_size:
  "(decode_chunked body = Panic \<longrightarrow>
      (\<exists>p rel sz. find_sub (drop p body) crlf = Some rel
         \<and> chunk_size (take rel (drop p body)) = Inr sz \<and> p + rel + sz + 4 > usize_max))
 \<and> (\<forall>rest. decode_chunked (show_hex usize_max @ crlf @ rest) = Panic)"
proof (intro conjI allI impI)
  assume "decode_chunked body = Panic"
  then show "\<exists>p rel sz. find_sub (drop p body) crlf = Some rel
      \<and> chunk_size (take rel (drop p body)) = Inr sz \<and> p + rel + sz + 4 > usize_max"
    unfolding decode_chunked_def by (rule decode_panic)
next
  fix rest
  have "CR \<notin> set (show_hex usize_max)" by (rule alnum_not_in [OF show_hex_alnum]) simp
  then have "find_sub (show_hex usize_max @ crlf @ rest) crlf = Some (length (show_hex usize_max))"
    by (rule find_sub_crlf)
  moreover have "chunk_size (show_hex usize_max) = Inr usize_max" by (rule chunk_size_show_hex) simp
  moreover have "usize_max \<noteq> 0" by (simp add: usize_max_def)
  ultimately show "decode_chunked (show_hex usize_max @ crlf @ rest) = Panic"
    unfolding decode_chunked_def by (subst decode_chunked_from.simps) (simp add: Let_def)
qed

text \<open>One HTTP request. If it succeeds, the peer was handed exactly the request head
  followed by the whole body, and the result is either the body of a buffered response with a
  2xx status within the size limit, or empty because the device rebooted after the write on a
  client that was told to accept that.\<close>

lemma request_once_success:
  assumes "request_once c sk q = Some (Ret (Inr body), written)"
  shows "written = request_head c q @ (case hq_body q of None \<Rightarrow> [] | Some (_, bytes) \<Rightarrow> bytes)
       \<and> ((hc_success_on_reset_after_write c \<and> body = [])
          \<or> (\<exists>buf st. decode_response c buf = Ret (Inr body) \<and> parse_status buf = Inr st
               \<and> 200 \<le> unat st \<and> unat st < 300 \<and> length body \<le> hc_max_body c))"
proof -
  obtain u where send: "send_request c sk q = Some (Inr u, written)"
    and rd: "read_response c (sk_read sk) = Some (Ret (Inr body))"
    using assms unfolding request_once_def
    by (auto split: sum.splits option.splits prod.splits if_splits)
  from send_request_Ok [OF send] read_response_Ok [OF rd] show ?thesis by blast
qed

text \<open>One HTTP request returns by its deadline: when each of its I/O loops gets to a turn at
  which the clock shows no time left, the call has a result, whatever the peer does before.\<close>

lemma request_once_returns_by_deadline:
  assumes "list_ex (\<lambda>t. it_remaining t = 0) (sk_head sk)" and "list_ex (\<lambda>t. it_remaining t = 0) (sk_body sk)"
    and "list_ex (\<lambda>t. it_remaining t = 0) (sk_flush sk)" and "list_ex (\<lambda>t. it_remaining t = 0) (sk_read sk)"
  shows "\<exists>r. request_once c sk q = Some r"
proof -
  obtain x where x: "send_request c sk q = Some x" using send_request_returns [OF assms(1-3)] by blast
  obtain y where y: "read_response c (sk_read sk) = Some y" using read_response_returns [OF assms(4)] by blast
  show ?thesis
    unfolding request_once_def x y by (simp split: sum.split prod.split)
qed

text \<open>The retry loop makes at most \<open>retries + 1\<close> attempts; the result is that of the last
  attempt made, every earlier attempt failed with an error other than \<open>Interrupted\<close>, and it
  stops early only on success, on an interrupt (cancellation) or on a panic.\<close>

lemma http_request_retry_bounded:
  assumes "unat (hc_retries c) < 4294967295"
    and "http_request_retry c once = (r, m)"
  shows "1 \<le> m \<and> m \<le> unat (hc_retries c) + 1 \<and> once m = r
       \<and> (\<forall>i. 1 \<le> i \<and> i < m \<longrightarrow> (\<exists>e. once i = Ret (Inl e) \<and> ioe_kind e \<noteq> IOK_Interrupted))
       \<and> (m < unat (hc_retries c) + 1 \<longrightarrow>
            r = Panic \<or> (\<exists>b. r = Ret (Inr b)) \<or> (\<exists>e. r = Ret (Inl e) \<and> ioe_kind e = IOK_Interrupted))"
proof -
  have "attempt_loop once 1 (unat (hc_retries c) + 1) (io_err IOK_Other ''no attempt made'') = (r, m)"
    using assms by (simp add: http_request_retry_def)
  from attempt_loop_spec [OF this] show ?thesis by (auto split: if_splits)
qed

end
