(* ===== verification/Wp_Z21.thy ===== *)
theory Wp_Z21
  imports Wp_Core
begin

text \<open>
  The Z21 LAN client of \<open>crates/wp-link/src/z21.rs\<close>: record framing, candidate keys and
  labels, the merging of discovered hosts, and the LocoNet dispatch exchange over a UDP
  socket. The socket is a parameter: the list of what \<open>recv_from\<close> gives in the iterations
  that start before a phase's deadline; the end of the list is the deadline. The result of
  the exchange carries the datagrams that were sent, in order.
\<close>

section \<open>Framing\<close>

definition Z21_UDP_PORT :: u16 where
  "Z21_UDP_PORT = 21105"

definition HEADER_GET_SERIAL_NUMBER :: u16 where
  "HEADER_GET_SERIAL_NUMBER = 0x0010"

definition HEADER_LOGOFF :: u16 where
  "HEADER_LOGOFF = 0x0030"

definition HEADER_XBUS :: u16 where
  "HEADER_XBUS = 0x0040"

definition HEADER_LOCONET_DISPATCH_ADDR :: u16 where
  "HEADER_LOCONET_DISPATCH_ADDR = 0x00A3"

record z21_record =
  zr_header :: u16
  zr_data :: string

definition z21_encode :: "u16 \<Rightarrow> string \<Rightarrow> string" where
  "z21_encode header data =
     (let n = (if length data \<le> 65535 then length data else 65535);
          len = (of_nat (min (4 + n) 65535) :: u16)
      in u16_le_bytes len @ u16_le_bytes header @ data)"

definition serial_number_request :: string where
  "serial_number_request = z21_encode HEADER_GET_SERIAL_NUMBER []"

definition dispatch_addr_request :: "u16 \<Rightarrow> string" where
  "dispatch_addr_request loco = z21_encode HEADER_LOCONET_DISPATCH_ADDR (u16_le_bytes loco)"

definition logoff_request :: string where
  "logoff_request = z21_encode HEADER_LOGOFF []"

text \<open>The walk over the records of one datagram; the argument is the part not yet read.\<close>

function parse_records :: "string \<Rightarrow> z21_record list" where
  "parse_records buf =
     (if length buf < 4 then []
      else
        let data_len = unat (u16_from_le (buf ! 0) (buf ! 1));
            header = u16_from_le (buf ! 2) (buf ! 3)
        in if data_len < 4 then []
           else if data_len > length buf then []
           else \<lparr>zr_header = header, zr_data = drop 4 (take data_len buf)\<rparr>
                  # parse_records (drop data_len buf))"
  by pat_completeness auto
termination
  by (relation "measure length") auto

declare parse_records.simps [simp del]

definition parse_serial :: "string \<Rightarrow> u32 option" where
  "parse_serial data =
     (case data of a # b # c # d # _ \<Rightarrow> Some (u32_from_le a b c d) | _ \<Rightarrow> None)"

definition is_unknown_command :: "z21_record \<Rightarrow> bool" where
  "is_unknown_command r \<longleftrightarrow>
     zr_header r = HEADER_XBUS \<and> take 2 (zr_data r) = [CHR 0x61, CHR 0x82]"

definition parse_dispatch_reply :: "string \<Rightarrow> (u16 \<times> u8) option" where
  "parse_dispatch_reply data =
     (case data of a # b # c # _ \<Rightarrow> Some (u16_from_le a b, u8_of_char c) | _ \<Rightarrow> None)"

section \<open>Hosts\<close>

record z21_host =
  zh_hostname :: string
  zh_ipv4 :: ipv4
  zh_port :: u16
  zh_serial :: "u32 option"

definition z21_key :: "z21_host \<Rightarrow> string" where
  "z21_key h = show_ipv4 (zh_ipv4 h) @ '':'' @ show_nat (unat (zh_port h))"

definition z21_label :: "z21_host \<Rightarrow> string" where
  "z21_label h =
     (let addr = z21_key h in
      if zh_hostname h = [] \<or> zh_hostname h = addr then
        (case zh_serial h of
           Some s \<Rightarrow> ''Z21 '' @ addr @ '' (serial '' @ show_nat (unat s) @ '')''
         | None \<Rightarrow> ''Z21 '' @ addr)
      else
        (case zh_serial h of
           Some s \<Rightarrow> zh_hostname h @ '' ('' @ addr @ '', serial '' @ show_nat (unat s) @ '')''
         | None \<Rightarrow> zh_hostname h @ '' ('' @ addr @ '')''))"

definition normalize_key :: "string \<Rightarrow> string" where
  "normalize_key key =
     (if CHR '':'' \<in> set key then key else key @ '':'' @ show_nat (unat Z21_UDP_PORT))"

definition merge_host :: "z21_host \<Rightarrow> z21_host \<Rightarrow> z21_host" where
  "merge_host e h =
     e\<lparr>zh_hostname := (if zh_hostname e = [] then zh_hostname h else zh_hostname e),
       zh_serial := (if zh_serial e = None then zh_serial h else zh_serial e)\<rparr>"

fun push_host :: "z21_host list \<Rightarrow> z21_host \<Rightarrow> z21_host list" where
  "push_host [] h = [h]"
| "push_host (e # es) h =
     (if zh_ipv4 e = zh_ipv4 h \<and> zh_port e = zh_port h then merge_host e h # es
      else e # push_host es h)"

text \<open>The hosts of the serial replies in the datagrams of one broadcast probe.\<close>

type_synonym sock_addr = "ipv4 \<times> u16"

definition serial_hosts :: "sock_addr \<Rightarrow> string \<Rightarrow> z21_host list" where
  "serial_hosts from bytes =
     map (\<lambda>r. \<lparr>zh_hostname = [], zh_ipv4 = fst from, zh_port = snd from, zh_serial = parse_serial (zr_data r)\<rparr>)
       (filter (\<lambda>r. zr_header r = HEADER_GET_SERIAL_NUMBER) (parse_records bytes))"

datatype udp_recv = UR_From sock_addr string | UR_Err io_error

definition would_block :: "io_error \<Rightarrow> bool" where
  "would_block e \<longleftrightarrow> ioe_kind e = IOK_WouldBlock \<or> ioe_kind e = IOK_TimedOut"

fun probe_serial_broadcast :: "udp_recv list \<Rightarrow> z21_host list \<Rightarrow> io_error + z21_host list" where
  "probe_serial_broadcast [] found = Inr found"
| "probe_serial_broadcast (UR_From from bytes # ts) found =
     probe_serial_broadcast ts (fold (\<lambda>h f. push_host f h) (serial_hosts from bytes) found)"
| "probe_serial_broadcast (UR_Err e # ts) found =
     (if would_block e then probe_serial_broadcast ts found else Inl e)"

section \<open>Dispatch\<close>

datatype dispatch_outcome = DO_Slot u8 | DO_NoAck

datatype dispatch_error = DX_Unreachable string | DX_Rejected | DX_UnknownCommand | DX_Io string

fun dispatch_error_text :: "dispatch_error \<Rightarrow> string" where
  "dispatch_error_text (DX_Unreachable a) = ''device unreachable: '' @ a"
| "dispatch_error_text DX_Rejected = ''DISPATCH_PUT rejected''"
| "dispatch_error_text DX_UnknownCommand = ''z21 does not support LocoNet dispatch''"
| "dispatch_error_text (DX_Io e) = e"

text \<open>\<open>None\<close>: \<open>LAN_X_UNKNOWN_COMMAND\<close>; otherwise whether a serial reply has been seen.\<close>

fun serial_records :: "z21_record list \<Rightarrow> bool \<Rightarrow> bool option" where
  "serial_records [] alive = Some alive"
| "serial_records (r # rs) alive =
     (let alive' = (alive \<or> zr_header r = HEADER_GET_SERIAL_NUMBER)
      in if is_unknown_command r then None else serial_records rs alive')"

fun serial_phase :: "ipv4 \<Rightarrow> udp_recv list \<Rightarrow> dispatch_error + bool" where
  "serial_phase ip [] = Inr False"
| "serial_phase ip (UR_From from bytes # ts) =
     (if fst from = ip then
        (case serial_records (parse_records bytes) False of
           None \<Rightarrow> Inl DX_UnknownCommand
         | Some True \<Rightarrow> Inr True
         | Some False \<Rightarrow> serial_phase ip ts)
      else serial_phase ip ts)"
| "serial_phase ip (UR_Err e # ts) =
     (if would_block e then serial_phase ip ts else Inl (DX_Io (ioe_text e)))"

fun dispatch_records :: "u16 \<Rightarrow> z21_record list \<Rightarrow> (dispatch_error + dispatch_outcome) option" where
  "dispatch_records loco [] = None"
| "dispatch_records loco (r # rs) =
     (if is_unknown_command r then Some (Inl DX_UnknownCommand)
      else if zr_header r \<noteq> HEADER_LOCONET_DISPATCH_ADDR then dispatch_records loco rs
      else case parse_dispatch_reply (zr_data r) of
        None \<Rightarrow> dispatch_records loco rs
      | Some (addr, result) \<Rightarrow>
          if addr \<noteq> loco then dispatch_records loco rs
          else if result = 0 then Some (Inl DX_Rejected)
          else Some (Inr (DO_Slot result)))"

text \<open>\<open>None\<close>: the deadline passed without an answer.\<close>

fun dispatch_phase :: "ipv4 \<Rightarrow> u16 \<Rightarrow> udp_recv list \<Rightarrow> (dispatch_error + dispatch_outcome) option" where
  "dispatch_phase ip loco [] = None"
| "dispatch_phase ip loco (UR_From from bytes # ts) =
     (if fst from = ip then
        (case dispatch_records loco (parse_records bytes) of
           Some r \<Rightarrow> Some r
         | None \<Rightarrow> dispatch_phase ip loco ts)
      else dispatch_phase ip loco ts)"
| "dispatch_phase ip loco (UR_Err e # ts) =
     (if would_block e then dispatch_phase ip loco ts else Some (Inl (DX_Io (ioe_text e))))"

definition is_io_error :: "dispatch_error + 'a \<Rightarrow> bool" where
  "is_io_error r \<longleftrightarrow> (case r of Inl (DX_Io _) \<Rightarrow> True | _ \<Rightarrow> False)"

definition show_sock_addr :: "sock_addr \<Rightarrow> string" where
  "show_sock_addr a = show_ipv4 (fst a) @ '':'' @ show_nat (unat (snd a))"

definition dispatch_addr ::
    "sock_addr \<Rightarrow> u16 \<Rightarrow> udp_recv list \<Rightarrow> udp_recv list \<Rightarrow> (dispatch_error + dispatch_outcome) \<times> string list" where
  "dispatch_addr target loco serial_turns dispatch_turns =
     (case serial_phase (fst target) serial_turns of
        Inl e \<Rightarrow>
          (Inl e, [serial_number_request] @ (if e = DX_UnknownCommand then [logoff_request] else []))
      | Inr alive \<Rightarrow>
          let sent = [serial_number_request, dispatch_addr_request loco]
          in case dispatch_phase (fst target) loco dispatch_turns of
               Some r \<Rightarrow> (r, sent @ (if is_io_error r then [] else [logoff_request]))
             | None \<Rightarrow>
                 (if alive then Inr DO_NoAck else Inl (DX_Unreachable (show_sock_addr target)),
                  sent @ [logoff_request]))"

section \<open>Lemmas\<close>

lemma length_u16_le [simp]: "length (u16_le_bytes w) = 2"
  by (simp add: u16_le_bytes_def)

lemma u16_le_split: "\<exists>a b. u16_le_bytes w = [a, b] \<and> u16_from_le a b = w"
  using u16_le_roundtrip [of w] by (simp add: u16_le_bytes_def)

lemma unat_of_nat_u16: "n < 65536 \<Longrightarrow> unat (of_nat n :: u16) = n"
  by (simp only: unat_of_nat) simp

definition encode_record :: "z21_record \<Rightarrow> string" where
  "encode_record r = z21_encode (zr_header r) (zr_data r)"

lemma parse_encoded:
  assumes "length d \<le> 65531"
  shows "parse_records (z21_encode h d @ rest) = \<lparr>zr_header = h, zr_data = d\<rparr> # parse_records rest"
proof -
  have len: "unat (of_nat (min (4 + length d) 65535) :: u16) = 4 + length d"
    using assms by (subst unat_of_nat_u16) auto
  obtain a b where l: "u16_le_bytes (of_nat (min (4 + length d) 65535)) = [a, b]"
      "u16_from_le a b = of_nat (min (4 + length d) 65535)" using u16_le_split by blast
  obtain x y where hd: "u16_le_bytes h = [x, y]" "u16_from_le x y = h" using u16_le_split by blast
  have e: "z21_encode h d @ rest = a # b # x # y # d @ rest"
    using assms l hd by (simp add: z21_encode_def)
  have t: "take (4 + length d) (a # b # x # y # d @ rest) = a # b # x # y # d"
    "drop (4 + length d) (a # b # x # y # d @ rest) = rest" "drop 4 (a # b # x # y # d) = d"
    by (simp_all add: eval_nat_numeral)
  show ?thesis
    unfolding e using l(2) hd(2) len t by (subst parse_records.simps) (simp add: Let_def)
qed

text \<open>Rebuilding the two length bytes.\<close>

lemma u16_le_bytes_from: "u16_le_bytes (u16_from_le a b) = [a, b]"
proof -
  have ab: "byte a < 256" "byte b < 256" by simp_all
  then have "byte a + 256 * byte b < 65536" by linarith
  then have u: "unat (u16_from_le a b) = byte a + 256 * byte b"
    unfolding u16_from_le_def by (rule unat_of_nat_u16)
  from ab show ?thesis by (simp add: u16_le_bytes_def u)
qed

lemma parsed_prefix: "\<exists>rest. buf = concat (map encode_record (parse_records buf)) @ rest"
proof (induction buf rule: parse_records.induct)
  case (1 buf)
  let ?n = "unat (u16_from_le (buf ! 0) (buf ! 1))"
  let ?h = "u16_from_le (buf ! 2) (buf ! 3)"
  show ?case
  proof (cases "length buf < 4 \<or> ?n < 4 \<or> ?n > length buf")
    case True
    then have "parse_records buf = []" by (subst parse_records.simps) (auto simp: Let_def)
    then show ?thesis by simp
  next
    case False
    then have ok: "\<not> length buf < 4" "\<not> ?n < 4" "\<not> ?n > length buf" by auto
    obtain rest where rest: "drop ?n buf = concat (map encode_record (parse_records (drop ?n buf))) @ rest"
      using 1 [OF ok(1) refl refl ok(2,3)] by blast
    let ?d = "drop 4 (take ?n buf)"
    have n: "?n \<le> 65535" using unat_u16_less [of "u16_from_le (buf ! 0) (buf ! 1)"] by linarith
    have "length (take ?n buf) = ?n" using ok by simp
    then have d: "4 + length ?d = ?n" using ok(2) by simp
    then have len: "4 + length ?d = ?n" "length ?d \<le> 65535" "?n \<le> 65535" using n by linarith+
    have four: "take 4 buf = [buf ! 0, buf ! 1, buf ! 2, buf ! 3]"
    proof (rule nth_equalityI)
      show "length (take 4 buf) = length [buf ! 0, buf ! 1, buf ! 2, buf ! 3]" using ok(1) by simp
      fix i
      assume "i < length (take 4 buf)"
      then have "i = 0 \<or> i = 1 \<or> i = 2 \<or> i = 3" by auto
      then show "take 4 buf ! i = [buf ! 0, buf ! 1, buf ! 2, buf ! 3] ! i" by auto
    qed
    have "take ?n buf = take 4 (take ?n buf) @ ?d" by (rule append_take_drop_id [symmetric])
    also have "take 4 (take ?n buf) = take 4 buf" using ok by (simp add: min_def)
    finally have tk: "take ?n buf = take 4 buf @ ?d" .
    have "z21_encode ?h ?d = u16_le_bytes (u16_from_le (buf ! 0) (buf ! 1)) @ u16_le_bytes ?h @ ?d"
      using len by (simp add: z21_encode_def min_def)
    also have "\<dots> = take 4 buf @ ?d" by (simp add: u16_le_bytes_from four)
    finally have enc: "z21_encode ?h ?d = take ?n buf" using tk by simp
    have "parse_records buf = \<lparr>zr_header = ?h, zr_data = ?d\<rparr> # parse_records (drop ?n buf)"
      using ok by (subst parse_records.simps) (simp add: Let_def)
    then have "concat (map encode_record (parse_records buf)) @ rest = take ?n buf @ drop ?n buf"
      using enc rest by (simp add: encode_record_def)
    then show ?thesis by (metis append_take_drop_id)
  qed
qed

lemma dispatch_records_slot:
  "dispatch_records loco rs = Some (Inr o') \<Longrightarrow>
     \<exists>r \<in> set rs. \<exists>res. zr_header r = HEADER_LOCONET_DISPATCH_ADDR
       \<and> parse_dispatch_reply (zr_data r) = Some (loco, res) \<and> res \<noteq> 0 \<and> o' = DO_Slot res"
  by (induction rs) (auto split: if_splits option.splits)

lemma dispatch_phase_slot:
  "dispatch_phase ip loco ts = Some (Inr o') \<Longrightarrow>
     \<exists>from bytes. UR_From from bytes \<in> set ts \<and> fst from = ip
       \<and> (\<exists>r \<in> set (parse_records bytes). \<exists>res. zr_header r = HEADER_LOCONET_DISPATCH_ADDR
            \<and> parse_dispatch_reply (zr_data r) = Some (loco, res) \<and> res \<noteq> 0 \<and> o' = DO_Slot res)"
proof (induction ip loco ts rule: dispatch_phase.induct)
  case (2 ip loco "from" bytes ts)
  show ?case
  proof (cases "fst from = ip \<and> dispatch_records loco (parse_records bytes) \<noteq> None")
    case True
    then have "dispatch_records loco (parse_records bytes) = Some (Inr o')" using 2(3) by auto
    from dispatch_records_slot [OF this] True show ?thesis
      by (intro exI [of _ "from"] exI [of _ bytes]) auto
  next
    case False
    with 2(3) have "dispatch_phase ip loco ts = Some (Inr o')" by (auto split: option.splits if_splits)
    with 2(1,2) False show ?thesis by fastforce
  qed
qed (auto split: if_splits)

lemma serial_phase_alive:
  "serial_phase ip ts = Inr True \<Longrightarrow>
     \<exists>from bytes. UR_From from bytes \<in> set ts \<and> fst from = ip
       \<and> (\<exists>r \<in> set (parse_records bytes). zr_header r = HEADER_GET_SERIAL_NUMBER)"
proof (induction ip ts rule: serial_phase.induct)
  case (2 ip "from" bytes ts)
  have alive: "serial_records rs a = Some True \<Longrightarrow> a \<or> (\<exists>r \<in> set rs. zr_header r = HEADER_GET_SERIAL_NUMBER)"
    for rs a by (induction rs arbitrary: a) (auto simp: Let_def split: if_splits)
  show ?case
  proof (cases "fst from = ip \<and> serial_records (parse_records bytes) False = Some True")
    case True
    with alive [of "parse_records bytes" False] show ?thesis
      by (intro exI [of _ "from"] exI [of _ bytes]) auto
  next
    case False
    with 2(3) have "serial_phase ip ts = Inr True" by (auto split: option.splits if_splits bool.splits)
    with 2(1,2) False 2(3) show ?thesis by (fastforce split: option.splits if_splits bool.splits)
  qed
qed (auto split: if_splits)

section \<open>Properties\<close>

text \<open>C38: Z21 record framing round trips: any sequence of records whose data fits the 16-bit
  length (65531 bytes) parses back from its concatenated encoding; and whatever datagram
  arrives, the records parsed from it re-encode to a prefix of the datagram, so a truncated or
  malformed tail yields no record.\<close>

theorem z21_records_roundtrip:
  "(list_all (\<lambda>r. length (zr_data r) \<le> 65531) rs \<longrightarrow> parse_records (concat (map encode_record rs)) = rs)
 \<and> (\<exists>rest. buf = concat (map encode_record (parse_records buf)) @ rest)"
proof
  show "list_all (\<lambda>r. length (zr_data r) \<le> 65531) rs \<longrightarrow> parse_records (concat (map encode_record rs)) = rs"
  proof (induction rs)
    case Nil
    then show ?case by (simp add: parse_records.simps)
  next
    case (Cons r rs)
    then show ?case by (cases r) (simp add: encode_record_def parse_encoded)
  qed
  show "\<exists>rest. buf = concat (map encode_record (parse_records buf)) @ rest" by (rule parsed_prefix)
qed

theorem z21_records_roundtrip_witness:
  "parse_records (encode_record \<lparr>zr_header = HEADER_LOGOFF, zr_data = ''ab''\<rparr>)
     = [\<lparr>zr_header = HEADER_LOGOFF, zr_data = ''ab''\<rparr>]"
  using z21_records_roundtrip [of "[\<lparr>zr_header = HEADER_LOGOFF, zr_data = ''ab''\<rparr>]" "[]"] by simp

text \<open>C37: the outcome of a LocoNet dispatch. A slot is reported only for a reply from the target
  address that names the requested locomotive with a non-zero result; \<open>NoAck\<close> only after the
  target answered the serial probe; and unless a socket error ended the exchange, the last
  datagram sent is the logoff, so every session that was opened is closed.\<close>

theorem dispatch_addr_outcome:
  assumes "dispatch_addr target loco serial_turns dispatch_turns = (r, sent)"
  shows "(\<forall>slot. r = Inr (DO_Slot slot) \<longrightarrow>
            sent = [serial_number_request, dispatch_addr_request loco, logoff_request]
          \<and> (\<exists>from bytes rec. UR_From from bytes \<in> set dispatch_turns \<and> fst from = fst target
               \<and> rec \<in> set (parse_records bytes) \<and> zr_header rec = HEADER_LOCONET_DISPATCH_ADDR
               \<and> parse_dispatch_reply (zr_data rec) = Some (loco, slot) \<and> slot \<noteq> 0))
       \<and> (r = Inr DO_NoAck \<longrightarrow>
            (\<exists>from bytes rec. UR_From from bytes \<in> set serial_turns \<and> fst from = fst target
               \<and> rec \<in> set (parse_records bytes) \<and> zr_header rec = HEADER_GET_SERIAL_NUMBER))
       \<and> hd sent = serial_number_request
       \<and> (is_io_error r \<or> last sent = logoff_request)"
proof (cases "serial_phase (fst target) serial_turns")
  case (Inl e)
  then have r: "r = Inl e" "sent = [serial_number_request] @ (if e = DX_UnknownCommand then [logoff_request] else [])"
    using assms by (simp_all add: dispatch_addr_def)
  have "serial_phase ip ts = Inl x \<Longrightarrow> x = DX_UnknownCommand \<or> (\<exists>t. x = DX_Io t)" for ip ts x
    by (induction ip ts rule: serial_phase.induct) (auto split: if_splits option.splits bool.splits)
  from this [OF Inl] r show ?thesis by (auto simp: is_io_error_def)
next
  case (Inr alive)
  show ?thesis
  proof (cases "dispatch_phase (fst target) loco dispatch_turns")
    case None
    with Inr assms have "r = (if alive then Inr DO_NoAck else Inl (DX_Unreachable (show_sock_addr target)))"
        "sent = [serial_number_request, dispatch_addr_request loco, logoff_request]"
      by (auto simp: dispatch_addr_def Let_def)
    with Inr serial_phase_alive show ?thesis by (auto split: if_splits) blast
  next
    case (Some q)
    with Inr assms have r: "r = q"
        "sent = [serial_number_request, dispatch_addr_request loco] @ (if is_io_error r then [] else [logoff_request])"
      by (auto simp: dispatch_addr_def Let_def)
    have slot: "\<exists>from bytes rec. UR_From from bytes \<in> set dispatch_turns \<and> fst from = fst target
        \<and> rec \<in> set (parse_records bytes) \<and> zr_header rec = HEADER_LOCONET_DISPATCH_ADDR
        \<and> parse_dispatch_reply (zr_data rec) = Some (loco, s) \<and> s \<noteq> 0"
      if "q = Inr (DO_Slot s)" for s
      using dispatch_phase_slot [of "fst target" loco dispatch_turns] Some that by fastforce
    have "q \<noteq> Inr DO_NoAck" using dispatch_phase_slot [of "fst target" loco dispatch_turns] Some by fastforce
    with slot r show ?thesis by (auto simp: is_io_error_def)
  qed
qed

theorem dispatch_addr_outcome_witness:
  "last (snd (dispatch_addr ([10, 0, 0, 2], 21105) 42 [] [])) = logoff_request"
proof -
  have run: "dispatch_addr ([10, 0, 0, 2], 21105) 42 [] []
      = (Inl (DX_Unreachable (show_sock_addr ([10, 0, 0, 2], 21105))),
         [serial_number_request, dispatch_addr_request 42, logoff_request])"
    by (simp add: dispatch_addr_def)
  from dispatch_addr_outcome [OF run] show ?thesis by (simp add: run is_io_error_def)
qed

end
