(* ===== verification/Wp_Fake.thy ===== *)
theory Wp_Fake
  imports Wp_Http Wp_Z21
begin

text \<open>
  The device mocks of \<open>crates/wp-fake\<close> that need no model of their own: the contract of
  \<open>device.rs\<close>, the HTTP server of \<open>server.rs\<close>, the composite and the RB23xx mock, and the UDP
  loop of the Z21 mock. A connection is the list of what its reads give (no bytes: end of
  stream); \<open>None\<close> as a result means that a read never returned.
\<close>

section \<open>Devices\<close>

record fake_request =
  fq_method :: string
  fq_path :: string
  fq_body :: "string option"

record fake_response =
  fr_status :: u16
  fr_content_type :: string
  fr_body :: string
  fr_drop :: bool

definition ok_text :: "string \<Rightarrow> fake_response" where
  "ok_text body = \<lparr>fr_status = 200, fr_content_type = ''text/plain'', fr_body = body, fr_drop = False\<rparr>"

definition ok_xml :: "string \<Rightarrow> fake_response" where
  "ok_xml body = \<lparr>fr_status = 200, fr_content_type = ''text/html'', fr_body = body, fr_drop = False\<rparr>"

definition ok_json :: "string \<Rightarrow> fake_response" where
  "ok_json body = \<lparr>fr_status = 200, fr_content_type = ''application/json'', fr_body = body, fr_drop = False\<rparr>"

definition not_found :: fake_response where
  "not_found = \<lparr>fr_status = 404, fr_content_type = ''text/plain'', fr_body = ''not found'', fr_drop = False\<rparr>"

definition bad_request :: "string \<Rightarrow> fake_response" where
  "bad_request body = \<lparr>fr_status = 400, fr_content_type = ''text/plain'', fr_body = body, fr_drop = False\<rparr>"

definition drop_without_reply :: fake_response where
  "drop_without_reply = \<lparr>fr_status = 200, fr_content_type = ''text/plain'', fr_body = [], fr_drop = True\<rparr>"

type_synonym 's fake_handler = "fake_request \<Rightarrow> 's \<Rightarrow> fake_response \<times> 's"

text \<open>
  \<open>CompositeFakeDevice\<close>: the devices are asked in turn until one does not answer 404;
  \<open>handle\<close> is the method of the trait object, whose state is a value of type \<open>'s\<close>.
\<close>

fun composite_handle :: "'s fake_handler \<Rightarrow> 's list fake_handler" where
  "composite_handle handle q [] = (not_found, [])"
| "composite_handle handle q (s # ss) =
     (case handle q s of (resp, s') \<Rightarrow>
        if fr_status resp \<noteq> 404 then (resp, s' # ss)
        else (case composite_handle handle q ss of (r, ss') \<Rightarrow> (r, s' # ss')))"

text \<open>
  What the composite relies on when it goes on to the next device: one that answers
  404 has not changed.
\<close>

locale fake_device =
  fixes handle :: "'s fake_handler"
  assumes unclaimed_unchanged: "fr_status (fst (handle q s)) = 404 \<Longrightarrow> snd (handle q s) = s"
begin

lemma composite_unclaimed:
  "fr_status (fst (composite_handle handle q ss)) = 404 \<Longrightarrow> snd (composite_handle handle q ss) = ss"
proof (induction ss)
  case (Cons s ss)
  then show ?case using unclaimed_unchanged [of q s] by (auto split: prod.splits if_splits)
qed simp

lemma composite_first:
  assumes "\<forall>t \<in> set before. fr_status (fst (handle q t)) = 404" and "fr_status (fst (handle q s)) \<noteq> 404"
  shows "composite_handle handle q (before @ s # after) =
           (fst (handle q s), before @ snd (handle q s) # after)"
  using assms
proof (induction before)
  case (Cons t ts)
  then show ?case using unclaimed_unchanged [of q t] by (auto split: prod.splits)
qed (auto split: prod.split)

text \<open>So the composite is a device of the same kind.\<close>

lemma composite_fake_device: "fake_device (composite_handle handle)"
  by unfold_locales (rule composite_unclaimed)

end

section \<open>RB23xx\<close>

type_synonym rb23xx_fake = "nat option"

definition rb23xx_new :: rb23xx_fake where
  "rb23xx_new = None"

text \<open>\<open>split_once('?')\<close> with the whole path and no query as the default.\<close>

definition path_and_query :: "string \<Rightarrow> string \<times> string" where
  "path_and_query p = (case split_once (CHR ''?'') p of None \<Rightarrow> (p, []) | Some pq \<Rightarrow> pq)"

definition rb23xx_handle :: "rb23xx_fake fake_handler" where
  "rb23xx_handle q last_upload =
     (case path_and_query (fq_path q) of (path, query) \<Rightarrow>
        if fq_method q = ''GET'' \<and> path = ''/'' \<and> starts_with query ''p=/''
        then (ok_xml ''<html>files</html>'', last_upload)
        else if fq_method q = ''POST'' \<and> path = ''/upload''
        then (let n = (case fq_body q of None \<Rightarrow> 0 | Some b \<Rightarrow> length b) in
              if n = 0 then (bad_request ''empty'', last_upload) else (drop_without_reply, Some n))
        else (not_found, last_upload))"

interpretation rb: fake_device rb23xx_handle
  by unfold_locales (auto simp: rb23xx_handle_def bad_request_def drop_without_reply_def ok_xml_def Let_def
      split: prod.splits if_splits option.splits)

section \<open>The HTTP server\<close>

definition MAX_HEADER :: nat where
  "MAX_HEADER = 64 * 1024"

datatype header_end =
  HE_Closed
| HE_Error io_error
| HE_Found nat string "(io_error + string) list"

text \<open>Reading until the blank line; the rest of the script is for the body.\<close>

fun read_header :: "(io_error + string) list \<Rightarrow> string \<Rightarrow> header_end option" where
  "read_header [] buf = None"
| "read_header (Inl e # rs) buf = Some (HE_Error e)"
| "read_header (Inr chunk # rs) buf =
     (if chunk = [] then Some HE_Closed
      else let buf' = buf @ chunk in
        case find_sub buf' (crlf @ crlf) of
          Some i \<Rightarrow> Some (HE_Found i buf' rs)
        | None \<Rightarrow>
            if length buf' > MAX_HEADER
            then Some (HE_Error (io_err IOK_InvalidData ''HTTP headers too large''))
            else read_header rs buf')"

text \<open>The last \<open>Content-Length\<close> line decides; one that is no number counts as 0.\<close>

definition length_of_line :: "string \<Rightarrow> nat \<Rightarrow> nat" where
  "length_of_line line n =
     (let lower = to_ascii_lowercase line; key = ''content-length:'' in
      if starts_with lower key
      then (case parse_usize 10 (trim (drop (length key) lower)) of None \<Rightarrow> 0 | Some k \<Rightarrow> k)
      else n)"

definition parse_head :: "string \<Rightarrow> io_error + string \<times> string \<times> nat" where
  "parse_head header =
     (let ls = split_crlf header in
      case split_whitespace (hd ls) of
        [] \<Rightarrow> Inl (io_err IOK_InvalidData ''missing method'')
      | [m] \<Rightarrow> Inl (io_err IOK_InvalidData ''missing path'')
      | m # p # _ \<Rightarrow> Inr (m, p, fold length_of_line (tl ls) 0))"

fun read_body :: "nat \<Rightarrow> (io_error + string) list \<Rightarrow> string \<Rightarrow> (io_error + string) option" where
  "read_body need rs buf =
     (if length buf \<ge> need then Some (Inr buf)
      else case rs of
        [] \<Rightarrow> None
      | Inl e # rs' \<Rightarrow> Some (Inl e)
      | Inr chunk # rs' \<Rightarrow> if chunk = [] then Some (Inr buf) else read_body need rs' (buf @ chunk))"

declare read_body.simps [simp del]

definition reason_phrase :: "u16 \<Rightarrow> string" where
  "reason_phrase status = (if status = 200 then ''OK'' else if status = 404 then ''Not Found'' else ''Error'')"

definition response_bytes :: "fake_response \<Rightarrow> string" where
  "response_bytes r =
     ''HTTP/1.1 '' @ show_nat (unat (fr_status r)) @ '' '' @ reason_phrase (fr_status r) @ crlf
     @ ''Content-Type: '' @ fr_content_type r @ crlf
     @ ''Content-Length: '' @ show_nat (length (fr_body r)) @ crlf
     @ ''Connection: close'' @ crlf @ crlf @ fr_body r"

text \<open>
  \<open>handle_connection\<close>: the bytes written to the peer, or the error that ends the task. The sum of
  the body's start and its length is computed in \<open>usize\<close>.
\<close>

definition serve_request ::
    "'s fake_handler \<Rightarrow> nat \<Rightarrow> string \<Rightarrow> (io_error + string) list \<Rightarrow> 's \<Rightarrow> (string io_run \<times> 's) option" where
  "serve_request h pos buf rs s =
     (case from_utf8 (take pos buf) of
        None \<Rightarrow> Some (Ret (Inl (io_err IOK_InvalidData ''invalid utf-8'')), s)
      | Some header \<Rightarrow>
          (case parse_head header of
             Inl e \<Rightarrow> Some (Ret (Inl e), s)
           | Inr (m, p, n) \<Rightarrow>
               let start = pos + 4 in
               if start + n > usize_max then Some (Panic, s)
               else (case read_body (start + n) rs buf of
                       None \<Rightarrow> None
                     | Some (Inl e) \<Rightarrow> Some (Ret (Inl e), s)
                     | Some (Inr full) \<Rightarrow>
                         let body = (if n > 0 then Some (take n (drop start full)) else None);
                             (resp, s') = h \<lparr>fq_method = m, fq_path = p, fq_body = body\<rparr> s
                         in Some (Ret (Inr (if fr_drop resp then [] else response_bytes resp)), s'))))"

definition handle_connection ::
    "'s fake_handler \<Rightarrow> (io_error + string) list \<Rightarrow> 's \<Rightarrow> (string io_run \<times> 's) option" where
  "handle_connection h reads s =
     (case read_header reads [] of
        None \<Rightarrow> None
      | Some HE_Closed \<Rightarrow> Some (Ret (Inr []), s)
      | Some (HE_Error e) \<Rightarrow> Some (Ret (Inl e), s)
      | Some (HE_Found pos buf rs) \<Rightarrow> serve_request h pos buf rs s)"

section \<open>The Z21 mock\<close>

datatype fake_z21_mode = ZM_Accept | ZM_Reject | ZM_UnknownCommand | ZM_NoAck

definition FAKE_SERIAL :: u32 where
  "FAKE_SERIAL = 0x00C0FFEE"

text \<open>The answer to one record, and the count of dispatches (a byte that wraps).\<close>

definition fake_loco :: "string \<Rightarrow> string" where
  "fake_loco d = (if length d \<ge> 2 then take 2 d else u16_le_bytes 0)"

fun fake_dispatch_reply :: "fake_z21_mode \<Rightarrow> string \<Rightarrow> string option" where
  "fake_dispatch_reply ZM_Accept d = Some (z21_encode HEADER_LOCONET_DISPATCH_ADDR (fake_loco d @ [CHR 0x03]))"
| "fake_dispatch_reply ZM_Reject d = Some (z21_encode HEADER_LOCONET_DISPATCH_ADDR (fake_loco d @ [CHR 0x00]))"
| "fake_dispatch_reply ZM_UnknownCommand d = Some (z21_encode HEADER_XBUS [CHR 0x61, CHR 0x82, CHR 0xE3])"
| "fake_dispatch_reply ZM_NoAck d = None"

definition fake_z21_record :: "fake_z21_mode \<Rightarrow> z21_record \<Rightarrow> string option" where
  "fake_z21_record mode r =
     (if zr_header r = HEADER_GET_SERIAL_NUMBER
      then Some (z21_encode HEADER_GET_SERIAL_NUMBER (u32_le_bytes FAKE_SERIAL))
      else if zr_header r = HEADER_LOCONET_DISPATCH_ADDR then fake_dispatch_reply mode (zr_data r)
      else None)"

text \<open>A received datagram: the datagrams sent back, in order.\<close>

definition fake_z21_replies :: "fake_z21_mode \<Rightarrow> string \<Rightarrow> string list" where
  "fake_z21_replies mode datagram = List.map_filter (fake_z21_record mode) (parse_records datagram)"

definition fake_z21_count :: "string \<Rightarrow> u8 \<Rightarrow> u8" where
  "fake_z21_count datagram n =
     n + of_nat (length (filter (\<lambda>r. zr_header r = HEADER_LOCONET_DISPATCH_ADDR) (parse_records datagram)))"

end
