(* ===== verification/Wp_WiFred.thy ===== *)
theory Wp_WiFred
  imports Wp_Http
begin

text \<open>
  The NewHeiko WiFred driver (\<open>crates/wp-drivers/src/wifred\<close>): discovery by SSID prefix, the
  collection of the configuration page from the events of an XML reader, the read-back
  verification and the write sequence. The reader is the \<open>quick-xml\<close> crate and a parameter
  here: \<open>xl_events\<close> gives the events of a text up to its end or to the error that stops it,
  each element with its attributes in order and each attribute with its unescaped value, if
  it has one.
\<close>

section \<open>Constants, discovery, capabilities\<close>

definition WIFRED_SSID_PREFIX :: string where
  "WIFRED_SSID_PREFIX = ''wiFred-config''"

definition STRUCTURE_VERSION :: string where
  "STRUCTURE_VERSION = ''1''"

definition wifred_identify :: "'j observation \<Rightarrow> device_candidate option" where
  "wifred_identify obs =
     (case ob_ssid obs of
        None \<Rightarrow> None
      | Some ssid \<Rightarrow>
          if \<not> starts_with ssid WIFRED_SSID_PREFIX then None
          else Some \<lparr>dc_driver = ''wifred'',
                     dc_key = (case ob_bssid obs of Some b \<Rightarrow> b | None \<Rightarrow> ssid),
                     dc_label = ssid, dc_rssi = ob_rssi obs\<rparr>)"

definition wifred_filters :: "string list" where
  "wifred_filters = [WIFRED_SSID_PREFIX]"

definition wifred_capabilities :: driver_capabilities where
  "wifred_capabilities =
     \<lparr>dcap_max_roster_slots = 4, dcap_max_function_index = 16, dcap_identity_format = IF_Digits 6,
      dcap_supports_throttle_server = True, dcap_commissioning = CK_SoftAp,
      dcap_commissioning_net = None, dcap_softap_psk = None, dcap_firmware = None\<rparr>"

definition wifred_validate :: "program_request \<Rightarrow> validation_error + unit" where
  "wifred_validate req = validate_common wifred_capabilities req"

section \<open>The configuration page\<close>

record function_entry =
  fe_index :: u8
  fe_value :: u8

record loco_config =
  lc_id :: "u8 option"
  lc_address :: int
  lc_mode :: "string option"
  lc_direction :: "u8 option"
  lc_long_address :: "bool option"
  lc_functions :: "function_entry list"

record network_config =
  nc_ssid :: string
  nc_key :: "string option"
  nc_enabled :: bool

record loco_server_config =
  ls_name :: string
  ls_port :: u16
  ls_automatic :: bool

record device_config =
  dcf_structure_version :: "string option"
  dcf_throttle_name :: "string option"
  dcf_firmware_revision :: "string option"
  dcf_battery_mv :: "u32 option"
  dcf_locos :: "loco_config list"
  dcf_networks :: "network_config list"
  dcf_loco_server :: "loco_server_config option"

definition device_config_default :: device_config where
  "device_config_default =
     \<lparr>dcf_structure_version = None, dcf_throttle_name = None, dcf_firmware_revision = None,
      dcf_battery_mv = None, dcf_locos = [], dcf_networks = [], dcf_loco_server = None\<rparr>"

record xml_elem =
  el_name :: string
  el_attrs :: "(string \<times> string option) list"

datatype xml_event = XE_Start xml_elem | XE_Empty xml_elem | XE_End string | XE_Other

record xml_lib =
  xl_events :: "string \<Rightarrow> xml_event list \<times> string option"
  xl_utf8_error :: "string \<Rightarrow> string"

text \<open>The first attribute of the name decides, whether or not its value can be unescaped.\<close>

definition attr_str :: "xml_elem \<Rightarrow> string \<Rightarrow> string option" where
  "attr_str e name = (case map_of (el_attrs e) name of None \<Rightarrow> None | Some v \<Rightarrow> v)"

definition attr_u8 :: "xml_elem \<Rightarrow> string \<Rightarrow> u8 option" where
  "attr_u8 e name = Option.bind (attr_str e name) (\<lambda>s. parse_u8 (trim s))"

definition attr_u16 :: "xml_elem \<Rightarrow> string \<Rightarrow> u16 option" where
  "attr_u16 e name = Option.bind (attr_str e name) (\<lambda>s. parse_u16 (trim s))"

definition attr_u32 :: "xml_elem \<Rightarrow> string \<Rightarrow> u32 option" where
  "attr_u32 e name = Option.bind (attr_str e name) (\<lambda>s. parse_u32 (trim s))"

definition attr_i64 :: "xml_elem \<Rightarrow> string \<Rightarrow> int option" where
  "attr_i64 e name = Option.bind (attr_str e name) (\<lambda>s. parse_i64 (trim s))"

definition attr_bool :: "xml_elem \<Rightarrow> string \<Rightarrow> bool option" where
  "attr_bool e name = Option.bind (attr_str e name) (\<lambda>s.
     if trim s \<in> {''1'', ''true''} then Some True
     else if trim s \<in> {''0'', ''false''} then Some False else None)"

definition opt_default :: "'a \<Rightarrow> 'a option \<Rightarrow> 'a" where
  "opt_default d x = (case x of None \<Rightarrow> d | Some v \<Rightarrow> v)"

record xml_state =
  xs_cfg :: device_config
  xs_loco :: "loco_config option"
  xs_net :: "network_config option"
  xs_in_functions :: bool

definition default_loco :: "u8 option \<Rightarrow> loco_config" where
  "default_loco n =
     \<lparr>lc_id = n, lc_address = -1, lc_mode = None, lc_direction = None, lc_long_address = None,
      lc_functions = []\<rparr>"

definition handle_element :: "xml_elem \<Rightarrow> xml_state \<Rightarrow> xml_state" where
  "handle_element e s =
     (let n = el_name e; cfg = xs_cfg s in
      if n = ''structurVersion'' then s\<lparr>xs_cfg := cfg\<lparr>dcf_structure_version := attr_str e ''value''\<rparr>\<rparr>
      else if n = ''throttleName'' then s\<lparr>xs_cfg := cfg\<lparr>dcf_throttle_name := attr_str e ''value''\<rparr>\<rparr>
      else if n = ''firmwareRevision'' then
        s\<lparr>xs_cfg := cfg\<lparr>dcf_firmware_revision := attr_str e ''value''\<rparr>\<rparr>
      else if n = ''batteryVoltage'' then s\<lparr>xs_cfg := cfg\<lparr>dcf_battery_mv := attr_u32 e ''value''\<rparr>\<rparr>
      else if n = ''LOCO'' then s\<lparr>xs_loco := Some (default_loco (attr_u8 e ''ID''))\<rparr>
      else if n = ''DCCadress'' then
        s\<lparr>xs_loco := map_option (\<lambda>l. l\<lparr>lc_address := opt_default (-1) (attr_i64 e ''value'')\<rparr>) (xs_loco s)\<rparr>
      else if n = ''Mode'' then
        s\<lparr>xs_loco := map_option (\<lambda>l. l\<lparr>lc_mode := attr_str e ''value''\<rparr>) (xs_loco s)\<rparr>
      else if n = ''Direction'' then
        s\<lparr>xs_loco := map_option (\<lambda>l. l\<lparr>lc_direction := attr_u8 e ''value''\<rparr>) (xs_loco s)\<rparr>
      else if n = ''LongAdress'' then
        s\<lparr>xs_loco := map_option (\<lambda>l. l\<lparr>lc_long_address := attr_bool e ''value''\<rparr>) (xs_loco s)\<rparr>
      else if n = ''FUNCTIONS'' then s\<lparr>xs_in_functions := True\<rparr>
      else if n = ''Function'' then
        (if xs_in_functions s then
           s\<lparr>xs_loco := map_option (\<lambda>l. l\<lparr>lc_functions := lc_functions l @
               [\<lparr>fe_index = opt_default 0 (attr_u8 e ''ID''),
                 fe_value = opt_default 0 (attr_u8 e ''value'')\<rparr>]\<rparr>) (xs_loco s)\<rparr>
         else s)
      else if n = ''NETWORK'' then
        s\<lparr>xs_net := Some \<lparr>nc_ssid = [], nc_key = None, nc_enabled = False\<rparr>\<rparr>
      else if n = ''SSID'' then
        s\<lparr>xs_net := map_option (\<lambda>w. w\<lparr>nc_ssid := opt_default [] (attr_str e ''value'')\<rparr>) (xs_net s)\<rparr>
      else if n = ''Key'' then
        s\<lparr>xs_net := map_option (\<lambda>w. w\<lparr>nc_key := attr_str e ''value''\<rparr>) (xs_net s)\<rparr>
      else if n = ''Enabled'' then
        s\<lparr>xs_net := map_option (\<lambda>w. w\<lparr>nc_enabled := opt_default False (attr_bool e ''value'')\<rparr>) (xs_net s)\<rparr>
      else if n = ''ServerName'' then
        s\<lparr>xs_cfg := cfg\<lparr>dcf_loco_server :=
            Some ((opt_default \<lparr>ls_name = [], ls_port = 0, ls_automatic = False\<rparr> (dcf_loco_server cfg))
                    \<lparr>ls_name := opt_default [] (attr_str e ''value'')\<rparr>)\<rparr>\<rparr>
      else if n = ''Port'' then
        s\<lparr>xs_cfg := cfg\<lparr>dcf_loco_server :=
            map_option (\<lambda>v. v\<lparr>ls_port := opt_default 0 (attr_u16 e ''value'')\<rparr>) (dcf_loco_server cfg)\<rparr>\<rparr>
      else if n = ''Automatic'' then
        s\<lparr>xs_cfg := cfg\<lparr>dcf_loco_server :=
            map_option (\<lambda>v. v\<lparr>ls_automatic := opt_default False (attr_bool e ''value'')\<rparr>)
              (dcf_loco_server cfg)\<rparr>\<rparr>
      else s)"

definition handle_end :: "string \<Rightarrow> xml_state \<Rightarrow> xml_state" where
  "handle_end n s =
     (if n = ''LOCO'' then
        (case xs_loco s of
           None \<Rightarrow> s
         | Some l \<Rightarrow> s\<lparr>xs_cfg := (xs_cfg s)\<lparr>dcf_locos := dcf_locos (xs_cfg s) @ [l]\<rparr>, xs_loco := None\<rparr>)
      else if n = ''NETWORK'' then
        (case xs_net s of
           None \<Rightarrow> s
         | Some w \<Rightarrow> s\<lparr>xs_cfg := (xs_cfg s)\<lparr>dcf_networks := dcf_networks (xs_cfg s) @ [w]\<rparr>, xs_net := None\<rparr>)
      else if n = ''FUNCTIONS'' then s\<lparr>xs_in_functions := False\<rparr>
      else s)"

fun handle_event :: "xml_event \<Rightarrow> xml_state \<Rightarrow> xml_state" where
  "handle_event (XE_Start e) s = handle_element e s"
| "handle_event (XE_Empty e) s = handle_element e s"
| "handle_event (XE_End n) s = handle_end n s"
| "handle_event XE_Other s = s"

definition xml_start :: xml_state where
  "xml_start =
     \<lparr>xs_cfg = device_config_default, xs_loco = None, xs_net = None, xs_in_functions = False\<rparr>"

definition wifred_parse :: "xml_lib \<Rightarrow> string \<Rightarrow> string + device_config" where
  "wifred_parse xl body =
     (case from_utf8 body of
        None \<Rightarrow> Inl (''non-utf8 body: '' @ xl_utf8_error xl body)
      | Some text \<Rightarrow>
          (case xl_events xl text of
             (_, Some err) \<Rightarrow> Inl (''xml read: '' @ err)
           | (evs, None) \<Rightarrow> Inr (xs_cfg (fold handle_event evs xml_start))))"

definition check_structure_version :: "device_config \<Rightarrow> driver_error + unit" where
  "check_structure_version cfg =
     (case dcf_structure_version cfg of
        Some v \<Rightarrow> if v = STRUCTURE_VERSION then Inr () else Inl (DE_UnsupportedStructureVersion v)
      | None \<Rightarrow> Inl (DE_Parse ''missing structureVersion in device response''))"

section \<open>Verification\<close>

text \<open>\<open>cfg.locos.get(slot)\<close>.\<close>

definition get_nth :: "'a list \<Rightarrow> nat \<Rightarrow> 'a option" where
  "get_nth xs i = (if i < length xs then Some (xs ! i) else None)"

definition wanted_address :: "roster_entry \<Rightarrow> int" where
  "wanted_address e = (case re_address e of None \<Rightarrow> -1 | Some a \<Rightarrow> int (unat a))"

definition loco_mismatch :: "device_config \<Rightarrow> nat \<times> roster_entry \<Rightarrow> string list" where
  "loco_mismatch cfg se =
     (case get_nth (dcf_locos cfg) (fst se) of
        Some g \<Rightarrow> if lc_address g = wanted_address (snd se) then []
                  else [''loco['' @ show_nat (fst se + 1) @ ''].address'']
      | None \<Rightarrow> [''loco['' @ show_nat (fst se + 1) @ ''].address''])"

definition wifred_verify :: "device_config \<Rightarrow> program_request \<Rightarrow> string list" where
  "wifred_verify cfg req =
     (if dcf_throttle_name cfg \<noteq> Some (pq_identity req) then [''throttleName''] else [])
   @ (if map_option ls_name (dcf_loco_server cfg) \<noteq> Some (ts_host (pq_server req))
         \<or> opt_default 0 (map_option ls_port (dcf_loco_server cfg)) \<noteq> ts_port (pq_server req)
      then [''locoServer''] else [])
   @ (if \<not> list_ex (\<lambda>n. nc_ssid n = wc_ssid (pq_wifi req) \<and> nc_enabled n) (dcf_networks cfg)
      then [''wifi''] else [])
   @ concat (map (loco_mismatch cfg) (enumerate 0 (pq_roster req)))"

section \<open>Programming\<close>

definition identify_request :: "u32 option \<Rightarrow> string" where
  "identify_request count =
     (case count of
        Some n \<Rightarrow> ''/flashred.html?count='' @ show_nat (unat n)
      | None \<Rightarrow> ''/flashred.html'')"

text \<open>\<open>(slot + 1) as u8\<close>, printed.\<close>

definition slot_number :: "nat \<Rightarrow> string" where
  "slot_number slot = show_nat (unat (of_nat (slot + 1) :: u8))"

definition loco_address :: "roster_entry \<Rightarrow> int" where
  "loco_address e =
     (case re_address e of
        None \<Rightarrow> -1
      | Some a \<Rightarrow> if unat a \<le> 32767 then int (unat a) else -1)"

definition loco_query :: "nat \<times> roster_entry \<Rightarrow> string" where
  "loco_query se =
     (let e = snd se in
      ''/index.html?loco='' @ slot_number (fst se) @ ''&loco.address='' @ show_int (loco_address e)
      @ ''&loco.mode='' @ percent_encode (opt_default [] (re_mode e))
      @ ''&loco.direction='' @ show_nat (unat (opt_default 2 (re_direction e)))
      @ (if re_long_address e = Some True then ''&loco.longAddress=on'' else []))"

definition function_query :: "nat \<times> roster_entry \<Rightarrow> string" where
  "function_query se =
     ''/index.html?loco='' @ slot_number (fst se)
     @ concat (map (\<lambda>fm. ''&f'' @ show_nat (unat (fm_index fm)) @ ''='' @ show_nat (unat (fm_value fm)))
         (re_functions (snd se)))"

definition server_query :: "throttle_server \<Rightarrow> string" where
  "server_query s =
     ''/index.html?loco.serverName='' @ percent_encode (ts_host s)
     @ ''&loco.serverPort='' @ show_nat (unat (ts_port s))
     @ (if ts_automatic s then ''&loco.automatic=on'' else [])"

definition wifi_query :: "wifi_credentials \<Rightarrow> string" where
  "wifi_query w =
     ''/index.html?wifiSSID='' @ percent_encode (wc_ssid w)
     @ (case wc_psk w of
          None \<Rightarrow> []
        | Some psk \<Rightarrow> if psk = [] then [] else ''&wifiKEY='' @ percent_encode psk)"

definition wifred_get :: "device \<Rightarrow> string \<Rightarrow> unit dev_io" where
  "wifred_get d path = dev_bind (dev_request d (http_get path)) (\<lambda>_. dev_return ())"

definition wifred_read_config :: "xml_lib \<Rightarrow> device \<Rightarrow> device_config dev_io" where
  "wifred_read_config xl d =
     dev_bind (dev_request d (http_get ''/api/getConfigXML''))
       (\<lambda>body. dev_lift (map_err DE_Parse (wifred_parse xl body)))"

definition wifred_probe :: "xml_lib \<Rightarrow> transport \<Rightarrow> device_config dev_io" where
  "wifred_probe xl t =
     (case t of
        T_Bytes \<Rightarrow> dev_fail (DE_Other ''wifred driver requires an HTTP transport'')
      | T_Http d \<Rightarrow>
          dev_bind (wifred_read_config xl d)
            (\<lambda>cfg. dev_bind (dev_lift (check_structure_version cfg)) (\<lambda>_. dev_return cfg)))"

text \<open>Steps 1 to 6 of \<open>program\<close>: everything that is written before the read-back.\<close>

definition wifred_write :: "xml_lib \<Rightarrow> device \<Rightarrow> program_request \<Rightarrow> unit dev_io" where
  "wifred_write xl d req =
     dev_then (ev_step ''read'')
    (dev_then (dev_bind (wifred_read_config xl d) (\<lambda>cfg. dev_lift (check_structure_version cfg)))
    (dev_then (ev_step ''identity'')
    (dev_then (wifred_get d (''/index.html?throttleName='' @ percent_encode (pq_identity req)))
    (dev_then (ev_step ''locos'')
    (dev_then (for_each (\<lambda>se. wifred_get d (loco_query se)) (enumerate 0 (pq_roster req)))
    (dev_then (ev_step ''functions'')
    (dev_then (for_each (\<lambda>se. if re_functions (snd se) = [] then dev_return ()
                              else wifred_get d (function_query se)) (enumerate 0 (pq_roster req)))
    (dev_then (ev_step ''server'')
    (dev_then (wifred_get d (server_query (pq_server req)))
    (dev_then (ev_step ''wifi'')
    (dev_then (wifred_get d (''/index.html?remove='' @ percent_encode (wc_ssid (pq_wifi req))))
              (wifred_get d (wifi_query (pq_wifi req))))))))))))))"

text \<open>Step 7: read back and compare.\<close>

definition wifred_readback :: "xml_lib \<Rightarrow> device \<Rightarrow> program_request \<Rightarrow> unit dev_io" where
  "wifred_readback xl d req =
     dev_then (ev_step ''verify'')
       (dev_bind (wifred_read_config xl d)
         (\<lambda>cfg. let mismatches = wifred_verify cfg req
                in if mismatches \<noteq> [] then dev_fail (DE_VerificationFailed mismatches)
                   else dev_return ()))"

definition wifred_program :: "xml_lib \<Rightarrow> transport \<Rightarrow> program_request \<Rightarrow> outcome dev_io" where
  "wifred_program xl t req =
     (case t of
        T_Bytes \<Rightarrow> dev_fail (DE_Other ''wifred driver requires an HTTP transport'')
      | T_Http d \<Rightarrow>
          dev_then (wifred_write xl d req)
         (dev_then (wifred_readback xl d req)
         (dev_then (ev_step ''restart'')
         (dev_then (wifred_get d ''/restart.html'')
           (dev_return \<lparr>oc_restarted = True, oc_mismatches = []\<rparr>)))))"

definition wifred_update_firmware :: "transport \<Rightarrow> string \<Rightarrow> string \<Rightarrow> outcome dev_io" where
  "wifred_update_firmware t img filename = dev_fail (DE_Other ''firmware update is not supported'')"

section \<open>The plan\<close>

text \<open>The requests of a run that meets no error, in order.\<close>

definition write_plan :: "program_request \<Rightarrow> http_request list" where
  "write_plan req =
     map http_get
       ([''/api/getConfigXML'', ''/index.html?throttleName='' @ percent_encode (pq_identity req)]
        @ map loco_query (enumerate 0 (pq_roster req))
        @ map function_query (filter (\<lambda>se. re_functions (snd se) \<noteq> []) (enumerate 0 (pq_roster req)))
        @ [server_query (pq_server req), ''/index.html?remove='' @ percent_encode (wc_ssid (pq_wifi req)),
           wifi_query (pq_wifi req)])"

definition wifred_plan :: "program_request \<Rightarrow> http_request list" where
  "wifred_plan req = write_plan req @ map http_get [''/api/getConfigXML'', ''/restart.html'']"

lemma issues_get [issues_intro]: "issues (wifred_get d p) [http_get p]"
  unfolding wifred_get_def using issues_bind [OF issues_request issues_pure(1)] by simp

lemma issues_read [issues_intro]: "issues (wifred_read_config xl d) [http_get ''/api/getConfigXML'']"
  unfolding wifred_read_config_def using issues_bind [OF issues_request issues_pure(2)] by simp

lemma issues_checked_read:
  "issues (dev_bind (wifred_read_config xl d) (\<lambda>cfg. dev_lift (f cfg))) [http_get ''/api/getConfigXML'']"
  using issues_bind [OF issues_read issues_pure(2)] by simp

lemma issues_locos:
  "issues (for_each (\<lambda>se. wifred_get d (loco_query se)) xs) (map http_get (map loco_query xs))"
  using issues_for_each [of "\<lambda>se. wifred_get d (loco_query se)" "\<lambda>se. [http_get (loco_query se)]" xs]
  by (simp add: issues_intro concat_map_singleton comp_def)

lemma issues_functions:
  "issues (for_each (\<lambda>se. if re_functions (snd se) = [] then dev_return ()
                          else wifred_get d (function_query se)) xs)
     (map http_get (map function_query (filter (\<lambda>se. re_functions (snd se) \<noteq> []) xs)))"
proof -
  have "issues (if re_functions (snd se) = [] then dev_return () else wifred_get d (function_query se))
      (if re_functions (snd se) = [] then [] else [http_get (function_query se)])" for se :: "nat \<times> roster_entry"
    by (simp add: issues_intro)
  from issues_for_each [OF this]
  have "issues (for_each (\<lambda>se. if re_functions (snd se) = [] then dev_return ()
      else wifred_get d (function_query se)) xs)
    (concat (map (\<lambda>se. if re_functions (snd se) = [] then [] else [http_get (function_query se)]) xs))" .
  moreover have "concat (map (\<lambda>se. if re_functions (snd se) = [] then [] else [http_get (function_query se)]) xs)
      = map http_get (map function_query (filter (\<lambda>se. re_functions (snd se) \<noteq> []) xs))"
    by (induction xs) auto
  ultimately show ?thesis by simp
qed

lemma issues_write: "issues (wifred_write xl d req) (write_plan req)"
proof -
  have "issues (wifred_write xl d req)
    ([] @ [http_get ''/api/getConfigXML''] @ []
      @ [http_get (''/index.html?throttleName='' @ percent_encode (pq_identity req))] @ []
      @ map http_get (map loco_query (enumerate 0 (pq_roster req))) @ []
      @ map http_get (map function_query (filter (\<lambda>se. re_functions (snd se) \<noteq> []) (enumerate 0 (pq_roster req)))) @ []
      @ [http_get (server_query (pq_server req))] @ []
      @ [http_get (''/index.html?remove='' @ percent_encode (wc_ssid (pq_wifi req)))]
      @ [http_get (wifi_query (pq_wifi req))])"
    unfolding wifred_write_def
    by (intro issues_then issues_pure(3) issues_checked_read issues_get issues_locos issues_functions)
  then show ?thesis by (simp add: write_plan_def)
qed

lemma issues_wifred_readback: "issues (wifred_readback xl d req) [http_get ''/api/getConfigXML'']"
proof -
  have "issues (wifred_readback xl d req) ([] @ [http_get ''/api/getConfigXML''] @ [])"
    unfolding wifred_readback_def Let_def
    by (intro issues_then issues_bind issues_pure(3) issues_read) (simp add: issues_intro)
  then show ?thesis by simp
qed

lemma issues_wifred_program: "issues (wifred_program xl (T_Http d) req) (wifred_plan req)"
proof -
  have "issues (wifred_program xl (T_Http d) req)
      (write_plan req @ [http_get ''/api/getConfigXML''] @ [] @ [http_get ''/restart.html''] @ [])"
    unfolding wifred_program_def transport.case
    by (intro issues_then issues_write issues_wifred_readback issues_pure(3) issues_get issues_pure(1))
  then show ?thesis by (simp add: wifred_plan_def)
qed

section \<open>Properties\<close>

text \<open>C27: whatever the device answers, the requests of a WiFred programming run are a prefix of
  the fixed plan: configuration read, identity, one address query per roster slot, one
  function query per slot with functions, server, removal of the old network, new network,
  read-back, restart; a run that succeeds has issued the whole plan and reports a restart.\<close>

theorem wifred_program_follows_plan:
  assumes "wifred_program xl (T_Http d) req [] = (r, tr)"
  shows "(\<exists>k. requests tr = take k (wifred_plan req))
       \<and> (is_ok r \<longrightarrow> requests tr = wifred_plan req
            \<and> r = Inr \<lparr>oc_restarted = True, oc_mismatches = []\<rparr>)"
proof -
  obtain k where k: "requests tr = take k (wifred_plan req)"
      "\<And>x. r = Inr x \<Longrightarrow> length (wifred_plan req) \<le> k"
    using issues_wifred_program [of xl d req] assms unfolding issues_def
    by (metis append_Nil fst_conv requests.simps(1) snd_conv)
  have "r = Inr \<lparr>oc_restarted = True, oc_mismatches = []\<rparr>" if "r = Inr x" for x
    using assms that unfolding wifred_program_def
    by (auto simp: dev_then_Inr dev_return_def)
  with k show ?thesis by (cases r) (auto intro: exI [of _ "length (wifred_plan req)"])
qed

definition refusing_device :: device where
  "refusing_device tr q = Inl (io_err IOK_ConnectionRefused ''refused'')"

definition demo_request :: program_request where
  "demo_request =
     \<lparr>pq_identity = ''122145'', pq_wifi = \<lparr>wc_ssid = ''net'', wc_psk = Some ''key''\<rparr>,
      pq_server = \<lparr>ts_host = ''10.0.0.1'', ts_port = 12090, ts_automatic = False\<rparr>,
      pq_roster = [\<lparr>re_address = Some 3, re_long_address = None, re_mode = None,
                     re_direction = None, re_functions = []\<rparr>],
      pq_bigfred = None, pq_roster_mode = None\<rparr>"

lemma restart_not_written: "http_get ''/restart.html'' \<notin> set (write_plan req)"
  by (auto simp: write_plan_def http_get_def loco_query_def function_query_def server_query_def
      wifi_query_def Let_def)

lemma write_requests:
  assumes "wifred_write xl d req tr = (r, tr')"
  shows "http_get ''/restart.html'' \<in> set (requests tr') \<Longrightarrow> http_get ''/restart.html'' \<in> set (requests tr)"
proof -
  obtain k where "requests tr' = requests tr @ take k (write_plan req)"
    using issues_write [of xl d req] assms unfolding issues_def by (metis snd_conv)
  with restart_not_written [of req]
  show "http_get ''/restart.html'' \<in> set (requests tr') \<Longrightarrow> http_get ''/restart.html'' \<in> set (requests tr)"
    by (auto dest: in_set_takeD)
qed

lemma readback_requests:
  assumes "wifred_readback xl d req tr = (r, tr')"
  shows "http_get ''/restart.html'' \<in> set (requests tr') \<Longrightarrow> http_get ''/restart.html'' \<in> set (requests tr)"
proof -
  obtain k where "requests tr' = requests tr @ take k [http_get ''/api/getConfigXML'']"
    using issues_wifred_readback [of xl d req] assms unfolding issues_def by (metis snd_conv)
  then show "http_get ''/restart.html'' \<in> set (requests tr') \<Longrightarrow> http_get ''/restart.html'' \<in> set (requests tr)"
    by (auto simp: http_get_def dest: in_set_takeD)
qed

text \<open>The WiFred is told to restart only after its read-back configuration has been verified:
  in every run whose requests contain the restart, the write phase succeeded and the
  configuration that the device then reported matches the request in every verified field.\<close>

lemma wifred_restart_only_after_verify:
  assumes "wifred_program xl (T_Http d) req [] = (r, tr)"
    and "http_get ''/restart.html'' \<in> set (requests tr)"
  shows "\<exists>tr1 body cfg. fst (wifred_write xl d req []) = Inr ()
       \<and> tr1 = snd (wifred_write xl d req []) @ [Ev_Step ''verify'']
       \<and> d tr1 (http_get ''/api/getConfigXML'') = Inr body
       \<and> wifred_parse xl body = Inr cfg \<and> wifred_verify cfg req = []"
proof -
  obtain w trw where w: "wifred_write xl d req [] = (w, trw)" by (cases "wifred_write xl d req []")
  obtain v trv where v: "wifred_readback xl d req trw = (v, trv)" by (cases "wifred_readback xl d req trw")
  have no: "http_get ''/restart.html'' \<notin> set (requests trw)" using write_requests [OF w] by auto
  have w_ok: "w = Inr ()"
  proof (cases w)
    case (Inl e)
    then have "tr = trw" using assms(1) w by (simp add: wifred_program_def dev_then_def dev_bind_def)
    with no assms(2) show ?thesis by simp
  qed simp
  have v_ok: "v = Inr ()"
  proof (cases v)
    case (Inl e)
    then have "tr = trv" using assms(1) w v w_ok by (simp add: wifred_program_def dev_then_def dev_bind_def)
    with no assms(2) readback_requests [OF v] show ?thesis by simp
  qed simp
  with v obtain body cfg where
    "d (trw @ [Ev_Step ''verify'']) (http_get ''/api/getConfigXML'') = Inr body"
    "wifred_parse xl body = Inr cfg" "wifred_verify cfg req = []"
    unfolding wifred_readback_def wifred_read_config_def
    by (auto simp: dev_then_Inr dev_bind_Inr dev_request_def dev_request_err_def ev_step_def dev_lift_def
        dev_fail_def Let_def split: if_splits)
  with w w_ok show ?thesis by auto
qed

text \<open>A device that always shows the requested configuration.\<close>

definition agreeing_xml :: xml_lib where
  "agreeing_xml =
     \<lparr>xl_events = (\<lambda>t. (
        [XE_Empty \<lparr>el_name = ''structurVersion'', el_attrs = [(''value'', Some ''1'')]\<rparr>,
         XE_Empty \<lparr>el_name = ''throttleName'', el_attrs = [(''value'', Some ''122145'')]\<rparr>,
         XE_Start \<lparr>el_name = ''LOCO'', el_attrs = []\<rparr>, XE_End ''LOCO'',
         XE_Start \<lparr>el_name = ''NETWORK'', el_attrs = []\<rparr>,
         XE_Empty \<lparr>el_name = ''SSID'', el_attrs = [(''value'', Some ''net'')]\<rparr>,
         XE_Empty \<lparr>el_name = ''Enabled'', el_attrs = [(''value'', Some ''1'')]\<rparr>,
         XE_End ''NETWORK'',
         XE_Empty \<lparr>el_name = ''ServerName'', el_attrs = [(''value'', Some ''10.0.0.1'')]\<rparr>], None)),
      xl_utf8_error = (\<lambda>t. [])\<rparr>"

definition quiet_request :: program_request where
  "quiet_request = demo_request\<lparr>pq_server := \<lparr>ts_host = ''10.0.0.1'', ts_port = 0, ts_automatic = False\<rparr>,
     pq_roster := [\<lparr>re_address = None, re_long_address = None, re_mode = None, re_direction = None,
                    re_functions = []\<rparr>]\<rparr>"

lemma agreeing_parse:
  "\<exists>cfg. wifred_parse agreeing_xml ''x'' = Inr cfg \<and> check_structure_version cfg = Inr ()
     \<and> wifred_verify cfg quiet_request = []"
proof -
  have "utf8_valid ''x''" by (rule utf8_valid_ascii) (simp add: is_ascii_def)
  moreover have "trim ''1'' = ''1''"
    by (rule trim_alnum) (simp add: is_ascii_alphanumeric_def is_ascii_digit_def)
  ultimately show ?thesis
    by (simp add: wifred_parse_def from_utf8_def agreeing_xml_def xml_start_def device_config_default_def
        handle_element_def handle_end_def attr_str_def attr_u8_def attr_bool_def default_loco_def
        opt_default_def check_structure_version_def STRUCTURE_VERSION_def wifred_verify_def
        quiet_request_def demo_request_def loco_mismatch_def get_nth_def wanted_address_def)
qed

lemma agreeing_run:
  "fst (wifred_program agreeing_xml (T_Http (\<lambda>tr q. Inr ''x'')) quiet_request [])
     = Inr \<lparr>oc_restarted = True, oc_mismatches = []\<rparr>"
proof -
  obtain cfg where "wifred_parse agreeing_xml ''x'' = Inr cfg" "check_structure_version cfg = Inr ()"
      "wifred_verify cfg quiet_request = []" using agreeing_parse by blast
  then show ?thesis
    by (simp add: wifred_program_def wifred_write_def wifred_readback_def wifred_read_config_def
        wifred_get_def dev_io_defs quiet_request_def demo_request_def)
qed

theorem wifred_program_follows_plan_witness:
  "requests (snd (wifred_program agreeing_xml (T_Http (\<lambda>tr q. Inr ''x'')) quiet_request []))
     = wifred_plan quiet_request
 \<and> (\<exists>k. requests (snd (wifred_program agreeing_xml (T_Http refusing_device) demo_request []))
     = take k (wifred_plan demo_request))"
proof
  obtain r tr where run: "wifred_program agreeing_xml (T_Http (\<lambda>tr q. Inr ''x'')) quiet_request [] = (r, tr)"
    by (cases "wifred_program agreeing_xml (T_Http (\<lambda>tr q. Inr ''x'')) quiet_request []")
  moreover have "is_ok r" using run agreeing_run by (metis fst_conv is_ok_simps(2))
  ultimately show "requests (snd (wifred_program agreeing_xml (T_Http (\<lambda>tr q. Inr ''x'')) quiet_request []))
     = wifred_plan quiet_request"
    using wifred_program_follows_plan [OF run] by simp
  show "\<exists>k. requests (snd (wifred_program agreeing_xml (T_Http refusing_device) demo_request []))
     = take k (wifred_plan demo_request)"
    using wifred_program_follows_plan [OF prod.collapse [symmetric]] by blast
qed

lemma verify_nil:
  "wifred_verify cfg req = [] \<longleftrightarrow>
     dcf_throttle_name cfg = Some (pq_identity req)
   \<and> (\<exists>s. dcf_loco_server cfg = Some s \<and> ls_name s = ts_host (pq_server req)
          \<and> ls_port s = ts_port (pq_server req))
   \<and> (\<exists>n \<in> set (dcf_networks cfg). nc_ssid n = wc_ssid (pq_wifi req) \<and> nc_enabled n)
   \<and> (\<forall>i < length (pq_roster req). i < length (dcf_locos cfg)
          \<and> lc_address (dcf_locos cfg ! i) = wanted_address (pq_roster req ! i))"
proof -
  have locos: "concat (map (loco_mismatch cfg) (enumerate 0 (pq_roster req))) = [] \<longleftrightarrow>
      (\<forall>i < length (pq_roster req). i < length (dcf_locos cfg)
          \<and> lc_address (dcf_locos cfg ! i) = wanted_address (pq_roster req ! i))"
  proof -
    show ?thesis by (auto simp: ball_enumerate loco_mismatch_def get_nth_def split: if_splits)
  qed
  have server: "\<not> (map_option ls_name (dcf_loco_server cfg) \<noteq> Some (ts_host (pq_server req))
         \<or> opt_default 0 (map_option ls_port (dcf_loco_server cfg)) \<noteq> ts_port (pq_server req))
      \<longleftrightarrow> (\<exists>s. dcf_loco_server cfg = Some s \<and> ls_name s = ts_host (pq_server req)
          \<and> ls_port s = ts_port (pq_server req))"
    by (auto simp: opt_default_def)
  show ?thesis
    unfolding wifred_verify_def using locos server by (auto simp: list_ex_iff)
qed

text \<open>C28: the read-back comparison reports no mismatch exactly when the device has the requested
  throttle name, the requested server name and port, an enabled network with the requested
  SSID, and in every roster slot the requested address. Nothing else is compared: speed-step
  mode, direction, long-address flag, functions, the key and the automatic flag are not.\<close>

theorem wifred_verify_iff:
  "wifred_verify cfg req = [] \<longleftrightarrow>
     dcf_throttle_name cfg = Some (pq_identity req)
   \<and> (\<exists>s. dcf_loco_server cfg = Some s \<and> ls_name s = ts_host (pq_server req)
          \<and> ls_port s = ts_port (pq_server req))
   \<and> (\<exists>n \<in> set (dcf_networks cfg). nc_ssid n = wc_ssid (pq_wifi req) \<and> nc_enabled n)
   \<and> (\<forall>i < length (pq_roster req). i < length (dcf_locos cfg)
          \<and> lc_address (dcf_locos cfg ! i) = wanted_address (pq_roster req ! i))"
  by (rule verify_nil)

theorem wifred_verify_iff_witness:
  "\<exists>cfg. wifred_parse agreeing_xml ''x'' = Inr cfg \<and> dcf_throttle_name cfg = Some ''122145''
     \<and> dcf_locos cfg \<noteq> [] \<and> lc_address (dcf_locos cfg ! 0) = -1"
proof -
  obtain cfg where cfg: "wifred_parse agreeing_xml ''x'' = Inr cfg" "wifred_verify cfg quiet_request = []"
    using agreeing_parse by blast
  have "pq_identity quiet_request = ''122145''" "length (pq_roster quiet_request) = 1"
      "wanted_address (pq_roster quiet_request ! 0) = -1"
    by (simp_all add: quiet_request_def demo_request_def wanted_address_def)
  with wifred_verify_iff [of cfg quiet_request] cfg show ?thesis
    by (metis length_greater_0_conv less_one)
qed

lemma wifred_queries_exact:
  assumes "wifred_validate req = Inr ()" and "(slot, e) \<in> set (enumerate 0 (pq_roster req))"
  shows "loco_address e = wanted_address e \<and> slot_number slot = show_nat (slot + 1) \<and> slot + 1 \<le> 4"
proof -
  have req: "request_ok wifred_capabilities req"
    using assms(1) validate_common_decides by (simp add: wifred_validate_def)
  have e: "e \<in> set (pq_roster req)" and slot: "slot < length (pq_roster req)"
    using assms(2) by (auto simp: in_set_enumerate_eq)
  have "length (pq_roster req) \<le> 4" using req by (simp add: request_ok_def wifred_capabilities_def)
  with slot have s4: "slot + 1 \<le> 4" by simp
  then have "unat (of_nat (slot + 1) :: u8) = slot + 1" by (simp only: unat_of_nat) simp
  moreover have "entry_ok 16 e"
    using req e by (auto simp: request_ok_def wifred_capabilities_def list_all_iff)
  then have "loco_address e = wanted_address e"
    by (auto simp: entry_ok_def dcc_address_ok_def loco_address_def wanted_address_def split: option.splits)
  ultimately show ?thesis using s4 by (simp add: slot_number_def)
qed

lemma demo_request_valid: "wifred_validate demo_request = Inr ()"
  by (simp add: wifred_validate_def validate_common_def wifred_capabilities_def demo_request_def
      is_ascii_digit_def)

end
