(* ===== verification/Wp_FakeWifred.thy ===== *)
theory Wp_FakeWifred
  imports Wp_Fake Wp_WiFred
begin

text \<open>
  The WiFred mock (\<open>crates/wp-fake/src/wifred.rs\<close>): the query parameters of \<open>/index.html\<close> applied to a
  configuration, and the configuration page printed as the XML that the driver reads.
\<close>

section \<open>Query strings\<close>

definition from_hex :: "char \<Rightarrow> nat option" where
  "from_hex b =
     (if 48 \<le> byte b \<and> byte b \<le> 57 then Some (byte b - 48)
      else if 97 \<le> byte b \<and> byte b \<le> 102 then Some (byte b - 97 + 10)
      else if 65 \<le> byte b \<and> byte b \<le> 70 then Some (byte b - 65 + 10)
      else None)"

text \<open>The loop of \<open>percent_decode\<close>; \<open>(a << 4) | b\<close> of two hexadecimal digits.\<close>

fun percent_bytes :: "string \<Rightarrow> string" where
  "percent_bytes (c # d # e # s) =
     (if c = CHR ''+'' then CHR '' '' # percent_bytes (d # e # s)
      else if c = CHR ''%'' then
        (case (from_hex d, from_hex e) of
           (Some a, Some b) \<Rightarrow> char_of (16 * a + b) # percent_bytes s
         | _ \<Rightarrow> c # percent_bytes (d # e # s))
      else c # percent_bytes (d # e # s))"
| "percent_bytes (c # s) = (if c = CHR ''+'' then CHR '' '' else c) # percent_bytes s"
| "percent_bytes [] = []"

definition percent_decode :: "string \<Rightarrow> string" where
  "percent_decode input = from_utf8_lossy (percent_bytes input)"

definition is_function_key :: "string \<Rightarrow> bool" where
  "is_function_key key \<longleftrightarrow>
     (case key of [] \<Rightarrow> False | c # rest \<Rightarrow> c = CHR ''f'' \<and> rest \<noteq> [] \<and> list_all is_ascii_digit rest)"

section \<open>The device\<close>

record wifred_fake =
  wf_cfg :: device_config
  wf_restarted :: bool
  wf_active :: "nat option"

definition wifred_new :: wifred_fake where
  "wifred_new =
     \<lparr>wf_cfg = device_config_default\<lparr>dcf_structure_version := Some ''1'',
        dcf_locos := replicate 4 (default_loco None)\<rparr>,
      wf_restarted = False, wf_active = None\<rparr>"

text \<open>\<open>active_loco_mut\<close> with what is done to the slot.\<close>

definition on_active :: "(loco_config \<Rightarrow> loco_config) \<Rightarrow> wifred_fake \<Rightarrow> wifred_fake" where
  "on_active f w =
     (case wf_active w of
        None \<Rightarrow> w
      | Some i \<Rightarrow>
          let ls = dcf_locos (wf_cfg w) in
          if i < length ls then w\<lparr>wf_cfg := (wf_cfg w)\<lparr>dcf_locos := ls[i := f (ls ! i)]\<rparr>\<rparr> else w)"

definition on_server :: "(loco_server_config \<Rightarrow> loco_server_config) \<Rightarrow> wifred_fake \<Rightarrow> wifred_fake" where
  "on_server f w =
     w\<lparr>wf_cfg := (wf_cfg w)\<lparr>dcf_loco_server :=
         Some (f (opt_default \<lparr>ls_name = [], ls_port = 0, ls_automatic = False\<rparr> (dcf_loco_server (wf_cfg w))))\<rparr>\<rparr>"

definition select_loco :: "string \<Rightarrow> wifred_fake \<Rightarrow> wifred_fake" where
  "select_loco v w =
     (case parse_usize 10 v of
        Some (Suc i) \<Rightarrow>
          w\<lparr>wf_cfg := (wf_cfg w)\<lparr>dcf_locos := dcf_locos (wf_cfg w)
                @ replicate (Suc i - length (dcf_locos (wf_cfg w))) (default_loco None)\<rparr>,
            wf_active := Some i\<rparr>
      | _ \<Rightarrow> w)"

text \<open>The first entry of the index takes the value, or a new entry is added.\<close>

fun set_function :: "u8 \<Rightarrow> u8 \<Rightarrow> function_entry list \<Rightarrow> function_entry list" where
  "set_function i v [] = [\<lparr>fe_index = i, fe_value = v\<rparr>]"
| "set_function i v (f # fs) =
     (if fe_index f = i then f\<lparr>fe_value := v\<rparr> # fs else f # set_function i v fs)"

fun upsert_network :: "network_config list \<Rightarrow> string \<Rightarrow> string option \<Rightarrow> network_config list" where
  "upsert_network [] ssid key = [\<lparr>nc_ssid = ssid, nc_key = key, nc_enabled = True\<rparr>]"
| "upsert_network (n # ns) ssid key =
     (if nc_ssid n = ssid
      then n\<lparr>nc_enabled := True, nc_key := (if key \<noteq> None then key else nc_key n)\<rparr> # ns
      else n # upsert_network ns ssid key)"

text \<open>One parameter; the two of a new network are kept until the end of the query.\<close>

record query_state =
  qs_fake :: wifred_fake
  qs_ssid :: "string option"
  qs_key :: "string option"

definition apply_cfg_key :: "string \<Rightarrow> string \<Rightarrow> wifred_fake \<Rightarrow> wifred_fake" where
  "apply_cfg_key k v w =
     (if k = ''throttleName'' then w\<lparr>wf_cfg := (wf_cfg w)\<lparr>dcf_throttle_name := Some v\<rparr>\<rparr>
      else if k = ''loco'' then select_loco v w
      else if k = ''loco.address'' then on_active (\<lambda>l. l\<lparr>lc_address := opt_default (-1) (parse_i64 v)\<rparr>) w
      else if k = ''loco.mode'' then on_active (\<lambda>l. l\<lparr>lc_mode := Some v\<rparr>) w
      else if k = ''loco.direction'' then on_active (\<lambda>l. l\<lparr>lc_direction := parse_u8 v\<rparr>) w
      else if k = ''loco.longAddress'' then
        (if v = ''on'' then on_active (\<lambda>l. l\<lparr>lc_long_address := Some True\<rparr>) w else w)
      else if k = ''loco.serverName'' then on_server (\<lambda>s. s\<lparr>ls_name := v\<rparr>) w
      else if k = ''loco.serverPort'' then on_server (\<lambda>s. s\<lparr>ls_port := opt_default 0 (parse_u16 v)\<rparr>) w
      else if k = ''loco.automatic'' then
        (if v = ''on'' then on_server (\<lambda>s. s\<lparr>ls_automatic := True\<rparr>) w else w)
      else if k = ''remove'' then
        w\<lparr>wf_cfg := (wf_cfg w)\<lparr>dcf_networks := filter (\<lambda>n. nc_ssid n \<noteq> v) (dcf_networks (wf_cfg w))\<rparr>\<rparr>
      else if is_function_key k then
        on_active (\<lambda>l. l\<lparr>lc_functions :=
          set_function (opt_default 0 (parse_u8 (tl k))) (opt_default 0 (parse_u8 v)) (lc_functions l)\<rparr>) w
      else w)"

definition apply_pair :: "string \<Rightarrow> query_state \<Rightarrow> query_state" where
  "apply_pair pair q =
     (if pair = [] then q
      else
        let (raw_key, raw_val) = (case split_once (CHR ''='') pair of Some kv \<Rightarrow> kv | None \<Rightarrow> (pair, []));
            k = percent_decode raw_key; v = percent_decode raw_val
        in if k = ''wifiSSID'' then q\<lparr>qs_ssid := Some v\<rparr>
           else if k = ''wifiKEY'' then q\<lparr>qs_key := Some v\<rparr>
           else q\<lparr>qs_fake := apply_cfg_key k v (qs_fake q)\<rparr>)"

definition apply_query :: "string \<Rightarrow> wifred_fake \<Rightarrow> wifred_fake" where
  "apply_query query w =
     (let q = fold apply_pair (split_char (CHR ''&'') query) \<lparr>qs_fake = w, qs_ssid = None, qs_key = None\<rparr>
      in case qs_ssid q of
           None \<Rightarrow> qs_fake q
         | Some ssid \<Rightarrow>
             (qs_fake q)\<lparr>wf_cfg := (wf_cfg (qs_fake q))\<lparr>dcf_networks :=
                upsert_network (dcf_networks (wf_cfg (qs_fake q))) ssid (qs_key q)\<rparr>\<rparr>)"

section \<open>The configuration page\<close>

definition esc_char :: "char \<Rightarrow> string" where
  "esc_char c =
     (if c = CHR ''&'' then ''&amp;'' else if c = CHR ''<'' then ''&lt;''
      else if c = CHR ''>'' then ''&gt;'' else if c = CHR 0x22 then ''&quot;''
      else if c = CHR 0x27 then ''&apos;'' else [c])"

definition xml_escape :: "string \<Rightarrow> string" where
  "xml_escape s = concat (map esc_char s)"

definition push_empty :: "string \<Rightarrow> string \<Rightarrow> string" where
  "push_empty tag v = ''<'' @ tag @ '' value='' @ [CHR 0x22] @ xml_escape v @ [CHR 0x22] @ ''/>'' @ [LF]"

definition push_opt :: "string \<Rightarrow> string option \<Rightarrow> string" where
  "push_opt tag v = (case v of None \<Rightarrow> [] | Some s \<Rightarrow> push_empty tag s)"

definition bool_digit :: "bool \<Rightarrow> string" where
  "bool_digit b = (if b then ''1'' else ''0'')"

definition function_xml :: "function_entry \<Rightarrow> string" where
  "function_xml f =
     ''     <Function ID='' @ [CHR 0x22] @ show_nat (unat (fe_index f)) @ [CHR 0x22] @ '' value='' @ [CHR 0x22]
     @ show_nat (unat (fe_value f)) @ [CHR 0x22] @ ''/>'' @ [LF]"

text \<open>\<open>loco.id.unwrap_or((i + 1) as u8)\<close>.\<close>

definition loco_id :: "nat \<Rightarrow> loco_config \<Rightarrow> u8" where
  "loco_id i l = opt_default (of_nat (i + 1)) (lc_id l)"

definition loco_xml :: "nat \<times> loco_config \<Rightarrow> string" where
  "loco_xml il =
     (let l = snd il in
      '' <LOCO ID='' @ [CHR 0x22] @ show_nat (unat (loco_id (fst il) l)) @ [CHR 0x22] @ ''>'' @ [LF]
      @ push_empty ''DCCadress'' (show_int (lc_address l))
      @ push_empty ''Mode'' (opt_default [] (lc_mode l))
      @ push_opt ''Direction'' (map_option (\<lambda>d. show_nat (unat d)) (lc_direction l))
      @ push_opt ''LongAdress'' (map_option bool_digit (lc_long_address l))
      @ ''  <FUNCTIONS>'' @ [LF] @ concat (map function_xml (lc_functions l)) @ ''  </FUNCTIONS>'' @ [LF]
      @ '' </LOCO>'' @ [LF])"

definition network_xml :: "network_config \<Rightarrow> string" where
  "network_xml n =
     '' <NETWORK>'' @ [LF] @ push_empty ''SSID'' (nc_ssid n) @ push_opt ''Key'' (nc_key n)
     @ push_empty ''Enabled'' (bool_digit (nc_enabled n)) @ '' </NETWORK>'' @ [LF]"

definition server_xml :: "loco_server_config \<Rightarrow> string" where
  "server_xml s =
     ''<LOCOSERVER>'' @ [LF] @ push_empty ''ServerName'' (ls_name s)
     @ push_empty ''Port'' (show_nat (unat (ls_port s))) @ push_empty ''Automatic'' (bool_digit (ls_automatic s))
     @ ''</LOCOSERVER>'' @ [LF]"

definition xml_prolog :: string where
  "xml_prolog = ''<?XML version='' @ [CHR 0x22] @ ''1.0'' @ [CHR 0x22] @ '' encoding='' @ [CHR 0x22] @ ''UTF?8''
     @ [CHR 0x22] @ ''?>'' @ [LF]"

definition serialize_xml :: "device_config \<Rightarrow> string" where
  "serialize_xml cfg =
     xml_prolog @ ''<wiFred>'' @ [LF]
     @ push_opt ''structurVersion'' (dcf_structure_version cfg)
     @ push_opt ''throttleName'' (dcf_throttle_name cfg)
     @ push_opt ''firmwareRevision'' (dcf_firmware_revision cfg)
     @ push_opt ''batteryVoltage'' (map_option (\<lambda>mv. show_nat (unat mv)) (dcf_battery_mv cfg))
     @ ''<LOCOS>'' @ [LF] @ concat (map loco_xml (enumerate 0 (dcf_locos cfg))) @ ''</LOCOS>'' @ [LF]
     @ ''<NETWORKS>'' @ [LF] @ concat (map network_xml (dcf_networks cfg)) @ ''</NETWORKS>'' @ [LF]
     @ (case dcf_loco_server cfg of None \<Rightarrow> [] | Some s \<Rightarrow> server_xml s)
     @ ''</wiFred>'' @ [LF]"

section \<open>Requests\<close>

definition wifred_handle :: "wifred_fake fake_handler" where
  "wifred_handle q w =
     (if fq_method q \<noteq> ''GET'' then (not_found, w)
      else if starts_with (fq_path q) ''/api/getConfigXML'' then (ok_xml (serialize_xml (wf_cfg w)), w)
      else if starts_with (fq_path q) ''/restart.html'' then (ok_text ''ok'', w\<lparr>wf_restarted := True\<rparr>)
      else if starts_with (fq_path q) ''/flashred.html'' then (ok_text ''flash'', w)
      else if starts_with (fq_path q) ''/index.html'' then
        (ok_text ''ok'',
         case split_once (CHR ''?'') (fq_path q) of None \<Rightarrow> w | Some (_, query) \<Rightarrow> apply_query query w)
      else (not_found, w))"

interpretation wf: fake_device wifred_handle
  by unfold_locales (auto simp: wifred_handle_def ok_text_def ok_xml_def not_found_def split: if_splits)

end
