(* ===== verification/Wp_Utf8.thy ===== *)
theory Wp_Utf8
  imports Wp_Http
begin

text \<open>
  UTF-8 strings as sequences of well-formed characters: the induction rule that the proofs on
  valid strings use, and the replacement of ASCII characters in them.
\<close>

section \<open>Characters\<close>

definition utf8_char :: "string \<Rightarrow> bool" where
  "utf8_char c \<longleftrightarrow> c \<noteq> [] \<and> utf8_step (map of_char c) = (True, length c)"

lemma short_lists:
  obtains "xs = []" | a where "xs = [a]" | a b where "xs = [a, b]" | a b c where "xs = [a, b, c]"
    | a b c d r where "xs = a # b # c # d # r"
  by (metis list.exhaust)

lemma utf8_char_step:
  assumes "utf8_char c" shows "utf8_step (map of_char (take 4 (c @ t))) = (True, length c)"
proof -
  have "utf8_step (map of_char (take 4 (c @ t))) = utf8_step (map of_char c)"
    using assms by (cases c rule: short_lists) (auto simp: utf8_char_def utf8_step_def utf8_width_def split: if_splits list.splits)
  then show ?thesis using assms by (simp add: utf8_char_def)
qed

lemma utf8_step_char:
  assumes "s \<noteq> []" and "utf8_step (map of_char (take 4 s)) = (True, n)"
  shows "utf8_char (take n s) \<and> n \<le> length s"
  using assms
  by (cases s rule: short_lists) (auto simp: utf8_char_def utf8_step_def utf8_width_def split: if_splits)

lemma utf8_valid_Nil [simp]: "utf8_valid []"
  by (simp add: utf8_valid.simps)

lemma utf8_valid_char: "utf8_char c \<Longrightarrow> utf8_valid (c @ t) = utf8_valid t"
proof -
  assume "utf8_char c"
  from utf8_char_step [OF this, of t] this show ?thesis
    by (subst utf8_valid.simps) (simp add: utf8_char_def del: take_append map_append)
qed

text \<open>Induction over the characters of a valid string.\<close>

lemma utf8_induct [consumes 1, case_names Nil Char]:
  assumes "utf8_valid s" and "P []" and "\<And>c t. utf8_char c \<Longrightarrow> utf8_valid t \<Longrightarrow> P t \<Longrightarrow> P (c @ t)"
  shows "P s"
  using assms(1)
proof (induction s rule: utf8_valid.induct)
  case (1 s)
  show ?case
  proof (cases "s = []")
    case False
    obtain ok n where st: "utf8_step (map of_char (take 4 s)) = (ok, n)" by (cases "utf8_step (map of_char (take 4 s))")
    have v: "ok \<and> utf8_valid (drop n s)"
      using 1(2) False st by (subst (asm) utf8_valid.simps) simp
    then have "utf8_char (take n s)" using utf8_step_char [OF False] st by simp
    moreover have "P (drop n s)" using 1(1) [OF False st [symmetric]] v by blast
    ultimately have "P (take n s @ drop n s)" using assms(3) v by blast
    then show ?thesis by simp
  qed (simp add: assms(2))
qed

lemma utf8_valid_append: "utf8_valid s \<Longrightarrow> utf8_valid t \<Longrightarrow> utf8_valid (s @ t)"
  by (induction s rule: utf8_induct) (simp_all add: utf8_valid_char)

lemma from_utf8_lossy_valid: "utf8_valid s \<Longrightarrow> from_utf8_lossy s = s"
proof (induction s rule: utf8_induct)
  case Nil
  then show ?case by (subst from_utf8_lossy.simps) simp
next
  case (Char c t)
  then show ?case
    using utf8_char_step [of c t]
    by (subst from_utf8_lossy.simps) (simp add: utf8_char_def del: take_append map_append, simp)
qed

text \<open>A character is one ASCII byte or has none.\<close>

lemma utf8_char_bytes:
  "utf8_char c \<Longrightarrow> (\<exists>a. c = [a] \<and> byte a < 128) \<or> (\<forall>a \<in> set c. 128 \<le> byte a)"
  by (cases c rule: short_lists)
     (auto simp: utf8_char_def utf8_step_def utf8_width_def second_ok_def is_cont_def split: if_splits)

lemma utf8_char_ascii: "byte a < 128 \<Longrightarrow> utf8_char [a]"
  by (simp add: utf8_char_def utf8_step_ascii)

lemma utf8_valid_map_ascii:
  assumes "utf8_valid s" and "\<And>a. byte a < 128 \<Longrightarrow> is_ascii (f a)" and "\<And>a. 128 \<le> byte a \<Longrightarrow> f a = [a]"
  shows "utf8_valid (concat (map f s))"
  using assms(1)
proof (induction s rule: utf8_induct)
  case (Char c t)
  have "(\<forall>a \<in> set c. 128 \<le> byte a) \<Longrightarrow> concat (map f c) = c" using assms(3) by (induction c) auto
  moreover have "is_ascii (concat (map f [a]))" if "byte a < 128" for a using assms(2) [OF that] by simp
  ultimately have "utf8_valid (concat (map f c))"
    using utf8_char_bytes [OF Char(1)] utf8_valid_char [OF Char(1), of "[]"]
    by (auto intro: utf8_valid_ascii)
  with Char show ?case by (simp add: utf8_valid_append)
qed simp

end
