(* ===== verification/Wp_Text.thy ===== *)
theory Wp_Text
  imports Wp_Core
begin

text \<open>
  Facts about \<open>str::trim\<close> of \<open>Wp_Prelude\<close>: white space is recognised by a prefix of at most three
  bytes, a trimmed text stays as it is, also with a line feed behind it.
\<close>

lemma ws_len_short:
  "ws_len [] = 0"
  "ws_len [a] = (if a = 32 \<or> 9 \<le> a \<and> a \<le> 13 then 1 else 0)"
  "ws_len [a, b] = (if a = 32 \<or> 9 \<le> a \<and> a \<le> 13 then 1
      else if a = 0xC2 \<and> (b = 0x85 \<or> b = 0xA0) then 2 else 0)"
  by (simp_all add: ws_len_def)

lemma ws_len_more: "ws_len (a # b # c # xs) = ws_len [a, b, c]"
  by (simp add: ws_len_def)

lemma ws_len_first: "a = 32 \<or> 9 \<le> a \<and> a \<le> 13 \<Longrightarrow> ws_len (a # xs) = 1"
  by (simp add: ws_len_def)

lemma ws_len_two: "b = 0x85 \<or> b = 0xA0 \<Longrightarrow> ws_len (0xC2 # b # xs) = 2"
  by (auto simp: ws_len_def)

lemma ws_len_append:
  assumes "ws_len xs \<noteq> 0" shows "ws_len (xs @ ys) = ws_len xs"
proof (cases xs)
  case (Cons a xs1)
  note xs = Cons
  show ?thesis
  proof (cases xs1)
    case Nil
    with assms xs show ?thesis by (auto simp: ws_len_short ws_len_first split: if_splits)
  next
    case (Cons b xs2)
    show ?thesis
    proof (cases xs2)
      case Nil
      with assms xs Cons show ?thesis by (auto simp: ws_len_short ws_len_first ws_len_two split: if_splits)
    next
      case (Cons c xs3)
      with xs \<open>xs1 = b # xs2\<close> show ?thesis by (simp add: ws_len_more [of a b c "xs3 @ ys"] ws_len_more [of a b c xs3])
    qed
  qed
qed (use assms in \<open>simp add: ws_len_short\<close>)

lemma ws_len_prefix: "ws_len (take 3 (xs @ ys)) = 0 \<Longrightarrow> ws_len (take 3 xs) = 0"
proof (rule ccontr)
  assume *: "ws_len (take 3 (xs @ ys)) = 0" "ws_len (take 3 xs) \<noteq> 0"
  have "take 3 (xs @ ys) = take 3 xs @ take (3 - length xs) ys" by simp
  with ws_len_append [OF *(2)] * show False by metis
qed

lemma ws_len_snoc_LF:
  assumes "xs \<noteq> []" and "ws_len (take 3 xs) = 0" shows "ws_len (take 3 (xs @ [10])) = 0"
proof (cases "length xs < 3")
  case True
  with assms(1) consider a where "xs = [a]" | a b where "xs = [a, b]"
    by (cases xs; cases "tl xs"; cases "tl (tl xs)") auto
  then show ?thesis
    by cases (use assms(2) in \<open>auto simp: ws_len_short split: if_splits, auto simp: ws_len_def split: if_splits\<close>)
next
  case False
  with assms(2) show ?thesis by simp
qed

lemma byte_LF: "of_char LF = (10 :: nat)"
  by (simp add: LF_def)

lemma trim_end_rev_stop:
  "trim_end_rev s \<noteq> [] \<Longrightarrow> ws_len_rev (map of_char (take 3 (trim_end_rev s))) = 0"
proof (induction s rule: trim_end_rev.induct)
  case (1 s)
  show ?case
  proof (cases "ws_len_rev (map of_char (take 3 s)) = 0 \<or> s = []")
    case True
    with 1(2) show ?thesis by (auto simp: trim_end_rev.simps [of s] Let_def)
  next
    case False
    then have "trim_end_rev s = trim_end_rev (drop (ws_len_rev (map of_char (take 3 s))) s)"
      by (simp add: trim_end_rev.simps [of s] Let_def)
    with 1 False show ?thesis by simp
  qed
qed

lemma trim_end_rev_idem: "trim_end_rev (trim_end_rev s) = trim_end_rev s"
  using trim_end_rev_stop [of s] by (subst trim_end_rev.simps) (auto simp: Let_def)

lemma trim_end_rev_suffix: "\<exists>u. s = u @ trim_end_rev s"
proof (induction s rule: trim_end_rev.induct)
  case (1 s)
  let ?n = "ws_len_rev (map of_char (take 3 s))"
  show ?case
  proof (cases "?n = 0 \<or> s = []")
    case True
    then show ?thesis by (auto simp: trim_end_rev.simps [of s] Let_def)
  next
    case False
    then have "trim_end_rev s = trim_end_rev (drop ?n s)" by (simp add: trim_end_rev.simps [of s] Let_def)
    with 1 False obtain u where "drop ?n s = u @ trim_end_rev s" by auto
    then have "s = (take ?n s @ u) @ trim_end_rev s" by (metis append_assoc append_take_drop_id)
    then show ?thesis by blast
  qed
qed

lemma trim_Nil [simp]: "trim_start [] = []" "trim_end_rev [] = []"
  by (subst trim_start.simps trim_end_rev.simps, simp add: ws_len_def ws_len_rev_def Let_def)+

lemma ws_LF: "ws_len (10 # xs) = 1" "ws_len_rev (10 # xs) = 1"
  by (simp_all add: ws_len_def ws_len_rev_def)

lemma trim_end_snoc_LF: "trim_end (s @ [LF]) = trim_end s"
proof -
  have "trim_end_rev (LF # rev s) = trim_end_rev (rev s)"
    by (subst trim_end_rev.simps) (simp add: byte_LF ws_LF)
  then show ?thesis by (simp add: trim_end_def)
qed

lemma trim_LF: "trim [LF] = []"
proof -
  have "trim_start [LF] = []" by (subst trim_start.simps) (simp add: byte_LF ws_LF)
  then show ?thesis by (simp add: trim_def trim_end_def)
qed

lemma trim_idem_LF: "trim (trim s @ [LF]) = trim s"
proof (cases "trim s = []")
  case True
  then show ?thesis by (simp add: trim_LF)
next
  case False
  obtain t where t: "trim s = t" "t = trim_end (trim_start s)" by (simp add: trim_def)
  obtain u where "rev (trim_start s) = u @ trim_end_rev (rev (trim_start s))" using trim_end_rev_suffix by blast
  then have pre: "trim_start s = t @ rev u" by (metis rev_append rev_rev_ident t(2) trim_end_def)
  have tne: "t \<noteq> []" using False t(1) by metis
  then have "trim_start s \<noteq> []" unfolding pre by simp
  from trim_start_stop [OF this] have "ws_len (take 3 (map of_char t @ map of_char (rev u))) = 0"
    unfolding pre take_map [symmetric] map_append .
  then have "ws_len (take 3 (map of_char t)) = 0" by (rule ws_len_prefix)
  then have "ws_len (take 3 (map of_char t @ [10])) = 0" by (rule ws_len_snoc_LF [rotated]) (simp add: tne)
  then have "trim_start (t @ [LF]) = t @ [LF]"
    by (subst trim_start.simps) (simp only: take_map [symmetric] map_append list.map byte_LF Let_def simp_thms if_True)
  moreover have "trim_end t = t" unfolding t(2) trim_end_def by (simp add: trim_end_rev_idem)
  ultimately show ?thesis unfolding t(1) by (simp add: trim_def trim_end_snoc_LF)
qed
end
