(* ===== verification/Wp_FakeHttp.thy ===== *)
theory Wp_FakeHttp
  imports Wp_Fake Wp_Text
begin

text \<open>
  The HTTP client of \<open>crates/wp-link\<close> against the server of \<open>crates/wp-fake\<close>: however the bytes of
  a request are cut into reads, the device is handed that request, and the client
  decodes the answer to the body the device gave.
\<close>

section \<open>Words and lines\<close>

text \<open>A word of visible ASCII, and a text of ASCII without control characters.\<close>

definition word_char :: "char \<Rightarrow> bool" where
  "word_char c \<longleftrightarrow> 33 \<le> byte c \<and> byte c \<le> 126"

definition word :: "string \<Rightarrow> bool" where
  "word s \<longleftrightarrow> s \<noteq> [] \<and> list_all word_char s"

definition plain_char :: "char \<Rightarrow> bool" where
  "plain_char c \<longleftrightarrow> 32 \<le> byte c \<and> byte c \<le> 126"

definition plain :: "string \<Rightarrow> bool" where
  "plain s \<longleftrightarrow> list_all plain_char s"

lemma word_char_plain: "word_char c \<Longrightarrow> plain_char c"
  by (simp add: word_char_def plain_char_def)

lemma word_plain: "word s \<Longrightarrow> plain s"
  by (auto simp: word_def plain_def list_all_iff word_char_plain)

lemma plain_append [simp]: "plain (s @ t) \<longleftrightarrow> plain s \<and> plain t"
  by (simp add: plain_def)

lemma plain_no_CR: "plain s \<Longrightarrow> CR \<notin> set s"
  by (auto simp: plain_def list_all_iff plain_char_def CR_def)

lemma plain_no_LF: "plain s \<Longrightarrow> LF \<notin> set s"
  by (auto simp: plain_def list_all_iff plain_char_def LF_def)

lemma digit_word_char: "is_ascii_digit c \<Longrightarrow> word_char c"
  by (simp add: is_ascii_digit_def word_char_def)

lemma show_nat_word: "word (show_nat n)"
  by (auto simp: word_def list_all_iff intro: digit_word_char show_nat_digits)

lemma show_nat_plain [simp]: "plain (show_nat n)"
  by (rule word_plain [OF show_nat_word])

lemma ws_word_char: "word_char c \<Longrightarrow> ws_len (byte c # bs) = 0"
  by (rule ws_len_visible) (simp_all add: word_char_def word_le_nat_alt word_less_nat_alt)

lemma word_prefix_word:
  "list_all word_char w \<Longrightarrow> t = [] \<or> ws_len (map of_char (take 3 t)) \<noteq> 0 \<Longrightarrow> word_prefix (w @ t) = w"
proof (induction w)
  case Nil
  then show ?case by (subst word_prefix.simps) auto
next
  case (Cons c w)
  then have "word_prefix (c # w @ t) = c # word_prefix (w @ t)"
    by (subst word_prefix.simps) (simp add: ws_word_char)
  with Cons show ?case by simp
qed

lemma trim_start_word: "word w \<Longrightarrow> trim_start (w @ t) = w @ t"
  by (cases w) (auto simp: word_def trim_start.simps [of "_ # _"] ws_word_char)

lemma trim_start_blank: "trim_start (CHR '' '' # s) = trim_start s"
proof -
  have "ws_len (map of_char (take 3 (CHR '' '' # s))) = 1" by (simp add: ws_len_def)
  then show ?thesis by (subst trim_start.simps) (simp del: take_Suc_Cons)
qed

lemma split_whitespace_word_only: "word w \<Longrightarrow> split_whitespace w = [w]"
  using trim_start_word [of w "[]"] word_prefix_word [of w "[]"]
  by (subst split_whitespace.simps) (auto simp: word_def split_whitespace.simps [of "[]"] trim_start.simps [of "[]"])

lemma split_whitespace_word:
  assumes "word w" shows "split_whitespace (w @ CHR '' '' # s) = w # split_whitespace s"
proof -
  have "ws_len (map of_char (take 3 (CHR '' '' # s))) \<noteq> 0" by (simp add: ws_len_def)
  then have "word_prefix (w @ CHR '' '' # s) = w" using assms by (intro word_prefix_word) (auto simp: word_def)
  moreover have "trim_start (w @ CHR '' '' # s) = w @ CHR '' '' # s" using assms by (rule trim_start_word)
  moreover have "split_whitespace (CHR '' '' # s) = split_whitespace s"
    by (subst (1 2) split_whitespace.simps) (simp add: trim_start_blank)
  ultimately show ?thesis by (subst split_whitespace.simps) (simp add: Let_def)
qed

text \<open>Lines joined by CRLF are split again.\<close>

lemma split_crlf_aux_clean: "CR \<notin> set l \<Longrightarrow> split_crlf_aux acc l = [rev acc @ l]"
proof (induction acc l rule: split_crlf_aux.induct)
qed auto

lemma split_crlf_aux_line:
  "CR \<notin> set l \<Longrightarrow> split_crlf_aux acc (l @ CR # LF # s) = (rev acc @ l) # split_crlf_aux [] s"
proof (induction l arbitrary: acc)
  case (Cons c l)
  then have "split_crlf_aux acc (c # l @ CR # LF # s) = split_crlf_aux (c # acc) (l @ CR # LF # s)"
    by (cases l) auto
  with Cons show ?case by simp
qed simp

lemma split_crlf_join:
  "ls \<noteq> [] \<Longrightarrow> list_all plain ls \<Longrightarrow> split_crlf (join crlf ls) = ls"
proof (induction ls rule: induct_list012)
  case (2 l)
  then show ?case by (simp add: split_crlf_def split_crlf_aux_clean plain_no_CR)
next
  case (3 l m ls)
  then show ?case by (simp add: split_crlf_def split_crlf_aux_line plain_no_CR crlf_def)
qed simp

text \<open>The blank line after them is the first one.\<close>

lemma find_sub_skip: "\<not> starts_with (c # s) p \<Longrightarrow> find_sub (c # s) p = map_option Suc (find_sub s p)"
  by simp

lemma find_blank_line:
  "CR \<notin> set l \<Longrightarrow> \<not> starts_with t crlf \<Longrightarrow>
     find_sub (l @ crlf @ t) (crlf @ crlf) = map_option ((+) (length l + 2)) (find_sub t (crlf @ crlf))"
proof (induction l)
  case Nil
  have "\<not> starts_with (LF # t) (crlf @ crlf)" by (simp add: crlf_def)
  with Nil show ?case by (auto simp: crlf_def option.map_comp comp_def)
next
  case (Cons c l)
  then have "\<not> starts_with (c # l @ crlf @ t) (crlf @ crlf)" by (auto simp: crlf_def)
  with Cons show ?case by (simp add: option.map_comp comp_def)
qed

lemma find_blank_here: "CR \<notin> set l \<Longrightarrow> find_sub (l @ crlf @ crlf @ t) (crlf @ crlf) = Some (length l)"
proof (induction l)
  case Nil
  then show ?case by (simp add: crlf_def)
next
  case (Cons c l)
  then have "\<not> starts_with (c # l @ crlf @ crlf @ t) (crlf @ crlf)" by (auto simp: crlf_def)
  with Cons show ?case by simp
qed

lemma plain_not_crlf: "plain l \<Longrightarrow> l \<noteq> [] \<Longrightarrow> \<not> starts_with (l @ t) crlf"
  by (cases l) (auto simp: crlf_def dest: plain_no_CR)

lemma find_head_end:
  "ls \<noteq> [] \<Longrightarrow> list_all plain ls \<Longrightarrow> list_all (\<lambda>l. l \<noteq> []) ls \<Longrightarrow>
     find_sub (join crlf ls @ crlf @ crlf @ t) (crlf @ crlf) = Some (length (join crlf ls))"
proof (induction ls rule: induct_list012)
  case (2 l)
  then show ?case by (simp add: find_blank_here plain_no_CR)
next
  case (3 l m ls)
  let ?rest = "join crlf (m # ls) @ crlf @ crlf @ t"
  have "\<not> starts_with ?rest crlf"
    using 3(4,5) plain_not_crlf [of m "crlf @ crlf @ t"] plain_not_crlf [of m "crlf @ join crlf ls @ crlf @ crlf @ t"]
    by (cases ls) simp_all
  with 3 find_blank_line [of l ?rest] show ?case by (simp add: plain_no_CR crlf_def)
qed simp


lemma find_sub_within:
  "find_sub (s @ t) p = Some i \<Longrightarrow> i + length p \<le> length s \<Longrightarrow> find_sub s p = Some i"
proof (induction s arbitrary: i)
  case Nil
  then show ?case by (cases p) auto
next
  case (Cons c s)
  show ?case
  proof (cases "starts_with (c # s @ t) p")
    case True
    with Cons(2) have "i = 0" by simp
    with True Cons(3) have "starts_with (c # s) p" by (cases p) (auto simp: starts_with_take)
    with \<open>i = 0\<close> show ?thesis by simp
  next
    case False
    with Cons(2) obtain j where j: "find_sub (s @ t) p = Some j" "i = Suc j" by auto
    have "\<not> starts_with (c # s) p"
    proof
      assume "starts_with (c # s) p"
      then obtain u where "c # s = p @ u" by (auto simp: starts_with_iff)
      then have "c # s @ t = p @ u @ t" by (metis append.assoc append_Cons)
      with False show False by (metis starts_with_append)
    qed
    with Cons(1) [OF j(1)] Cons(3) j show ?thesis by simp
  qed
qed

lemma find_sub_least: "find_sub s p = Some i \<Longrightarrow> j < i \<Longrightarrow> take (length p) (drop j s) \<noteq> p"
proof (induction s arbitrary: i j)
  case (Cons c s)
  then show ?case by (cases j) (auto simp: starts_with_take split: if_splits)
qed (simp split: if_splits)

lemma locate_body_find_sub:
  assumes "find_sub buf (crlf @ crlf) = Some i" shows "locate_body buf = Inr (i + 4)"
proof -
  have len: "length (crlf @ crlf) = 4" by (simp add: crlf_def)
  note at = find_sub_Some [OF assms, unfolded len]
  have "find (\<lambda>i. take 4 (drop (i - 3) buf) = crlf @ crlf) [3..<length buf] = Some (i + 3)"
    unfolding find_Some_iff
  proof (intro exI [of _ i] conjI allI impI)
    fix j assume "j < i"
    then show "\<not> take 4 (drop ([3..<length buf] ! j - 3) buf) = crlf @ crlf"
      using find_sub_least [OF assms, of j, unfolded len] at by simp
  qed (use at in auto)
  then show ?thesis by (simp add: locate_body_def)
qed

section \<open>Reading in chunks\<close>

lemma read_header_chunks:
  assumes "find_sub (buf @ concat cs) (crlf @ crlf) = Some i"
    and "find_sub buf (crlf @ crlf) = None" and "i + 3 \<le> MAX_HEADER" and "list_all (\<lambda>c. c \<noteq> []) cs"
  shows "\<exists>ds rest. cs = ds @ rest
           \<and> i + 4 \<le> length (buf @ concat ds)
           \<and> read_header (map Inr cs) buf = Some (HE_Found i (buf @ concat ds) (map Inr rest))"
  using assms
proof (induction cs arbitrary: buf)
  case (Cons c cs)
  show ?case
  proof (cases "find_sub (buf @ c) (crlf @ crlf)")
    case None
    have "\<not> i + 4 \<le> length (buf @ c)"
      using find_sub_within [of "buf @ c" "concat cs" "crlf @ crlf" i] Cons.prems(1) None
      by (auto simp: crlf_def)
    then have "length (buf @ c) \<le> MAX_HEADER" using Cons.prems(3) by simp
    with Cons.IH [of "buf @ c"] None Cons.prems obtain ds rest where
      "cs = ds @ rest" "i + 4 \<le> length (buf @ c @ concat ds)"
      "read_header (map Inr cs) (buf @ c) = Some (HE_Found i (buf @ c @ concat ds) (map Inr rest))"
      by auto
    with None Cons.prems(4) \<open>length (buf @ c) \<le> MAX_HEADER\<close> show ?thesis
      by (intro exI [of _ "c # ds"] exI [of _ rest]) (simp add: Let_def)
  next
    case (Some j)
    have "j = i"
      using find_sub_append [OF _ Some, of "concat cs"] Cons.prems(1) by (simp add: crlf_def)
    moreover have "j + 4 \<le> length (buf @ c)" using find_sub_Some [OF Some] by (simp add: crlf_def)
    ultimately show ?thesis using Some Cons.prems(4)
      by (intro exI [of _ "[c]"] exI [of _ cs]) (simp add: Let_def)
  qed
qed simp

lemma read_body_chunks:
  "list_all (\<lambda>c. c \<noteq> []) cs \<Longrightarrow> length (buf @ concat cs) = need \<Longrightarrow>
     read_body need (map Inr cs) buf = Some (Inr (buf @ concat cs))"
proof (induction cs arbitrary: buf)
  case Nil
  then show ?case by (subst read_body.simps) simp
next
  case (Cons c cs)
  then have "\<not> length buf \<ge> need" by (cases c) auto
  with Cons show ?case by (subst read_body.simps) simp
qed


section \<open>The request head\<close>

definition request_line :: "http_request \<Rightarrow> string" where
  "request_line q = hq_method q @ CHR '' '' # hq_path q @ CHR '' '' # ''HTTP/1.1''"

definition content_lines :: "http_request \<Rightarrow> string list" where
  "content_lines q =
     (case hq_body q of
        None \<Rightarrow> []
      | Some (ct, bytes) \<Rightarrow> [''Content-Type: '' @ ct, ''Content-Length: '' @ show_nat (length bytes)])"

definition request_lines :: "bounded_http_client \<Rightarrow> http_request \<Rightarrow> string list" where
  "request_lines c q =
     request_line q # (''Host: '' @ hc_host c @ '':'' @ show_nat (unat (hc_port c)))
     # ''Connection: close'' # content_lines q"

definition request_content :: "http_request \<Rightarrow> string" where
  "request_content q = (case hq_body q of None \<Rightarrow> [] | Some (_, bytes) \<Rightarrow> bytes)"

lemma request_head_lines: "request_head c q = join crlf (request_lines c q) @ crlf @ crlf"
  by (simp add: request_head_def request_lines_def request_line_def content_lines_def
      split: option.split prod.split)

text \<open>A request of visible ASCII: its words and header values.\<close>

definition sendable :: "bounded_http_client \<Rightarrow> http_request \<Rightarrow> bool" where
  "sendable c q \<longleftrightarrow> word (hq_method q) \<and> word (hq_path q) \<and> plain (hc_host c)
     \<and> (case hq_body q of None \<Rightarrow> True | Some (ct, _) \<Rightarrow> plain ct)
     \<and> length (request_head c q) \<le> MAX_HEADER
     \<and> length (request_head c q) + length (request_content q) \<le> usize_max"

lemma plain_literals [simp]:
  "plain ''HTTP/1.1''" "plain ''Host: ''" "plain ''Connection: close''" "plain ''Content-Type: ''"
  "plain ''Content-Length: ''" "plain '':''" "plain []"
  by (simp_all add: plain_def plain_char_def)

lemma plain_Cons [simp]: "plain (c # s) \<longleftrightarrow> plain_char c \<and> plain s"
  by (simp add: plain_def)

lemma plain_blank [simp]: "plain_char (CHR '' '')"
  by (simp add: plain_char_def)

lemma request_lines_plain: "sendable c q \<Longrightarrow> list_all plain (request_lines c q)"
  by (auto simp: request_lines_def request_line_def content_lines_def sendable_def word_plain plain_char_def
      split: option.split)

lemma request_lines_nonempty: "list_all (\<lambda>l. l \<noteq> []) (request_lines c q)"
  by (auto simp: request_lines_def request_line_def content_lines_def split: option.split)

lemma request_lines_neq [simp]: "request_lines c q \<noteq> []"
  by (simp add: request_lines_def)

lemma word_HTTP: "word ''HTTP/1.1''"
  by (simp add: word_def word_char_def)

lemma split_request_line:
  "sendable c q \<Longrightarrow> split_whitespace (request_line q) = [hq_method q, hq_path q, ''HTTP/1.1'']"
  by (simp add: request_line_def sendable_def split_whitespace_word split_whitespace_word_only [OF word_HTTP])

lemma lower_append: "to_ascii_lowercase (s @ t) = to_ascii_lowercase s @ to_ascii_lowercase t"
  by (simp add: to_ascii_lowercase_def)

lemma lower_digits: "list_all is_ascii_digit s \<Longrightarrow> to_ascii_lowercase s = s"
  by (induction s) (auto simp: to_ascii_lowercase_def ascii_lower_def is_ascii_upper_def is_ascii_digit_def)

lemma lower_keys:
  "to_ascii_lowercase ''Host: '' = ''host: ''" "to_ascii_lowercase ''Connection: close'' = ''connection: close''"
  "to_ascii_lowercase ''Content-Type: '' = ''content-type: ''"
  "to_ascii_lowercase ''Content-Length: '' = ''content-length: ''"
  by code_simp+

lemma trim_blank_number: "trim (CHR '' '' # show_nat n) = show_nat n"
proof -
  have "list_all is_ascii_alphanumeric (show_nat n)"
    using show_nat_digits by (auto simp: list_all_iff is_ascii_alphanumeric_def)
  then have "trim (show_nat n) = show_nat n" by (rule trim_alnum)
  moreover have "trim (CHR '' '' # show_nat n) = trim (show_nat n)" by (simp add: trim_def trim_start_blank)
  ultimately show ?thesis by simp
qed

lemma length_of_content_length:
  "n \<le> usize_max \<Longrightarrow> length_of_line (''Content-Length: '' @ show_nat n) k = n"
  unfolding length_of_line_def lower_append lower_keys
  by (simp add: lower_digits list_all_iff show_nat_digits trim_blank_number parse_usize_def parse_uint_show_nat)

lemma length_of_other:
  "length_of_line (''Host: '' @ s) k = k" "length_of_line ''Connection: close'' k = k"
  "length_of_line (''Content-Type: '' @ s) k = k"
  unfolding length_of_line_def lower_append lower_keys by simp_all

lemma length_of_request_lines:
  "length (request_content q) \<le> usize_max \<Longrightarrow>
     fold length_of_line (tl (request_lines c q)) 0 = length (request_content q)"
  unfolding request_lines_def content_lines_def request_content_def list.sel
  by (cases "hq_body q") (auto simp: length_of_other length_of_content_length
      simp del: append_Cons append.simps(2))

lemma parse_request_head:
  assumes "sendable c q"
  shows "parse_head (join crlf (request_lines c q)) = Inr (hq_method q, hq_path q, length (request_content q))"
proof -
  have "split_crlf (join crlf (request_lines c q)) = request_lines c q"
    by (rule split_crlf_join) (simp_all add: request_lines_plain [OF assms])
  moreover have "hd (request_lines c q) = request_line q" by (simp add: request_lines_def)
  ultimately show ?thesis
    using assms split_request_line [OF assms] length_of_request_lines [of q c]
    by (simp add: parse_head_def sendable_def)
qed


section \<open>The exchange\<close>

definition received :: "http_request \<Rightarrow> fake_request" where
  "received q =
     \<lparr>fq_method = hq_method q, fq_path = hq_path q,
      fq_body = (if request_content q = [] then None else Some (request_content q))\<rparr>"

lemma plain_ascii: "plain s \<Longrightarrow> is_ascii s"
  by (auto simp: plain_def list_all_iff plain_char_def is_ascii_def)

lemma ascii_join: "list_all is_ascii ls \<Longrightarrow> is_ascii (join crlf ls)"
  by (induction ls rule: induct_list012) (auto simp: is_ascii_def crlf_def CR_def LF_def)

lemma plain_lines_utf8: "list_all plain ls \<Longrightarrow> utf8_valid (join crlf ls)"
  by (intro utf8_valid_ascii ascii_join) (auto simp: list_all_iff plain_ascii)

lemma connection_served:
  assumes q: "sendable c q" and chunks: "list_all (\<lambda>r. r \<noteq> []) cs"
    and bytes: "concat cs = request_head c q @ request_content q"
  shows "handle_connection h (map Inr cs) s =
           (case h (received q) s of (r, s') \<Rightarrow> Some (Ret (Inr (if fr_drop r then [] else response_bytes r)), s'))"
proof -
  let ?lines = "join crlf (request_lines c q)" and ?n = "length (request_content q)"
  have pl: "list_all plain (request_lines c q)" by (rule request_lines_plain [OF q])
  have all: "concat cs = ?lines @ crlf @ crlf @ request_content q" by (simp add: bytes request_head_lines)
  have head: "length ?lines + 4 = length (request_head c q)" by (simp add: request_head_lines crlf_def)
  have found: "find_sub (concat cs) (crlf @ crlf) = Some (length ?lines)"
    unfolding all by (rule find_head_end) (simp_all add: pl request_lines_nonempty)
  have "find_sub [] (crlf @ crlf) = None" by (simp add: crlf_def)
  moreover have "length ?lines + 3 \<le> MAX_HEADER" using q head by (simp add: sendable_def)
  ultimately obtain ds rest where cs: "cs = ds @ rest" and len: "length ?lines \<le> length (concat ds)"
    and hdr: "read_header (map Inr cs) [] = Some (HE_Found (length ?lines) (concat ds) (map Inr rest))"
    using read_header_chunks [of "[]" cs "length ?lines"] found chunks by auto
  have take: "take (length ?lines) (concat ds) = ?lines"
    using arg_cong [OF all, of "take (length ?lines)"] len by (simp add: cs)
  have need: "length (concat ds @ concat rest) = length ?lines + 4 + ?n"
    using arg_cong [OF all, of length] unfolding cs by (simp add: crlf_def)
  have body: "read_body (length ?lines + 4 + ?n) (map Inr rest) (concat ds) = Some (Inr (concat cs))"
    using read_body_chunks [of rest "concat ds"] need chunks by (simp add: cs)
  have content: "drop (length ?lines + 4) (concat cs) = request_content q"
    unfolding all by (simp add: crlf_def)
  show ?thesis
    using q head
    by (simp add: handle_connection_def hdr serve_request_def from_utf8_def take plain_lines_utf8 [OF pl]
        parse_request_head [OF q] body [unfolded head] content [unfolded head] received_def sendable_def Let_def
        split: prod.split)
qed


section \<open>The response\<close>

definition response_lines :: "fake_response \<Rightarrow> string list" where
  "response_lines r =
     [''HTTP/1.1'' @ CHR '' '' # show_nat (unat (fr_status r)) @ CHR '' '' # reason_phrase (fr_status r),
      ''Content-Type: '' @ fr_content_type r, ''Content-Length: '' @ show_nat (length (fr_body r)),
      ''Connection: close'']"

lemma response_bytes_lines: "response_bytes r = join crlf (response_lines r) @ crlf @ crlf @ fr_body r"
  by (simp add: response_bytes_def response_lines_def)

lemma reason_phrase_plain [simp]: "plain (reason_phrase st)"
  by (simp add: reason_phrase_def plain_def plain_char_def)

lemma response_lines_plain: "plain (fr_content_type r) \<Longrightarrow> list_all plain (response_lines r)"
  by (simp add: response_lines_def plain_char_def)

lemma response_head_found:
  "plain (fr_content_type r) \<Longrightarrow>
     find_sub (response_bytes r) (crlf @ crlf) = Some (length (join crlf (response_lines r)))"
  unfolding response_bytes_lines
  by (rule find_head_end) (simp_all add: response_lines_plain, simp_all add: response_lines_def)

lemma split_crlf_headers:
  "ls \<noteq> [] \<Longrightarrow> list_all plain ls \<Longrightarrow> split_crlf (join crlf ls @ crlf @ crlf) = ls @ [[], []]"
proof -
  assume "ls \<noteq> []" and "list_all plain ls"
  then have "split_crlf (join crlf (ls @ [[], []])) = ls @ [[], []]"
    by (intro split_crlf_join) simp_all
  moreover have "join crlf (ls @ [[], []]) = join crlf ls @ crlf @ crlf"
    using \<open>ls \<noteq> []\<close> by (induction ls rule: induct_list012) simp_all
  ultimately show ?thesis by simp
qed

lemma header_value_skip:
  "CHR '':'' \<notin> set l \<Longrightarrow> header_value key (l # ls) = header_value key ls"
  by (simp add: split_once_None [THEN iffD2])

lemma header_value_line:
  "CHR '':'' \<notin> set name \<Longrightarrow>
     header_value key ((name @ CHR '':'' # v) # ls)
     = (if eq_ignore_ascii_case name key then Some v else header_value key ls)"
  by (simp add: split_once_append)

lemma status_line_no_colon: "CHR '':'' \<notin> set (hd (response_lines r))"
  using show_nat_digits [of "CHR '':''" "unat (fr_status r)"]
  by (auto simp: response_lines_def reason_phrase_def)


definition response_head :: "fake_response \<Rightarrow> string" where
  "response_head r = join crlf (response_lines r) @ crlf @ crlf"

lemma response_bytes_head: "response_bytes r = response_head r @ fr_body r"
  by (simp add: response_bytes_lines response_head_def)

lemma split_response_head:
  "plain (fr_content_type r) \<Longrightarrow> split_crlf (response_head r) = response_lines r @ [[], []]"
  unfolding response_head_def
  by (rule split_crlf_headers) (simp_all add: response_lines_plain, simp add: response_lines_def)

lemma response_head_utf8: "plain (fr_content_type r) \<Longrightarrow> from_utf8 (response_head r) = Some (response_head r)"
proof -
  assume "plain (fr_content_type r)"
  then have "is_ascii (join crlf (response_lines r))"
    by (intro ascii_join) (auto simp: list_all_iff plain_ascii dest!: response_lines_plain)
  then show ?thesis
    by (intro from_utf8_Some [THEN iffD2]) (auto simp: response_head_def is_ascii_def crlf_def CR_def LF_def
        intro!: utf8_valid_ascii)
qed

lemma response_names:
  "\<not> eq_ignore_ascii_case ''Content-Type'' ''content-length''"
  "eq_ignore_ascii_case ''Content-Length'' ''content-length''"
  "\<not> eq_ignore_ascii_case ''Content-Type'' ''transfer-encoding''"
  "\<not> eq_ignore_ascii_case ''Content-Length'' ''transfer-encoding''"
  "\<not> eq_ignore_ascii_case ''Connection'' ''transfer-encoding''"
  by code_simp+

text \<open>The header lines as name, colon and value.\<close>

lemma response_lines_named:
  "response_lines r = [hd (response_lines r), ''Content-Type'' @ CHR '':'' # CHR '' '' # fr_content_type r,
     ''Content-Length'' @ CHR '':'' # CHR '' '' # show_nat (length (fr_body r)),
     ''Connection'' @ CHR '':'' # '' close'']"
  by (simp add: response_lines_def)

lemma response_name_chars:
  "CHR '':'' \<notin> set ''Content-Type''" "CHR '':'' \<notin> set ''Content-Length''" "CHR '':'' \<notin> set ''Connection''"
  by simp_all

lemma response_headers_from:
  "header_value key (response_lines r @ ls) = header_value key (tl (response_lines r) @ ls)"
proof -
  have "response_lines r @ ls = hd (response_lines r) # tl (response_lines r) @ ls"
    by (simp add: response_lines_def)
  then show ?thesis using header_value_skip [OF status_line_no_colon] by metis
qed

lemma response_content_length:
  "header_value ''content-length'' (response_lines r @ [[], []]) = Some (CHR '' '' # show_nat (length (fr_body r)))"
proof -
  have "tl (response_lines r) @ [[], []] =
      (''Content-Type'' @ CHR '':'' # CHR '' '' # fr_content_type r)
      # (''Content-Length'' @ CHR '':'' # CHR '' '' # show_nat (length (fr_body r)))
      # [''Connection'' @ CHR '':'' # '' close'', [], []]"
    by (subst response_lines_named) simp
  then show ?thesis
    by (simp only: response_headers_from header_value_line response_name_chars response_names if_True if_False
        not_False_eq_True)
qed

lemma response_not_chunked:
  "header_value ''transfer-encoding'' (response_lines r @ [[], []]) = None"
proof -
  have "tl (response_lines r) @ [[], []] =
      (''Content-Type'' @ CHR '':'' # CHR '' '' # fr_content_type r)
      # (''Content-Length'' @ CHR '':'' # CHR '' '' # show_nat (length (fr_body r)))
      # (''Connection'' @ CHR '':'' # '' close'') # [[], []]"
    by (subst response_lines_named) simp
  moreover have "header_value ''transfer-encoding'' [[], []] = None" by simp
  ultimately show ?thesis
    by (simp only: response_headers_from header_value_line response_name_chars response_names if_True if_False
        not_False_eq_True)
qed

lemma response_framing:
  assumes "plain (fr_content_type r)" and "length (fr_body r) \<le> usize_max"
  shows "parse_content_length (response_head r) = Some (length (fr_body r))"
    and "is_chunked (response_head r) = False"
    and "locate_body (response_bytes r) = Inr (length (response_head r))"
  using locate_body_find_sub [OF response_head_found [OF assms(1)]] assms
  by (simp_all add: parse_content_length_def is_chunked_def response_head_utf8 split_response_head
      response_content_length response_not_chunked trim_blank_number parse_usize_def parse_uint_show_nat
      del: from_utf8_Some) (simp add: response_head_def crlf_def)

lemma response_status:
  assumes "plain (fr_content_type r)"
  shows "parse_status (response_bytes r) = Inr (fr_status r)"
proof -
  let ?l = "hd (response_lines r)"
  have l: "plain ?l" using response_lines_plain [OF assms] by (simp add: response_lines_def)
  have "response_bytes r = ?l @ CR # LF # join crlf (tl (response_lines r)) @ crlf @ crlf @ fr_body r"
    by (simp add: response_bytes_lines response_lines_def crlf_def)
  then have "takeWhile (\<lambda>c. c \<noteq> CR) (response_bytes r) = ?l"
    using plain_no_CR [OF l] by (metis (mono_tags, lifting) takeWhile.simps(2) takeWhile_append2 append_Nil2)
  moreover have "split_whitespace ?l = ''HTTP/1.1'' # show_nat (unat (fr_status r))
      # split_whitespace (reason_phrase (fr_status r))"
    unfolding response_lines_def list.sel
    by (simp only: split_whitespace_word [OF word_HTTP] split_whitespace_word [OF show_nat_word])
  ultimately show ?thesis
    using utf8_valid_ascii [OF plain_ascii [OF l]] by (simp add: parse_status_def from_utf8_def parse_u16_show)
qed

lemma response_decoded:
  assumes "plain (fr_content_type r)" and "length (fr_body r) \<le> hc_max_body c" and "length (fr_body r) \<le> usize_max"
  shows "decode_response c (response_bytes r) =
    (if 200 \<le> unat (fr_status r) \<and> unat (fr_status r) < 300 then Ret (Inr (fr_body r))
     else Ret (Inl (io_err IOK_UnexpectedEof (''unexpected HTTP status '' @ show_nat (unat (fr_status r))))))"
  using assms
  by (simp add: decode_response_def response_framing response_status)
     (simp add: response_bytes_head response_framing)


text \<open>The client reads on until the whole response is there.\<close>

definition read_turn :: "string \<Rightarrow> string io_turn" where
  "read_turn chunk = \<lparr>it_cancelled = False, it_remaining = 1, it_result = Inr chunk, it_remaining_after = 1\<rparr>"

lemma find_locate_body: "locate_body buf = Inr n \<Longrightarrow> \<exists>i. find_sub buf (crlf @ crlf) = Some i"
proof (rule ccontr)
  assume loc: "locate_body buf = Inr n" and "\<nexists>i. find_sub buf (crlf @ crlf) = Some i"
  then have none: "find_sub buf (crlf @ crlf) = None" by (cases "find_sub buf (crlf @ crlf)") auto
  have "find_sub s p = None \<Longrightarrow> j + length p \<le> length s \<Longrightarrow> take (length p) (drop j s) \<noteq> p" for s p :: string and j
  proof (induction s arbitrary: j)
    case (Cons c s)
    then show ?case by (cases j) (auto simp: starts_with_take split: if_splits)
  qed (simp split: if_splits)
  from this [OF none] have no: "j + 4 \<le> length buf \<Longrightarrow> take 4 (drop j buf) \<noteq> crlf @ crlf" for j
    by (simp add: crlf_def eval_nat_numeral)
  from loc obtain i where "find (\<lambda>i. take 4 (drop (i - 3) buf) = crlf @ crlf) [3..<length buf] = Some i"
    by (auto simp: locate_body_def split: option.splits)
  then obtain j where "j < length [3..<length buf]" "take 4 (drop ([3..<length buf] ! j - 3) buf) = crlf @ crlf"
    unfolding find_Some_iff by blast
  with no [of j] show False by simp
qed

lemma response_prefix_incomplete:
  assumes "plain (fr_content_type r)" and "length (fr_body r) \<le> usize_max"
    and "response_bytes r = buf @ t" and "t \<noteq> []"
  shows "http_message_complete buf = Some False"
proof (cases "locate_body buf")
  case (Inl e)
  then show ?thesis by (simp add: http_message_complete_def)
next
  case (Inr n)
  then obtain i where i: "find_sub buf (crlf @ crlf) = Some i" using find_locate_body by blast
  have "find_sub (response_bytes r) (crlf @ crlf) = Some i"
    unfolding assms(3) by (rule find_sub_append [OF _ i]) (simp add: crlf_def)
  then have n: "n = length (response_head r)"
    using response_framing(3) [OF assms(1,2)] locate_body_find_sub [OF i] Inr locate_body_find_sub by force
  have "i + 4 \<le> length buf" using find_sub_Some [OF i] by (simp add: crlf_def)
  then have "length (response_head r) \<le> length buf" using n locate_body_find_sub [OF i] Inr by simp
  then obtain b where b: "buf = response_head r @ b" "fr_body r = b @ t"
    using assms(3) by (auto simp: response_bytes_head append_eq_append_conv2)
  with assms(4) have "length b < length (fr_body r)" by simp
  then show ?thesis
    using Inr b response_framing(1) [OF assms(1,2)] by (simp add: http_message_complete_def n)
qed

lemma response_complete:
  assumes "plain (fr_content_type r)" and "length (fr_body r) \<le> usize_max"
  shows "http_message_complete (response_bytes r) = Some True"
  using response_framing [OF assms] by (simp add: http_message_complete_def) (simp add: response_bytes_head)

lemma response_read:
  assumes "plain (fr_content_type r)" and "length (fr_body r) \<le> usize_max"
    and "length (response_bytes r) \<le> hc_max_body c" and "list_all (\<lambda>x. x \<noteq> []) rs"
    and "buf @ concat rs = response_bytes r"
  shows "read_loop c (map read_turn rs @ [read_turn []]) buf = Some (Ret (Inr (Buffered (response_bytes r))))"
  using assms(4,5)
proof (induction rs arbitrary: buf)
  case Nil
  then show ?case using assms(3) response_complete [OF assms(1,2)] by (simp add: read_turn_def)
next
  case (Cons x rs)
  have "length buf \<le> hc_max_body c"
    using assms(3) arg_cong [OF Cons.prems(2), of length] by simp
  moreover have "http_message_complete buf = Some False"
    using response_prefix_incomplete [OF assms(1,2), of buf "concat (x # rs)"] Cons.prems by simp
  ultimately show ?case using Cons by (cases x) (simp_all add: read_turn_def)
qed


section \<open>A mock as a device\<close>

text \<open>The state after a list of requests.\<close>

definition after :: "'s fake_handler \<Rightarrow> 's \<Rightarrow> http_request list \<Rightarrow> 's" where
  "after h s qs = fold (\<lambda>q s. snd (h (received q) s)) qs s"

lemma after_simps: "after h s [] = s" "after h s (q # qs) = after h (snd (h (received q) s)) qs"
  "after h s (qs @ rs) = after h (after h s qs) rs"
  by (simp_all add: after_def)

text \<open>
  A device that a driver sees when its requests reach the handler one after the other; the
  exchange of the bytes is the theorem \<open>http_exchange\<close>. A connection that is closed without a
  reply is a success for a client that accepts the reset of a device after a write.
\<close>

definition served_by :: "bool \<Rightarrow> 's fake_handler \<Rightarrow> 's \<Rightarrow> device" where
  "served_by reset_ok h s0 tr q =
     (let r = fst (h (received q) (after h s0 (requests tr))) in
      if fr_drop r then (if reset_ok then Inr [] else Inl (io_err IOK_InvalidData ''no header/body separator''))
      else if 200 \<le> unat (fr_status r) \<and> unat (fr_status r) < 300 then Inr (fr_body r)
      else Inl (io_err IOK_UnexpectedEof (''unexpected HTTP status '' @ show_nat (unat (fr_status r)))))"

section \<open>The property\<close>

text \<open>C34: the HTTP client against the HTTP server of the mocks, end to end: whatever pieces the bytes
  of a request of visible ASCII arrive in, the device handles exactly that request, once; and
  whatever pieces the bytes of its answer arrive in, the client returns the body of a 2xx
  answer and an error with the status otherwise.\<close>

theorem http_exchange:
  assumes q: "sendable c q" and sent: "send_request c sk q = Some (Inr (), written)"
    and ready: "sk_connected sk = Inr ()" "\<not> (hc_cancel c \<and> sk_cancelled sk)"
    and up: "concat cs = written" "list_all (\<lambda>x. x \<noteq> []) cs"
    and r: "h (received q) s = (r, s')" "\<not> fr_drop r" "plain (fr_content_type r)"
    and room: "length (response_bytes r) \<le> hc_max_body c" "length (response_bytes r) \<le> usize_max"
    and down: "concat rs = response_bytes r" "list_all (\<lambda>x. x \<noteq> []) rs" "sk_read sk = map read_turn rs @ [read_turn []]"
  shows "handle_connection h (map Inr cs) s = Some (Ret (Inr (response_bytes r)), s')
       \<and> request_once c sk q = Some
           (if 200 \<le> unat (fr_status r) \<and> unat (fr_status r) < 300 then Ret (Inr (fr_body r))
            else Ret (Inl (io_err IOK_UnexpectedEof (''unexpected HTTP status '' @ show_nat (unat (fr_status r))))),
            written)"
proof
  have "concat cs = request_head c q @ request_content q"
    using send_request_Ok [OF sent] up(1) by (simp add: request_content_def)
  from connection_served [OF q up(2) this, of h s] r
  show "handle_connection h (map Inr cs) s = Some (Ret (Inr (response_bytes r)), s')" by simp
  have len: "length (fr_body r) \<le> hc_max_body c" "length (fr_body r) \<le> usize_max"
    using room by (simp_all add: response_bytes_head)
  have "read_loop c (sk_read sk) [] = Some (Ret (Inr (Buffered (response_bytes r))))"
    unfolding down(3) using response_read [OF r(3) len(2) room(1) down(2), of "[]"] down(1) by simp
  then have "read_response c (sk_read sk) = Some (decode_response c (response_bytes r))"
    by (simp add: read_response_def)
  then show "request_once c sk q = Some
           (if 200 \<le> unat (fr_status r) \<and> unat (fr_status r) < 300 then Ret (Inr (fr_body r))
            else Ret (Inl (io_err IOK_UnexpectedEof (''unexpected HTTP status '' @ show_nat (unat (fr_status r))))),
            written)"
    using ready sent by (auto simp: request_once_def response_decoded [OF r(3) len])
qed

text \<open>A GET of the file list of an RB23xx, cut at its first and last byte.\<close>

definition rb_page :: fake_response where
  "rb_page = ok_xml ''<html>files</html>''"

definition demo_client :: bounded_http_client where
  "demo_client = http_client_new ''10.0.0.2'' 80"

definition demo_get :: http_request where
  "demo_get = http_get ''/?p=/''"

definition demo_socket :: socket_script where
  "demo_socket = \<lparr>sk_connected = Inr (), sk_cancelled = False,
     sk_head = [\<lparr>it_cancelled = False, it_remaining = 9, it_result = Inr (length (request_head demo_client demo_get)),
       it_remaining_after = 9\<rparr>], sk_body = [],
     sk_flush = [\<lparr>it_cancelled = False, it_remaining = 9, it_result = Inr (), it_remaining_after = 9\<rparr>],
     sk_read = map read_turn [take 9 (response_bytes rb_page), drop 9 (response_bytes rb_page)] @ [read_turn []]\<rparr>"

lemma rb_page_handled: "rb23xx_handle (received demo_get) rb23xx_new = (rb_page, rb23xx_new)"
  by (simp add: rb23xx_handle_def received_def demo_get_def http_get_def path_and_query_def rb23xx_new_def rb_page_def)

lemma rb_page_simps: "fr_drop rb_page = False" "fr_status rb_page = 200" "fr_body rb_page = ''<html>files</html>''"
  "fr_content_type rb_page = ''text/html''"
  by (simp_all add: rb_page_def ok_xml_def)

lemma rb_page_length: "length (response_bytes rb_page) \<le> 200"
  unfolding response_bytes_def rb_page_simps by (simp add: show_nat.simps reason_phrase_def crlf_def)

lemma rb_page_length_min: "9 < length (response_bytes rb_page)"
  by (simp add: response_bytes_def)

lemma demo_get_head: "1 < length (request_head demo_client demo_get)" "length (request_head demo_client demo_get) \<le> 200"
  by (simp_all add: request_head_def demo_client_def demo_get_def http_get_def http_client_new_def show_nat.simps crlf_def)

lemma demo_get_sendable: "sendable demo_client demo_get"
  using demo_get_head
  by (simp add: sendable_def demo_client_def demo_get_def http_get_def http_client_new_def word_def word_char_def
      plain_char_def request_content_def MAX_HEADER_def usize_max_def)

lemma demo_get_sent: "send_request demo_client demo_socket demo_get = Some (Inr (), request_head demo_client demo_get)"
proof -
  have "request_head demo_client demo_get \<noteq> []" using demo_get_head(1) by auto
  then show ?thesis
    by (simp add: send_request_def send_body_def write_all_once demo_socket_def demo_get_def http_get_def)
qed

lemma demo_script: "sk_connected demo_socket = Inr ()" "hc_cancel demo_client = False"
  "sk_read demo_socket = map read_turn [take 9 (response_bytes rb_page), drop 9 (response_bytes rb_page)] @ [read_turn []]"
  by (simp_all add: demo_socket_def demo_client_def http_client_new_def)

theorem http_exchange_witness:
  "handle_connection rb23xx_handle
     (map Inr [take 1 (request_head demo_client demo_get), drop 1 (request_head demo_client demo_get)]) rb23xx_new
     = Some (Ret (Inr (response_bytes rb_page)), rb23xx_new)
   \<and> request_once demo_client demo_socket demo_get
     = Some (Ret (Inr ''<html>files</html>''), request_head demo_client demo_get)"
proof -
  have "plain (fr_content_type rb_page)" by (simp add: rb_page_simps plain_def plain_char_def)
  moreover have "length (response_bytes rb_page) \<le> hc_max_body demo_client" "length (response_bytes rb_page) \<le> usize_max"
    using rb_page_length by (simp_all add: demo_client_def http_client_new_def MAX_BODY_BYTES_def usize_max_def)
  ultimately show ?thesis
    using http_exchange [of demo_client demo_get demo_socket "request_head demo_client demo_get"
        "[take 1 (request_head demo_client demo_get), drop 1 (request_head demo_client demo_get)]"
        rb23xx_handle rb23xx_new rb_page rb23xx_new
        "[take 9 (response_bytes rb_page), drop 9 (response_bytes rb_page)]"]
      demo_get_head(1) demo_get_sendable demo_get_sent rb_page_handled rb_page_length_min
      demo_get_head(1) [THEN gr_implies_not0] rb_page_length_min [THEN gr_implies_not0]
    by (simp add: rb_page_simps demo_script del: One_nat_def)
qed

end
