(* ===== verification/Wp_WifredPage.thy ===== *)
theory Wp_WifredPage
  imports Wp_FakeWifred Wp_Utf8 Wp_FakeHttp
begin

text \<open>
  The configuration page of the WiFred mock, printed and read: the page is a list of markup items, and a
  driver whose XML reader gives the events of those items gets the configuration back.
\<close>

section \<open>Numbers are not trimmed\<close>

lemma ws_len_rev_word: "list_all word_char s \<Longrightarrow> ws_len_rev (map of_char (take 3 s)) = 0"
  by (cases s rule: short_lists) (simp_all add: ws_len_rev_def ws_word_char numeral_2_eq_2 numeral_3_eq_3, simp add: ws_len_def)

lemma trim_word: "word s \<Longrightarrow> trim s = s"
proof -
  assume s: "word s"
  then have "list_all word_char (rev s)" by (simp add: word_def list_all_iff)
  then have "trim_end_rev (rev s) = rev s"
    by (subst trim_end_rev.simps) (simp add: ws_len_rev_word)
  then show ?thesis using trim_start_word [OF s, of "[]"] by (simp add: trim_def trim_end_def)
qed

lemma trim_show_nat: "trim (show_nat n) = show_nat n"
  by (rule trim_word [OF show_nat_word])

lemma show_int_word: "word (show_int i)"
  using show_nat_word by (auto simp: show_int_def word_def word_char_def)

lemma parse_show_int:
  "- 9223372036854775808 \<le> i \<Longrightarrow> i < 9223372036854775808 \<Longrightarrow> parse_i64 (show_int i) = Some i"
proof (cases "i < 0")
  case True
  then show "- 9223372036854775808 \<le> i \<Longrightarrow> parse_i64 (show_int i) = Some i"
    by (simp add: parse_i64_def show_int_def parse_digits_show_nat)
next
  case False
  have "hd (show_nat n) \<noteq> CHR ''-''" for n
    using show_nat_digits [OF hd_show_nat] by (metis not_digit_simps(2))
  with False show "i < 9223372036854775808 \<Longrightarrow> parse_i64 (show_int i) = Some i"
    by (simp add: parse_i64_def show_int_def parse_uint_show_nat)
qed

lemma parse_u32_show: "parse_u32 (show_nat (unat p)) = Some p"
proof -
  have "unat p < 4294967296" using unsigned_less [of p, where ?'a = nat] by simp
  then show ?thesis by (simp add: parse_u32_def parse_uint_show_nat)
qed

section \<open>Markup\<close>

datatype markup =
  MK_Skip string
| MK_Empty string "(string \<times> string) list"
| MK_Open string "(string \<times> string) list"
| MK_Close string

definition attr_text :: "string \<times> string \<Rightarrow> string" where
  "attr_text kv = '' '' @ fst kv @ ''='' @ [CHR 0x22] @ xml_escape (snd kv) @ [CHR 0x22]"

fun render :: "markup \<Rightarrow> string" where
  "render (MK_Skip s) = s"
| "render (MK_Empty n as) = ''<'' @ n @ concat (map attr_text as) @ ''/>''"
| "render (MK_Open n as) = ''<'' @ n @ concat (map attr_text as) @ ''>''"
| "render (MK_Close n) = ''</'' @ n @ ''>''"

definition elem_of :: "string \<Rightarrow> (string \<times> string) list \<Rightarrow> xml_elem" where
  "elem_of n as = \<lparr>el_name = n, el_attrs = map (\<lambda>(k, v). (k, Some v)) as\<rparr>"

fun markup_events :: "markup \<Rightarrow> xml_event list" where
  "markup_events (MK_Skip s) = []"
| "markup_events (MK_Empty n as) = [XE_Empty (elem_of n as)]"
| "markup_events (MK_Open n as) = [XE_Start (elem_of n as)]"
| "markup_events (MK_Close n) = [XE_End n]"

text \<open>The XML reader gives the elements of a document, in order and with their attributes
  unescaped, and no error; what it gives for the rest is ignored by the driver.\<close>

definition reads :: "xml_lib \<Rightarrow> markup list \<Rightarrow> bool" where
  "reads xl ms \<longleftrightarrow>
     (case xl_events xl (concat (map render ms)) of
        (evs, err) \<Rightarrow> err = None \<and> filter (\<lambda>e. e \<noteq> XE_Other) evs = concat (map markup_events ms))"

section \<open>The page as markup\<close>

definition nl :: markup where
  "nl = MK_Skip [LF]"

definition mk_value :: "string \<Rightarrow> string \<Rightarrow> markup list" where
  "mk_value tag v = [MK_Empty tag [(''value'', v)], nl]"

definition mk_opt :: "string \<Rightarrow> string option \<Rightarrow> markup list" where
  "mk_opt tag v = (case v of None \<Rightarrow> [] | Some s \<Rightarrow> mk_value tag s)"

definition mk_function :: "function_entry \<Rightarrow> markup list" where
  "mk_function f =
     [MK_Skip ''     '', MK_Empty ''Function'' [(''ID'', show_nat (unat (fe_index f))),
        (''value'', show_nat (unat (fe_value f)))], nl]"

definition mk_loco :: "nat \<times> loco_config \<Rightarrow> markup list" where
  "mk_loco il =
     (let l = snd il in
      [MK_Skip '' '', MK_Open ''LOCO'' [(''ID'', show_nat (unat (loco_id (fst il) l)))], nl]
      @ mk_value ''DCCadress'' (show_int (lc_address l)) @ mk_value ''Mode'' (opt_default [] (lc_mode l))
      @ mk_opt ''Direction'' (map_option (\<lambda>d. show_nat (unat d)) (lc_direction l))
      @ mk_opt ''LongAdress'' (map_option bool_digit (lc_long_address l))
      @ [MK_Skip ''  '', MK_Open ''FUNCTIONS'' [], nl] @ concat (map mk_function (lc_functions l))
      @ [MK_Skip ''  '', MK_Close ''FUNCTIONS'', nl, MK_Skip '' '', MK_Close ''LOCO'', nl])"

definition mk_network :: "network_config \<Rightarrow> markup list" where
  "mk_network n =
     [MK_Skip '' '', MK_Open ''NETWORK'' [], nl] @ mk_value ''SSID'' (nc_ssid n) @ mk_opt ''Key'' (nc_key n)
     @ mk_value ''Enabled'' (bool_digit (nc_enabled n)) @ [MK_Skip '' '', MK_Close ''NETWORK'', nl]"

definition mk_server :: "loco_server_config \<Rightarrow> markup list" where
  "mk_server s =
     [MK_Open ''LOCOSERVER'' [], nl] @ mk_value ''ServerName'' (ls_name s)
     @ mk_value ''Port'' (show_nat (unat (ls_port s))) @ mk_value ''Automatic'' (bool_digit (ls_automatic s))
     @ [MK_Close ''LOCOSERVER'', nl]"

definition page_markup :: "device_config \<Rightarrow> markup list" where
  "page_markup cfg =
     [MK_Skip xml_prolog, MK_Open ''wiFred'' [], nl]
     @ mk_opt ''structurVersion'' (dcf_structure_version cfg) @ mk_opt ''throttleName'' (dcf_throttle_name cfg)
     @ mk_opt ''firmwareRevision'' (dcf_firmware_revision cfg)
     @ mk_opt ''batteryVoltage'' (map_option (\<lambda>mv. show_nat (unat mv)) (dcf_battery_mv cfg))
     @ [MK_Open ''LOCOS'' [], nl] @ concat (map mk_loco (enumerate 0 (dcf_locos cfg))) @ [MK_Close ''LOCOS'', nl]
     @ [MK_Open ''NETWORKS'' [], nl] @ concat (map mk_network (dcf_networks cfg)) @ [MK_Close ''NETWORKS'', nl]
     @ (case dcf_loco_server cfg of None \<Rightarrow> [] | Some s \<Rightarrow> mk_server s) @ [MK_Close ''wiFred'', nl]"

definition rendered :: "markup list \<Rightarrow> string" where
  "rendered ms = concat (map render ms)"

lemma rendered_append [simp]: "rendered (a @ b) = rendered a @ rendered b" "rendered [] = []"
  "rendered (m # ms) = render m @ rendered ms"
  by (simp_all add: rendered_def)

lemma rendered_concat: "rendered (concat (map f xs)) = concat (map (\<lambda>x. rendered (f x)) xs)"
  by (induction xs) simp_all

lemma rendered_value: "rendered (mk_value tag v) = push_empty tag v"
  by (simp add: mk_value_def push_empty_def nl_def attr_text_def)

lemma rendered_opt: "rendered (mk_opt tag v) = push_opt tag v"
  by (simp add: mk_opt_def push_opt_def rendered_value split: option.split)

lemma escape_clean: "list_all (\<lambda>c. esc_char c = [c]) s \<Longrightarrow> xml_escape s = s"
  by (induction s) (auto simp: xml_escape_def)

lemma escape_digits: "xml_escape (show_nat n) = show_nat n"
  by (rule escape_clean) (auto simp: list_all_iff esc_char_def is_ascii_digit_def dest!: show_nat_digits)

lemma rendered_function: "rendered (mk_function f) = function_xml f"
  by (simp add: mk_function_def function_xml_def nl_def attr_text_def escape_digits)

lemma rendered_loco: "rendered (mk_loco il) = loco_xml il"
  by (simp add: mk_loco_def loco_xml_def Let_def nl_def attr_text_def escape_digits rendered_value rendered_opt
      rendered_concat rendered_function)

lemma rendered_network: "rendered (mk_network n) = network_xml n"
  by (simp add: mk_network_def network_xml_def nl_def rendered_value rendered_opt)

lemma rendered_server: "rendered (mk_server s) = server_xml s"
  by (simp add: mk_server_def server_xml_def nl_def rendered_value)

lemma serialize_rendered: "serialize_xml cfg = rendered (page_markup cfg)"
  by (simp add: serialize_xml_def page_markup_def nl_def rendered_opt rendered_concat rendered_loco rendered_network
      rendered_server split: option.split)


section \<open>Reading the page\<close>

definition run :: "markup list \<Rightarrow> xml_state \<Rightarrow> xml_state" where
  "run ms s = fold handle_event (concat (map markup_events ms)) s"

lemma run_append: "run (a @ b) s = run b (run a s)"
  by (simp add: run_def)

lemma run_Cons:
  "run [] s = s" "run (MK_Skip t # ms) s = run ms s" "run (nl # ms) s = run ms s"
  "run (MK_Open n as # ms) s = run ms (handle_element (elem_of n as) s)"
  "run (MK_Close n # ms) s = run ms (handle_end n s)"
  by (simp_all add: run_def nl_def)

definition value_elem :: "string \<Rightarrow> string \<Rightarrow> xml_elem" where
  "value_elem tag v = elem_of tag [(''value'', v)]"

lemma run_value: "run (mk_value tag v) s = handle_element (value_elem tag v) s"
  by (simp add: mk_value_def run_def nl_def value_elem_def)

lemma run_opt: "run (mk_opt tag v) s = (case v of None \<Rightarrow> s | Some t \<Rightarrow> handle_element (value_elem tag t) s)"
  by (simp add: mk_opt_def run_value run_Cons split: option.split)

lemma value_elem_simps: "el_name (value_elem tag v) = tag" "attr_str (value_elem tag v) ''value'' = Some v"
  by (simp_all add: value_elem_def elem_of_def attr_str_def)

lemma value_elem_numbers:
  "attr_u8 (value_elem tag (show_nat (unat b))) ''value'' = Some b"
  "attr_u16 (value_elem tag (show_nat (unat h))) ''value'' = Some h"
  "attr_u32 (value_elem tag (show_nat (unat w))) ''value'' = Some w"
  "- 9223372036854775808 \<le> i \<Longrightarrow> i < 9223372036854775808 \<Longrightarrow> attr_i64 (value_elem tag (show_int i)) ''value'' = Some i"
  by (simp_all add: attr_u8_def attr_u16_def attr_u32_def attr_i64_def value_elem_simps trim_show_nat parse_u8_show
      parse_u16_show parse_u32_show trim_word [OF show_int_word] parse_show_int)

lemma bool_digit_word: "word (bool_digit b)"
  by (simp add: bool_digit_def word_def word_char_def)

lemma value_elem_bool: "attr_bool (value_elem tag (bool_digit b)) ''value'' = Some b"
  by (simp add: attr_bool_def value_elem_simps trim_word [OF bool_digit_word]) (simp add: bool_digit_def)

lemma run_function:
  assumes "xs_in_functions s" and "xs_loco s = Some l"
  shows "run (mk_function f) s = s\<lparr>xs_loco := Some (l\<lparr>lc_functions := lc_functions l @ [f]\<rparr>)\<rparr>"
proof -
  let ?e = "elem_of ''Function'' [(''ID'', show_nat (unat (fe_index f))), (''value'', show_nat (unat (fe_value f)))]"
  have "attr_u8 ?e ''ID'' = Some (fe_index f)" "attr_u8 ?e ''value'' = Some (fe_value f)" "el_name ?e = ''Function''"
    by (simp_all add: attr_u8_def attr_str_def elem_of_def trim_show_nat parse_u8_show)
  then show ?thesis
    using assms by (simp add: mk_function_def run_def nl_def handle_element_def opt_default_def)
qed

lemma run_functions:
  "xs_in_functions s \<Longrightarrow> xs_loco s = Some l \<Longrightarrow>
     run (concat (map mk_function fs)) s = s\<lparr>xs_loco := Some (l\<lparr>lc_functions := lc_functions l @ fs\<rparr>)\<rparr>"
proof (induction fs arbitrary: s l)
  case (Cons f fs)
  then show ?case by (simp add: run_append run_function)
qed (simp add: run_def)

text \<open>What is read back: a slot has its number, and a mode, if only an empty one.\<close>

definition reread_loco :: "nat \<times> loco_config \<Rightarrow> loco_config" where
  "reread_loco il =
     (snd il)\<lparr>lc_id := Some (loco_id (fst il) (snd il)), lc_mode := Some (opt_default [] (lc_mode (snd il)))\<rparr>"

definition i64_range :: "int \<Rightarrow> bool" where
  "i64_range a \<longleftrightarrow> - 9223372036854775808 \<le> a \<and> a < 9223372036854775808"

lemma loco_open:
  "handle_element (elem_of ''LOCO'' [(''ID'', show_nat (unat b))]) s = s\<lparr>xs_loco := Some (default_loco (Some b))\<rparr>"
  by (simp add: handle_element_def elem_of_def attr_u8_def attr_str_def trim_show_nat parse_u8_show)

lemma loco_values:
  assumes "xs_loco s = Some l"
  shows "i64_range a \<Longrightarrow> handle_element (value_elem ''DCCadress'' (show_int a)) s = s\<lparr>xs_loco := Some (l\<lparr>lc_address := a\<rparr>)\<rparr>"
    and "handle_element (value_elem ''Mode'' m) s = s\<lparr>xs_loco := Some (l\<lparr>lc_mode := Some m\<rparr>)\<rparr>"
    and "handle_element (value_elem ''Direction'' (show_nat (unat d))) s = s\<lparr>xs_loco := Some (l\<lparr>lc_direction := Some d\<rparr>)\<rparr>"
    and "handle_element (value_elem ''LongAdress'' (bool_digit b)) s = s\<lparr>xs_loco := Some (l\<lparr>lc_long_address := Some b\<rparr>)\<rparr>"
  using assms
  by (simp_all add: handle_element_def value_elem_simps value_elem_numbers value_elem_bool opt_default_def i64_range_def)

lemma functions_open: "handle_element (elem_of ''FUNCTIONS'' []) s = s\<lparr>xs_in_functions := True\<rparr>"
  by (simp add: handle_element_def elem_of_def)

lemma loco_ends:
  "handle_end ''FUNCTIONS'' s = s\<lparr>xs_in_functions := False\<rparr>"
  "xs_loco s = Some l \<Longrightarrow> handle_end ''LOCO'' s =
     s\<lparr>xs_cfg := (xs_cfg s)\<lparr>dcf_locos := dcf_locos (xs_cfg s) @ [l]\<rparr>, xs_loco := None\<rparr>"
  by (simp_all add: handle_end_def)

lemma run_loco:
  assumes "i64_range (lc_address (snd il))" and "\<not> xs_in_functions s"
  shows "run (mk_loco il) s = s\<lparr>xs_cfg := (xs_cfg s)\<lparr>dcf_locos := dcf_locos (xs_cfg s) @ [reread_loco il]\<rparr>, xs_loco := None\<rparr>"
proof -
  obtain i l where il: "il = (i, l)" by (cases il)
  let ?a = "default_loco (Some (loco_id i l))\<lparr>lc_address := lc_address l, lc_mode := Some (opt_default [] (lc_mode l))\<rparr>"
  let ?d = "?a\<lparr>lc_direction := lc_direction l\<rparr>"
  let ?m = "?d\<lparr>lc_long_address := lc_long_address l\<rparr>"
  have "mk_loco il = MK_Skip '' '' # MK_Open ''LOCO'' [(''ID'', show_nat (unat (loco_id i l)))] # nl
      # mk_value ''DCCadress'' (show_int (lc_address l)) @ mk_value ''Mode'' (opt_default [] (lc_mode l))
      @ mk_opt ''Direction'' (map_option (\<lambda>d. show_nat (unat d)) (lc_direction l))
      @ mk_opt ''LongAdress'' (map_option bool_digit (lc_long_address l))
      @ MK_Skip ''  '' # MK_Open ''FUNCTIONS'' [] # nl # concat (map mk_function (lc_functions l))
      @ MK_Skip ''  '' # MK_Close ''FUNCTIONS'' # nl # MK_Skip '' '' # MK_Close ''LOCO'' # [nl]"
    by (simp add: il mk_loco_def Let_def)
  moreover have "run (mk_opt ''Direction'' (map_option (\<lambda>d. show_nat (unat d)) (lc_direction l))) (s\<lparr>xs_loco := Some ?a\<rparr>)
      = s\<lparr>xs_loco := Some ?d\<rparr>"
    by (cases "lc_direction l") (simp_all add: run_opt loco_values default_loco_def)
  moreover have "run (mk_opt ''LongAdress'' (map_option bool_digit (lc_long_address l))) (s\<lparr>xs_loco := Some ?d\<rparr>)
      = s\<lparr>xs_loco := Some ?m\<rparr>"
    by (cases "lc_long_address l") (simp_all add: run_opt loco_values default_loco_def)
  moreover have "?m\<lparr>lc_functions := lc_functions l\<rparr> = reread_loco il" by (simp add: reread_loco_def il default_loco_def)
  ultimately show ?thesis
    using assms
    by (simp add: run_append run_Cons run_value loco_open loco_values functions_open run_functions loco_ends il
        default_loco_def)
qed


lemma run_locos:
  "list_all (\<lambda>il. i64_range (lc_address (snd il))) ils \<Longrightarrow> \<not> xs_in_functions s \<Longrightarrow> xs_loco s = None \<Longrightarrow>
     run (concat (map mk_loco ils)) s = s\<lparr>xs_cfg := (xs_cfg s)\<lparr>dcf_locos := dcf_locos (xs_cfg s) @ map reread_loco ils\<rparr>\<rparr>"
proof (induction ils arbitrary: s)
  case (Cons il ils)
  then show ?case by (simp add: run_append run_loco)
qed (simp add: run_Cons)

lemma network_elements:
  "handle_element (elem_of ''NETWORK'' []) s = s\<lparr>xs_net := Some \<lparr>nc_ssid = [], nc_key = None, nc_enabled = False\<rparr>\<rparr>"
  "xs_net s = Some n \<Longrightarrow> handle_element (value_elem ''SSID'' v) s = s\<lparr>xs_net := Some (n\<lparr>nc_ssid := v\<rparr>)\<rparr>"
  "xs_net s = Some n \<Longrightarrow> handle_element (value_elem ''Key'' v) s = s\<lparr>xs_net := Some (n\<lparr>nc_key := Some v\<rparr>)\<rparr>"
  "xs_net s = Some n \<Longrightarrow> handle_element (value_elem ''Enabled'' (bool_digit b)) s = s\<lparr>xs_net := Some (n\<lparr>nc_enabled := b\<rparr>)\<rparr>"
  "xs_net s = Some n \<Longrightarrow> handle_end ''NETWORK'' s =
     s\<lparr>xs_cfg := (xs_cfg s)\<lparr>dcf_networks := dcf_networks (xs_cfg s) @ [n]\<rparr>, xs_net := None\<rparr>"
  by (simp_all add: handle_element_def handle_end_def value_elem_simps value_elem_bool opt_default_def elem_of_def)

lemma run_network:
  "run (mk_network n) s = s\<lparr>xs_cfg := (xs_cfg s)\<lparr>dcf_networks := dcf_networks (xs_cfg s) @ [n]\<rparr>, xs_net := None\<rparr>"
proof -
  have "run (mk_opt ''Key'' (nc_key n)) (s\<lparr>xs_net := Some \<lparr>nc_ssid = nc_ssid n, nc_key = None, nc_enabled = False\<rparr>\<rparr>)
      = s\<lparr>xs_net := Some \<lparr>nc_ssid = nc_ssid n, nc_key = nc_key n, nc_enabled = False\<rparr>\<rparr>"
    by (cases "nc_key n") (simp_all add: run_opt network_elements)
  then show ?thesis
    by (simp add: mk_network_def run_append run_Cons run_value network_elements)
qed

lemma run_networks:
  "xs_net s = None \<Longrightarrow> run (concat (map mk_network ns)) s =
     s\<lparr>xs_cfg := (xs_cfg s)\<lparr>dcf_networks := dcf_networks (xs_cfg s) @ ns\<rparr>\<rparr>"
proof (induction ns arbitrary: s)
  case (Cons n ns)
  then show ?case by (simp add: run_append run_network)
qed (simp add: run_Cons)

lemma server_elements:
  "handle_element (elem_of ''LOCOSERVER'' []) s = s"
  "handle_element (value_elem ''ServerName'' v) s = s\<lparr>xs_cfg := (xs_cfg s)\<lparr>dcf_loco_server :=
     Some ((opt_default \<lparr>ls_name = [], ls_port = 0, ls_automatic = False\<rparr> (dcf_loco_server (xs_cfg s)))\<lparr>ls_name := v\<rparr>)\<rparr>\<rparr>"
  "dcf_loco_server (xs_cfg s) = Some u \<Longrightarrow> handle_element (value_elem ''Port'' (show_nat (unat h))) s =
     s\<lparr>xs_cfg := (xs_cfg s)\<lparr>dcf_loco_server := Some (u\<lparr>ls_port := h\<rparr>)\<rparr>\<rparr>"
  "dcf_loco_server (xs_cfg s) = Some u \<Longrightarrow> handle_element (value_elem ''Automatic'' (bool_digit b)) s =
     s\<lparr>xs_cfg := (xs_cfg s)\<lparr>dcf_loco_server := Some (u\<lparr>ls_automatic := b\<rparr>)\<rparr>\<rparr>"
  "handle_end ''LOCOSERVER'' s = s"
  by (simp_all add: handle_element_def handle_end_def value_elem_simps value_elem_numbers value_elem_bool
      opt_default_def elem_of_def Let_def)

lemma run_server:
  "dcf_loco_server (xs_cfg s) = None \<Longrightarrow> run (mk_server v) s = s\<lparr>xs_cfg := (xs_cfg s)\<lparr>dcf_loco_server := Some v\<rparr>\<rparr>"
  by (simp add: mk_server_def run_append run_Cons run_value server_elements opt_default_def)

lemma page_elements:
  "handle_element (elem_of ''wiFred'' []) s = s" "handle_end ''wiFred'' s = s"
  "handle_element (elem_of ''LOCOS'' []) s = s" "handle_end ''LOCOS'' s = s"
  "handle_element (elem_of ''NETWORKS'' []) s = s" "handle_end ''NETWORKS'' s = s"
  by (simp_all add: handle_element_def handle_end_def elem_of_def)

lemma page_values:
  "handle_element (value_elem ''structurVersion'' v) s = s\<lparr>xs_cfg := (xs_cfg s)\<lparr>dcf_structure_version := Some v\<rparr>\<rparr>"
  "handle_element (value_elem ''throttleName'' v) s = s\<lparr>xs_cfg := (xs_cfg s)\<lparr>dcf_throttle_name := Some v\<rparr>\<rparr>"
  "handle_element (value_elem ''firmwareRevision'' v) s = s\<lparr>xs_cfg := (xs_cfg s)\<lparr>dcf_firmware_revision := Some v\<rparr>\<rparr>"
  "handle_element (value_elem ''batteryVoltage'' (show_nat (unat w))) s = s\<lparr>xs_cfg := (xs_cfg s)\<lparr>dcf_battery_mv := Some w\<rparr>\<rparr>"
  by (simp_all add: handle_element_def value_elem_simps value_elem_numbers)

definition reread :: "device_config \<Rightarrow> device_config" where
  "reread cfg = cfg\<lparr>dcf_locos := map reread_loco (enumerate 0 (dcf_locos cfg))\<rparr>"

definition addresses_fit :: "device_config \<Rightarrow> bool" where
  "addresses_fit cfg \<longleftrightarrow> list_all (\<lambda>l. i64_range (lc_address l)) (dcf_locos cfg)"

lemma addresses_fit_enumerate:
  "addresses_fit cfg \<Longrightarrow> list_all (\<lambda>il. i64_range (lc_address (snd il))) (enumerate 0 (dcf_locos cfg))"
  by (auto simp: addresses_fit_def list_all_iff in_set_enumerate_eq)

lemma run_page:
  assumes "addresses_fit cfg" shows "xs_cfg (run (page_markup cfg) xml_start) = reread cfg"
proof -
  note fit = addresses_fit_enumerate [OF assms]
  have "run (case sv of None \<Rightarrow> [] | Some v \<Rightarrow> mk_server v) s = s\<lparr>xs_cfg := (xs_cfg s)\<lparr>dcf_loco_server := sv\<rparr>\<rparr>"
    if "dcf_loco_server (xs_cfg s) = None" for sv s
    using that by (cases sv) (simp_all add: run_server run_Cons)
  moreover have "run (mk_opt ''structurVersion'' v) s = s\<lparr>xs_cfg := (xs_cfg s)\<lparr>dcf_structure_version := v\<rparr>\<rparr>"
    if "dcf_structure_version (xs_cfg s) = None" for v s
    using that by (cases v) (simp_all add: run_opt page_values)
  moreover have "run (mk_opt ''throttleName'' v) s = s\<lparr>xs_cfg := (xs_cfg s)\<lparr>dcf_throttle_name := v\<rparr>\<rparr>"
    if "dcf_throttle_name (xs_cfg s) = None" for v s
    using that by (cases v) (simp_all add: run_opt page_values)
  moreover have "run (mk_opt ''firmwareRevision'' v) s = s\<lparr>xs_cfg := (xs_cfg s)\<lparr>dcf_firmware_revision := v\<rparr>\<rparr>"
    if "dcf_firmware_revision (xs_cfg s) = None" for v s
    using that by (cases v) (simp_all add: run_opt page_values)
  moreover have "run (mk_opt ''batteryVoltage'' (map_option (\<lambda>mv. show_nat (unat mv)) v)) s
      = s\<lparr>xs_cfg := (xs_cfg s)\<lparr>dcf_battery_mv := v\<rparr>\<rparr>"
    if "dcf_battery_mv (xs_cfg s) = None" for v s
    using that by (cases v) (simp_all add: run_opt page_values)
  ultimately show ?thesis
    using fit by (simp add: page_markup_def xml_start_def device_config_default_def run_append run_Cons page_elements
        run_locos run_networks reread_def)
qed

section \<open>The page is read back\<close>

lemma fold_other: "fold handle_event (filter (\<lambda>e. e \<noteq> XE_Other) evs) s = fold handle_event evs s"
  by (induction evs arbitrary: s) auto

text \<open>The page is valid UTF-8 when the texts of the configuration are.\<close>

definition network_utf8 :: "network_config \<Rightarrow> bool" where
  "network_utf8 n \<longleftrightarrow> utf8_valid (nc_ssid n) \<and> pred_option utf8_valid (nc_key n)"

definition cfg_utf8 :: "device_config \<Rightarrow> bool" where
  "cfg_utf8 cfg \<longleftrightarrow> pred_option utf8_valid (dcf_structure_version cfg) \<and> pred_option utf8_valid (dcf_throttle_name cfg)
     \<and> pred_option utf8_valid (dcf_firmware_revision cfg)
     \<and> list_all (\<lambda>l. pred_option utf8_valid (lc_mode l)) (dcf_locos cfg)
     \<and> list_all network_utf8 (dcf_networks cfg)
     \<and> pred_option (\<lambda>s. utf8_valid (ls_name s)) (dcf_loco_server cfg)"

lemma escape_utf8: "utf8_valid v \<Longrightarrow> utf8_valid (xml_escape v)"
  unfolding xml_escape_def
  by (erule utf8_valid_map_ascii) (auto simp: esc_char_def is_ascii_def)

lemma utf8_valid_plain: "plain s \<Longrightarrow> utf8_valid s"
  by (rule utf8_valid_ascii [OF plain_ascii])

lemma utf8_valid_line: "utf8_valid [LF]" "utf8_valid [CHR 0x22]"
  by (rule utf8_valid_ascii, simp add: is_ascii_def LF_def)+

lemma utf8_valid_concat: "list_all (\<lambda>x. utf8_valid (f x)) xs \<Longrightarrow> utf8_valid (concat (map f xs))"
  by (induction xs) (auto intro: utf8_valid_append)

lemma show_nat_utf8: "utf8_valid (show_nat n)"
  by (rule utf8_valid_plain) simp

lemma show_int_utf8: "utf8_valid (show_int i)"
  by (rule utf8_valid_plain [OF word_plain [OF show_int_word]])

lemma bool_digit_utf8: "utf8_valid (bool_digit b)"
  by (rule utf8_valid_plain [OF word_plain [OF bool_digit_word]])

lemma push_empty_utf8: "plain tag \<Longrightarrow> utf8_valid v \<Longrightarrow> utf8_valid (push_empty tag v)"
  unfolding push_empty_def
  by (intro utf8_valid_append utf8_valid_line escape_utf8) (auto simp: plain_char_def intro: utf8_valid_plain)

lemma push_opt_utf8: "plain tag \<Longrightarrow> pred_option utf8_valid v \<Longrightarrow> utf8_valid (push_opt tag v)"
  by (cases v) (simp_all add: push_opt_def push_empty_utf8)

lemma function_xml_utf8: "utf8_valid (function_xml f)"
  unfolding function_xml_def
  by (intro utf8_valid_append utf8_valid_line show_nat_utf8 utf8_valid_plain) (simp_all add: plain_char_def)

lemma loco_xml_utf8: "pred_option utf8_valid (lc_mode (snd il)) \<Longrightarrow> utf8_valid (loco_xml il)"
  unfolding loco_xml_def Let_def
  apply (intro utf8_valid_append utf8_valid_line show_nat_utf8 push_empty_utf8 push_opt_utf8 show_int_utf8
      utf8_valid_concat)
  by (auto simp: plain_char_def list_all_iff function_xml_utf8 opt_default_def show_nat_utf8 bool_digit_utf8
      option.pred_map option.pred_True comp_def split: option.split intro: utf8_valid_plain)

lemma network_xml_utf8: "network_utf8 n \<Longrightarrow> utf8_valid (network_xml n)"
  unfolding network_xml_def
  by (intro utf8_valid_append utf8_valid_line push_empty_utf8 push_opt_utf8 bool_digit_utf8)
     (auto simp: plain_char_def network_utf8_def intro: utf8_valid_plain)

lemma server_xml_utf8: "utf8_valid (ls_name v) \<Longrightarrow> utf8_valid (server_xml v)"
  unfolding server_xml_def
  by (intro utf8_valid_append utf8_valid_line push_empty_utf8 show_nat_utf8 bool_digit_utf8)
     (auto simp: plain_char_def intro: utf8_valid_plain)

lemma page_utf8:
  assumes "cfg_utf8 cfg" shows "utf8_valid (serialize_xml cfg)"
proof -
  have "utf8_valid xml_prolog"
    unfolding xml_prolog_def
    by (intro utf8_valid_append utf8_valid_line utf8_valid_plain) (simp_all add: plain_char_def)
  moreover have "utf8_valid (case dcf_loco_server cfg of None \<Rightarrow> [] | Some s \<Rightarrow> server_xml s)"
    using assms by (auto simp: cfg_utf8_def server_xml_utf8 split: option.split)
  moreover have "utf8_valid (concat (map loco_xml (enumerate 0 (dcf_locos cfg))))"
    using assms by (intro utf8_valid_concat) (auto simp: cfg_utf8_def list_all_iff in_set_enumerate_eq intro!: loco_xml_utf8)
  moreover have "utf8_valid (concat (map network_xml (dcf_networks cfg)))"
    using assms by (intro utf8_valid_concat) (auto simp: cfg_utf8_def list_all_iff network_xml_utf8)
  moreover have "utf8_valid (push_opt ''batteryVoltage'' (map_option (\<lambda>mv. show_nat (unat mv)) (dcf_battery_mv cfg)))"
    by (rule push_opt_utf8) (simp_all add: plain_char_def option.pred_map option.pred_True comp_def show_nat_utf8)
  moreover have "utf8_valid ''<wiFred>''" "utf8_valid ''<LOCOS>''" "utf8_valid ''</LOCOS>''" "utf8_valid ''<NETWORKS>''"
      "utf8_valid ''</NETWORKS>''" "utf8_valid ''</wiFred>''"
    by (rule utf8_valid_plain, simp add: plain_char_def)+
  moreover have "utf8_valid (push_opt ''structurVersion'' (dcf_structure_version cfg))"
      "utf8_valid (push_opt ''throttleName'' (dcf_throttle_name cfg))"
      "utf8_valid (push_opt ''firmwareRevision'' (dcf_firmware_revision cfg))"
    using assms by (simp_all add: push_opt_utf8 plain_char_def cfg_utf8_def)
  ultimately show ?thesis
    unfolding serialize_xml_def by (intro utf8_valid_append utf8_valid_line) assumption+
qed

lemma parse_page:
  assumes "reads xl (page_markup cfg)" and "cfg_utf8 cfg" and "addresses_fit cfg"
  shows "wifred_parse xl (serialize_xml cfg) = Inr (reread cfg)"
proof -
  obtain evs where e: "xl_events xl (serialize_xml cfg) = (evs, None)"
      "filter (\<lambda>e. e \<noteq> XE_Other) evs = concat (map markup_events (page_markup cfg))"
    using assms(1) by (auto simp: reads_def serialize_rendered rendered_def split: prod.splits)
  have "fold handle_event evs xml_start = run (page_markup cfg) xml_start"
    unfolding run_def e(2) [symmetric] by (rule fold_other [symmetric])
  then show ?thesis
    using e(1) page_utf8 [OF assms(2)] run_page [OF assms(3)] by (simp add: wifred_parse_def from_utf8_def)
qed

end
