(* ===== verification/Wp_WifredProgram.thy ===== *)
theory Wp_WifredProgram
  imports Wp_WifredPage
begin

text \<open>
  The WiFred driver against the WiFred mock: the queries it writes, decoded and applied, and
  the programming run from the factory state to a verified configuration and a restart.
\<close>

section \<open>Percent encoding\<close>

lemma from_hex_upper: "d < 16 \<Longrightarrow> from_hex (hex_upper d) = Some d"
  by (auto simp: from_hex_def hex_upper_def)

lemma percent_bytes_clean:
  "c \<noteq> CHR ''+'' \<Longrightarrow> c \<noteq> CHR ''%'' \<Longrightarrow> percent_bytes (c # s) = c # percent_bytes s"
  by (cases s rule: short_lists) auto

lemma percent_bytes_plain: "list_all (\<lambda>c. c \<noteq> CHR ''+'' \<and> c \<noteq> CHR ''%'') s \<Longrightarrow> percent_bytes s = s"
  by (induction s) (auto simp: percent_bytes_clean)

lemma unreserved_clean: "is_unreserved c \<Longrightarrow> c \<noteq> CHR ''+'' \<and> c \<noteq> CHR ''%'' \<and> c \<noteq> CHR ''&'' \<and> c \<noteq> CHR ''='' \<and> c \<noteq> CHR ''?''"
  by (auto simp: is_unreserved_def is_ascii_alphanumeric_def is_ascii_digit_def is_ascii_upper_def is_ascii_lower_def)

lemma byte_nibbles: "byte c div 16 < 16" "byte c mod 16 < 16"
proof -
  have "byte c < 16 * 16" using nat_of_char_less_256 [of c] by simp
  then show "byte c div 16 < 16" by (rule less_mult_imp_div_less)
qed simp

lemma percent_bytes_encode: "percent_bytes (percent_encode s) = s"
proof (induction s)
  case (Cons c s)
  show ?case
  proof (cases "is_unreserved c")
    case True
    with Cons unreserved_clean [OF True] show ?thesis by (simp add: percent_bytes_clean)
  next
    case False
    note nibbles = byte_nibbles [of c]
    with Cons False show ?thesis by (simp add: hex_byte_def from_hex_upper)
  qed
qed simp

lemma percent_decode_encode: "utf8_valid s \<Longrightarrow> percent_decode (percent_encode s) = s"
  by (simp add: percent_decode_def percent_bytes_encode from_utf8_lossy_valid)

lemma percent_decode_plain:
  "plain s \<Longrightarrow> list_all (\<lambda>c. c \<noteq> CHR ''+'' \<and> c \<noteq> CHR ''%'') s \<Longrightarrow> percent_decode s = s"
  by (simp add: percent_decode_def percent_bytes_plain from_utf8_lossy_valid utf8_valid_plain)

lemma percent_decode_show: "percent_decode (show_nat n) = show_nat n" "percent_decode (show_int i) = show_int i"
proof -
  have d: "list_all (\<lambda>c. c \<noteq> CHR ''+'' \<and> c \<noteq> CHR ''%'') (show_nat n)" for n
    by (auto simp: list_all_iff dest: show_nat_digits)
  show "percent_decode (show_nat n) = show_nat n" by (rule percent_decode_plain [OF show_nat_plain d])
  show "percent_decode (show_int i) = show_int i"
    by (rule percent_decode_plain [OF word_plain [OF show_int_word]]) (simp add: show_int_def d)
qed

text \<open>Characters that a query is split at.\<close>

definition no_split :: "string \<Rightarrow> bool" where
  "no_split s \<longleftrightarrow> CHR ''&'' \<notin> set s \<and> CHR ''='' \<notin> set s"

lemma hex_upper_chars: "d < 16 \<Longrightarrow> hex_upper d \<noteq> CHR ''&'' \<and> hex_upper d \<noteq> CHR ''=''"
  using from_hex_upper [of d] by (auto simp: from_hex_def split: if_splits)

lemma encode_no_split: "no_split (percent_encode s)"
proof (induction s)
  case (Cons c s)
  show ?case
    using byte_nibbles [of c]
      Cons unreserved_clean [of c] hex_upper_chars [of "byte c div 16"] hex_upper_chars [of "byte c mod 16"]
    by (auto simp: no_split_def hex_byte_def)
qed (simp add: no_split_def)

lemma show_no_split: "no_split (show_nat n)" "no_split (show_int i)"
proof -
  have d: "no_split (show_nat n)" for n by (auto simp: no_split_def dest: show_nat_digits)
  show "no_split (show_nat n)" by (rule d)
  show "no_split (show_int i)" using d by (auto simp: show_int_def no_split_def)
qed

section \<open>Queries\<close>

definition query_text :: "(string \<times> string) list \<Rightarrow> string" where
  "query_text kvs = join ''&'' (map (\<lambda>kv. fst kv @ CHR ''='' # snd kv) kvs)"

definition apply_kv :: "string \<times> string \<Rightarrow> query_state \<Rightarrow> query_state" where
  "apply_kv kv q =
     (let k = percent_decode (fst kv); v = percent_decode (snd kv) in
      if k = ''wifiSSID'' then q\<lparr>qs_ssid := Some v\<rparr>
      else if k = ''wifiKEY'' then q\<lparr>qs_key := Some v\<rparr>
      else q\<lparr>qs_fake := apply_cfg_key k v (qs_fake q)\<rparr>)"

definition end_query :: "query_state \<Rightarrow> wifred_fake" where
  "end_query q =
     (case qs_ssid q of
        None \<Rightarrow> qs_fake q
      | Some ssid \<Rightarrow>
          (qs_fake q)\<lparr>wf_cfg := (wf_cfg (qs_fake q))\<lparr>dcf_networks :=
             upsert_network (dcf_networks (wf_cfg (qs_fake q))) ssid (qs_key q)\<rparr>\<rparr>)"

lemma apply_pair_kv: "no_split k \<Longrightarrow> apply_pair (k @ CHR ''='' # v) = apply_kv (k, v)"
  by (rule ext) (simp add: apply_pair_def apply_kv_def no_split_def split_once_append)

lemma apply_query_text:
  assumes "kvs \<noteq> []" and "list_all (\<lambda>kv. no_split (fst kv) \<and> no_split (snd kv)) kvs"
  shows "apply_query (query_text kvs) w = end_query (fold apply_kv kvs \<lparr>qs_fake = w, qs_ssid = None, qs_key = None\<rparr>)"
proof -
  have "list_all (\<lambda>s. CHR ''&'' \<notin> set s) (map (\<lambda>kv. fst kv @ CHR ''='' # snd kv) kvs)"
    using assms(2) by (auto simp: list_all_iff no_split_def)
  then have "split_char (CHR ''&'') (query_text kvs) = map (\<lambda>kv. fst kv @ CHR ''='' # snd kv) kvs"
    using assms(1) unfolding query_text_def by (intro split_join) simp_all
  moreover have "fold apply_pair (map (\<lambda>kv. fst kv @ CHR ''='' # snd kv) kvs) q = fold apply_kv kvs q" for q
    using assms(2) by (induction kvs arbitrary: q) (simp_all add: apply_pair_kv)
  ultimately show ?thesis by (simp add: apply_query_def end_query_def Let_def)
qed


section \<open>The queries of the driver\<close>

definition loco_kvs :: "nat \<times> roster_entry \<Rightarrow> (string \<times> string) list" where
  "loco_kvs se =
     [(''loco'', slot_number (fst se)), (''loco.address'', show_int (loco_address (snd se))),
      (''loco.mode'', percent_encode (opt_default [] (re_mode (snd se)))),
      (''loco.direction'', show_nat (unat (opt_default 2 (re_direction (snd se)))))]
     @ (if re_long_address (snd se) = Some True then [(''loco.longAddress'', ''on'')] else [])"

definition function_kv :: "function_mapping \<Rightarrow> string \<times> string" where
  "function_kv fm = (CHR ''f'' # show_nat (unat (fm_index fm)), show_nat (unat (fm_value fm)))"

definition function_kvs :: "nat \<times> roster_entry \<Rightarrow> (string \<times> string) list" where
  "function_kvs se = (''loco'', slot_number (fst se)) # map function_kv (re_functions (snd se))"

definition server_kvs :: "throttle_server \<Rightarrow> (string \<times> string) list" where
  "server_kvs s =
     [(''loco.serverName'', percent_encode (ts_host s)), (''loco.serverPort'', show_nat (unat (ts_port s)))]
     @ (if ts_automatic s then [(''loco.automatic'', ''on'')] else [])"

definition wifi_kvs :: "wifi_credentials \<Rightarrow> (string \<times> string) list" where
  "wifi_kvs w =
     (''wifiSSID'', percent_encode (wc_ssid w))
     # (case wc_psk w of None \<Rightarrow> [] | Some psk \<Rightarrow> if psk = [] then [] else [(''wifiKEY'', percent_encode psk)])"

lemma join_tail: "join sep (x # xs) = x @ concat (map (\<lambda>y. sep @ y) xs)"
  by (induction xs arbitrary: x) simp_all

definition index_path :: string where
  "index_path = ''/index.html?''"

lemma query_paths:
  "loco_query se = index_path @ query_text (loco_kvs se)"
  "function_query se = index_path @ query_text (function_kvs se)"
  "server_query s = index_path @ query_text (server_kvs s)"
  "wifi_query w = index_path @ query_text (wifi_kvs w)"
  by (auto simp: loco_query_def function_query_def server_query_def wifi_query_def query_text_def join_tail loco_kvs_def
      function_kvs_def function_kv_def server_kvs_def wifi_kvs_def index_path_def Let_def comp_def split: option.split)

lemma index_get:
  "wifred_handle (received (http_get (index_path @ q))) w = (ok_text ''ok'', apply_query q w)"
  by (simp add: index_path_def wifred_handle_def received_def http_get_def)

lemma no_split_literals:
  "no_split ''loco''" "no_split ''loco.address''" "no_split ''loco.mode''" "no_split ''loco.direction''"
  "no_split ''loco.longAddress''" "no_split ''on''" "no_split ''loco.serverName''" "no_split ''loco.serverPort''"
  "no_split ''loco.automatic''" "no_split ''wifiSSID''" "no_split ''wifiKEY''" "no_split ''throttleName''"
  "no_split ''remove''"
  by (simp_all add: no_split_def)

lemma no_split_kvs:
  "list_all (\<lambda>kv. no_split (fst kv) \<and> no_split (snd kv)) (loco_kvs se)"
  "list_all (\<lambda>kv. no_split (fst kv) \<and> no_split (snd kv)) (function_kvs se)"
  "list_all (\<lambda>kv. no_split (fst kv) \<and> no_split (snd kv)) (server_kvs s)"
  "list_all (\<lambda>kv. no_split (fst kv) \<and> no_split (snd kv)) (wifi_kvs w)"
  by (auto simp: loco_kvs_def function_kvs_def function_kv_def server_kvs_def wifi_kvs_def slot_number_def
      no_split_literals show_no_split encode_no_split list_all_iff split: option.split)
    (use show_no_split(1) in \<open>simp add: no_split_def\<close>)

lemma percent_decode_literals:
  "percent_decode ''loco'' = ''loco''" "percent_decode ''loco.address'' = ''loco.address''"
  "percent_decode ''loco.mode'' = ''loco.mode''" "percent_decode ''loco.direction'' = ''loco.direction''"
  "percent_decode ''loco.longAddress'' = ''loco.longAddress''" "percent_decode ''on'' = ''on''"
  "percent_decode ''loco.serverName'' = ''loco.serverName''" "percent_decode ''loco.serverPort'' = ''loco.serverPort''"
  "percent_decode ''loco.automatic'' = ''loco.automatic''" "percent_decode ''wifiSSID'' = ''wifiSSID''"
  "percent_decode ''wifiKEY'' = ''wifiKEY''" "percent_decode ''throttleName'' = ''throttleName''"
  "percent_decode ''remove'' = ''remove''"
  by (rule percent_decode_plain; simp add: plain_char_def)+

lemma percent_decode_function: "percent_decode (CHR ''f'' # show_nat n) = CHR ''f'' # show_nat n"
  by (rule percent_decode_plain) (auto simp: plain_char_def list_all_iff dest: show_nat_digits)


section \<open>What the queries do\<close>

definition locos :: "wifred_fake \<Rightarrow> loco_config list" where
  "locos w = dcf_locos (wf_cfg w)"

definition with_loco :: "nat \<Rightarrow> loco_config \<Rightarrow> wifred_fake \<Rightarrow> wifred_fake" where
  "with_loco i l w = w\<lparr>wf_cfg := (wf_cfg w)\<lparr>dcf_locos := (locos w)[i := l]\<rparr>, wf_active := Some i\<rparr>"

lemma on_active_with: "i < length (locos w) \<Longrightarrow> on_active f (with_loco i l w) = with_loco i (f l) w"
  by (simp add: on_active_def with_loco_def Let_def locos_def)

lemma select_with:
  "i < length (locos w) \<Longrightarrow> i < usize_max \<Longrightarrow> select_loco (show_nat (Suc i)) w = with_loco i (locos w ! i) w"
  by (simp add: select_loco_def parse_usize_def parse_uint_show_nat with_loco_def locos_def)

definition set_loco :: "roster_entry \<Rightarrow> loco_config \<Rightarrow> loco_config" where
  "set_loco e l =
     l\<lparr>lc_address := loco_address e, lc_mode := Some (opt_default [] (re_mode e)),
       lc_direction := Some (opt_default 2 (re_direction e)),
       lc_long_address := (if re_long_address e = Some True then Some True else lc_long_address l)\<rparr>"

definition set_functions :: "roster_entry \<Rightarrow> loco_config \<Rightarrow> loco_config" where
  "set_functions e l =
     l\<lparr>lc_functions := fold (\<lambda>fm. set_function (fm_index fm) (fm_value fm)) (re_functions e) (lc_functions l)\<rparr>"

lemma loco_address_range: "parse_i64 (show_int (loco_address e)) = Some (loco_address e)"
proof -
  have "- 1 \<le> uint a" for a :: u16 by (rule order_trans [of _ 0]) simp_all
  moreover have "uint a < 65536" for a :: u16 using unsigned_less [of a, where ?'a = int] by simp
  ultimately have "- 1 \<le> loco_address e \<and> loco_address e < 65536"
    by (auto simp: loco_address_def split: option.split intro: order_trans)
  then show ?thesis by (intro parse_show_int) auto
qed

lemma opt_default_simps: "opt_default d None = d" "opt_default d (Some x) = x"
  by (simp_all add: opt_default_def)

text \<open>The state of the query after a parameter that is no network.\<close>

lemma apply_kv_cfg:
  "percent_decode (fst kv) \<notin> {''wifiSSID'', ''wifiKEY''} \<Longrightarrow>
     apply_kv kv q = q\<lparr>qs_fake := apply_cfg_key (percent_decode (fst kv)) (percent_decode (snd kv)) (qs_fake q)\<rparr>"
  by (simp add: apply_kv_def Let_def)

lemma function_key: "is_function_key (CHR ''f'' # show_nat n)"
  by (auto simp: is_function_key_def list_all_iff dest: show_nat_digits)

lemma loco_keys:
  "apply_cfg_key ''loco'' v w = select_loco v w"
  "apply_cfg_key ''loco.address'' v w = on_active (\<lambda>l. l\<lparr>lc_address := opt_default (-1) (parse_i64 v)\<rparr>) w"
  "apply_cfg_key ''loco.mode'' v w = on_active (\<lambda>l. l\<lparr>lc_mode := Some v\<rparr>) w"
  "apply_cfg_key ''loco.direction'' v w = on_active (\<lambda>l. l\<lparr>lc_direction := parse_u8 v\<rparr>) w"
  "apply_cfg_key ''loco.longAddress'' ''on'' w = on_active (\<lambda>l. l\<lparr>lc_long_address := Some True\<rparr>) w"
  "apply_cfg_key (CHR ''f'' # show_nat n) v w = on_active (\<lambda>l. l\<lparr>lc_functions :=
      set_function (opt_default 0 (parse_u8 (show_nat n))) (opt_default 0 (parse_u8 v)) (lc_functions l)\<rparr>) w"
  by (simp_all add: apply_cfg_key_def function_key)

lemma query_loco:
  assumes "i < length (locos w)" and "i < usize_max" and "slot_number i = show_nat (Suc i)"
    and "pred_option utf8_valid (re_mode e)"
  shows "apply_query (query_text (loco_kvs (i, e))) w = with_loco i (set_loco e (locos w ! i)) w"
proof -
  have "utf8_valid (opt_default [] (re_mode e))" using assms(4) by (cases "re_mode e") (simp_all add: opt_default_def)
  then have mode: "percent_decode (percent_encode (opt_default [] (re_mode e))) = opt_default [] (re_mode e)"
    by (rule percent_decode_encode)
  have "apply_query (query_text (loco_kvs (i, e))) w
      = end_query (fold apply_kv (loco_kvs (i, e)) \<lparr>qs_fake = w, qs_ssid = None, qs_key = None\<rparr>)"
    by (rule apply_query_text [OF _ no_split_kvs(1)]) (simp add: loco_kvs_def)
  also have "\<dots> = with_loco i (set_loco e (locos w ! i)) w"
    using assms by (simp add: loco_kvs_def apply_kv_cfg percent_decode_literals percent_decode_show mode loco_keys
        select_with on_active_with loco_address_range parse_u8_show end_query_def set_loco_def opt_default_simps)
  finally show ?thesis .
qed

lemma query_functions:
  assumes "i < length (locos w)" and "i < usize_max" and "slot_number i = show_nat (Suc i)"
  shows "apply_query (query_text (function_kvs (i, e))) w = with_loco i (set_functions e (locos w ! i)) w"
proof -
  have kv: "apply_kv (function_kv fm) (q\<lparr>qs_fake := with_loco i l w\<rparr>)
      = q\<lparr>qs_fake := with_loco i (l\<lparr>lc_functions := set_function (fm_index fm) (fm_value fm) (lc_functions l)\<rparr>) w\<rparr>" for fm l q
    using assms(1) by (simp add: function_kv_def apply_kv_cfg percent_decode_function percent_decode_show loco_keys
        on_active_with parse_u8_show opt_default_simps)
  have "fold apply_kv (map function_kv fms) (q\<lparr>qs_fake := with_loco i l w\<rparr>) = q\<lparr>qs_fake := with_loco i
      (l\<lparr>lc_functions := fold (\<lambda>fm. set_function (fm_index fm) (fm_value fm)) fms (lc_functions l)\<rparr>) w\<rparr>" for fms l q
    by (induction fms arbitrary: l) (simp_all add: kv)
  note fold_kvs = this [of "re_functions e" "locos w ! i" "\<lparr>qs_fake = w, qs_ssid = None, qs_key = None\<rparr>"]
  have "apply_query (query_text (function_kvs (i, e))) w
      = end_query (fold apply_kv (function_kvs (i, e)) \<lparr>qs_fake = w, qs_ssid = None, qs_key = None\<rparr>)"
    by (rule apply_query_text [OF _ no_split_kvs(2)]) (simp add: function_kvs_def)
  also have "\<dots> = with_loco i (set_functions e (locos w ! i)) w"
    using assms fold_kvs by (simp add: function_kvs_def apply_kv_cfg percent_decode_literals percent_decode_show loco_keys
        select_with end_query_def set_functions_def)
  finally show ?thesis .
qed


text \<open>One text parameter, and the server and the network.\<close>

definition with_cfg :: "(device_config \<Rightarrow> device_config) \<Rightarrow> wifred_fake \<Rightarrow> wifred_fake" where
  "with_cfg f w = w\<lparr>wf_cfg := f (wf_cfg w)\<rparr>"

lemma query_identity:
  assumes "utf8_valid v"
  shows "apply_query (''throttleName='' @ percent_encode v) w = with_cfg (\<lambda>c. c\<lparr>dcf_throttle_name := Some v\<rparr>) w"
  using apply_query_text [of "[(''throttleName'', percent_encode v)]" w]
  by (simp add: query_text_def no_split_literals encode_no_split apply_kv_cfg percent_decode_literals
      percent_decode_encode [OF assms] apply_cfg_key_def end_query_def with_cfg_def)

lemma query_remove:
  assumes "utf8_valid v"
  shows "apply_query (''remove='' @ percent_encode v) w
       = with_cfg (\<lambda>c. c\<lparr>dcf_networks := filter (\<lambda>n. nc_ssid n \<noteq> v) (dcf_networks c)\<rparr>) w"
  using apply_query_text [of "[(''remove'', percent_encode v)]" w]
  by (simp add: query_text_def no_split_literals encode_no_split apply_kv_cfg percent_decode_literals
      percent_decode_encode [OF assms] apply_cfg_key_def end_query_def with_cfg_def)

definition set_server :: "throttle_server \<Rightarrow> loco_server_config \<Rightarrow> loco_server_config" where
  "set_server s v =
     v\<lparr>ls_name := ts_host s, ls_port := ts_port s, ls_automatic := (ts_automatic s \<or> ls_automatic v)\<rparr>"

lemma server_keys:
  "apply_cfg_key ''loco.serverName'' v w = on_server (\<lambda>s. s\<lparr>ls_name := v\<rparr>) w"
  "apply_cfg_key ''loco.serverPort'' v w = on_server (\<lambda>s. s\<lparr>ls_port := opt_default 0 (parse_u16 v)\<rparr>) w"
  "apply_cfg_key ''loco.automatic'' ''on'' w = on_server (\<lambda>s. s\<lparr>ls_automatic := True\<rparr>) w"
  by (simp_all add: apply_cfg_key_def)

lemma on_server_twice: "on_server f (on_server g w) = on_server (\<lambda>s. f (g s)) w"
  by (simp add: on_server_def opt_default_simps)

lemma query_server:
  assumes "utf8_valid (ts_host s)"
  shows "apply_query (query_text (server_kvs s)) w = on_server (set_server s) w"
proof -
  have "apply_query (query_text (server_kvs s)) w
      = end_query (fold apply_kv (server_kvs s) \<lparr>qs_fake = w, qs_ssid = None, qs_key = None\<rparr>)"
    by (rule apply_query_text [OF _ no_split_kvs(3)]) (simp add: server_kvs_def)
  also have "\<dots> = on_server (set_server s) w"
    by (cases "ts_automatic s") (simp_all add: server_kvs_def apply_kv_cfg percent_decode_literals percent_decode_show
        percent_decode_encode [OF assms] server_keys on_server_twice parse_u16_show opt_default_simps end_query_def
        on_server_def set_server_def)
  finally show ?thesis .
qed

definition network_key :: "wifi_credentials \<Rightarrow> string option" where
  "network_key w = (case wc_psk w of None \<Rightarrow> None | Some psk \<Rightarrow> if psk = [] then None else Some psk)"

lemma query_wifi:
  assumes "utf8_valid (wc_ssid c)" and "pred_option utf8_valid (wc_psk c)"
  shows "apply_query (query_text (wifi_kvs c)) w
       = with_cfg (\<lambda>d. d\<lparr>dcf_networks := upsert_network (dcf_networks d) (wc_ssid c) (network_key c)\<rparr>) w"
proof -
  have "apply_query (query_text (wifi_kvs c)) w
      = end_query (fold apply_kv (wifi_kvs c) \<lparr>qs_fake = w, qs_ssid = None, qs_key = None\<rparr>)"
    by (rule apply_query_text [OF _ no_split_kvs(4)]) (simp add: wifi_kvs_def)
  then show ?thesis
    using assms by (cases "wc_psk c") (auto simp: wifi_kvs_def apply_kv_def percent_decode_literals percent_decode_encode
        end_query_def with_cfg_def network_key_def)
qed

section \<open>The configuration that a request describes\<close>

definition request_utf8 :: "program_request \<Rightarrow> bool" where
  "request_utf8 req \<longleftrightarrow> utf8_valid (pq_identity req) \<and> utf8_valid (ts_host (pq_server req))
     \<and> utf8_valid (wc_ssid (pq_wifi req)) \<and> pred_option utf8_valid (wc_psk (pq_wifi req))
     \<and> list_all (\<lambda>e. pred_option utf8_valid (re_mode e)) (pq_roster req)"

definition programmed_loco :: "roster_entry \<Rightarrow> loco_config" where
  "programmed_loco e =
     \<lparr>lc_id = None, lc_address = wanted_address e, lc_mode = Some (opt_default [] (re_mode e)),
      lc_direction = Some (opt_default 2 (re_direction e)),
      lc_long_address = (if re_long_address e = Some True then Some True else None),
      lc_functions = map (\<lambda>fm. \<lparr>fe_index = fm_index fm, fe_value = fm_value fm\<rparr>) (re_functions e)\<rparr>"

definition programmed :: "program_request \<Rightarrow> device_config" where
  "programmed req =
     \<lparr>dcf_structure_version = Some ''1'', dcf_throttle_name = Some (pq_identity req),
      dcf_firmware_revision = None, dcf_battery_mv = None,
      dcf_locos = map programmed_loco (pq_roster req) @ replicate (4 - length (pq_roster req)) (default_loco None),
      dcf_networks = [\<lparr>nc_ssid = wc_ssid (pq_wifi req), nc_key = network_key (pq_wifi req), nc_enabled = True\<rparr>],
      dcf_loco_server = Some \<lparr>ls_name = ts_host (pq_server req), ls_port = ts_port (pq_server req),
        ls_automatic = ts_automatic (pq_server req)\<rparr>\<rparr>"

text \<open>Distinct indices: every mapping becomes an entry.\<close>

lemma set_function_new: "i \<notin> fe_index ` set fs \<Longrightarrow> set_function i v fs = fs @ [\<lparr>fe_index = i, fe_value = v\<rparr>]"
  by (induction fs) auto

lemma set_functions_distinct:
  "distinct (map fm_index fms) \<Longrightarrow> fm_index ` set fms \<inter> fe_index ` set fs = {} \<Longrightarrow>
     fold (\<lambda>fm. set_function (fm_index fm) (fm_value fm)) fms fs
       = fs @ map (\<lambda>fm. \<lparr>fe_index = fm_index fm, fe_value = fm_value fm\<rparr>) fms"
proof (induction fms arbitrary: fs)
  case (Cons fm fms)
  then have "fm_index fm \<notin> fe_index ` set fs" by auto
  moreover have "fm_index ` set fms \<inter> fe_index ` set (fs @ [\<lparr>fe_index = fm_index fm, fe_value = fm_value fm\<rparr>]) = {}"
    using Cons.prems by auto
  ultimately show ?case using Cons by (simp add: set_function_new)
qed simp

lemma loco_programmed:
  assumes "distinct (map fm_index (re_functions e))" and "loco_address e = wanted_address e"
  shows "set_functions e (set_loco e (default_loco None)) = programmed_loco e"
  using set_functions_distinct [OF assms(1), of "[]"] assms(2)
  by (simp add: set_functions_def set_loco_def programmed_loco_def default_loco_def)


section \<open>The state after the plan\<close>

lemma slots_run:
  assumes step: "\<And>i e w. i < 4 \<Longrightarrow> e \<in> set es \<Longrightarrow> P (i, e) \<Longrightarrow> length (locos w) = 4 \<Longrightarrow>
      wf_cfg (after h w [r (i, e)]) = (wf_cfg w)\<lparr>dcf_locos := (locos w)[i := f e (locos w ! i)]\<rparr>"
    and idle: "\<And>i e l. \<not> P (i, e) \<Longrightarrow> f e l = l"
    and w: "locos w = xs @ map g es @ zs" "length (locos w) = 4" "n = length xs"
  shows "wf_cfg (after h w (map r (filter P (enumerate n es))))
       = (wf_cfg w)\<lparr>dcf_locos := xs @ map (\<lambda>e. f e (g e)) es @ zs\<rparr>"
  using assms
proof (induction es arbitrary: w xs n)
  case Nil
  then show ?case by (simp add: after_simps locos_def)
next
  case (Cons e es)
  let ?w = "after h w [r (n, e)]" and ?xs = "xs @ [f e (g e)]"
  have n: "n < 4" "locos w ! n = g e" using Cons.prems(3,4,5) by (auto simp: nth_append)
  show ?case
  proof (cases "P (n, e)")
    case True
    have cfg: "wf_cfg ?w = (wf_cfg w)\<lparr>dcf_locos := ?xs @ map g es @ zs\<rparr>"
      using Cons.prems(1) [OF n(1) _ True Cons.prems(4)] Cons.prems(3,5) n(2) by (simp add: list_update_append)
    then have "locos ?w = ?xs @ map g es @ zs" by (simp add: locos_def)
    then have "wf_cfg (after h ?w (map r (filter P (enumerate (Suc n) es))))
       = (wf_cfg ?w)\<lparr>dcf_locos := ?xs @ map (\<lambda>e. f e (g e)) es @ zs\<rparr>"
      using Cons.prems by (intro Cons.IH) auto
    with True cfg show ?thesis by (simp add: after_simps)
  next
    case False
    then have "f e (g e) = g e" using Cons.prems(2) by blast
    then have "wf_cfg (after h w (map r (filter P (enumerate (Suc n) es))))
       = (wf_cfg w)\<lparr>dcf_locos := ?xs @ map (\<lambda>e. f e (g e)) es @ zs\<rparr>"
      using Cons.prems by (intro Cons.IH) auto
    with False show ?thesis by simp
  qed
qed

text \<open>What validation and the strings of the source language give.\<close>

lemma valid_facts:
  assumes "wifred_validate req = Inr ()"
  shows "length (pq_roster req) \<le> 4"
    and "e \<in> set (pq_roster req) \<Longrightarrow> distinct (map fm_index (re_functions e)) \<and> loco_address e = wanted_address e"
    and "i < 4 \<Longrightarrow> slot_number i = show_nat (Suc i)"
proof -
  have ok: "request_ok wifred_capabilities req"
    using assms validate_common_decides by (simp add: wifred_validate_def)
  then show "length (pq_roster req) \<le> 4" by (simp add: request_ok_def wifred_capabilities_def)
  show "distinct (map fm_index (re_functions e)) \<and> loco_address e = wanted_address e" if "e \<in> set (pq_roster req)"
  proof -
    from that obtain i where "i < length (pq_roster req)" "pq_roster req ! i = e" by (auto simp: in_set_conv_nth)
    then have "(i, e) \<in> set (enumerate 0 (pq_roster req))" by (simp add: in_set_enumerate_eq)
    with wifred_queries_exact [OF assms] ok that show ?thesis
      by (auto simp: request_ok_def list_all_iff entry_ok_def)
  qed
  assume "i < 4"
  then have "unat (of_nat (Suc i) :: u8) = Suc i" by (simp only: unat_of_nat) simp
  then show "slot_number i = show_nat (Suc i)" by (simp add: slot_number_def)
qed

lemma get_loco:
  assumes "wifred_validate req = Inr ()" and "request_utf8 req" and "i < 4" and "e \<in> set (pq_roster req)"
    and "length (locos w) = 4"
  shows "wf_cfg (after wifred_handle w [http_get (loco_query (i, e))])
       = (wf_cfg w)\<lparr>dcf_locos := (locos w)[i := set_loco e (locos w ! i)]\<rparr>"
  using assms by (simp add: after_simps query_paths index_get query_loco valid_facts(3) usize_max_def request_utf8_def
      list_all_iff with_loco_def)

lemma get_functions:
  assumes "wifred_validate req = Inr ()" and "i < 4" and "length (locos w) = 4"
  shows "wf_cfg (after wifred_handle w [http_get (function_query (i, e))])
       = (wf_cfg w)\<lparr>dcf_locos := (locos w)[i := set_functions e (locos w ! i)]\<rparr>"
  using assms by (simp add: after_simps query_paths index_get query_functions valid_facts(3) usize_max_def with_loco_def)

lemma set_functions_idle: "re_functions e = [] \<Longrightarrow> set_functions e l = l"
  by (simp add: set_functions_def)


lemma config_get: "wifred_handle (received (http_get ''/api/getConfigXML'')) w = (ok_xml (serialize_xml (wf_cfg w)), w)"
  by (simp add: wifred_handle_def received_def http_get_def)

lemma restart_get: "wifred_handle (received (http_get ''/restart.html'')) w = (ok_text ''ok'', w\<lparr>wf_restarted := True\<rparr>)"
  by (simp add: wifred_handle_def received_def http_get_def)

lemma text_paths:
  "''/index.html?throttleName='' @ v = index_path @ ''throttleName='' @ v"
  "''/index.html?remove='' @ v = index_path @ ''remove='' @ v"
  by (simp_all add: index_path_def)

lemma after_write_plan:
  assumes valid: "wifred_validate req = Inr ()" and utf8: "request_utf8 req"
  shows "wf_cfg (after wifred_handle wifred_new (write_plan req)) = programmed req"
proof -
  let ?es = "pq_roster req" and ?h = wifred_handle and ?def = "default_loco None"
  let ?zs = "replicate (4 - length (pq_roster req)) ?def"
  let ?lq = "\<lambda>se. http_get (loco_query se)" and ?fq = "\<lambda>se. http_get (function_query se)"
  let ?P = "\<lambda>se. re_functions (snd se) \<noteq> []"
  define w1 where "w1 = with_cfg (\<lambda>c. c\<lparr>dcf_throttle_name := Some (pq_identity req)\<rparr>) wifred_new"
  define w2 where "w2 = after ?h w1 (map ?lq (enumerate 0 ?es))"
  define w3 where "w3 = after ?h w2 (map ?fq (filter ?P (enumerate 0 ?es)))"
  define w4 where "w4 = on_server (set_server (pq_server req)) w3"
  define w5 where "w5 = with_cfg (\<lambda>c. c\<lparr>dcf_networks := filter (\<lambda>n. nc_ssid n \<noteq> wc_ssid (pq_wifi req)) (dcf_networks c)\<rparr>) w4"
  have len: "length ?es \<le> 4" by (rule valid_facts(1) [OF valid])
  have strings: "utf8_valid (pq_identity req)" "utf8_valid (ts_host (pq_server req))" "utf8_valid (wc_ssid (pq_wifi req))"
      "pred_option utf8_valid (wc_psk (pq_wifi req))"
    using utf8 by (simp_all add: request_utf8_def)
  have rep: "replicate 4 ?def = map (\<lambda>e. ?def) ?es @ ?zs"
    using len by (simp add: map_replicate_const replicate_add [symmetric])
  have l1: "locos w1 = [] @ map (\<lambda>e. ?def) ?es @ ?zs" "length (locos w1) = 4"
    using rep len by (simp_all add: w1_def with_cfg_def locos_def wifred_new_def)
  have "wf_cfg (after ?h w1 (map ?lq (filter (\<lambda>se. True) (enumerate 0 ?es))))
      = (wf_cfg w1)\<lparr>dcf_locos := [] @ map (\<lambda>e. set_loco e ?def) ?es @ ?zs\<rparr>"
    by (rule slots_run [OF _ _ l1]) (simp_all add: get_loco [OF valid utf8])
  then have c2: "wf_cfg w2 = (wf_cfg w1)\<lparr>dcf_locos := map (\<lambda>e. set_loco e ?def) ?es @ ?zs\<rparr>" by (simp add: w2_def)
  then have l2: "locos w2 = [] @ map (\<lambda>e. set_loco e ?def) ?es @ ?zs" "length (locos w2) = 4"
    using len by (simp_all add: locos_def)
  have "wf_cfg w3 = (wf_cfg w2)\<lparr>dcf_locos := [] @ map (\<lambda>e. set_functions e (set_loco e ?def)) ?es @ ?zs\<rparr>"
    unfolding w3_def
    by (rule slots_run [OF _ _ l2]) (simp_all add: get_functions [OF valid] set_functions_idle)
  moreover have "map (\<lambda>e. set_functions e (set_loco e ?def)) ?es = map programmed_loco ?es"
    using valid_facts(2) [OF valid] loco_programmed by simp
  ultimately have c3: "wf_cfg w3 = (wf_cfg w1)\<lparr>dcf_locos := map programmed_loco ?es @ ?zs\<rparr>" using c2 by simp
  have "after ?h wifred_new (write_plan req) = after ?h w3 (map http_get
      [server_query (pq_server req), ''/index.html?remove='' @ percent_encode (wc_ssid (pq_wifi req)), wifi_query (pq_wifi req)])"
    by (simp add: write_plan_def after_simps config_get text_paths index_get query_identity [OF strings(1)]
        w1_def [symmetric] w2_def w3_def comp_def del: append.simps)
  also have "\<dots> = with_cfg (\<lambda>d. d\<lparr>dcf_networks := upsert_network (dcf_networks d) (wc_ssid (pq_wifi req))
      (network_key (pq_wifi req))\<rparr>) w5"
    by (simp add: after_simps text_paths query_paths index_get query_server [OF strings(2)] query_remove [OF strings(3)]
        query_wifi [OF strings(3,4)] w4_def w5_def del: append.simps)
  finally show ?thesis
    by (simp add: w5_def w4_def on_server_def c3 w1_def with_cfg_def wifred_new_def device_config_default_def programmed_def
        set_server_def opt_default_simps)
qed


section \<open>The run\<close>

definition wifred_mock :: device where
  "wifred_mock = served_by False wifred_handle wifred_new"

lemma mock_get:
  "wifred_get wifred_mock (index_path @ q) tr = (Inr (), tr @ [Ev_Req (http_get (index_path @ q))])"
  "wifred_get wifred_mock ''/restart.html'' tr = (Inr (), tr @ [Ev_Req (http_get ''/restart.html'')])"
  by (simp_all add: wifred_get_def wifred_mock_def dev_io_defs served_by_def index_get restart_get ok_text_def)

lemma mock_read:
  assumes "wf_cfg (after wifred_handle wifred_new (requests tr)) = cfg"
    and "reads xl (page_markup cfg)" and "cfg_utf8 cfg" and "addresses_fit cfg"
  shows "wifred_read_config xl wifred_mock tr = (Inr (reread cfg), tr @ [Ev_Req (http_get ''/api/getConfigXML'')])"
  using parse_page [OF assms(2-4)] assms(1)
  by (simp add: wifred_read_config_def wifred_mock_def dev_io_defs served_by_def config_get ok_xml_def)

lemma for_each_succeeds:
  "(\<And>x tr. x \<in> set xs \<Longrightarrow> fst (f x tr) = Inr ()) \<Longrightarrow> fst (for_each f xs tr) = Inr ()"
proof (induction xs arbitrary: tr)
  case (Cons x xs)
  then have "fst (f x tr) = Inr ()" by simp
  then obtain tr1 where "f x tr = (Inr (), tr1)" by (cases "f x tr") simp
  with Cons show ?case by (simp add: dev_then_def dev_bind_def)
qed (simp add: dev_return_def)

lemma new_page: "cfg_utf8 (wf_cfg wifred_new)" "addresses_fit (wf_cfg wifred_new)"
  "check_structure_version (reread (wf_cfg wifred_new)) = Inr ()"
  by (simp_all add: cfg_utf8_def wifred_new_def device_config_default_def default_loco_def utf8_valid_ascii is_ascii_def
      addresses_fit_def i64_range_def list_all_iff reread_def check_structure_version_def STRUCTURE_VERSION_def)

lemma write_succeeds:
  assumes "reads xl (page_markup (wf_cfg wifred_new))"
  shows "fst (wifred_write xl wifred_mock req []) = Inr ()"
proof -
  have read: "wifred_read_config xl wifred_mock tr = (Inr (reread (wf_cfg wifred_new)), tr @ [Ev_Req (http_get ''/api/getConfigXML'')])"
    if "requests tr = []" for tr
    using mock_read [OF _ assms new_page(1,2)] that by (simp add: after_simps)
  have slots: "fst (for_each (\<lambda>se. wifred_get wifred_mock (loco_query se)) xs tr) = Inr ()" for xs tr
    by (rule for_each_succeeds) (simp add: query_paths mock_get)
  have funs: "fst (for_each (\<lambda>se. if re_functions (snd se) = [] then dev_return ()
      else wifred_get wifred_mock (function_query se)) xs tr) = Inr ()" for xs tr
    by (rule for_each_succeeds) (simp add: query_paths mock_get dev_return_def)
  have bind: "fst (dev_then m k tr) = Inr ()" if "fst (m tr) = Inr ()" "\<And>tr. fst (k tr) = Inr ()" for m :: "unit dev_io" and k tr
    using that by (cases "m tr") (simp add: dev_then_def dev_bind_def)
  have get: "fst (wifred_get wifred_mock (index_path @ q) tr) = Inr ()" for q tr by (simp add: mock_get)
  have st: "fst (ev_step t tr) = Inr ()" for t tr by (simp add: ev_step_def)
  have rest: "fst (dev_then (ev_step ''identity'')
    (dev_then (wifred_get wifred_mock (index_path @ ''throttleName='' @ percent_encode (pq_identity req)))
    (dev_then (ev_step ''locos'')
    (dev_then (for_each (\<lambda>se. wifred_get wifred_mock (loco_query se)) (enumerate 0 (pq_roster req)))
    (dev_then (ev_step ''functions'')
    (dev_then (for_each (\<lambda>se. if re_functions (snd se) = [] then dev_return ()
                              else wifred_get wifred_mock (function_query se)) (enumerate 0 (pq_roster req)))
    (dev_then (ev_step ''server'')
    (dev_then (wifred_get wifred_mock (index_path @ query_text (server_kvs (pq_server req))))
    (dev_then (ev_step ''wifi'')
    (dev_then (wifred_get wifred_mock (index_path @ ''remove='' @ percent_encode (wc_ssid (pq_wifi req))))
              (wifred_get wifred_mock (index_path @ query_text (wifi_kvs (pq_wifi req))))))))))))) tr) = Inr ()" for tr
    by (intro bind get st slots funs)
  have first: "dev_then (ev_step t) m tr = m (tr @ [Ev_Step t])" for t tr and m :: "unit dev_io"
    by (simp add: dev_then_def dev_bind_def ev_step_def)
  show ?thesis
    unfolding wifred_write_def text_paths query_paths(3,4) first [of "''read''"]
    by (rule bind [OF _ rest]) (simp add: dev_bind_def dev_lift_def read new_page(3))
qed

lemma programmed_facts:
  assumes "wifred_validate req = Inr ()" and "request_utf8 req"
  shows "cfg_utf8 (programmed req)" and "addresses_fit (programmed req)" and "wifred_verify (reread (programmed req)) req = []"
proof -
  have modes: "pred_option utf8_valid (re_mode e)" if "e \<in> set (pq_roster req)" for e
    using that assms(2) by (simp add: request_utf8_def list_all_iff)
  have "utf8_valid (opt_default [] (re_mode e))" if "e \<in> set (pq_roster req)" for e
    using modes [OF that] by (cases "re_mode e") (simp_all add: opt_default_simps)
  then show "cfg_utf8 (programmed req)"
    using assms(2) by (auto simp: cfg_utf8_def programmed_def request_utf8_def network_utf8_def network_key_def
        programmed_loco_def default_loco_def list_all_iff utf8_valid_ascii is_ascii_def split: option.split)
  have "i64_range (wanted_address e)" for e
  proof -
    have "- 1 \<le> uint a" for a :: u16 by (rule order_trans [of _ 0]) simp_all
    moreover have "uint a < 65536" for a :: u16 using unsigned_less [of a, where ?'a = int] by simp
    ultimately have "- 1 \<le> wanted_address e \<and> wanted_address e < 65536"
      by (auto simp: wanted_address_def split: option.split)
    then show ?thesis by (auto simp: i64_range_def)
  qed
  then show "addresses_fit (programmed req)"
    by (auto simp: addresses_fit_def programmed_def programmed_loco_def default_loco_def list_all_iff i64_range_def)
  have "lc_address (dcf_locos (reread (programmed req)) ! i) = wanted_address (pq_roster req ! i)
      \<and> i < length (dcf_locos (reread (programmed req)))" if "i < length (pq_roster req)" for i
    using that valid_facts(1) [OF assms(1)]
    by (simp add: reread_def programmed_def nth_enumerate_eq reread_loco_def nth_append programmed_loco_def)
  then show "wifred_verify (reread (programmed req)) req = []"
    unfolding verify_nil by (simp add: reread_def programmed_def)
qed

lemma program_succeeds:
  assumes valid: "wifred_validate req = Inr ()" and utf8: "request_utf8 req"
    and reader: "reads xl (page_markup (wf_cfg wifred_new))" "reads xl (page_markup (programmed req))"
  shows "\<exists>tr. wifred_program xl (T_Http wifred_mock) req [] = (Inr \<lparr>oc_restarted = True, oc_mismatches = []\<rparr>, tr)
       \<and> requests tr = wifred_plan req"
proof -
  obtain tr1 where w: "wifred_write xl wifred_mock req [] = (Inr (), tr1)"
    using write_succeeds [OF reader(1), of req] by (cases "wifred_write xl wifred_mock req []") simp
  have reqs: "requests tr1 = write_plan req"
    using issues_write [of xl wifred_mock req] w unfolding issues_def
    by (metis (no_types, lifting) append_Nil fst_conv requests.simps(1) snd_conv take_all)
  have "wifred_read_config xl wifred_mock (tr1 @ [Ev_Step ''verify''])
      = (Inr (reread (programmed req)), (tr1 @ [Ev_Step ''verify'']) @ [Ev_Req (http_get ''/api/getConfigXML'')])"
    using after_write_plan [OF valid utf8] reader(2) programmed_facts(1,2) [OF valid utf8]
    by (intro mock_read) (simp_all add: reqs)
  then have v: "wifred_readback xl wifred_mock req tr1
      = (Inr (), tr1 @ [Ev_Step ''verify'', Ev_Req (http_get ''/api/getConfigXML'')])"
    using programmed_facts(3) [OF valid utf8] by (simp add: wifred_readback_def dev_io_defs Let_def)
  show ?thesis
    by (simp add: wifred_program_def dev_then_def dev_bind_def w v ev_step_def mock_get dev_return_def reqs wifred_plan_def)
qed

lemma after_plan:
  assumes "wifred_validate req = Inr ()" and "request_utf8 req"
  shows "wf_cfg (after wifred_handle wifred_new (wifred_plan req)) = programmed req"
    and "wf_restarted (after wifred_handle wifred_new (wifred_plan req))"
  using after_write_plan [OF assms] by (simp_all add: wifred_plan_def after_simps config_get restart_get)

section \<open>The property\<close>

text \<open>C35: programming a factory-new WiFred mock: for every request that passes validation, the driver,
  through an XML reader that gives the elements of the two pages it reads, succeeds with the whole
  plan of requests; the percent-encoded queries decoded by the mock have left exactly the
  requested identity, slots, functions, server and network in it, and it was told to restart.\<close>

theorem wifred_programs_mock:
  assumes "wifred_validate req = Inr ()" and "request_utf8 req"
    and "reads xl (page_markup (wf_cfg wifred_new))" and "reads xl (page_markup (programmed req))"
  shows "\<exists>tr. wifred_program xl (T_Http wifred_mock) req [] = (Inr \<lparr>oc_restarted = True, oc_mismatches = []\<rparr>, tr)
       \<and> requests tr = wifred_plan req
       \<and> wf_cfg (after wifred_handle wifred_new (requests tr)) = programmed req
       \<and> wf_restarted (after wifred_handle wifred_new (requests tr))"
proof -
  obtain tr where "wifred_program xl (T_Http wifred_mock) req [] = (Inr \<lparr>oc_restarted = True, oc_mismatches = []\<rparr>, tr)"
      "requests tr = wifred_plan req"
    using program_succeeds [OF assms] by blast
  with after_plan [OF assms(1,2)] show ?thesis by auto
qed

text \<open>A reader that knows the two pages.\<close>

definition two_pages :: xml_lib where
  "two_pages =
     \<lparr>xl_events = (\<lambda>t. (concat (map markup_events
        (if t = serialize_xml (programmed demo_request) then page_markup (programmed demo_request)
         else page_markup (wf_cfg wifred_new))), None)),
      xl_utf8_error = (\<lambda>t. [])\<rparr>"

lemma no_other: "filter (\<lambda>e. e \<noteq> XE_Other) (concat (map markup_events ms)) = concat (map markup_events ms)"
proof (induction ms)
  case (Cons m ms)
  then show ?case by (cases m) simp_all
qed simp

lemma pages_differ: "serialize_xml (wf_cfg wifred_new) \<noteq> serialize_xml (programmed demo_request)"
  by (simp add: serialize_xml_def push_opt_def push_empty_def wifred_new_def device_config_default_def programmed_def)

lemma two_pages_read:
  "reads two_pages (page_markup (wf_cfg wifred_new))" "reads two_pages (page_markup (programmed demo_request))"
  using pages_differ
  by (simp_all add: reads_def two_pages_def no_other flip: rendered_def serialize_rendered)

lemma demo_request_utf8: "request_utf8 demo_request"
  by (simp add: request_utf8_def demo_request_def utf8_valid_ascii is_ascii_def)

theorem wifred_programs_mock_witness:
  "\<exists>tr. wifred_program two_pages (T_Http wifred_mock) demo_request [] = (Inr \<lparr>oc_restarted = True, oc_mismatches = []\<rparr>, tr)
     \<and> dcf_throttle_name (wf_cfg (after wifred_handle wifred_new (requests tr))) = Some ''122145''"
  using wifred_programs_mock [OF demo_request_valid demo_request_utf8 two_pages_read]
  by (auto simp: programmed_def demo_request_def)

end
