(* ===== verification/Wp_LongFred.thy ===== *)
theory Wp_LongFred
  imports Wp_Http
begin

text \<open>
  The LongFred driver (\<open>crates/wp-drivers/src/longfred\<close>): the settings document it puts, the
  comparison of the settings it reads back, programming and firmware upload. JSON values and
  their functions are those of the \<open>serde_json\<close> crate, a parameter here (\<open>json_lib\<close>, generic
  in the value type): constructors, printing, parsing and the accessors that the drivers use.
\<close>

section \<open>The JSON library\<close>

record 'j json_lib =
  js_str :: "string \<Rightarrow> 'j"
  js_bool :: "bool \<Rightarrow> 'j"
  js_num :: "nat \<Rightarrow> 'j"
  js_arr :: "'j list \<Rightarrow> 'j"
  js_obj :: "(string \<times> 'j) list \<Rightarrow> 'j"
  js_to_vec :: "'j \<Rightarrow> string + string"
  js_from_slice :: "string \<Rightarrow> string + 'j"
  js_pointer :: "string \<Rightarrow> 'j \<Rightarrow> 'j option"
  js_get :: "string \<Rightarrow> 'j \<Rightarrow> 'j option"
  js_as_array :: "'j \<Rightarrow> 'j list option"
  js_as_str :: "'j \<Rightarrow> string option"

section \<open>Constants, discovery, capabilities\<close>

definition LONGFRED_SSID_PREFIX :: string where
  "LONGFRED_SSID_PREFIX = ''longfred_prog''"

definition SETTINGS_PATH :: string where
  "SETTINGS_PATH = ''/api/v1/settings''"

definition FIRMWARE_PATH :: string where
  "FIRMWARE_PATH = ''/api/v1/firmware''"

definition PROGRAMMING_MODE_OFF_PATH :: string where
  "PROGRAMMING_MODE_OFF_PATH = ''/api/v1/programming-mode/off''"

definition longfred_identify :: "'j observation \<Rightarrow> device_candidate option" where
  "longfred_identify obs =
     (case ob_ssid obs of
        None \<Rightarrow> None
      | Some ssid \<Rightarrow>
          if \<not> starts_with ssid LONGFRED_SSID_PREFIX then None
          else Some \<lparr>dc_driver = ''longfred'',
                     dc_key = (case ob_bssid obs of Some b \<Rightarrow> b | None \<Rightarrow> ssid),
                     dc_label = ssid, dc_rssi = ob_rssi obs\<rparr>)"

definition longfred_filters :: "string list" where
  "longfred_filters = [LONGFRED_SSID_PREFIX]"

definition longfred_net :: commissioning_net where
  "longfred_net =
     \<lparr>cn_host = [192, 168, 4, 1], cn_port = 80, cn_source = [192, 168, 4, 2], cn_prefix = 24\<rparr>"

definition longfred_capabilities :: driver_capabilities where
  "longfred_capabilities =
     \<lparr>dcap_max_roster_slots = 12, dcap_max_function_index = 0,
      dcap_identity_format = IF_Alphanumeric 16, dcap_supports_throttle_server = True,
      dcap_commissioning = CK_SoftAp, dcap_commissioning_net = Some longfred_net,
      dcap_softap_psk = None,
      dcap_firmware = Some
        \<lparr>fc_max_bytes = 0x3C0000, fc_max_bytes_label = ''LongFred OTA slot (3.75 MiB)'',
         fc_modes = FM_AP_LAN_USB, fc_require_esp_app_bin = True,
         fc_success_on_reset_after_write = False\<rparr>\<rparr>"

definition longfred_validate :: "program_request \<Rightarrow> validation_error + unit" where
  "longfred_validate req = validate_common longfred_capabilities req"

section \<open>Settings\<close>

definition format_roster_addr :: "u16 \<Rightarrow> bool option \<Rightarrow> string option" where
  "format_roster_addr address long_address =
     (if address = 0 \<or> unat address > 10239 then None
      else
        let long = (case long_address of Some b \<Rightarrow> b | None \<Rightarrow> unat address \<ge> 128);
            prefix = (if long then CHR ''L'' else CHR ''S'')
        in Some (prefix # show_nat (unat address)))"

text \<open>The long flag in force.\<close>

definition opt_default_long :: "u16 \<Rightarrow> bool option \<Rightarrow> bool" where
  "opt_default_long a l = (case l of Some b \<Rightarrow> b | None \<Rightarrow> unat a \<ge> 128)"

text \<open>The formatted addresses of a roster, as both the writer and the verifier collect them.\<close>

definition roster_addrs :: "program_request \<Rightarrow> string list" where
  "roster_addrs req =
     List.map_filter
       (\<lambda>e. case re_address e of None \<Rightarrow> None | Some a \<Rightarrow> format_roster_addr a (re_long_address e))
       (pq_roster req)"

definition build_settings_put :: "'j json_lib \<Rightarrow> program_request \<Rightarrow> 'j" where
  "build_settings_put J req =
     (let wifi =
            [(''ssid'', js_str J (wc_ssid (pq_wifi req)))]
          @ (case wc_psk (pq_wifi req) of None \<Rightarrow> [] | Some psk \<Rightarrow> [(''password'', js_str J psk)])
          @ (if pq_identity req = [] then [] else [(''hostname'', js_str J (pq_identity req))]);
          roster = map (\<lambda>addr. js_obj J [(''addr'', js_str J addr)]) (roster_addrs req)
      in js_obj J
          ([(''wifi'', js_obj J wifi)]
         @ (case pq_bigfred req of
              None \<Rightarrow> []
            | Some bf \<Rightarrow> [(''bigfred'', js_obj J [(''login'', js_str J (bf_login bf)), (''pin'', js_str J (bf_pin bf))])])
         @ (case pq_roster_mode req of None \<Rightarrow> [] | Some mode \<Rightarrow> [(''roster_mode'', js_str J mode)])
         @ (if roster = [] then [] else [(''roster'', js_arr J roster)])))"

text \<open>\<open>settings.pointer(p).and_then(as_str).unwrap_or_default()\<close>, and the same for an array.\<close>

definition string_at :: "'j json_lib \<Rightarrow> string \<Rightarrow> 'j \<Rightarrow> string" where
  "string_at J p v = (case Option.bind (js_pointer J p v) (js_as_str J) of None \<Rightarrow> [] | Some s \<Rightarrow> s)"

definition array_at :: "'j json_lib \<Rightarrow> string \<Rightarrow> 'j \<Rightarrow> 'j list" where
  "array_at J p v = (case Option.bind (js_pointer J p v) (js_as_array J) of None \<Rightarrow> [] | Some s \<Rightarrow> s)"

definition entry_addr :: "'j json_lib \<Rightarrow> 'j list \<Rightarrow> nat \<Rightarrow> string option" where
  "entry_addr J entries i =
     Option.bind (if i < length entries then Some (entries ! i) else None)
       (\<lambda>e. Option.bind (js_get J ''addr'' e) (js_as_str J))"

definition addr_mismatch :: "'j json_lib \<Rightarrow> 'j list \<Rightarrow> nat \<times> string \<Rightarrow> string list" where
  "addr_mismatch J entries ia =
     (if entry_addr J entries (fst ia) \<noteq> Some (snd ia)
      then [''roster['' @ show_nat (fst ia) @ ''].addr''] else [])"

definition longfred_verify :: "'j json_lib \<Rightarrow> 'j \<Rightarrow> program_request \<Rightarrow> string list" where
  "longfred_verify J settings req =
     (if \<not> list_ex (\<lambda>n. js_as_str J n = Some (wc_ssid (pq_wifi req))) (array_at J ''/wifi/networks'' settings)
      then [''wifi''] else [])
   @ (if pq_identity req \<noteq> [] \<and> string_at J ''/wifi/hostname'' settings \<noteq> pq_identity req
      then [''wifi.hostname''] else [])
   @ (case pq_bigfred req of
        None \<Rightarrow> []
      | Some bf \<Rightarrow> if string_at J ''/bigfred/login'' settings \<noteq> bf_login bf then [''bigfred.login''] else [])
   @ (case pq_roster_mode req of
        None \<Rightarrow> []
      | Some mode \<Rightarrow> if string_at J ''/roster/mode'' settings \<noteq> mode then [''roster.mode''] else [])
   @ concat (map (addr_mismatch J (array_at J ''/roster/entries'' settings)) (enumerate 0 (roster_addrs req)))"

section \<open>Probe, program, firmware\<close>

definition longfred_probe :: "'j json_lib \<Rightarrow> transport \<Rightarrow> 'j dev_io" where
  "longfred_probe J t =
     (case t of
        T_Bytes \<Rightarrow> dev_fail (DE_Other ''longfred driver requires an HTTP transport'')
      | T_Http d \<Rightarrow>
          dev_bind (dev_request d (http_get SETTINGS_PATH))
            (\<lambda>body. dev_lift (map_err DE_Parse (js_from_slice J body))))"

definition put_request :: "string \<Rightarrow> http_request" where
  "put_request bytes =
     \<lparr>hq_method = ''PUT'', hq_path = SETTINGS_PATH, hq_body = Some (''application/json'', bytes)\<rparr>"

definition off_request :: http_request where
  "off_request = \<lparr>hq_method = ''POST'', hq_path = PROGRAMMING_MODE_OFF_PATH, hq_body = None\<rparr>"

definition longfred_readback :: "'j json_lib \<Rightarrow> device \<Rightarrow> program_request \<Rightarrow> unit dev_io" where
  "longfred_readback J d req =
     dev_then (ev_step ''verify'')
       (dev_bind (dev_request d (http_get SETTINGS_PATH)) (\<lambda>body.
        dev_bind (dev_lift (map_err DE_Parse (js_from_slice J body))) (\<lambda>after.
        let mismatches = longfred_verify J after req
        in if mismatches \<noteq> [] then dev_fail (DE_VerificationFailed mismatches) else dev_return ())))"

definition longfred_program :: "'j json_lib \<Rightarrow> transport \<Rightarrow> program_request \<Rightarrow> outcome dev_io" where
  "longfred_program J t req =
     (case t of
        T_Bytes \<Rightarrow> dev_fail (DE_Other ''longfred driver requires an HTTP transport'')
      | T_Http d \<Rightarrow>
          dev_then (ev_step ''write'')
         (dev_bind (dev_lift (map_err DE_Other (js_to_vec J (build_settings_put J req)))) (\<lambda>bytes.
          dev_bind (dev_request d (put_request bytes)) (\<lambda>_.
          dev_then (longfred_readback J d req)
         (dev_then (ev_step ''exit'')
         (dev_bind (dev_request d off_request) (\<lambda>_.
          dev_return \<lparr>oc_restarted = True, oc_mismatches = []\<rparr>)))))))"

text \<open>A cancelled upload is told apart from a failed one by the error kind.\<close>

definition upload_error :: "io_error \<Rightarrow> driver_error" where
  "upload_error e = (if ioe_kind e = IOK_Interrupted then DE_Cancelled else DE_Http (ioe_text e))"

definition longfred_upload :: "string \<Rightarrow> http_request" where
  "longfred_upload img =
     \<lparr>hq_method = ''POST'', hq_path = FIRMWARE_PATH, hq_body = Some (''application/octet-stream'', img)\<rparr>"

definition longfred_update_firmware :: "transport \<Rightarrow> string \<Rightarrow> string \<Rightarrow> outcome dev_io" where
  "longfred_update_firmware t img filename =
     (case t of
        T_Bytes \<Rightarrow> dev_fail (DE_Other ''longfred driver requires an HTTP transport'')
      | T_Http d \<Rightarrow>
          dev_then (ev_step ''write'')
         (dev_then (ev_detail (show_nat (length img) @ '' bytes''))
         (dev_bind (dev_request_err upload_error d (longfred_upload img)) (\<lambda>_.
          dev_then (ev_step ''restart'')
            (dev_return \<lparr>oc_restarted = True, oc_mismatches = []\<rparr>)))))"

section \<open>Requests issued\<close>

lemma issues_longfred_readback: "issues (longfred_readback J d req) [http_get SETTINGS_PATH]"
proof -
  have "issues (longfred_readback J d req) ([] @ [http_get SETTINGS_PATH] @ [] @ [])"
    unfolding longfred_readback_def Let_def
    by (intro issues_then issues_bind issues_pure(2,3) issues_request) (simp add: issues_intro)
  then show ?thesis by simp
qed

lemma issues_longfred_program:
  assumes "js_to_vec J (build_settings_put J req) = Inr bytes"
  shows "issues (longfred_program J (T_Http d) req)
    [put_request bytes, http_get SETTINGS_PATH, off_request]"
proof -
  have "issues (longfred_program J (T_Http d) req)
    ([] @ [put_request bytes, http_get SETTINGS_PATH, off_request])"
    unfolding longfred_program_def transport.case
  proof (rule issues_then [OF issues_pure(3)])
    have rest: "issues (dev_bind (dev_request d (put_request b)) (\<lambda>_.
        dev_then (longfred_readback J d req) (dev_then (ev_step ''exit'')
          (dev_bind (dev_request d off_request) (\<lambda>_. dev_return \<lparr>oc_restarted = True, oc_mismatches = []\<rparr>)))))
      ([put_request b] @ [http_get SETTINGS_PATH] @ [] @ [off_request] @ [])" for b
      by (intro issues_then issues_bind issues_pure issues_request issues_longfred_readback)
    show "issues (dev_bind (dev_lift (map_err DE_Other (js_to_vec J (build_settings_put J req)))) (\<lambda>bytes.
        dev_bind (dev_request d (put_request bytes)) (\<lambda>_.
        dev_then (longfred_readback J d req) (dev_then (ev_step ''exit'')
          (dev_bind (dev_request d off_request) (\<lambda>_. dev_return \<lparr>oc_restarted = True, oc_mismatches = []\<rparr>))))))
      [put_request bytes, http_get SETTINGS_PATH, off_request]"
      using rest [of bytes] assms by (simp add: dev_bind_lift_Inr)
  qed
  then show ?thesis by simp
qed

lemma format_in_range: "dcc_address_ok a \<Longrightarrow> format_roster_addr a l \<noteq> None"
  by (auto simp: format_roster_addr_def dcc_address_ok_def Let_def)

lemma map_filter_addresses:
  "\<forall>e \<in> set es. pred_option dcc_address_ok (re_address e) \<Longrightarrow>
     length (List.map_filter
       (\<lambda>e. case re_address e of None \<Rightarrow> None | Some a \<Rightarrow> format_roster_addr a (re_long_address e)) es)
     = length (filter (\<lambda>e. re_address e \<noteq> None) es)"
  by (induction es) (use format_in_range in \<open>auto simp: map_filter_simps split: option.splits\<close>)

section \<open>Properties\<close>

text \<open>The read-back comparison of a LongFred reports no mismatch exactly when its stored
  networks contain the SSID, the hostname is the identity (if one was given), the BigFred
  login and the roster mode are the requested ones (if given), and the stored roster starts
  with the requested addresses in order. The PIN, the passphrase and further roster entries
  are not compared.\<close>

lemma longfred_verify_iff:
  "longfred_verify J v req = [] \<longleftrightarrow>
     (\<exists>n \<in> set (array_at J ''/wifi/networks'' v). js_as_str J n = Some (wc_ssid (pq_wifi req)))
   \<and> (pq_identity req = [] \<or> string_at J ''/wifi/hostname'' v = pq_identity req)
   \<and> pred_option (\<lambda>bf. string_at J ''/bigfred/login'' v = bf_login bf) (pq_bigfred req)
   \<and> pred_option (\<lambda>m. string_at J ''/roster/mode'' v = m) (pq_roster_mode req)
   \<and> map (entry_addr J (array_at J ''/roster/entries'' v)) [0..<length (roster_addrs req)]
       = map Some (roster_addrs req)"
proof -
  let ?es = "array_at J ''/roster/entries'' v"
  let ?as = "roster_addrs req"
  have "concat (map (addr_mismatch J ?es) (enumerate 0 ?as)) = [] \<longleftrightarrow>
      (\<forall>ia \<in> set (enumerate 0 ?as). entry_addr J ?es (fst ia) = Some (snd ia))"
    by (auto simp: addr_mismatch_def)
  also have "\<dots> \<longleftrightarrow> (\<forall>i < length ?as. entry_addr J ?es i = Some (?as ! i))"
    by (simp add: ball_enumerate)
  also have "\<dots> \<longleftrightarrow> map (entry_addr J ?es) [0..<length ?as] = map Some ?as"
    unfolding list_eq_iff_nth_eq [of "map _ _"] by simp
  finally have addrs: "concat (map (addr_mismatch J ?es) (enumerate 0 ?as)) = [] \<longleftrightarrow>
      map (entry_addr J ?es) [0..<length ?as] = map Some ?as" .
  show ?thesis
    unfolding longfred_verify_def using addrs
    by (auto simp: list_ex_iff split: option.splits)
qed

text \<open>C29: a LongFred programming run issues a prefix of settings PUT, settings GET and
  programming-mode-off POST, all three when it succeeds; the device is told to leave
  programming mode only after the settings it then reported were verified against the request.\<close>

theorem longfred_exit_only_after_verify:
  assumes "js_to_vec J (build_settings_put J req) = Inr bytes"
    and "longfred_program J (T_Http d) req [] = (r, tr)"
  shows "(\<exists>k. requests tr = take k [put_request bytes, http_get SETTINGS_PATH, off_request])
       \<and> (is_ok r \<longrightarrow> requests tr = [put_request bytes, http_get SETTINGS_PATH, off_request])
       \<and> (off_request \<in> set (requests tr) \<longrightarrow>
            (\<exists>body v. d [Ev_Step ''write'', Ev_Req (put_request bytes), Ev_Step ''verify'']
                        (http_get SETTINGS_PATH) = Inr body
               \<and> js_from_slice J body = Inr v \<and> longfred_verify J v req = []))"
proof -
  obtain k where k: "requests tr = take k [put_request bytes, http_get SETTINGS_PATH, off_request]"
      "\<And>x. r = Inr x \<Longrightarrow> 3 \<le> k"
    using issues_longfred_program [OF assms(1), of d] assms(2) unfolding issues_def
    by (metis (no_types, lifting) append_Nil fst_conv requests.simps(1) snd_conv length_Cons list.size(3) numeral_3_eq_3)
  have off: "off_request \<noteq> put_request bytes" "off_request \<noteq> http_get SETTINGS_PATH"
    by (simp_all add: off_request_def put_request_def http_get_def)
  have "\<exists>body v. d [Ev_Step ''write'', Ev_Req (put_request bytes), Ev_Step ''verify''] (http_get SETTINGS_PATH)
          = Inr body \<and> js_from_slice J body = Inr v \<and> longfred_verify J v req = []"
    if "off_request \<in> set (requests tr)"
    using assms that off
    unfolding longfred_program_def longfred_readback_def
    by (auto simp: dev_io_defs Let_def split: sum.splits if_splits)
  with k show ?thesis by (cases r) (auto intro: exI [of _ k])
qed

text \<open>A device that always shows the wanted network.\<close>

datatype demo_json = DJ_Str string | DJ_Bool bool | DJ_Num nat | DJ_Arr "demo_json list"
  | DJ_Obj "(string \<times> demo_json) list"

definition demo_json_lib :: "demo_json json_lib" where
  "demo_json_lib =
     \<lparr>js_str = DJ_Str, js_bool = DJ_Bool, js_num = DJ_Num, js_arr = DJ_Arr, js_obj = DJ_Obj,
      js_to_vec = (\<lambda>v. Inr ''doc''), js_from_slice = (\<lambda>b. Inr (DJ_Arr [DJ_Str ''net''])),
      js_pointer = (\<lambda>p v. if p = ''/wifi/networks'' then Some v else None),
      js_get = (\<lambda>k v. None),
      js_as_array = (\<lambda>v. case v of DJ_Arr xs \<Rightarrow> Some xs | _ \<Rightarrow> None),
      js_as_str = (\<lambda>v. case v of DJ_Str s \<Rightarrow> Some s | _ \<Rightarrow> None)\<rparr>"

definition demo_settings_request :: program_request where
  "demo_settings_request =
     \<lparr>pq_identity = [], pq_wifi = \<lparr>wc_ssid = ''net'', wc_psk = None\<rparr>,
      pq_server = \<lparr>ts_host = [], ts_port = 0, ts_automatic = False\<rparr>, pq_roster = [],
      pq_bigfred = None, pq_roster_mode = None\<rparr>"

theorem longfred_exit_only_after_verify_witness:
  "\<exists>v. js_from_slice demo_json_lib ''body'' = Inr v \<and> longfred_verify demo_json_lib v demo_settings_request = []"
proof -
  let ?d = "\<lambda>tr q. Inr ''body''"
  have put: "js_to_vec demo_json_lib (build_settings_put demo_json_lib demo_settings_request) = Inr ''doc''"
    by (simp add: demo_json_lib_def)
  have v: "longfred_verify demo_json_lib (DJ_Arr [DJ_Str ''net'']) demo_settings_request = []"
    by (simp add: longfred_verify_def demo_json_lib_def demo_settings_request_def array_at_def
        roster_addrs_def map_filter_simps)
  obtain r tr where run: "longfred_program demo_json_lib (T_Http ?d) demo_settings_request [] = (r, tr)"
    by (cases "longfred_program demo_json_lib (T_Http ?d) demo_settings_request []")
  have "js_from_slice demo_json_lib ''body'' = Inr (DJ_Arr [DJ_Str ''net''])" by (simp add: demo_json_lib_def)
  with run put v have "off_request \<in> set (requests tr)"
    by (auto simp: longfred_program_def longfred_readback_def dev_io_defs)
  with longfred_exit_only_after_verify [OF put run] show ?thesis by auto
qed

lemma format_roster_addr_exact:
  "(case format_roster_addr a l of
      None \<Rightarrow> \<not> dcc_address_ok a
    | Some s \<Rightarrow> dcc_address_ok a \<and> parse_u16 (tl s) = Some a
        \<and> hd s = (if opt_default_long a l then CHR ''L'' else CHR ''S''))
 \<and> (longfred_validate req = Inr () \<longrightarrow>
      length (roster_addrs req) = length (filter (\<lambda>e. re_address e \<noteq> None) (pq_roster req)))"
proof
  have "a = 0 \<longleftrightarrow> unat a = 0" by (simp add: unat_eq_0)
  then show "case format_roster_addr a l of
      None \<Rightarrow> \<not> dcc_address_ok a
    | Some s \<Rightarrow> dcc_address_ok a \<and> parse_u16 (tl s) = Some a
        \<and> hd s = (if opt_default_long a l then CHR ''L'' else CHR ''S'')"
    by (auto simp: format_roster_addr_def dcc_address_ok_def Let_def parse_u16_show opt_default_long_def
        split: option.splits)
  show "longfred_validate req = Inr () \<longrightarrow>
      length (roster_addrs req) = length (filter (\<lambda>e. re_address e \<noteq> None) (pq_roster req))"
  proof
    assume "longfred_validate req = Inr ()"
    then have "list_all (entry_ok 0) (pq_roster req)"
      by (simp add: longfred_validate_def validate_common_decides request_ok_def longfred_capabilities_def)
    moreover have "pred_option dcc_address_ok (re_address e)" if "entry_ok 0 e" for e
      using that by (cases "re_address e") (simp_all add: entry_ok_def)
    ultimately have "\<forall>e \<in> set (pq_roster req). pred_option dcc_address_ok (re_address e)"
      by (simp add: list_all_iff)
    then show "length (roster_addrs req) = length (filter (\<lambda>e. re_address e \<noteq> None) (pq_roster req))"
      unfolding roster_addrs_def by (rule map_filter_addresses)
  qed
qed

end
