(* ===== verification/Wp_FakeLongfred.thy ===== *)
theory Wp_FakeLongfred
  imports Wp_Fake Wp_LongFred
begin

text \<open>
  The LongFred mock (\<open>crates/wp-fake/src/longfred.rs\<close>). Its settings are a JSON document of the library that
  the LongFred driver uses as well; what it needs more is the test for an object and the insertion
  into one (\<open>json_mut\<close>), out of which the changes of nested objects are made here.
\<close>

section \<open>Changing a document\<close>

record 'j json_mut =
  jm_is_object :: "'j \<Rightarrow> bool"
  jm_put :: "string \<Rightarrow> 'j \<Rightarrow> 'j \<Rightarrow> 'j"

text \<open>\<open>doc.get_mut(a).and_then(as_object_mut)\<close> with an insertion when there is one.\<close>

definition insert_at :: "'j json_lib \<Rightarrow> 'j json_mut \<Rightarrow> string \<Rightarrow> string \<Rightarrow> 'j \<Rightarrow> 'j \<Rightarrow> 'j" where
  "insert_at J M a k x doc =
     (case js_get J a doc of
        None \<Rightarrow> doc
      | Some o' \<Rightarrow> if jm_is_object M o' then jm_put M a (jm_put M k x o') doc else doc)"

text \<open>\<open>doc.pointer_mut("/a/b").and_then(as_array_mut)\<close>: \<open>x\<close> is pushed unless the test holds of an element.\<close>

definition push_unless :: "'j json_lib \<Rightarrow> 'j json_mut \<Rightarrow> ('j \<Rightarrow> bool) \<Rightarrow> string \<Rightarrow> string \<Rightarrow> 'j \<Rightarrow> 'j \<Rightarrow> 'j" where
  "push_unless J M present a b x doc =
     (case js_get J a doc of
        None \<Rightarrow> doc
      | Some o' \<Rightarrow>
          (case Option.bind (js_get J b o') (js_as_array J) of
             None \<Rightarrow> doc
           | Some xs \<Rightarrow> if list_ex present xs then doc else jm_put M a (jm_put M b (js_arr J (xs @ [x])) o') doc))"

section \<open>The device\<close>

record 'j longfred_fake =
  lf_settings :: 'j
  lf_programming_mode :: bool

definition longfred_new :: "'j json_lib \<Rightarrow> 'j longfred_fake" where
  "longfred_new J =
     \<lparr>lf_settings = js_obj J
        [(''wifi'', js_obj J [(''hostname'', js_str J []), (''networks'', js_arr J [])]),
         (''roster'', js_obj J [(''mode'', js_str J ''static''), (''entries'', js_arr J [])]),
         (''bigfred'', js_obj J [(''login'', js_str J []), (''pin_set'', js_bool J False)]),
         (''programming_mode'', js_bool J True)],
      lf_programming_mode = True\<rparr>"

definition put_wifi :: "'j json_lib \<Rightarrow> 'j json_mut \<Rightarrow> 'j \<Rightarrow> 'j \<Rightarrow> 'j" where
  "put_wifi J M wifi doc =
     (let doc1 = (case Option.bind (js_get J ''hostname'' wifi) (js_as_str J) of
                    None \<Rightarrow> doc
                  | Some hostname \<Rightarrow> insert_at J M ''wifi'' ''hostname'' (js_str J hostname) doc)
      in case Option.bind (js_get J ''ssid'' wifi) (js_as_str J) of
           None \<Rightarrow> doc1
         | Some ssid \<Rightarrow>
             push_unless J M (\<lambda>n. js_as_str J n = Some ssid) ''wifi'' ''networks'' (js_str J ssid) doc1)"

definition apply_put :: "'j json_lib \<Rightarrow> 'j json_mut \<Rightarrow> 'j \<Rightarrow> 'j \<Rightarrow> 'j" where
  "apply_put J M body doc =
     (let d1 = (case js_get J ''wifi'' body of None \<Rightarrow> doc | Some wifi \<Rightarrow> put_wifi J M wifi doc);
          d2 = (case Option.bind (js_pointer J ''/bigfred/login'' body) (js_as_str J) of
                  None \<Rightarrow> d1
                | Some login \<Rightarrow> insert_at J M ''bigfred'' ''pin_set'' (js_bool J True)
                                  (insert_at J M ''bigfred'' ''login'' (js_str J login) d1));
          d3 = (case Option.bind (js_get J ''roster_mode'' body) (js_as_str J) of
                  None \<Rightarrow> d2
                | Some mode \<Rightarrow> insert_at J M ''roster'' ''mode'' (js_str J mode) d2)
      in case Option.bind (js_get J ''roster'' body) (js_as_array J) of
           None \<Rightarrow> d3
         | Some roster \<Rightarrow> insert_at J M ''roster'' ''entries'' (js_arr J roster) d3)"

definition bad_image :: fake_response where
  "bad_image = \<lparr>fr_status = 400, fr_content_type = ''text/plain'', fr_body = ''empty image'', fr_drop = False\<rparr>"

definition bad_json :: fake_response where
  "bad_json = \<lparr>fr_status = 400, fr_content_type = ''text/plain'', fr_body = ''bad json'', fr_drop = False\<rparr>"

definition ok_true :: string where
  "ok_true = [CHR 0x7B, CHR 0x22] @ ''ok'' @ [CHR 0x22] @ '':true'' @ [CHR 0x7D]"

definition empty_object :: string where
  "empty_object = [CHR 0x7B, CHR 0x7D]"

definition longfred_handle :: "'j json_lib \<Rightarrow> 'j json_mut \<Rightarrow> 'j longfred_fake fake_handler" where
  "longfred_handle J M q s =
     (let path = hd (split_char (CHR ''?'') (fq_path q)); m = fq_method q in
      if m = ''GET'' \<and> path = ''/api/v1/settings'' then
        (ok_json (case js_to_vec J (lf_settings s) of Inl _ \<Rightarrow> [] | Inr b \<Rightarrow> b), s)
      else if m = ''PUT'' \<and> path = ''/api/v1/settings'' then
        (case js_from_slice J (case fq_body q of None \<Rightarrow> empty_object | Some b \<Rightarrow> b) of
           Inr body \<Rightarrow> (ok_json empty_object, s\<lparr>lf_settings := apply_put J M body (lf_settings s)\<rparr>)
         | Inl _ \<Rightarrow> (bad_json, s))
      else if m = ''POST'' \<and> path = ''/api/v1/programming-mode/off'' then
        (ok_text ''ok'',
         s\<lparr>lf_programming_mode := False,
           lf_settings := (if jm_is_object M (lf_settings s)
              then jm_put M ''programming_mode'' (js_bool J False) (lf_settings s) else lf_settings s)\<rparr>)
      else if m = ''POST'' \<and> path = ''/api/v1/firmware'' then
        ((case fq_body q of
            None \<Rightarrow> bad_image
          | Some b \<Rightarrow> if b = [] then bad_image else ok_json ok_true), s)
      else (not_found, s))"

interpretation lf: fake_device "longfred_handle J M" for J M
  by unfold_locales (auto simp: longfred_handle_def ok_text_def ok_json_def not_found_def bad_json_def bad_image_def Let_def
      split: if_splits sum.splits option.splits)

end
