(* ===== verification/Wp_LongfredProgram.thy ===== *)
theory Wp_LongfredProgram
  imports Wp_FakeLongfred Wp_FakeHttp
begin

text \<open>
  The LongFred driver against the LongFred mock: the settings document that is put, merged by the mock
  and read back. What the proofs need of the JSON library are the laws of its objects and arrays,
  and that the two documents on the wire are parsed to what was printed.
\<close>

section \<open>The laws of the library\<close>

text \<open>A pointer of two plain names reads a field of a field; where the first name leads to something that
  is no object (an array, into which a pointer can index) nothing is said.\<close>

definition plain_name :: "string \<Rightarrow> bool" where
  "plain_name a \<longleftrightarrow> CHR ''/'' \<notin> set a \<and> CHR ''~'' \<notin> set a"

definition pointer_law :: "'j json_lib \<Rightarrow> 'j json_mut \<Rightarrow> bool" where
  "pointer_law J M \<longleftrightarrow>
     (\<forall>a b v. plain_name a \<and> plain_name b \<and> jm_is_object M v \<longrightarrow>
        (case js_get J a v of
           None \<Rightarrow> js_pointer J (CHR ''/'' # a @ CHR ''/'' # b) v = None
         | Some o' \<Rightarrow> jm_is_object M o' \<longrightarrow> js_pointer J (CHR ''/'' # a @ CHR ''/'' # b) v = js_get J b o'))"

definition json_laws :: "'j json_lib \<Rightarrow> 'j json_mut \<Rightarrow> bool" where
  "json_laws J M \<longleftrightarrow>
     (\<forall>s. js_as_str J (js_str J s) = Some s)
   \<and> (\<forall>xs. js_as_array J (js_arr J xs) = Some xs)
   \<and> (\<forall>kvs. jm_is_object M (js_obj J kvs))
   \<and> (\<forall>k x v. jm_is_object M v \<longrightarrow> jm_is_object M (jm_put M k x v))
   \<and> (\<forall>k kvs. distinct (map fst kvs) \<longrightarrow> js_get J k (js_obj J kvs) = map_of kvs k)
   \<and> (\<forall>k k' x v. jm_is_object M v \<longrightarrow> js_get J k' (jm_put M k x v) = (if k' = k then Some x else js_get J k' v))
   \<and> pointer_law J M"

definition json_parses :: "'j json_lib \<Rightarrow> 'j \<Rightarrow> bool" where
  "json_parses J v \<longleftrightarrow>
     (case js_to_vec J v of Inl _ \<Rightarrow> False | Inr b \<Rightarrow> b \<noteq> [] \<and> js_from_slice J b = Inr v)"

lemma json_lawsD:
  assumes "json_laws J M"
  shows "js_as_str J (js_str J s) = Some s" "js_as_array J (js_arr J xs) = Some xs"
    "jm_is_object M (js_obj J kvs)" "jm_is_object M v \<Longrightarrow> jm_is_object M (jm_put M k x v)"
    "distinct (map fst kvs) \<Longrightarrow> js_get J k (js_obj J kvs) = map_of kvs k"
    "jm_is_object M v \<Longrightarrow> js_get J k' (jm_put M k x v) = (if k' = k then Some x else js_get J k' v)"
    "pointer_law J M"
  using assms unfolding json_laws_def by blast+

lemma pointer_lawD:
  assumes "pointer_law J M" "plain_name a" "plain_name b" "jm_is_object M v"
  shows "js_get J a v = None \<Longrightarrow> js_pointer J (CHR ''/'' # a @ CHR ''/'' # b) v = None"
    and "js_get J a v = Some o' \<Longrightarrow> jm_is_object M o' \<Longrightarrow> js_pointer J (CHR ''/'' # a @ CHR ''/'' # b) v = js_get J b o'"
proof -
  have "case js_get J a v of
      None \<Rightarrow> js_pointer J (CHR ''/'' # a @ CHR ''/'' # b) v = None
    | Some o' \<Rightarrow> jm_is_object M o' \<longrightarrow> js_pointer J (CHR ''/'' # a @ CHR ''/'' # b) v = js_get J b o'"
    using assms unfolding pointer_law_def by blast
  then show "js_get J a v = None \<Longrightarrow> js_pointer J (CHR ''/'' # a @ CHR ''/'' # b) v = None"
    and "js_get J a v = Some o' \<Longrightarrow> jm_is_object M o' \<Longrightarrow> js_pointer J (CHR ''/'' # a @ CHR ''/'' # b) v = js_get J b o'"
    by simp_all
qed

section \<open>Fields of the settings\<close>

definition fld :: "'j json_lib \<Rightarrow> string \<Rightarrow> string \<Rightarrow> 'j \<Rightarrow> 'j option" where
  "fld J a b doc = Option.bind (js_get J a doc) (js_get J b)"

definition settings_shape :: "'j json_lib \<Rightarrow> 'j json_mut \<Rightarrow> 'j \<Rightarrow> bool" where
  "settings_shape J M doc \<longleftrightarrow>
     jm_is_object M doc \<and> list_all (\<lambda>a. \<exists>o'. js_get J a doc = Some o' \<and> jm_is_object M o') [''wifi'', ''roster'', ''bigfred'']"

lemma insert_at_fld:
  assumes L: "json_laws J M" and "settings_shape J M doc" and "a \<in> {''wifi'', ''roster'', ''bigfred''}"
  shows "settings_shape J M (insert_at J M a k x doc)"
    and "fld J a' b' (insert_at J M a k x doc) = (if a' = a \<and> b' = k then Some x else fld J a' b' doc)"
proof -
  obtain o' where o': "js_get J a doc = Some o'" "jm_is_object M o'" and doc: "jm_is_object M doc"
    using assms(2,3) by (auto simp: settings_shape_def)
  then have eq: "insert_at J M a k x doc = jm_put M a (jm_put M k x o') doc" by (simp add: insert_at_def)
  show "settings_shape J M (insert_at J M a k x doc)"
    using assms(2) doc o' unfolding eq settings_shape_def by (auto simp: json_lawsD [OF L])
  show "fld J a' b' (insert_at J M a k x doc) = (if a' = a \<and> b' = k then Some x else fld J a' b' doc)"
    using doc o' unfolding eq fld_def by (auto simp: json_lawsD [OF L])
qed

lemma push_fld:
  assumes L: "json_laws J M" and "settings_shape J M doc" and "a \<in> {''wifi'', ''roster'', ''bigfred''}"
    and "fld J a b doc = Some (js_arr J [])"
  shows "settings_shape J M (push_unless J M P a b x doc)"
    and "fld J a' b' (push_unless J M P a b x doc) = (if a' = a \<and> b' = b then Some (js_arr J [x]) else fld J a' b' doc)"
proof -
  obtain o' where o': "js_get J a doc = Some o'" "jm_is_object M o'" and doc: "jm_is_object M doc"
    using assms(2,3) by (auto simp: settings_shape_def)
  then have eq: "push_unless J M P a b x doc = jm_put M a (jm_put M b (js_arr J [x]) o') doc"
    using assms(4) by (simp add: push_unless_def fld_def json_lawsD [OF L])
  show "settings_shape J M (push_unless J M P a b x doc)"
    using assms(2) doc o' unfolding eq settings_shape_def by (auto simp: json_lawsD [OF L])
  show "fld J a' b' (push_unless J M P a b x doc) = (if a' = a \<and> b' = b then Some (js_arr J [x]) else fld J a' b' doc)"
    using doc o' unfolding eq fld_def by (auto simp: json_lawsD [OF L])
qed

lemma new_settings:
  assumes L: "json_laws J M"
  shows "settings_shape J M (lf_settings (longfred_new J))"
    and "fld J ''wifi'' ''networks'' (lf_settings (longfred_new J)) = Some (js_arr J [])"
    and "fld J ''roster'' ''entries'' (lf_settings (longfred_new J)) = Some (js_arr J [])"
  by (simp_all add: settings_shape_def longfred_new_def fld_def json_lawsD [OF L])

section \<open>The document that is put\<close>

definition put_fields :: "'j json_lib \<Rightarrow> program_request \<Rightarrow> (string \<times> 'j) list" where
  "put_fields J req =
     [(''wifi'', js_obj J
        ([(''ssid'', js_str J (wc_ssid (pq_wifi req)))]
         @ (case wc_psk (pq_wifi req) of None \<Rightarrow> [] | Some psk \<Rightarrow> [(''password'', js_str J psk)])
         @ (if pq_identity req = [] then [] else [(''hostname'', js_str J (pq_identity req))])))]
   @ (case pq_bigfred req of
        None \<Rightarrow> []
      | Some bf \<Rightarrow> [(''bigfred'', js_obj J [(''login'', js_str J (bf_login bf)), (''pin'', js_str J (bf_pin bf))])])
   @ (case pq_roster_mode req of None \<Rightarrow> [] | Some mode \<Rightarrow> [(''roster_mode'', js_str J mode)])
   @ (if roster_addrs req = [] then []
      else [(''roster'', js_arr J (map (\<lambda>addr. js_obj J [(''addr'', js_str J addr)]) (roster_addrs req)))])"

lemma put_fields: "build_settings_put J req = js_obj J (put_fields J req)"
  by (simp add: build_settings_put_def put_fields_def Let_def)

lemma put_gets:
  assumes L: "json_laws J M" and body: "body = build_settings_put J req"
  shows "\<exists>wifi. js_get J ''wifi'' body = Some wifi
       \<and> Option.bind (js_get J ''ssid'' wifi) (js_as_str J) = Some (wc_ssid (pq_wifi req))
       \<and> Option.bind (js_get J ''hostname'' wifi) (js_as_str J) = (if pq_identity req = [] then None else Some (pq_identity req))"
    and "Option.bind (js_pointer J ''/bigfred/login'' body) (js_as_str J) = map_option bf_login (pq_bigfred req)"
    and "Option.bind (js_get J ''roster_mode'' body) (js_as_str J) = pq_roster_mode req"
    and "Option.bind (js_get J ''roster'' body) (js_as_array J) = (if roster_addrs req = [] then None
           else Some (map (\<lambda>addr. js_obj J [(''addr'', js_str J addr)]) (roster_addrs req)))"
proof -
  have "distinct (map fst (put_fields J req))"
    by (simp add: put_fields_def split: option.split)
  then have get: "js_get J k body = map_of (put_fields J req) k" for k
    unfolding body put_fields by (simp add: json_lawsD [OF L])
  have object: "jm_is_object M body" unfolding body put_fields by (rule json_lawsD(3) [OF L])
  have plain: "plain_name ''bigfred''" "plain_name ''login''" by (simp_all add: plain_name_def)
  show "\<exists>wifi. js_get J ''wifi'' body = Some wifi
       \<and> Option.bind (js_get J ''ssid'' wifi) (js_as_str J) = Some (wc_ssid (pq_wifi req))
       \<and> Option.bind (js_get J ''hostname'' wifi) (js_as_str J) = (if pq_identity req = [] then None else Some (pq_identity req))"
    by (simp add: get put_fields_def json_lawsD [OF L] split: option.split)
  show "Option.bind (js_pointer J ''/bigfred/login'' body) (js_as_str J) = map_option bf_login (pq_bigfred req)"
  proof (cases "pq_bigfred req")
    case None
    then have "js_get J ''bigfred'' body = None" by (simp add: get put_fields_def split: option.split)
    with None pointer_lawD(1) [OF json_lawsD(7) [OF L] plain object] show ?thesis by simp
  next
    case (Some bf)
    then have "js_get J ''bigfred'' body = Some (js_obj J [(''login'', js_str J (bf_login bf)), (''pin'', js_str J (bf_pin bf))])"
      by (simp add: get put_fields_def)
    from pointer_lawD(2) [OF json_lawsD(7) [OF L] plain object this] Some show ?thesis by (simp add: json_lawsD [OF L])
  qed
  show "Option.bind (js_get J ''roster_mode'' body) (js_as_str J) = pq_roster_mode req"
    by (simp add: get put_fields_def json_lawsD [OF L] split: option.split)
  show "Option.bind (js_get J ''roster'' body) (js_as_array J) = (if roster_addrs req = [] then None
           else Some (map (\<lambda>addr. js_obj J [(''addr'', js_str J addr)]) (roster_addrs req)))"
    by (simp add: get put_fields_def json_lawsD [OF L] split: option.split)
qed

section \<open>The settings after the put\<close>

definition put_settings :: "'j json_lib \<Rightarrow> 'j json_mut \<Rightarrow> program_request \<Rightarrow> 'j" where
  "put_settings J M req = apply_put J M (build_settings_put J req) (lf_settings (longfred_new J))"

lemma put_wifi_fld:
  assumes L: "json_laws J M" and S: "settings_shape J M doc" and N: "fld J ''wifi'' ''networks'' doc = Some (js_arr J [])"
    and ssid: "Option.bind (js_get J ''ssid'' wifi) (js_as_str J) = Some s"
    and host: "Option.bind (js_get J ''hostname'' wifi) (js_as_str J) = h"
  shows "settings_shape J M (put_wifi J M wifi doc)"
    and "fld J a b (put_wifi J M wifi doc) =
      (if a = ''wifi'' \<and> b = ''networks'' then Some (js_arr J [js_str J s])
       else if a = ''wifi'' \<and> b = ''hostname'' \<and> h \<noteq> None then Some (js_str J (the h)) else fld J a b doc)"
proof -
  define d where "d = (case h of None \<Rightarrow> doc | Some n \<Rightarrow> insert_at J M ''wifi'' ''hostname'' (js_str J n) doc)"
  have d: "settings_shape J M d" "fld J a b d = (if a = ''wifi'' \<and> b = ''hostname'' \<and> h \<noteq> None then Some (js_str J (the h)) else fld J a b doc)" for a b
    using S by (cases h; simp add: d_def insert_at_fld [OF L S])+
  have dn: "fld J ''wifi'' ''networks'' d = Some (js_arr J [])" using N by (simp add: d(2))
  have eq: "put_wifi J M wifi doc = push_unless J M (\<lambda>n. js_as_str J n = Some s) ''wifi'' ''networks'' (js_str J s) d"
    by (simp add: put_wifi_def ssid host d_def Let_def)
  show "settings_shape J M (put_wifi J M wifi doc)" "fld J a b (put_wifi J M wifi doc) =
      (if a = ''wifi'' \<and> b = ''networks'' then Some (js_arr J [js_str J s])
       else if a = ''wifi'' \<and> b = ''hostname'' \<and> h \<noteq> None then Some (js_str J (the h)) else fld J a b doc)"
    unfolding eq by (simp add: push_fld [OF L d(1) _ dn]) (cases h, simp_all add: push_fld [OF L d(1) _ dn] d(2))
qed

lemma put_settings_fld:
  assumes L: "json_laws J M"
  shows "fld J ''wifi'' ''networks'' (put_settings J M req) = Some (js_arr J [js_str J (wc_ssid (pq_wifi req))])"
    and "pq_identity req \<noteq> [] \<Longrightarrow> fld J ''wifi'' ''hostname'' (put_settings J M req) = Some (js_str J (pq_identity req))"
    and "pq_bigfred req = Some bf \<Longrightarrow> fld J ''bigfred'' ''login'' (put_settings J M req) = Some (js_str J (bf_login bf))"
    and "pq_roster_mode req = Some m \<Longrightarrow> fld J ''roster'' ''mode'' (put_settings J M req) = Some (js_str J m)"
    and "fld J ''roster'' ''entries'' (put_settings J M req)
       = Some (js_arr J (map (\<lambda>addr. js_obj J [(''addr'', js_str J addr)]) (roster_addrs req)))"
    and "settings_shape J M (put_settings J M req)"
proof -
  let ?new = "lf_settings (longfred_new J)"
  obtain wifi where w: "js_get J ''wifi'' (build_settings_put J req) = Some wifi"
    "Option.bind (js_get J ''ssid'' wifi) (js_as_str J) = Some (wc_ssid (pq_wifi req))"
    "Option.bind (js_get J ''hostname'' wifi) (js_as_str J) = (if pq_identity req = [] then None else Some (pq_identity req))"
    using put_gets(1) [OF L refl] by blast
  define d1 where "d1 = put_wifi J M wifi ?new"
  note d1 = put_wifi_fld [OF L new_settings(1,2) [OF L] w(2,3), folded d1_def]
  define d2 where "d2 = (case pq_bigfred req of None \<Rightarrow> d1 | Some bf \<Rightarrow>
      insert_at J M ''bigfred'' ''pin_set'' (js_bool J True) (insert_at J M ''bigfred'' ''login'' (js_str J (bf_login bf)) d1))"
  have d2: "settings_shape J M d2" "fld J a b d2 = (case pq_bigfred req of None \<Rightarrow> fld J a b d1
      | Some bf \<Rightarrow> if a = ''bigfred'' \<and> b = ''pin_set'' then Some (js_bool J True)
          else if a = ''bigfred'' \<and> b = ''login'' then Some (js_str J (bf_login bf)) else fld J a b d1)" for a b
    using d1(1) by (auto simp: d2_def insert_at_fld [OF L] split: option.split)
  define d3 where "d3 = (case pq_roster_mode req of None \<Rightarrow> d2 | Some m \<Rightarrow> insert_at J M ''roster'' ''mode'' (js_str J m) d2)"
  have d3: "settings_shape J M d3" "fld J a b d3 = (case pq_roster_mode req of None \<Rightarrow> fld J a b d2
      | Some m \<Rightarrow> if a = ''roster'' \<and> b = ''mode'' then Some (js_str J m) else fld J a b d2)" for a b
    using d2(1) by (auto simp: d3_def insert_at_fld [OF L] split: option.split)
  define es where "es = map (\<lambda>addr. js_obj J [(''addr'', js_str J addr)]) (roster_addrs req)"
  have eq: "put_settings J M req = (if es = [] then d3 else insert_at J M ''roster'' ''entries'' (js_arr J es) d3)"
    by (auto simp: put_settings_def apply_put_def Let_def w(1) put_gets(2-4) [OF L refl] d1_def [symmetric] d2_def d3_def
        es_def comp_def split: option.split)
  have f: "fld J a b (put_settings J M req)
      = (if es \<noteq> [] \<and> a = ''roster'' \<and> b = ''entries'' then Some (js_arr J es) else fld J a b d3)" for a b
    by (auto simp: eq insert_at_fld [OF L d3(1)])
  show "settings_shape J M (put_settings J M req)" by (simp add: eq d3(1) insert_at_fld(1) [OF L d3(1)])
  show "fld J ''wifi'' ''networks'' (put_settings J M req) = Some (js_arr J [js_str J (wc_ssid (pq_wifi req))])"
    by (simp add: f d3(2) d2(2) d1(2) split: option.split)
  show "pq_identity req \<noteq> [] \<Longrightarrow> fld J ''wifi'' ''hostname'' (put_settings J M req) = Some (js_str J (pq_identity req))"
    by (simp add: f d3(2) d2(2) d1(2) split: option.split)
  show "pq_bigfred req = Some bf \<Longrightarrow> fld J ''bigfred'' ''login'' (put_settings J M req) = Some (js_str J (bf_login bf))"
    by (simp add: f d3(2) d2(2) split: option.split)
  show "pq_roster_mode req = Some m \<Longrightarrow> fld J ''roster'' ''mode'' (put_settings J M req) = Some (js_str J m)"
    by (simp add: f d3(2))
  have "fld J ''roster'' ''entries'' (put_settings J M req) = Some (js_arr J es)"
    using new_settings(3) [OF L] by (simp add: f d3(2) d2(2) d1(2) split: option.split)
  then show "fld J ''roster'' ''entries'' (put_settings J M req)
       = Some (js_arr J (map (\<lambda>addr. js_obj J [(''addr'', js_str J addr)]) (roster_addrs req)))"
    by (simp add: es_def)
qed

lemma pointer_fld:
  assumes L: "json_laws J M" and S: "settings_shape J M v"
  shows "js_pointer J ''/wifi/networks'' v = fld J ''wifi'' ''networks'' v"
    "js_pointer J ''/wifi/hostname'' v = fld J ''wifi'' ''hostname'' v"
    "js_pointer J ''/bigfred/login'' v = fld J ''bigfred'' ''login'' v"
    "js_pointer J ''/roster/mode'' v = fld J ''roster'' ''mode'' v"
    "js_pointer J ''/roster/entries'' v = fld J ''roster'' ''entries'' v"
proof -
  have p: "js_pointer J (CHR ''/'' # a @ CHR ''/'' # b) v = fld J a b v"
    if a: "a \<in> {''wifi'', ''roster'', ''bigfred''}" and b: "plain_name b" for a b
  proof -
    obtain o' where o': "js_get J a v = Some o'" "jm_is_object M o'" and v: "jm_is_object M v"
      using S a by (auto simp: settings_shape_def)
    have "plain_name a" using a by (auto simp: plain_name_def)
    from pointer_lawD(2) [OF json_lawsD(7) [OF L] this b v o'] o' show ?thesis by (simp add: fld_def)
  qed
  show "js_pointer J ''/wifi/networks'' v = fld J ''wifi'' ''networks'' v" using p [of "''wifi''" "''networks''"] by (simp add: plain_name_def)
  show "js_pointer J ''/wifi/hostname'' v = fld J ''wifi'' ''hostname'' v" using p [of "''wifi''" "''hostname''"] by (simp add: plain_name_def)
  show "js_pointer J ''/bigfred/login'' v = fld J ''bigfred'' ''login'' v" using p [of "''bigfred''" "''login''"] by (simp add: plain_name_def)
  show "js_pointer J ''/roster/mode'' v = fld J ''roster'' ''mode'' v" using p [of "''roster''" "''mode''"] by (simp add: plain_name_def)
  show "js_pointer J ''/roster/entries'' v = fld J ''roster'' ''entries'' v" using p [of "''roster''" "''entries''"] by (simp add: plain_name_def)
qed

lemma put_settings_verify:
  assumes L: "json_laws J M" shows "longfred_verify J (put_settings J M req) req = []"
proof -
  let ?v = "put_settings J M req" and ?obj = "\<lambda>addr. js_obj J [(''addr'', js_str J addr)]"
  note f = put_settings_fld [OF L] and p = pointer_fld [OF L put_settings_fld(6) [OF L]]
  have es: "array_at J ''/roster/entries'' ?v = map ?obj (roster_addrs req)"
    by (simp add: array_at_def p f(5) json_lawsD(2) [OF L])
  have "entry_addr J (map ?obj (roster_addrs req)) i = Some (roster_addrs req ! i)" if "i < length (roster_addrs req)" for i
    using that by (simp add: entry_addr_def json_lawsD [OF L])
  then have "map (entry_addr J (array_at J ''/roster/entries'' ?v)) [0..<length (roster_addrs req)] = map Some (roster_addrs req)"
    unfolding es by (intro nth_equalityI) simp_all
  moreover have "array_at J ''/wifi/networks'' ?v = [js_str J (wc_ssid (pq_wifi req))]"
    by (simp add: array_at_def p f(1) json_lawsD(2) [OF L])
  moreover have "pq_identity req = [] \<or> string_at J ''/wifi/hostname'' ?v = pq_identity req"
    using f(2) by (cases "pq_identity req = []") (simp_all add: string_at_def p json_lawsD(1) [OF L])
  moreover have "pred_option (\<lambda>bf. string_at J ''/bigfred/login'' ?v = bf_login bf) (pq_bigfred req)"
    by (cases "pq_bigfred req") (simp_all add: string_at_def p f(3) json_lawsD(1) [OF L])
  moreover have "pred_option (\<lambda>m. string_at J ''/roster/mode'' ?v = m) (pq_roster_mode req)"
    by (cases "pq_roster_mode req") (simp_all add: string_at_def p f(4) json_lawsD(1) [OF L])
  ultimately show ?thesis
    unfolding longfred_verify_iff by (simp add: json_lawsD(1) [OF L])
qed

section \<open>The property\<close>

definition longfred_mock :: "'j json_lib \<Rightarrow> 'j json_mut \<Rightarrow> device" where
  "longfred_mock J M = served_by False (longfred_handle J M) (longfred_new J)"

lemma longfred_requests:
  "b \<noteq> [] \<Longrightarrow> js_from_slice J b = Inr v \<Longrightarrow> longfred_handle J M (received (put_request b)) s
     = (ok_json empty_object, s\<lparr>lf_settings := apply_put J M v (lf_settings s)\<rparr>)"
  "js_to_vec J (lf_settings s) = Inr b \<Longrightarrow> longfred_handle J M (received (http_get SETTINGS_PATH)) s = (ok_json b, s)"
  "longfred_handle J M (received off_request) s = (ok_text ''ok'', s\<lparr>lf_programming_mode := False,
      lf_settings := (if jm_is_object M (lf_settings s)
        then jm_put M ''programming_mode'' (js_bool J False) (lf_settings s) else lf_settings s)\<rparr>)"
  by (simp_all add: longfred_handle_def received_def request_content_def put_request_def http_get_def off_request_def
      SETTINGS_PATH_def PROGRAMMING_MODE_OFF_PATH_def)

text \<open>C36: programming a LongFred mock: with a JSON library whose strings, arrays and objects read back
  as they were made (a pointer is only relied on through objects; into an array it may index), and
  when the two documents on the wire are parsed to what was printed, the driver puts the settings, reads them back and
  finds every verified field as requested, and ends the programming mode of the mock.\<close>

theorem longfred_programs_mock:
  assumes L: "json_laws J M" and put: "json_parses J (build_settings_put J req)"
    and got: "json_parses J (put_settings J M req)"
  shows "\<exists>tr. longfred_program J (T_Http (longfred_mock J M)) req [] = (Inr \<lparr>oc_restarted = True, oc_mismatches = []\<rparr>, tr)
       \<and> \<not> lf_programming_mode (after (longfred_handle J M) (longfred_new J) (requests tr))"
proof -
  obtain b1 where b1: "js_to_vec J (build_settings_put J req) = Inr b1" "b1 \<noteq> []"
      "js_from_slice J b1 = Inr (build_settings_put J req)"
    using put by (auto simp: json_parses_def split: sum.splits)
  obtain b2 where b2: "js_to_vec J (put_settings J M req) = Inr b2" "js_from_slice J b2 = Inr (put_settings J M req)"
    using got by (auto simp: json_parses_def split: sum.splits)
  note handled = longfred_requests(1) [OF b1(2,3)] longfred_requests(3)
  have s1: "lf_settings (after (longfred_handle J M) (longfred_new J) [put_request b1]) = put_settings J M req"
    by (simp add: after_simps handled put_settings_def)
  have d1: "longfred_mock J M tr (put_request b1) = Inr empty_object" for tr
    by (simp add: longfred_mock_def served_by_def handled ok_json_def)
  have d2: "longfred_mock J M tr (http_get SETTINGS_PATH) = Inr b2" if "requests tr = [put_request b1]" for tr
    using longfred_requests(2) [of J _ b2 M] b2(1) s1 that by (simp add: longfred_mock_def served_by_def ok_json_def)
  have d3: "longfred_mock J M tr off_request = Inr ''ok''" for tr
    by (simp add: longfred_mock_def served_by_def handled ok_text_def)
  have v: "longfred_verify J (put_settings J M req) req = []" by (rule put_settings_verify [OF L])
  show ?thesis
    by (simp add: longfred_program_def longfred_readback_def dev_io_defs Let_def b1(1) d1 d2 d3 b2(2) v after_simps handled)
qed

text \<open>A library of JSON values in memory; the texts are names of the two documents.\<close>

fun jv_get :: "string \<Rightarrow> demo_json \<Rightarrow> demo_json option" where
  "jv_get k (DJ_Obj kvs) = map_of kvs k"
| "jv_get k v = None"

fun jv_is_object :: "demo_json \<Rightarrow> bool" where
  "jv_is_object (DJ_Obj kvs) = True"
| "jv_is_object v = False"

fun jv_put :: "string \<Rightarrow> demo_json \<Rightarrow> demo_json \<Rightarrow> demo_json" where
  "jv_put k x (DJ_Obj kvs) = DJ_Obj (AList.update k x kvs)"
| "jv_put k x v = v"

text \<open>A pointer as RFC 6901 has it: names of objects and indices of arrays, with the escapes of slash and tilde.\<close>

fun unescape_token :: "string \<Rightarrow> string" where
  "unescape_token (CHR ''~'' # CHR ''1'' # s) = CHR ''/'' # unescape_token s"
| "unescape_token (CHR ''~'' # CHR ''0'' # s) = CHR ''~'' # unescape_token s"
| "unescape_token (c # s) = c # unescape_token s"
| "unescape_token [] = []"

definition array_index :: "string \<Rightarrow> nat option" where
  "array_index s =
     (if starts_with s ''+'' \<or> (starts_with s ''0'' \<and> length s \<noteq> 1) then None else parse_uint 10 (2 ^ 64) s)"

fun jv_token :: "string \<Rightarrow> demo_json \<Rightarrow> demo_json option" where
  "jv_token t (DJ_Obj kvs) = map_of kvs t"
| "jv_token t (DJ_Arr xs) = (case array_index t of None \<Rightarrow> None | Some i \<Rightarrow> if i < length xs then Some (xs ! i) else None)"
| "jv_token t v = None"

definition jv_pointer :: "string \<Rightarrow> demo_json \<Rightarrow> demo_json option" where
  "jv_pointer p v =
     (if p = [] then Some v
      else if \<not> starts_with p ''/'' then None
      else fold (\<lambda>t r. Option.bind r (jv_token (unescape_token t))) (tl (split_char (CHR ''/'') p)) (Some v))"

definition jv_lib :: "(demo_json \<Rightarrow> string) \<Rightarrow> (string \<Rightarrow> demo_json) \<Rightarrow> demo_json json_lib" where
  "jv_lib pr pa =
     \<lparr>js_str = DJ_Str, js_bool = DJ_Bool, js_num = DJ_Num, js_arr = DJ_Arr, js_obj = DJ_Obj,
      js_to_vec = (\<lambda>v. Inr (pr v)), js_from_slice = (\<lambda>b. Inr (pa b)),
      js_pointer = jv_pointer, js_get = jv_get,
      js_as_array = (\<lambda>v. case v of DJ_Arr xs \<Rightarrow> Some xs | _ \<Rightarrow> None),
      js_as_str = (\<lambda>v. case v of DJ_Str s \<Rightarrow> Some s | _ \<Rightarrow> None)\<rparr>"

definition jv_mut :: "demo_json json_mut" where
  "jv_mut = \<lparr>jm_is_object = jv_is_object, jm_put = jv_put\<rparr>"

lemma jv_put_get: "jv_is_object v \<Longrightarrow> jv_get k' (jv_put k x v) = (if k' = k then Some x else jv_get k' v)"
  by (cases v) (simp_all add: update_conv')

lemma jv_put_object: "jv_is_object (jv_put k x v) = jv_is_object v"
  by (cases v) simp_all

lemma unescape_plain: "CHR ''~'' \<notin> set t \<Longrightarrow> unescape_token t = t"
  by (induction t rule: unescape_token.induct) auto

lemma jv_token_object: "jv_is_object v \<Longrightarrow> jv_token t v = jv_get t v"
  by (cases v) simp_all

lemma jv_pointer_plain:
  assumes "plain_name a" "plain_name b"
  shows "jv_pointer (CHR ''/'' # a @ CHR ''/'' # b) v = Option.bind (jv_token a v) (jv_token b)"
proof -
  have "split_char (CHR ''/'') (CHR ''/'' # a @ CHR ''/'' # b) = [[], a, b]"
    using assms by (simp add: plain_name_def split_char_append split_char_clean)
  with assms show ?thesis by (simp add: jv_pointer_def plain_name_def unescape_plain)
qed

lemma jv_laws: "json_laws (jv_lib pr pa) jv_mut"
proof -
  have "pointer_law (jv_lib pr pa) jv_mut"
    by (auto simp: pointer_law_def jv_lib_def jv_mut_def jv_pointer_plain jv_token_object split: option.split)
  then show ?thesis
    unfolding json_laws_def by (simp add: jv_lib_def jv_mut_def jv_put_get jv_put_object)
qed

definition demo_put :: demo_json where
  "demo_put = build_settings_put (jv_lib (\<lambda>v. []) DJ_Str) demo_settings_request"

definition demo_settings :: demo_json where
  "demo_settings = put_settings (jv_lib (\<lambda>v. []) DJ_Str) jv_mut demo_settings_request"

definition demo_docs :: "demo_json json_lib" where
  "demo_docs = jv_lib (\<lambda>v. if v = demo_put then ''put'' else ''settings'')
     (\<lambda>b. if b = ''put'' then demo_put else demo_settings)"

lemma jv_lib_simps:
  "js_str (jv_lib pr pa) = DJ_Str" "js_bool (jv_lib pr pa) = DJ_Bool" "js_arr (jv_lib pr pa) = DJ_Arr"
  "js_obj (jv_lib pr pa) = DJ_Obj" "js_get (jv_lib pr pa) = jv_get"
  "js_to_vec (jv_lib pr pa) v = Inr (pr v)" "js_from_slice (jv_lib pr pa) b = Inr (pa b)"
  by (simp_all add: jv_lib_def)

text \<open>The texts do not matter to the documents.\<close>

lemma jv_lib_same:
  "js_as_array (jv_lib pr pa) = js_as_array (jv_lib pr' pa')" "js_as_str (jv_lib pr pa) = js_as_str (jv_lib pr' pa')"
  "js_pointer (jv_lib pr pa) = js_pointer (jv_lib pr' pa')"
  by (simp_all add: jv_lib_def)

lemma jv_ops_same:
  "build_settings_put (jv_lib pr pa) = build_settings_put (jv_lib pr' pa')"
  "insert_at (jv_lib pr pa) = insert_at (jv_lib pr' pa')" "push_unless (jv_lib pr pa) = push_unless (jv_lib pr' pa')"
  "longfred_new (jv_lib pr pa) = longfred_new (jv_lib pr' pa')"
  unfolding fun_eq_iff build_settings_put_def insert_at_def push_unless_def longfred_new_def jv_lib_simps
    jv_lib_same [of pr pa pr' pa'] by simp_all

lemma jv_put_same: "put_settings (jv_lib pr pa) = put_settings (jv_lib pr' pa')"
  unfolding fun_eq_iff put_settings_def apply_put_def put_wifi_def jv_lib_simps
    jv_lib_same [of pr pa pr' pa'] jv_ops_same [of pr pa pr' pa'] by simp

lemma demo_docs_values:
  "build_settings_put demo_docs demo_settings_request = demo_put"
  "put_settings demo_docs jv_mut demo_settings_request = demo_settings"
  unfolding demo_put_def demo_settings_def demo_docs_def
  by (rule fun_cong [OF jv_ops_same(1)], rule fun_cong [OF fun_cong [OF jv_put_same]])

lemma demo_docs_differ: "demo_settings \<noteq> demo_put"
proof -
  have "fld (jv_lib (\<lambda>v. []) DJ_Str) ''wifi'' ''networks'' demo_settings \<noteq> None"
    unfolding demo_settings_def by (simp add: put_settings_fld(1) [OF jv_laws])
  moreover have "fld (jv_lib (\<lambda>v. []) DJ_Str) ''wifi'' ''networks'' demo_put = None"
    by (simp add: demo_put_def put_fields put_fields_def fld_def jv_lib_simps demo_settings_request_def)
  ultimately show ?thesis by auto
qed

lemma demo_docs_parse: "json_parses demo_docs demo_put" "json_parses demo_docs demo_settings"
  using demo_docs_differ by (simp_all add: json_parses_def demo_docs_def jv_lib_simps)

theorem longfred_programs_mock_witness:
  "\<exists>tr. longfred_program demo_docs (T_Http (longfred_mock demo_docs jv_mut)) demo_settings_request []
     = (Inr \<lparr>oc_restarted = True, oc_mismatches = []\<rparr>, tr)"
proof -
  have "json_laws demo_docs jv_mut" unfolding demo_docs_def by (rule jv_laws)
  from longfred_programs_mock [OF this, of demo_settings_request] show ?thesis
    using demo_docs_parse unfolding demo_docs_values by blast
qed

end
