(* ===== verification/Wp_Map.thy ===== *)
theory Wp_Map
  imports Wp_Prelude
begin

text \<open>
  The \<open>HashMap\<close> interface that the job registry and the scan cache are written against,
  as a locale with the lookup laws of the standard library, and its model: an association
  list without duplicate keys. The iteration order of a Rust \<open>HashMap\<close> is not specified;
  here it is the order of the list, and no law of the locale mentions it.
\<close>

section \<open>The interface\<close>

locale hash_map =
  fixes get :: "'m \<Rightarrow> 'k \<Rightarrow> 'v option"
    and insert :: "'k \<Rightarrow> 'v \<Rightarrow> 'm \<Rightarrow> 'm"
    and remove :: "'k \<Rightarrow> 'm \<Rightarrow> 'm"
    and retain :: "('k \<Rightarrow> 'v \<Rightarrow> bool) \<Rightarrow> 'm \<Rightarrow> 'm"
    and len :: "'m \<Rightarrow> nat"
    and ok :: "'m \<Rightarrow> bool"
  assumes get_insert: "get (insert k v m) j = (if j = k then Some v else get m j)"
    and get_remove: "ok m \<Longrightarrow> get (remove k m) j = (if j = k then None else get m j)"
    and get_retain: "ok m \<Longrightarrow>
      get (retain P m) j = (case get m j of None \<Rightarrow> None | Some v \<Rightarrow> if P j v then Some v else None)"
    and ok_insert: "ok m \<Longrightarrow> ok (insert k v m)"
    and ok_remove: "ok m \<Longrightarrow> ok (remove k m)"
    and ok_retain: "ok m \<Longrightarrow> ok (retain P m)"
    and len_dom: "ok m \<Longrightarrow> len m = card {k. get m k \<noteq> None}"
    and finite_dom: "finite {k. get m k \<noteq> None}"
begin

definition insert_all :: "('k \<times> 'v) list \<Rightarrow> 'm \<Rightarrow> 'm" where
  "insert_all kvs m = fold (\<lambda>(k, v). insert k v) kvs m"

definition remove_all :: "'k list \<Rightarrow> 'm \<Rightarrow> 'm" where
  "remove_all ks m = fold remove ks m"

lemma ok_insert_all: "ok m \<Longrightarrow> ok (insert_all kvs m)"
  unfolding insert_all_def by (induction kvs arbitrary: m) (auto intro: ok_insert)

lemma ok_remove_all: "ok m \<Longrightarrow> ok (remove_all ks m)"
  unfolding remove_all_def by (induction ks arbitrary: m) (auto intro: ok_remove)

text \<open>A later insertion under the same key wins.\<close>

lemma get_insert_all:
  "get (insert_all kvs m) j = (case map_of (rev kvs) j of None \<Rightarrow> get m j | Some v \<Rightarrow> Some v)"
proof (induction kvs arbitrary: m)
  case Nil
  then show ?case by (simp add: insert_all_def)
next
  case (Cons kv kvs)
  obtain k v where kv: "kv = (k, v)" by (cases kv)
  have "get (insert_all (kv # kvs) m) j = get (insert_all kvs (insert k v m)) j"
    by (simp add: insert_all_def kv)
  with Cons show ?case
    by (auto simp: kv get_insert map_add_def split: option.splits)
qed

lemma get_remove_all:
  "ok m \<Longrightarrow> get (remove_all ks m) j = (if j \<in> set ks then None else get m j)"
proof (induction ks arbitrary: m)
  case Nil
  then show ?case by (simp add: remove_all_def)
next
  case (Cons k ks)
  have "get (remove_all (k # ks) m) j = get (remove_all ks (remove k m)) j"
    by (simp add: remove_all_def)
  with Cons show ?case by (auto simp: get_remove ok_remove)
qed

lemma len_insert_le: "ok m \<Longrightarrow> len (insert k v m) \<le> Suc (len m)"
proof -
  assume m: "ok m"
  have "{j. get (insert k v m) j \<noteq> None} \<subseteq> Set.insert k {j. get m j \<noteq> None}"
    by (auto simp: get_insert split: if_splits)
  then have "card {j. get (insert k v m) j \<noteq> None} \<le> card (Set.insert k {j. get m j \<noteq> None})"
    using finite_dom [of m] by (intro card_mono) simp_all
  also have "\<dots> \<le> Suc (card {j. get m j \<noteq> None})"
    using finite_dom [of m] by (simp add: card_insert_if)
  finally show ?thesis using m by (simp add: len_dom ok_insert)
qed

lemma len_remove_all:
  assumes m: "ok m" and ks: "distinct ks" "\<forall>k \<in> set ks. get m k \<noteq> None"
  shows "len (remove_all ks m) = len m - length ks"
proof -
  have "{j. get (remove_all ks m) j \<noteq> None} = {j. get m j \<noteq> None} - set ks"
    using m by (auto simp: get_remove_all split: if_splits)
  moreover have "card ({j. get m j \<noteq> None} - set ks) = card {j. get m j \<noteq> None} - card (set ks)"
    using ks(2) by (intro card_Diff_subset) auto
  ultimately show ?thesis
    using m ks(1) by (simp add: len_dom ok_remove_all distinct_card)
qed

end

section \<open>The association-list model\<close>

type_synonym ('k, 'v) hmap = "('k \<times> 'v) list"

definition hm_get :: "('k, 'v) hmap \<Rightarrow> 'k \<Rightarrow> 'v option" where
  "hm_get m k = map_of m k"

definition hm_insert :: "'k \<Rightarrow> 'v \<Rightarrow> ('k, 'v) hmap \<Rightarrow> ('k, 'v) hmap" where
  "hm_insert k v m = AList.update k v m"

definition hm_remove :: "'k \<Rightarrow> ('k, 'v) hmap \<Rightarrow> ('k, 'v) hmap" where
  "hm_remove k m = AList.delete k m"

definition hm_retain :: "('k \<Rightarrow> 'v \<Rightarrow> bool) \<Rightarrow> ('k, 'v) hmap \<Rightarrow> ('k, 'v) hmap" where
  "hm_retain P m = filter (\<lambda>(k, v). P k v) m"

definition hm_len :: "('k, 'v) hmap \<Rightarrow> nat" where
  "hm_len m = length m"

definition hm_ok :: "('k, 'v) hmap \<Rightarrow> bool" where
  "hm_ok m \<longleftrightarrow> distinct (map fst m)"

lemma hm_get_retain:
  "hm_ok m \<Longrightarrow> hm_get (hm_retain P m) j
     = (case hm_get m j of None \<Rightarrow> None | Some v \<Rightarrow> if P j v then Some v else None)"
  unfolding hm_ok_def hm_get_def hm_retain_def
proof (induction m)
  case (Cons kv m)
  then show ?case
    by (cases kv) (auto simp: map_of_eq_None_iff image_iff split: option.splits)
qed simp

lemma hm_ok_retain: "hm_ok m \<Longrightarrow> hm_ok (hm_retain P m)"
  unfolding hm_ok_def hm_retain_def by (simp add: distinct_map_filter)

lemma hm_dom: "{k. hm_get m k \<noteq> None} = fst ` set m"
  by (auto simp: hm_get_def map_of_eq_None_iff)

interpretation hm: hash_map hm_get hm_insert hm_remove hm_retain hm_len hm_ok
proof
  fix m :: "('a, 'b) hmap" and k j :: 'a and v :: 'b and P
  show "hm_get (hm_insert k v m) j = (if j = k then Some v else hm_get m j)"
    by (simp add: hm_get_def hm_insert_def update_conv')
  show "hm_get (hm_remove k m) j = (if j = k then None else hm_get m j)" if "hm_ok m"
    by (simp add: hm_get_def hm_remove_def delete_conv')
  show "hm_get (hm_retain P m) j
      = (case hm_get m j of None \<Rightarrow> None | Some v \<Rightarrow> if P j v then Some v else None)" if "hm_ok m"
    using that by (rule hm_get_retain)
  show "hm_ok (hm_insert k v m)" if "hm_ok m"
    using that by (simp add: hm_ok_def hm_insert_def distinct_update)
  show "hm_ok (hm_remove k m)" if "hm_ok m"
    using that by (simp add: hm_ok_def hm_remove_def distinct_delete)
  show "hm_ok (hm_retain P m)" if "hm_ok m"
    using that by (rule hm_ok_retain)
  show "hm_len m = card {k. hm_get m k \<noteq> None}" if "hm_ok m"
    using that unfolding hm_dom by (metis distinct_card hm_len_def hm_ok_def length_map list.set_map)
  show "finite {k. hm_get m k \<noteq> None}" unfolding hm_dom by simp
qed

lemma hm_get_Some_in: "hm_get m k = Some v \<Longrightarrow> (k, v) \<in> set m"
  unfolding hm_get_def by (rule map_of_SomeD)

lemma hm_in_get: "hm_ok m \<Longrightarrow> (k, v) \<in> set m \<Longrightarrow> hm_get m k = Some v"
  by (simp add: hm_ok_def hm_get_def)

lemma hm_get_Nil [simp]: "hm_get [] k = None"
  by (simp add: hm_get_def)

lemma hm_ok_Nil [simp]: "hm_ok []"
  by (simp add: hm_ok_def)

lemmas hm_laws = hm.get_insert hm.get_remove hm.get_retain hm.ok_insert hm.ok_remove hm.ok_retain

end
