(* ===== verification/Wp_Jobs.thy ===== *)
theory Wp_Jobs
  imports Wp_Core Wp_Map
begin

text \<open>
  \<open>crates/wireless-programmer/src/jobs.rs\<close>: the job registry. One job at a time holds the
  radio slot (\<open>rg_active\<close>), every job keeps its snapshot and the frames a watcher drains,
  and at most \<open>MAX_JOB_HISTORY\<close> finished jobs are remembered. The locale \<open>job_slot\<close> is the
  contract the worker relies on while clients submit and cancel beside it; it is interpreted
  on the registry. \<open>reg_ok\<close> is the registry invariant.

  \<open>Instant\<close> is \<open>nat\<close>, handed to \<open>jobs_submit\<close> by its caller; the sequence number is
  \<open>nat\<close>, so the overflow of the 64-bit counter after \<open>2 ^ 64\<close> submissions is not modelled.
\<close>

section \<open>Data\<close>

definition MAX_JOB_HISTORY :: nat where
  "MAX_JOB_HISTORY = 32"

definition WATCH_HEARTBEAT_SECS :: nat where
  "WATCH_HEARTBEAT_SECS = 3"

definition FIRMWARE_DEADLINE_SECS :: nat where
  "FIRMWARE_DEADLINE_SECS = 120"

datatype job_state =
  JS_Queued | JS_Joining | JS_Probing | JS_Writing | JS_Verifying | JS_Restarting
| JS_Done | JS_Failed | JS_Cancelled

fun js_is_terminal :: "job_state \<Rightarrow> bool" where
  "js_is_terminal JS_Done = True"
| "js_is_terminal JS_Failed = True"
| "js_is_terminal JS_Cancelled = True"
| "js_is_terminal _ = False"

record job_snapshot =
  jsn_id :: string
  jsn_state :: job_state
  jsn_driver :: string
  jsn_key :: string
  jsn_detail :: "string option"
  jsn_created_at :: nat

record job_frame =
  jfr_id :: string
  jfr_state :: job_state
  jfr_step :: "string option"
  jfr_progress :: "u8 option"
  jfr_detail :: "string option"

datatype job_error =
  JE_Busy string
| JE_NotFound
| JE_UnknownDriver
| JE_Validation validation_error
| JE_Driver driver_error
| JE_FirmwareUnsupported

fun job_error_text :: "job_error \<Rightarrow> string" where
  "job_error_text (JE_Busy j) = ''radio busy with job '' @ j"
| "job_error_text JE_NotFound = ''no such job''"
| "job_error_text JE_UnknownDriver = ''unknown driver''"
| "job_error_text (JE_Validation v) = ''validation: '' @ validation_error_text v"
| "job_error_text (JE_Driver d) = ''driver: '' @ driver_error_text d"
| "job_error_text JE_FirmwareUnsupported = ''firmware update is not supported''"

record firmware_job =
  fj_mode :: reach_mode
  fj_path :: string
  fj_host :: "string option"
  fj_port :: "string option"
  fj_partition_table :: "string option"

datatype job_payload = JP_Program program_request_wire | JP_Firmware firmware_job

record job_record =
  jr_snapshot :: job_snapshot
  jr_frames :: "job_frame list"
  jr_cancel :: bool
  jr_payload :: "job_payload option"

record job_registry =
  rg_active :: "string option"
  rg_jobs :: "(string, job_record) hmap"
  rg_seq :: nat

section \<open>Operations\<close>

definition jobs_new :: job_registry where
  "jobs_new = \<lparr>rg_active = None, rg_jobs = [], rg_seq = 0\<rparr>"

definition job_name :: "nat \<Rightarrow> string" where
  "job_name n = ''job-'' @ show_nat n"

definition jobs_submit ::
    "nat \<Rightarrow> string \<Rightarrow> string \<Rightarrow> job_payload option \<Rightarrow> job_registry
       \<Rightarrow> (job_error + string) \<times> job_registry" where
  "jobs_submit now driver key payload reg =
     (case rg_active reg of
        Some active \<Rightarrow> (Inl (JE_Busy active), reg)
      | None \<Rightarrow>
          let seq = rg_seq reg + 1;
              jid = job_name seq;
              rec = \<lparr>jr_snapshot = \<lparr>jsn_id = jid, jsn_state = JS_Queued, jsn_driver = driver,
                                    jsn_key = key, jsn_detail = None, jsn_created_at = now\<rparr>,
                     jr_frames = [], jr_cancel = False, jr_payload = payload\<rparr>
          in (Inr jid, reg\<lparr>rg_active := Some jid, rg_jobs := hm_insert jid rec (rg_jobs reg),
                         rg_seq := seq\<rparr>))"

definition jobs_start :: "nat \<Rightarrow> string \<Rightarrow> string \<Rightarrow> job_registry \<Rightarrow> (job_error + string) \<times> job_registry" where
  "jobs_start now driver key reg = jobs_submit now driver key None reg"

definition jobs_take_payload :: "string \<Rightarrow> job_registry \<Rightarrow> job_payload option \<times> job_registry" where
  "jobs_take_payload jid reg =
     (case hm_get (rg_jobs reg) jid of
        None \<Rightarrow> (None, reg)
      | Some rec \<Rightarrow>
          (jr_payload rec, reg\<lparr>rg_jobs := hm_insert jid (rec\<lparr>jr_payload := None\<rparr>) (rg_jobs reg)\<rparr>))"

definition jobs_take_request :: "string \<Rightarrow> job_registry \<Rightarrow> program_request_wire option \<times> job_registry" where
  "jobs_take_request jid reg =
     (case jobs_take_payload jid reg of
        (Some (JP_Program w), reg') \<Rightarrow> (Some w, reg')
      | (_, reg') \<Rightarrow> (None, reg'))"

definition jobs_is_busy :: "job_registry \<Rightarrow> bool" where
  "jobs_is_busy reg \<longleftrightarrow> rg_active reg \<noteq> None"

text \<open>The finished jobs that may be forgotten, oldest first (a stable sort by creation time).\<close>

definition evict_order :: "job_registry \<Rightarrow> string list" where
  "evict_order reg =
     map fst
       (sort_key snd
         (map (\<lambda>(jid, rec). (jid, jsn_created_at (jr_snapshot rec)))
           (filter (\<lambda>(jid, rec). js_is_terminal (jsn_state (jr_snapshot rec)) \<and> rg_active reg \<noteq> Some jid)
             (rg_jobs reg))))"

definition evict_old_jobs :: "job_registry \<Rightarrow> job_registry" where
  "evict_old_jobs reg =
     (let over = hm_len (rg_jobs reg) - MAX_JOB_HISTORY
      in if over = 0 then reg
         else reg\<lparr>rg_jobs := hm.remove_all (take over (evict_order reg)) (rg_jobs reg)\<rparr>)"

definition push_frame ::
    "string \<Rightarrow> job_state \<Rightarrow> string option \<Rightarrow> u8 option \<Rightarrow> string option \<Rightarrow> job_record \<Rightarrow> job_record" where
  "push_frame jid st step progress detail rec =
     (let snap = (jr_snapshot rec)\<lparr>jsn_state := st\<rparr>;
          snap' = (case detail of None \<Rightarrow> snap | Some d \<Rightarrow> snap\<lparr>jsn_detail := Some d\<rparr>)
      in rec\<lparr>jr_snapshot := snap',
             jr_frames := jr_frames rec @
               [\<lparr>jfr_id = jid, jfr_state = st, jfr_step = step, jfr_progress = progress,
                 jfr_detail = detail\<rparr>]\<rparr>)"

definition jobs_transition ::
    "string \<Rightarrow> job_state \<Rightarrow> string option \<Rightarrow> u8 option \<Rightarrow> string option \<Rightarrow> job_registry \<Rightarrow> job_registry" where
  "jobs_transition jid st step progress detail reg =
     (case hm_get (rg_jobs reg) jid of
        None \<Rightarrow> reg
      | Some rec \<Rightarrow>
          let reg1 = reg\<lparr>rg_jobs := hm_insert jid (push_frame jid st step progress detail rec) (rg_jobs reg)\<rparr>
          in if js_is_terminal st then evict_old_jobs (reg1\<lparr>rg_active := None\<rparr>) else reg1)"

definition jobs_cancel :: "string \<Rightarrow> job_registry \<Rightarrow> job_registry" where
  "jobs_cancel jid reg =
     (case hm_get (rg_jobs reg) jid of
        None \<Rightarrow> reg
      | Some rec \<Rightarrow>
          let rec' =
            (if js_is_terminal (jsn_state (jr_snapshot rec)) then rec\<lparr>jr_cancel := True\<rparr>
             else push_frame jid (jsn_state (jr_snapshot rec)) None None (Some ''cancel requested'')
                    (rec\<lparr>jr_cancel := True\<rparr>))
          in reg\<lparr>rg_jobs := hm_insert jid rec' (rg_jobs reg)\<rparr>)"

definition jobs_is_cancelled :: "string \<Rightarrow> job_registry \<Rightarrow> bool" where
  "jobs_is_cancelled jid reg =
     (case hm_get (rg_jobs reg) jid of None \<Rightarrow> False | Some rec \<Rightarrow> jr_cancel rec)"

definition jobs_snapshot :: "string \<Rightarrow> job_registry \<Rightarrow> job_snapshot option" where
  "jobs_snapshot jid reg = map_option jr_snapshot (hm_get (rg_jobs reg) jid)"

definition jobs_frames_since :: "string \<Rightarrow> nat \<Rightarrow> job_registry \<Rightarrow> job_frame list option" where
  "jobs_frames_since jid since reg =
     map_option (\<lambda>rec. drop since (jr_frames rec)) (hm_get (rg_jobs reg) jid)"

definition jobs_frame_count :: "string \<Rightarrow> job_registry \<Rightarrow> nat" where
  "jobs_frame_count jid reg =
     (case hm_get (rg_jobs reg) jid of None \<Rightarrow> 0 | Some rec \<Rightarrow> length (jr_frames rec))"

section \<open>The invariant\<close>

text \<open>
  \<open>record_ok\<close>: a record is stored under its own id, its snapshot has the state of its last
  frame, and a terminal frame can only be the last one. \<open>reg_ok\<close>: exactly the non-terminal
  job holds the slot, ids were handed out by the counter, and the history is bounded.
\<close>

definition record_ok :: "string \<Rightarrow> job_record \<Rightarrow> bool" where
  "record_ok jid rec \<longleftrightarrow>
     jsn_id (jr_snapshot rec) = jid
   \<and> (jr_frames rec = [] \<longrightarrow> jsn_state (jr_snapshot rec) = JS_Queued)
   \<and> (jr_frames rec \<noteq> [] \<longrightarrow> jfr_state (last (jr_frames rec)) = jsn_state (jr_snapshot rec))
   \<and> list_all (\<lambda>f. \<not> js_is_terminal (jfr_state f)) (butlast (jr_frames rec))
   \<and> list_all (\<lambda>f. jfr_id f = jid) (jr_frames rec)"

definition reg_ok :: "job_registry \<Rightarrow> bool" where
  "reg_ok reg \<longleftrightarrow>
     hm_ok (rg_jobs reg)
   \<and> (\<forall>jid rec. hm_get (rg_jobs reg) jid = Some rec \<longrightarrow>
        record_ok jid rec
      \<and> (\<exists>n. 1 \<le> n \<and> n \<le> rg_seq reg \<and> jid = job_name n)
      \<and> (js_is_terminal (jsn_state (jr_snapshot rec)) \<longleftrightarrow> rg_active reg \<noteq> Some jid))
   \<and> (\<forall>jid. rg_active reg = Some jid \<longrightarrow> hm_get (rg_jobs reg) jid \<noteq> None)
   \<and> hm_len (rg_jobs reg) \<le> MAX_JOB_HISTORY + (if rg_active reg = None then 0 else 1)"

lemma job_name_inj: "job_name m = job_name n \<longleftrightarrow> m = n"
  by (auto simp: job_name_def dest: show_nat_inj)

lemma reg_okD:
  assumes "reg_ok reg"
  shows "hm_ok (rg_jobs reg)"
    and "hm_get (rg_jobs reg) jid = Some rec \<Longrightarrow> record_ok jid rec"
    and "hm_get (rg_jobs reg) jid = Some rec \<Longrightarrow> \<exists>n. 1 \<le> n \<and> n \<le> rg_seq reg \<and> jid = job_name n"
    and "hm_get (rg_jobs reg) jid = Some rec \<Longrightarrow>
          js_is_terminal (jsn_state (jr_snapshot rec)) \<longleftrightarrow> rg_active reg \<noteq> Some jid"
    and "rg_active reg = Some jid \<Longrightarrow> \<exists>rec. hm_get (rg_jobs reg) jid = Some rec"
    and "hm_len (rg_jobs reg) \<le> MAX_JOB_HISTORY + (if rg_active reg = None then 0 else 1)"
  using assms unfolding reg_ok_def by (blast, blast, blast, blast, blast, blast)

lemma push_frame_simps [simp]:
  "jsn_state (jr_snapshot (push_frame jid st stp pr dt rec)) = st"
  "jsn_id (jr_snapshot (push_frame jid st stp pr dt rec)) = jsn_id (jr_snapshot rec)"
  "jsn_created_at (jr_snapshot (push_frame jid st stp pr dt rec)) = jsn_created_at (jr_snapshot rec)"
  "jsn_driver (jr_snapshot (push_frame jid st stp pr dt rec)) = jsn_driver (jr_snapshot rec)"
  "jsn_key (jr_snapshot (push_frame jid st stp pr dt rec)) = jsn_key (jr_snapshot rec)"
  "jr_cancel (push_frame jid st stp pr dt rec) = jr_cancel rec"
  "jr_payload (push_frame jid st stp pr dt rec) = jr_payload rec"
  by (simp_all add: push_frame_def Let_def split: option.splits)

lemma push_frame_frames:
  "jr_frames (push_frame jid st stp pr dt rec) =
     jr_frames rec @ [\<lparr>jfr_id = jid, jfr_state = st, jfr_step = stp, jfr_progress = pr, jfr_detail = dt\<rparr>]"
  by (simp add: push_frame_def Let_def)

text \<open>A frame pushed on a record that is not finished keeps the record well formed.\<close>

lemma record_ok_push:
  assumes ok: "record_ok jid rec" and live: "\<not> js_is_terminal (jsn_state (jr_snapshot rec))"
  shows "record_ok jid (push_frame jid st stp pr dt rec)"
proof -
  have "list_all (\<lambda>f. \<not> js_is_terminal (jfr_state f)) (jr_frames rec)"
  proof (cases "jr_frames rec = []")
    case False
    with ok live have "list_all (\<lambda>f. \<not> js_is_terminal (jfr_state f))
        (butlast (jr_frames rec) @ [last (jr_frames rec)])"
      by (simp add: record_ok_def del: append_butlast_last_id)
    with False show ?thesis by simp
  qed simp
  with ok show ?thesis by (simp add: record_ok_def push_frame_frames)
qed

text \<open>Replacing one record of the registry.\<close>

lemma reg_ok_update:
  assumes ok: "reg_ok reg" and rec: "hm_get (rg_jobs reg) jid = Some rec"
    and new: "record_ok jid rec'"
    and same: "js_is_terminal (jsn_state (jr_snapshot rec')) = js_is_terminal (jsn_state (jr_snapshot rec))"
  shows "reg_ok (reg\<lparr>rg_jobs := hm_insert jid rec' (rg_jobs reg)\<rparr>)"
proof -
  have "{k. hm_get (hm_insert jid rec' (rg_jobs reg)) k \<noteq> None} = {k. hm_get (rg_jobs reg) k \<noteq> None}"
    using rec by (auto simp: hm.get_insert)
  then have "hm_len (hm_insert jid rec' (rg_jobs reg)) = hm_len (rg_jobs reg)"
    using reg_okD(1) [OF ok] by (simp add: hm.len_dom hm.ok_insert)
  moreover have "js_is_terminal (jsn_state (jr_snapshot rec)) \<longleftrightarrow> rg_active reg \<noteq> Some jid"
    using reg_okD(4) [OF ok rec] .
  moreover have "\<exists>n. 1 \<le> n \<and> n \<le> rg_seq reg \<and> jid = job_name n" by (rule reg_okD(3) [OF ok rec])
  ultimately show ?thesis
    using ok new same unfolding reg_ok_def by (auto simp: hm.get_insert hm.ok_insert)
qed

section \<open>Every operation keeps the invariant\<close>

lemma reg_ok_new: "reg_ok jobs_new"
  by (simp add: reg_ok_def jobs_new_def hm_len_def)

lemma reg_ok_submit:
  assumes ok: "reg_ok reg" shows "reg_ok (snd (jobs_submit now d k p reg))"
proof (cases "rg_active reg")
  case (Some a)
  then show ?thesis using ok by (simp add: jobs_submit_def)
next
  case None
  let ?jid = "job_name (rg_seq reg + 1)"
  have fresh: "hm_get (rg_jobs reg) ?jid = None"
    using reg_okD(3) [OF ok, of ?jid] by (cases "hm_get (rg_jobs reg) ?jid") (auto simp: job_name_inj)
  have len: "hm_len (hm_insert ?jid r (rg_jobs reg)) \<le> Suc (hm_len (rg_jobs reg))" for r
    by (rule hm.len_insert_le) (rule reg_okD(1) [OF ok])
  have "hm_len (rg_jobs reg) \<le> MAX_JOB_HISTORY" using reg_okD(6) [OF ok] None by simp
  with ok None fresh len show ?thesis
    unfolding reg_ok_def jobs_submit_def Let_def
    by (auto simp: hm.get_insert hm.ok_insert record_ok_def intro: le_trans)
      (meson le_SucI)
qed

lemma reg_ok_cancel:
  assumes ok: "reg_ok reg" shows "reg_ok (jobs_cancel jid reg)"
proof (cases "hm_get (rg_jobs reg) jid")
  case None
  then show ?thesis using ok by (simp add: jobs_cancel_def)
next
  case (Some rec)
  note r = reg_okD(2) [OF ok Some]
  let ?st = "jsn_state (jr_snapshot rec)"
  have r': "record_ok jid (rec\<lparr>jr_cancel := True\<rparr>)" using r by (simp add: record_ok_def)
  show ?thesis
  proof (cases "js_is_terminal ?st")
    case True
    with r' Some show ?thesis
      by (simp add: jobs_cancel_def) (rule reg_ok_update [OF ok Some], simp_all)
  next
    case False
    have "record_ok jid (push_frame jid ?st None None (Some ''cancel requested'') (rec\<lparr>jr_cancel := True\<rparr>))"
      by (rule record_ok_push [OF r']) (simp add: False)
    then have "reg_ok (reg\<lparr>rg_jobs := hm_insert jid
        (push_frame jid ?st None None (Some ''cancel requested'') (rec\<lparr>jr_cancel := True\<rparr>)) (rg_jobs reg)\<rparr>)"
      by (rule reg_ok_update [OF ok Some]) simp
    with False Some show ?thesis by (simp add: jobs_cancel_def)
  qed
qed

lemma cancel_active [simp]: "rg_active (jobs_cancel jid reg) = rg_active reg"
  by (simp add: jobs_cancel_def Let_def split: option.splits)

lemma reg_ok_take_payload:
  assumes ok: "reg_ok reg" shows "reg_ok (snd (jobs_take_payload jid reg))"
proof (cases "hm_get (rg_jobs reg) jid")
  case None
  then show ?thesis using ok by (simp add: jobs_take_payload_def)
next
  case (Some rec)
  have "record_ok jid (rec\<lparr>jr_payload := None\<rparr>)"
    using reg_okD(2) [OF ok Some] by (simp add: record_ok_def)
  then have "reg_ok (reg\<lparr>rg_jobs := hm_insert jid (rec\<lparr>jr_payload := None\<rparr>) (rg_jobs reg)\<rparr>)"
    by (rule reg_ok_update [OF ok Some]) simp
  with Some show ?thesis by (simp add: jobs_take_payload_def)
qed

lemma take_payload_active [simp]: "rg_active (snd (jobs_take_payload jid reg)) = rg_active reg"
  by (simp add: jobs_take_payload_def split: option.splits)

text \<open>Forgetting old jobs: only finished jobs go, and the bound is restored.\<close>

lemma set_evict_order:
  "set (evict_order reg) = fst ` {(jid, rec) \<in> set (rg_jobs reg).
     js_is_terminal (jsn_state (jr_snapshot rec)) \<and> rg_active reg \<noteq> Some jid}"
  by (force simp: evict_order_def)

lemma distinct_evict_order: "hm_ok (rg_jobs reg) \<Longrightarrow> distinct (evict_order reg)"
proof -
  let ?f = "\<lambda>(jid, rec). (jid, jsn_created_at (jr_snapshot rec))"
  let ?P = "\<lambda>(jid, rec). js_is_terminal (jsn_state (jr_snapshot rec)) \<and> rg_active reg \<noteq> Some jid"
  assume "hm_ok (rg_jobs reg)"
  then have "distinct (map fst (filter ?P (rg_jobs reg)))"
    by (simp add: hm_ok_def distinct_map_filter)
  moreover have "map fst (map ?f xs) = map fst xs" for xs by (induction xs) auto
  ultimately have "distinct (map fst (map ?f (filter ?P (rg_jobs reg))))" by metis
  then have d: "distinct (map fst (map ?f (filter ?P (rg_jobs reg))))" .
  have "distinct (map fst (sort_key snd xs))" if "distinct (map fst xs)" for xs :: "(string \<times> nat) list"
    using that unfolding distinct_map by simp
  from this [OF d] show ?thesis by (simp add: evict_order_def)
qed

lemma evict_get:
  "hm_ok (rg_jobs reg) \<Longrightarrow> hm_get (rg_jobs (evict_old_jobs reg)) jid
     = (if jid \<in> set (take (hm_len (rg_jobs reg) - MAX_JOB_HISTORY) (evict_order reg)) then None
        else hm_get (rg_jobs reg) jid)"
  by (simp add: evict_old_jobs_def Let_def hm.get_remove_all)

lemma evict_simps [simp]:
  "rg_active (evict_old_jobs reg) = rg_active reg" "rg_seq (evict_old_jobs reg) = rg_seq reg"
  by (simp_all add: evict_old_jobs_def Let_def)

lemma evict_len:
  assumes ok: "hm_ok (rg_jobs reg)"
    and many: "hm_len (rg_jobs reg) - MAX_JOB_HISTORY \<le> length (evict_order reg)"
  shows "hm_len (rg_jobs (evict_old_jobs reg)) \<le> MAX_JOB_HISTORY"
proof -
  let ?over = "hm_len (rg_jobs reg) - MAX_JOB_HISTORY"
  have "\<forall>k \<in> set (take ?over (evict_order reg)). hm_get (rg_jobs reg) k \<noteq> None"
  proof
    fix k
    assume "k \<in> set (take ?over (evict_order reg))"
    then have "k \<in> set (evict_order reg)" by (rule in_set_takeD)
    then obtain rec where "(k, rec) \<in> set (rg_jobs reg)" by (auto simp: set_evict_order)
    then show "hm_get (rg_jobs reg) k \<noteq> None" using hm_in_get [OF ok] by auto
  qed
  moreover have "distinct (take ?over (evict_order reg))"
    using distinct_evict_order [OF ok] by simp
  ultimately have "hm_len (hm.remove_all (take ?over (evict_order reg)) (rg_jobs reg))
      = hm_len (rg_jobs reg) - length (take ?over (evict_order reg))"
    by (rule hm.len_remove_all [OF ok, rotated])
  with many show ?thesis by (simp add: evict_old_jobs_def Let_def)
qed

lemma evict_order_all:
  assumes "\<forall>(jid, rec) \<in> set (rg_jobs reg). js_is_terminal (jsn_state (jr_snapshot rec))"
    and "rg_active reg = None"
  shows "length (evict_order reg) = hm_len (rg_jobs reg)"
proof -
  have "filter (\<lambda>(jid, rec). js_is_terminal (jsn_state (jr_snapshot rec)) \<and> rg_active reg \<noteq> Some jid)
      (rg_jobs reg) = rg_jobs reg"
    using assms by (auto intro: filter_True)
  then show ?thesis by (simp add: evict_order_def hm_len_def)
qed

lemma reg_ok_evict:
  assumes h: "hm_ok (rg_jobs reg)" and act: "rg_active reg = None"
    and rec: "\<And>jid rec. hm_get (rg_jobs reg) jid = Some rec \<Longrightarrow>
        record_ok jid rec \<and> (\<exists>n. 1 \<le> n \<and> n \<le> rg_seq reg \<and> jid = job_name n)
        \<and> js_is_terminal (jsn_state (jr_snapshot rec))"
  shows "reg_ok (evict_old_jobs reg)"
proof -
  have "\<forall>(jid, rec) \<in> set (rg_jobs reg). js_is_terminal (jsn_state (jr_snapshot rec))"
    using rec hm_in_get [OF h] by blast
  then have "length (evict_order reg) = hm_len (rg_jobs reg)" using act by (rule evict_order_all)
  then have len: "hm_len (rg_jobs (evict_old_jobs reg)) \<le> MAX_JOB_HISTORY"
    using evict_len [OF h] by simp
  have "hm_ok (rg_jobs (evict_old_jobs reg))"
    using h by (simp add: evict_old_jobs_def Let_def hm.ok_remove_all)
  with len act rec h show ?thesis
    unfolding reg_ok_def by (auto simp: evict_get split: if_splits)
qed

lemma reg_ok_transition:
  assumes ok: "reg_ok reg" and act: "rg_active reg = Some jid"
  shows "reg_ok (jobs_transition jid st stp pr dt reg)"
    and "rg_active (jobs_transition jid st stp pr dt reg) = (if js_is_terminal st then None else Some jid)"
proof -
  obtain rec where rec: "hm_get (rg_jobs reg) jid = Some rec" using reg_okD(5) [OF ok act] by blast
  have live: "\<not> js_is_terminal (jsn_state (jr_snapshot rec))"
    using reg_okD(4) [OF ok rec] act by simp
  let ?rec' = "push_frame jid st stp pr dt rec"
  let ?reg1 = "reg\<lparr>rg_jobs := hm_insert jid ?rec' (rg_jobs reg)\<rparr>"
  have r': "record_ok jid ?rec'" by (rule record_ok_push [OF reg_okD(2) [OF ok rec] live])
  show "rg_active (jobs_transition jid st stp pr dt reg) = (if js_is_terminal st then None else Some jid)"
    using act rec by (simp add: jobs_transition_def)
  show "reg_ok (jobs_transition jid st stp pr dt reg)"
  proof (cases "js_is_terminal st")
    case False
    have "reg_ok ?reg1" by (rule reg_ok_update [OF ok rec r']) (simp add: False live)
    with False rec show ?thesis by (simp add: jobs_transition_def)
  next
    case True
    let ?reg2 = "?reg1\<lparr>rg_active := None\<rparr>"
    have "reg_ok (evict_old_jobs ?reg2)"
    proof (rule reg_ok_evict)
      show "hm_ok (rg_jobs ?reg2)" using reg_okD(1) [OF ok] by (simp add: hm.ok_insert)
      show "rg_active ?reg2 = None" by simp
      fix j r
      assume j: "hm_get (rg_jobs ?reg2) j = Some r"
      show "record_ok j r \<and> (\<exists>n. 1 \<le> n \<and> n \<le> rg_seq ?reg2 \<and> j = job_name n)
          \<and> js_is_terminal (jsn_state (jr_snapshot r))"
      proof (cases "j = jid")
        case True
        with j r' \<open>js_is_terminal st\<close> reg_okD(3) [OF ok rec] show ?thesis by (auto simp: hm.get_insert)
      next
        case False
        with j have "hm_get (rg_jobs reg) j = Some r" by (simp add: hm.get_insert)
        with reg_okD(2,3,4) [OF ok this] act False show ?thesis by auto
      qed
    qed
    with True rec show ?thesis by (simp add: jobs_transition_def)
  qed
qed

lemma transition_unknown: "hm_get (rg_jobs reg) jid = None \<Longrightarrow> jobs_transition jid st stp pr dt reg = reg"
  by (simp add: jobs_transition_def)

section \<open>The slot contract\<close>

text \<open>
  What the worker needs of the registry while it runs a job: whatever clients submit or
  cancel meanwhile, the slot stays with its job until the worker itself moves the job to a
  terminal state.
\<close>

locale job_slot =
  fixes submit :: "'a \<Rightarrow> 'r \<Rightarrow> ('e + 'i) \<times> 'r"
    and cancel :: "'i \<Rightarrow> 'r \<Rightarrow> 'r"
    and transition :: "'i \<Rightarrow> 's \<Rightarrow> 'f \<Rightarrow> 'r \<Rightarrow> 'r"
    and holder :: "'r \<Rightarrow> 'i option"
    and terminal :: "'s \<Rightarrow> bool"
    and inv :: "'r \<Rightarrow> bool"
  assumes submit_busy: "holder r = Some i \<Longrightarrow> (\<exists>e. fst (submit a r) = Inl e) \<and> snd (submit a r) = r"
    and submit_free: "inv r \<Longrightarrow> holder r = None \<Longrightarrow>
      \<exists>i r'. submit a r = (Inr i, r') \<and> holder r' = Some i"
    and inv_submit: "inv r \<Longrightarrow> inv (snd (submit a r))"
    and inv_cancel: "inv r \<Longrightarrow> inv (cancel i r)"
    and holder_cancel: "holder (cancel i r) = holder r"
    and inv_transition: "inv r \<Longrightarrow> holder r = Some i \<Longrightarrow> inv (transition i s f r)"
    and holder_transition: "inv r \<Longrightarrow> holder r = Some i \<Longrightarrow>
      holder (transition i s f r) = (if terminal s then None else Some i)"

datatype ('a, 'i) client_op = CO_Submit 'a | CO_Cancel 'i

context job_slot begin

fun client_step :: "('a, 'i) client_op \<Rightarrow> 'r \<Rightarrow> 'r" where
  "client_step (CO_Submit a) r = snd (submit a r)"
| "client_step (CO_Cancel i) r = cancel i r"

definition client_steps :: "('a, 'i) client_op list \<Rightarrow> 'r \<Rightarrow> 'r" where
  "client_steps ops r = fold client_step ops r"

lemma client_step_held:
  "inv r \<Longrightarrow> holder r = Some i \<Longrightarrow> inv (client_step op r) \<and> holder (client_step op r) = Some i"
  by (cases op) (auto simp: inv_submit inv_cancel holder_cancel submit_busy)

lemma client_steps_held:
  "inv r \<Longrightarrow> holder r = Some i \<Longrightarrow> inv (client_steps ops r) \<and> holder (client_steps ops r) = Some i"
  unfolding client_steps_def
  by (induction ops arbitrary: r) (auto simp: client_step_held)

lemma client_steps_inv: "inv r \<Longrightarrow> inv (client_steps ops r)"
  unfolding client_steps_def
proof (induction ops arbitrary: r)
  case (Cons op ops)
  moreover have "inv (client_step op r)" using Cons.prems by (cases op) (auto simp: inv_submit inv_cancel)
  ultimately show ?case by simp
qed simp

text \<open>A worker that alternates client batches with its own transitions.\<close>

fun worker_run :: "'i \<Rightarrow> (('a, 'i) client_op list \<times> 's \<times> 'f) list \<Rightarrow> 'r \<Rightarrow> 'r" where
  "worker_run i [] r = r"
| "worker_run i ((ops, s, f) # ws) r = worker_run i ws (transition i s f (client_steps ops r))"

lemma worker_run_held:
  assumes "inv r" and "holder r = Some i" and "list_all (\<lambda>(ops, s, f). \<not> terminal s) ws"
  shows "inv (worker_run i ws r) \<and> holder (worker_run i ws r) = Some i"
  using assms
proof (induction i ws r rule: worker_run.induct)
  case (2 i ops s f ws r)
  have held: "inv (client_steps ops r)" "holder (client_steps ops r) = Some i"
    using client_steps_held [OF 2(2,3)] by auto
  with 2(1) 2(4) show ?case by (simp add: inv_transition holder_transition)
qed simp

lemma worker_finishes:
  assumes "inv r" and "holder r = Some i" and "list_all (\<lambda>(ops, s, f). \<not> terminal s) ws"
    and "terminal s"
  shows "inv (worker_run i (ws @ [(ops, s, f)]) r) \<and> holder (worker_run i (ws @ [(ops, s, f)]) r) = None"
proof -
  have app: "worker_run i (xs @ ys) q = worker_run i ys (worker_run i xs q)" for xs ys q
    by (induction i xs q rule: worker_run.induct) auto
  have held: "inv (worker_run i ws r)" "holder (worker_run i ws r) = Some i"
    using worker_run_held [OF assms(1-3)] by auto
  from client_steps_held [OF held] assms(4) show ?thesis
    by (simp add: app inv_transition holder_transition)
qed

end

record submit_args =
  sub_now :: nat
  sub_driver :: string
  sub_key :: string
  sub_payload :: "job_payload option"

record frame_args =
  fa_step :: "string option"
  fa_progress :: "u8 option"
  fa_detail :: "string option"

definition slot_submit :: "submit_args \<Rightarrow> job_registry \<Rightarrow> (job_error + string) \<times> job_registry" where
  "slot_submit a reg = jobs_submit (sub_now a) (sub_driver a) (sub_key a) (sub_payload a) reg"

definition slot_transition :: "string \<Rightarrow> job_state \<Rightarrow> frame_args \<Rightarrow> job_registry \<Rightarrow> job_registry" where
  "slot_transition jid st f reg = jobs_transition jid st (fa_step f) (fa_progress f) (fa_detail f) reg"

interpretation slot: job_slot slot_submit jobs_cancel slot_transition rg_active js_is_terminal reg_ok
proof
  fix r :: job_registry and i :: string and a :: submit_args and s :: job_state and f :: frame_args
  show "(\<exists>e. fst (slot_submit a r) = Inl e) \<and> snd (slot_submit a r) = r" if "rg_active r = Some i"
    using that by (simp add: slot_submit_def jobs_submit_def)
  show "\<exists>i r'. slot_submit a r = (Inr i, r') \<and> rg_active r' = Some i"
    if "reg_ok r" and "rg_active r = None"
    using that by (simp add: slot_submit_def jobs_submit_def Let_def)
  show "reg_ok (snd (slot_submit a r))" if "reg_ok r"
    using that by (simp add: slot_submit_def reg_ok_submit)
  show "reg_ok (jobs_cancel i r)" if "reg_ok r" using that by (rule reg_ok_cancel)
  show "rg_active (jobs_cancel i r) = rg_active r" by simp
  show "reg_ok (slot_transition i s f r)" if "reg_ok r" and "rg_active r = Some i"
    using that by (simp add: slot_transition_def reg_ok_transition(1))
  show "rg_active (slot_transition i s f r) = (if js_is_terminal s then None else Some i)"
    if "reg_ok r" and "rg_active r = Some i"
    using that by (simp add: slot_transition_def reg_ok_transition(2))
qed

section \<open>The registry as a state machine\<close>

text \<open>
  The steps that clients and the worker take. The worker only moves the job that holds the
  slot; \<open>Wp_Runtime\<close> proves it of the jobs it runs.
\<close>

inductive reg_step :: "job_registry \<Rightarrow> job_registry \<Rightarrow> bool" where
  rs_submit: "reg_step r (snd (jobs_submit now d k p r))"
| rs_cancel: "reg_step r (jobs_cancel jid r)"
| rs_take: "reg_step r (snd (jobs_take_payload jid r))"
| rs_transition: "rg_active r = Some jid \<Longrightarrow> reg_step r (jobs_transition jid st stp pr dt r)"

inductive_cases reg_stepE: "reg_step r r'"

inductive reg_reach :: "job_registry \<Rightarrow> bool" where
  rr_new: "reg_reach jobs_new"
| rr_step: "reg_reach r \<Longrightarrow> reg_step r r' \<Longrightarrow> reg_reach r'"

lemma reg_step_ok: "reg_step r r' \<Longrightarrow> reg_ok r \<Longrightarrow> reg_ok r'"
  by (erule reg_stepE)
    (auto simp: reg_ok_submit reg_ok_cancel reg_ok_take_payload reg_ok_transition(1))

lemma reg_reach_ok: "reg_reach r \<Longrightarrow> reg_ok r"
  by (induction rule: reg_reach.induct) (auto simp: reg_ok_new reg_step_ok)

text \<open>Frames are only ever appended while a job is remembered.\<close>

lemma reg_step_frames:
  assumes step: "reg_step r r'" and ok: "reg_ok r" and rec: "hm_get (rg_jobs r) jid = Some rec"
    and rec': "hm_get (rg_jobs r') jid = Some rec'"
  shows "\<exists>fs. jr_frames rec' = jr_frames rec @ fs"
  using step
proof cases
  case (rs_submit now d k p)
  show ?thesis
  proof (cases "rg_active r")
    case None
    have "jid \<noteq> job_name (Suc (rg_seq r))" using reg_okD(3) [OF ok rec] by (auto simp: job_name_inj)
    with rs_submit None rec rec' show ?thesis by (simp add: jobs_submit_def Let_def hm.get_insert)
  next
    case (Some a)
    with rs_submit rec rec' show ?thesis by (simp add: jobs_submit_def)
  qed
next
  case (rs_cancel j)
  with rec rec' show ?thesis
    by (auto simp: jobs_cancel_def Let_def hm.get_insert push_frame_frames split: option.splits if_splits)
next
  case (rs_take j)
  with rec rec' show ?thesis
    by (auto simp: jobs_take_payload_def hm.get_insert split: option.splits if_splits)
next
  case (rs_transition j st stp pr dt)
  have h: "hm_ok (hm_insert j x (rg_jobs r))" for x using reg_okD(1) [OF ok] by (rule hm.ok_insert)
  from rs_transition rec rec' show ?thesis
    by (auto simp: jobs_transition_def Let_def hm.get_insert push_frame_frames evict_get h
        split: option.splits if_splits)
qed

section \<open>Properties\<close>

text \<open>C16: in every reachable registry the slot is held by exactly the non-terminal job, so at
  most one job is unfinished at any time; the holder is always a remembered job; and at most
  32 finished jobs are remembered beside it.\<close>

theorem jobs_single_active:
  assumes "reg_reach reg"
  shows "(\<forall>jid rec. hm_get (rg_jobs reg) jid = Some rec \<longrightarrow>
            (\<not> js_is_terminal (jsn_state (jr_snapshot rec)) \<longleftrightarrow> rg_active reg = Some jid))
       \<and> (\<forall>jid. rg_active reg = Some jid \<longrightarrow> hm_get (rg_jobs reg) jid \<noteq> None)
       \<and> hm_len (rg_jobs reg) \<le> 32 + (if jobs_is_busy reg then 1 else 0)"
proof -
  note ok = reg_reach_ok [OF assms]
  show ?thesis
    using reg_okD(4-6) [OF ok] by (auto simp: MAX_JOB_HISTORY_def jobs_is_busy_def)
qed

definition demo_reg :: job_registry where
  "demo_reg = jobs_transition ''job-1'' JS_Joining (Some ''join'') None None
     (snd (jobs_submit 7 ''wifred'' ''aa'' None jobs_new))"

lemma job_name_1: "job_name (Suc 0) = ''job-1''"
  by (simp add: job_name_def show_nat.simps digit_char_def) (simp add: char_of_def bit_iff_odd)

lemma demo_reg_reach: "reg_reach demo_reg"
  unfolding demo_reg_def
  by (rule rr_step [OF rr_step [OF rr_new rs_submit] rs_transition])
    (simp add: jobs_submit_def jobs_new_def Let_def job_name_1)

theorem jobs_single_active_witness:
  "hm_get (rg_jobs demo_reg) ''job-1'' \<noteq> None \<and> hm_len (rg_jobs demo_reg) \<le> 33"
proof -
  have "rg_active demo_reg = Some ''job-1''"
    by (simp add: demo_reg_def jobs_submit_def jobs_new_def Let_def job_name_1 jobs_transition_def
        hm_get_def hm_insert_def)
  with jobs_single_active [OF demo_reg_reach] show ?thesis
    by (auto simp: jobs_is_busy_def)
qed

text \<open>C17: while a worker drives the job that holds the slot through non-terminal states,
  interleaved with any batches of client submissions and cancellations, the registry
  invariant holds, the job keeps the slot, and every further submission is refused as busy
  without changing the registry; a final terminal transition frees the slot.\<close>

theorem jobs_slot_held_until_terminal:
  assumes "reg_ok reg" and "rg_active reg = Some jid"
    and "list_all (\<lambda>(ops, st, f). \<not> js_is_terminal st) ws" and "js_is_terminal fin"
  shows "reg_ok (slot.worker_run jid ws reg)
       \<and> rg_active (slot.worker_run jid ws reg) = Some jid
       \<and> jobs_submit now d k p (slot.worker_run jid ws reg)
           = (Inl (JE_Busy jid), slot.worker_run jid ws reg)
       \<and> rg_active (slot.worker_run jid (ws @ [(ops, fin, f)]) reg) = None"
  using slot.worker_run_held [OF assms(1-3)] slot.worker_finishes [OF assms]
  by (simp add: jobs_submit_def)

lemma demo_reg_active: "rg_active demo_reg = Some ''job-1''"
  by (simp add: demo_reg_def jobs_submit_def jobs_new_def Let_def job_name_1 jobs_transition_def
      hm_get_def hm_insert_def)

theorem jobs_slot_held_until_terminal_witness:
  "rg_active (slot.worker_run ''job-1''
     [([CO_Submit \<lparr>sub_now = 8, sub_driver = ''longfred'', sub_key = ''b'', sub_payload = None\<rparr>,
        CO_Cancel ''job-1''],
       JS_Writing, \<lparr>fa_step = None, fa_progress = None, fa_detail = None\<rparr>)] demo_reg) = Some ''job-1''"
proof -
  let ?ws = "[([CO_Submit \<lparr>sub_now = 8, sub_driver = ''longfred'', sub_key = ''b'', sub_payload = None\<rparr>,
        CO_Cancel ''job-1''],
       JS_Writing, \<lparr>fa_step = None, fa_progress = None, fa_detail = None\<rparr>)]"
  have "list_all (\<lambda>(ops, st, f). \<not> js_is_terminal st) ?ws" by simp
  from jobs_slot_held_until_terminal [OF reg_reach_ok [OF demo_reg_reach] demo_reg_active this,
      of JS_Done 0 "[]" "[]" None "[]"]
  show ?thesis by simp
qed

text \<open>Cancelling never frees the slot and never changes a job's state: an unknown job is
  left alone, a finished job only gets its flag, and an unfinished one gets its flag, the
  detail \<open>cancel requested\<close> and exactly one frame with its current state.\<close>

lemma jobs_cancel_effect:
  "rg_active (jobs_cancel jid reg) = rg_active reg
 \<and> (hm_get (rg_jobs reg) jid = None \<longrightarrow> jobs_cancel jid reg = reg)
 \<and> (\<forall>rec. hm_get (rg_jobs reg) jid = Some rec \<longrightarrow>
      jobs_is_cancelled jid (jobs_cancel jid reg)
    \<and> map_option jsn_state (jobs_snapshot jid (jobs_cancel jid reg)) = Some (jsn_state (jr_snapshot rec))
    \<and> jobs_frames_since jid (jobs_frame_count jid reg) (jobs_cancel jid reg)
        = Some (if js_is_terminal (jsn_state (jr_snapshot rec)) then []
                else [\<lparr>jfr_id = jid, jfr_state = jsn_state (jr_snapshot rec), jfr_step = None,
                       jfr_progress = None, jfr_detail = Some ''cancel requested''\<rparr>]))
 \<and> (\<forall>k. k \<noteq> jid \<longrightarrow> hm_get (rg_jobs (jobs_cancel jid reg)) k = hm_get (rg_jobs reg) k)"
  by (auto simp: jobs_cancel_def Let_def jobs_is_cancelled_def jobs_snapshot_def jobs_frames_since_def
      jobs_frame_count_def hm.get_insert push_frame_frames split: option.splits)

text \<open>C18: in a reachable registry a job that has reached a terminal state has a last frame
  with that state and no terminal frame before it, all frames carry the job's id, and no later
  step of any client or worker rewrites a frame already recorded: while the job is remembered
  frames are only appended.\<close>

theorem jobs_frames_append_only:
  assumes "reg_reach reg" and "reg_step reg reg'"
    and "hm_get (rg_jobs reg) jid = Some rec" and "hm_get (rg_jobs reg') jid = Some rec'"
  shows "(js_is_terminal (jsn_state (jr_snapshot rec)) \<longrightarrow>
            jr_frames rec \<noteq> [] \<and> jfr_state (last (jr_frames rec)) = jsn_state (jr_snapshot rec))
       \<and> list_all (\<lambda>f. \<not> js_is_terminal (jfr_state f)) (butlast (jr_frames rec))
       \<and> list_all (\<lambda>f. jfr_id f = jid) (jr_frames rec)
       \<and> take (length (jr_frames rec)) (jr_frames rec') = jr_frames rec"
proof -
  note ok = reg_reach_ok [OF assms(1)]
  have r: "record_ok jid rec" by (rule reg_okD(2) [OF ok assms(3)])
  obtain fs where "jr_frames rec' = jr_frames rec @ fs"
    using reg_step_frames [OF assms(2) ok assms(3,4)] by blast
  with r show ?thesis by (auto simp: record_ok_def)
qed

theorem jobs_frames_append_only_witness:
  "\<exists>rec. hm_get (rg_jobs demo_reg) ''job-1'' = Some rec
     \<and> list_all (\<lambda>f. jfr_id f = ''job-1'') (jr_frames rec)"
proof -
  obtain rec where rec: "hm_get (rg_jobs demo_reg) ''job-1'' = Some rec"
    using reg_okD(5) [OF reg_reach_ok [OF demo_reg_reach] demo_reg_active] by blast
  obtain rec' where rec': "hm_get (rg_jobs (jobs_cancel ''job-1'' demo_reg)) ''job-1'' = Some rec'"
    using rec by (auto simp: jobs_cancel_def Let_def hm.get_insert)
  from jobs_frames_append_only [OF demo_reg_reach rs_cancel rec rec'] rec show ?thesis by blast
qed

lemma sorted_take_drop_le:
  assumes "sorted (map f xs)" and "x \<in> set (take n xs)" and "y \<in> set (drop n xs)"
  shows "f x \<le> f y"
proof -
  have "sorted (map f (take n xs @ drop n xs))" using assms(1) by simp
  then show ?thesis using assms(2,3) by (auto simp: sorted_append simp del: append_take_drop_id)
qed

lemma evicted_oldest:
  assumes h: "hm_ok (rg_jobs reg)" and act: "rg_active reg = None"
    and k: "hm_get (rg_jobs reg) k = Some rec" and gone: "hm_get (rg_jobs (evict_old_jobs reg)) k = None"
    and j: "hm_get (rg_jobs (evict_old_jobs reg)) j = Some rec'"
    and fin: "js_is_terminal (jsn_state (jr_snapshot rec'))"
  shows "jsn_created_at (jr_snapshot rec) \<le> jsn_created_at (jr_snapshot rec')"
proof -
  let ?n = "hm_len (rg_jobs reg) - MAX_JOB_HISTORY"
  define L where "L = sort_key snd (map (\<lambda>(jid, rec). (jid, jsn_created_at (jr_snapshot rec)))
    (filter (\<lambda>(jid, rec). js_is_terminal (jsn_state (jr_snapshot rec)) \<and> rg_active reg \<noteq> Some jid)
      (rg_jobs reg)))"
  have order: "evict_order reg = map fst L" by (simp add: evict_order_def L_def)
  have created: "c = jsn_created_at (jr_snapshot r)"
    if "(i, c) \<in> set L" and "hm_get (rg_jobs reg) i = Some r" for i c r
    using that hm_in_get [OF h] by (force simp: L_def)
  have "k \<in> set (take ?n (evict_order reg))"
    using k gone h by (simp add: evict_get split: if_splits)
  then obtain ck where ck: "(k, ck) \<in> set (take ?n L)" by (force simp: order take_map)
  have jr: "hm_get (rg_jobs reg) j = Some rec'" and jn: "j \<notin> set (take ?n (evict_order reg))"
    using j h by (auto simp: evict_get split: if_splits)
  have "(j, jsn_created_at (jr_snapshot rec')) \<in> set L"
    using hm_get_Some_in [OF jr] fin act by (force simp: L_def)
  moreover have "(j, jsn_created_at (jr_snapshot rec')) \<notin> set (take ?n L)"
    using jn by (force simp: order take_map)
  ultimately have "(j, jsn_created_at (jr_snapshot rec')) \<in> set (drop ?n L)"
    by (metis Un_iff append_take_drop_id set_append)
  moreover have "sorted (map snd L)" by (simp add: L_def)
  ultimately have "ck \<le> jsn_created_at (jr_snapshot rec')"
    using sorted_take_drop_le [OF _ ck] by fastforce
  with created [OF in_set_takeD [OF ck] k] show ?thesis by simp
qed

text \<open>Eviction never empties a registry: it stops at the bound.\<close>

lemma evict_keeps_some:
  assumes h: "hm_ok (rg_jobs reg)" and act: "rg_active reg = None"
    and k: "hm_get (rg_jobs reg) k = Some rec"
    and gone: "hm_get (rg_jobs (evict_old_jobs reg)) k = None"
  shows "\<exists>j r. hm_get (rg_jobs (evict_old_jobs reg)) j = Some r"
proof (rule ccontr)
  assume none: "\<nexists>j r. hm_get (rg_jobs (evict_old_jobs reg)) j = Some r"
  let ?n = "hm_len (rg_jobs reg) - MAX_JOB_HISTORY"
  have over: "?n \<noteq> 0"
  proof
    assume z: "?n = 0"
    with gone k h show False by (simp add: evict_get)
  qed
  have "{i. hm_get (rg_jobs reg) i \<noteq> None} \<subseteq> set (take ?n (evict_order reg))"
    using none h by (auto simp: evict_get split: if_splits)
  then have "card {i. hm_get (rg_jobs reg) i \<noteq> None} \<le> card (set (take ?n (evict_order reg)))"
    by (intro card_mono) simp_all
  also have "\<dots> \<le> ?n" by (metis card_length le_trans length_take min.cobounded2)
  finally have "hm_len (rg_jobs reg) \<le> ?n" using h by (simp add: hm.len_dom)
  with over show False by (simp add: MAX_JOB_HISTORY_def)
qed

text \<open>When a job finishes, the registry forgets at most the oldest finished jobs: the
  history returns to its bound, a job that was forgotten is no newer than any that was kept,
  and a job created after all the others is still remembered, in its final state.\<close>

lemma jobs_evict_oldest_first:
  fixes stp :: "string option" and pr :: "u8 option" and dt :: "string option"
  assumes "reg_ok reg" and "rg_active reg = Some jid" and "js_is_terminal st"
  defines "reg' \<equiv> jobs_transition jid st stp pr dt reg"
  shows "hm_len (rg_jobs reg') \<le> 32
       \<and> (\<forall>k rec j rec'. hm_get (rg_jobs reg) k = Some rec \<longrightarrow> hm_get (rg_jobs reg') k = None \<longrightarrow>
            hm_get (rg_jobs reg') j = Some rec' \<longrightarrow>
            jsn_created_at (jr_snapshot rec) \<le> jsn_created_at (jr_snapshot rec'))
       \<and> ((\<forall>k rec mine. hm_get (rg_jobs reg) k = Some rec \<longrightarrow> hm_get (rg_jobs reg) jid = Some mine \<longrightarrow>
              k \<noteq> jid \<longrightarrow> jsn_created_at (jr_snapshot rec) < jsn_created_at (jr_snapshot mine)) \<longrightarrow>
            map_option jsn_state (jobs_snapshot jid reg') = Some st)"
proof -
  obtain mine where mine: "hm_get (rg_jobs reg) jid = Some mine" using reg_okD(5) [OF assms(1,2)] by blast
  define reg2 where "reg2 = reg\<lparr>rg_jobs := hm_insert jid (push_frame jid st stp pr dt mine) (rg_jobs reg),
    rg_active := None\<rparr>"
  have reg': "reg' = evict_old_jobs reg2"
    using mine assms(3) by (simp add: reg'_def reg2_def jobs_transition_def)
  have ok': "reg_ok reg'" and act': "rg_active reg' = None"
    using reg_ok_transition [OF assms(1,2)] assms(3) by (simp_all add: reg'_def)
  have h2: "hm_ok (rg_jobs reg2)" using reg_okD(1) [OF assms(1)] by (simp add: reg2_def hm.ok_insert)
  have act2: "rg_active reg2 = None" by (simp add: reg2_def)
  have get2: "\<exists>r. hm_get (rg_jobs reg2) k = Some r \<and> jsn_created_at (jr_snapshot r) = jsn_created_at (jr_snapshot rec)"
    if "hm_get (rg_jobs reg) k = Some rec" for k rec
    using that mine by (auto simp: reg2_def hm.get_insert)
  have fin: "js_is_terminal (jsn_state (jr_snapshot r))" if "hm_get (rg_jobs reg') j = Some r" for j r
    using reg_okD(4) [OF ok' that] act' by simp
  have oldest: "jsn_created_at (jr_snapshot rec) \<le> jsn_created_at (jr_snapshot rec')"
    if "hm_get (rg_jobs reg) k = Some rec" and "hm_get (rg_jobs reg') k = None"
      and "hm_get (rg_jobs reg') j = Some rec'" for k rec j rec'
    using get2 [OF that(1)] evicted_oldest [OF h2 act2] that(2,3) fin [OF that(3)]
    unfolding reg' by metis
  have len: "hm_len (rg_jobs reg') \<le> 32"
    using reg_okD(6) [OF ok'] act' by (simp add: MAX_JOB_HISTORY_def)
  have keep: "map_option jsn_state (jobs_snapshot jid reg') = Some st"
    if newest: "\<forall>k rec. hm_get (rg_jobs reg) k = Some rec \<longrightarrow> k \<noteq> jid \<longrightarrow>
          jsn_created_at (jr_snapshot rec) < jsn_created_at (jr_snapshot mine)"
  proof (cases "hm_get (rg_jobs reg') jid")
    case (Some r)
    then have "hm_get (rg_jobs reg2) jid = Some r" unfolding reg' by (simp add: evict_get h2 split: if_splits)
    with Some show ?thesis by (simp add: jobs_snapshot_def reg2_def hm.get_insert) (metis push_frame_simps(1))
  next
    case None
    have "\<exists>j r. hm_get (rg_jobs reg') j = Some r"
      using evict_keeps_some [OF h2 act2] get2 [OF mine] None unfolding reg' by blast
    then obtain j r where j: "hm_get (rg_jobs reg') j = Some r" by blast
    then have "j \<noteq> jid" using None by auto
    have "hm_get (rg_jobs reg2) j = Some r" using j unfolding reg' by (simp add: evict_get h2 split: if_splits)
    with \<open>j \<noteq> jid\<close> have "hm_get (rg_jobs reg) j = Some r" by (simp add: reg2_def hm.get_insert)
    with newest \<open>j \<noteq> jid\<close> oldest [OF mine None j] show ?thesis by fastforce
  qed
  from len oldest keep mine show ?thesis by auto
qed

end
