(* ===== verification/Wp_Drivers.thy ===== *)
theory Wp_Drivers
  imports Wp_WiFred Wp_LongFred
begin

text \<open>
  The two remaining drivers (\<open>fred.rs\<close>, \<open>rb23xx\<close>), the driver enum and its registry
  (\<open>crates/wireless-programmer/src/drivers.rs\<close>), and the contract of the \<open>DeviceDriver\<close>
  trait as the locale \<open>device_driver\<close>, interpreted on all four drivers.
\<close>

section \<open>Digitrax FRED\<close>

definition fred_capabilities :: driver_capabilities where
  "fred_capabilities =
     \<lparr>dcap_max_roster_slots = 1, dcap_max_function_index = 0, dcap_identity_format = IF_Any,
      dcap_supports_throttle_server = False, dcap_commissioning = CK_Lan,
      dcap_commissioning_net = None, dcap_softap_psk = None, dcap_firmware = None\<rparr>"

definition fred_filters :: "string list" where
  "fred_filters = []"

definition fred_identify :: "'j observation \<Rightarrow> device_candidate option" where
  "fred_identify obs = None"

definition fred_validate :: "program_request \<Rightarrow> validation_error + unit" where
  "fred_validate req =
     (if length (pq_roster req) \<noteq> 1 then Inl (VE_CapacityExceeded 1 (length (pq_roster req)))
      else case re_address (pq_roster req ! 0) of
        Some addr \<Rightarrow>
          if 1 \<le> unat addr \<and> unat addr \<le> 10239 then Inr () else Inl (VE_AddressOutOfRange addr)
      | None \<Rightarrow> Inl (VE_RosterEntry 0 ''missing address''))"

definition fred_probe :: "'j json_lib \<Rightarrow> transport \<Rightarrow> 'j dev_io" where
  "fred_probe J t = dev_return (js_obj J [(''driver'', js_str J ''fred'')])"

definition fred_program :: "transport \<Rightarrow> program_request \<Rightarrow> outcome dev_io" where
  "fred_program t req = dev_fail (DE_Other ''fred programming uses Z21 UDP, not HTTP/serial'')"

definition fred_update_firmware :: "transport \<Rightarrow> string \<Rightarrow> string \<Rightarrow> outcome dev_io" where
  "fred_update_firmware t img filename = dev_fail (DE_Other ''firmware update is not supported'')"

section \<open>RailBOX RB23xx\<close>

definition RB23XX_SSID_PREFIXES :: "string list" where
  "RB23XX_SSID_PREFIXES = [''RB2300_'', ''RB2310_'', ''RB2302_'']"

definition rb23xx_identify :: "'j observation \<Rightarrow> device_candidate option" where
  "rb23xx_identify obs =
     (case ob_ssid obs of
        None \<Rightarrow> None
      | Some ssid \<Rightarrow>
          if \<not> list_ex (\<lambda>p. starts_with ssid p) RB23XX_SSID_PREFIXES then None
          else Some \<lparr>dc_driver = ''rb23xx'',
                     dc_key = (case ob_bssid obs of Some b \<Rightarrow> b | None \<Rightarrow> ssid),
                     dc_label = ssid, dc_rssi = ob_rssi obs\<rparr>)"

definition rb23xx_net :: commissioning_net where
  "rb23xx_net =
     \<lparr>cn_host = [192, 168, 4, 1], cn_port = 80, cn_source = [192, 168, 4, 2], cn_prefix = 24\<rparr>"

definition rb23xx_capabilities :: driver_capabilities where
  "rb23xx_capabilities =
     \<lparr>dcap_max_roster_slots = 0, dcap_max_function_index = 0, dcap_identity_format = IF_Any,
      dcap_supports_throttle_server = False, dcap_commissioning = CK_SoftAp,
      dcap_commissioning_net = Some rb23xx_net, dcap_softap_psk = Some ''00000000'',
      dcap_firmware = Some
        \<lparr>fc_max_bytes = 5 * 1024 * 1024, fc_max_bytes_label = ''5 MiB'', fc_modes = FM_AP,
         fc_require_esp_app_bin = False, fc_success_on_reset_after_write = True\<rparr>\<rparr>"

definition rb23xx_filters :: "string list" where
  "rb23xx_filters = RB23XX_SSID_PREFIXES"

definition rb23xx_validate :: "program_request \<Rightarrow> validation_error + unit" where
  "rb23xx_validate req = Inr ()"

definition rb23xx_probe :: "'j json_lib \<Rightarrow> transport \<Rightarrow> 'j dev_io" where
  "rb23xx_probe J t =
     (case t of
        T_Bytes \<Rightarrow> dev_fail (DE_Other ''rb23xx driver requires an HTTP transport'')
      | T_Http d \<Rightarrow>
          dev_bind (dev_request d (http_get ''/?p=/''))
            (\<lambda>body. dev_return (js_obj J [(''ok'', js_bool J True), (''bytes'', js_num J (length body))])))"

definition rb23xx_program :: "transport \<Rightarrow> program_request \<Rightarrow> outcome dev_io" where
  "rb23xx_program t req =
     dev_fail (DE_Other ''rb23xx does not support program; use updateFirmware to upload a .bin'')"

definition rb23xx_upload :: "string \<Rightarrow> string \<Rightarrow> http_request" where
  "rb23xx_upload img filename =
     (let name = (case path_file_name filename of
                    Some n \<Rightarrow> if n = [] then ''firmware.bin'' else n
                  | None \<Rightarrow> ''firmware.bin'')
      in \<lparr>hq_method = ''POST'', hq_path = ''/upload?p=/'' @ percent_encode name,
          hq_body = Some (''multipart/form-data'', img)\<rparr>)"

definition rb23xx_update_firmware :: "transport \<Rightarrow> string \<Rightarrow> string \<Rightarrow> outcome dev_io" where
  "rb23xx_update_firmware t img filename =
     (case t of
        T_Bytes \<Rightarrow> dev_fail (DE_Other ''rb23xx driver requires an HTTP transport'')
      | T_Http d \<Rightarrow>
          dev_then (ev_step ''write'')
         (dev_then (ev_detail (show_nat (length img) @ '' bytes''))
         (dev_bind (dev_request_err upload_error d (rb23xx_upload img filename)) (\<lambda>_.
          dev_then (ev_step ''restart'')
            (dev_return \<lparr>oc_restarted = True, oc_mismatches = []\<rparr>)))))"

section \<open>The driver contract\<close>

text \<open>
  What the daemon relies on, whatever the driver: a claimed observation is labelled with its
  SSID, which starts with one of the driver's scan prefixes; and a firmware update over HTTP hands the
  client one POST of the image and turns on its answer alone, or fails without a request when the
  driver has no firmware support or no HTTP transport.
\<close>

locale device_driver =
  fixes did :: string
    and caps :: driver_capabilities
    and filters :: "string list"
    and ident :: "'j observation \<Rightarrow> device_candidate option"
    and update :: "transport \<Rightarrow> string \<Rightarrow> string \<Rightarrow> outcome dev_io"
  assumes ident_sound: "ident obs = Some c \<Longrightarrow>
      dc_driver c = did \<and> ob_ssid obs = Some (dc_label c) \<and> dc_rssi c = ob_rssi obs
      \<and> dc_key c = (case ob_bssid obs of Some b \<Rightarrow> b | None \<Rightarrow> dc_label c)
      \<and> (\<exists>p \<in> set filters. starts_with (dc_label c) p)"
    and ident_complete: "ob_ssid obs = Some ssid \<Longrightarrow> \<exists>p \<in> set filters. starts_with ssid p \<Longrightarrow>
      ident obs \<noteq> None"
    and update_unsupported: "dcap_firmware caps = None \<Longrightarrow> \<exists>m. update t img fname = dev_fail (DE_Other m)"
    and update_answered: "dcap_firmware caps \<noteq> None \<Longrightarrow>
      \<exists>path ct pre post oc. requests pre = [] \<and> requests post = []
        \<and> (\<forall>d tr. let q = \<lparr>hq_method = ''POST'', hq_path = path, hq_body = Some (ct, img)\<rparr> in
            update (T_Http d) img fname tr =
              (case d (tr @ pre) q of
                 Inl e \<Rightarrow> (Inl (upload_error e), tr @ pre @ [Ev_Req q])
               | Inr reply \<Rightarrow> (Inr oc, tr @ pre @ [Ev_Req q] @ post)))"
    and update_bytes: "\<exists>m. update T_Bytes img fname = dev_fail (DE_Other m)"
begin

lemma ident_iff:
  "ident obs \<noteq> None \<longleftrightarrow> (\<exists>ssid. ob_ssid obs = Some ssid \<and> (\<exists>p \<in> set filters. starts_with ssid p))"
proof
  assume "ident obs \<noteq> None"
  then obtain c where "ident obs = Some c" by blast
  with ident_sound [OF this] show "\<exists>ssid. ob_ssid obs = Some ssid \<and> (\<exists>p \<in> set filters. starts_with ssid p)"
    by blast
qed (use ident_complete in blast)

lemma update_unanswered: "dcap_firmware caps = None \<or> t = T_Bytes \<Longrightarrow> \<exists>m. update t img fname = dev_fail (DE_Other m)"
  using update_unsupported update_bytes by metis

lemma update_request:
  assumes "dcap_firmware caps \<noteq> None"
  obtains q pre post oc where "hq_method q = ''POST''" "map_option snd (hq_body q) = Some img"
    "requests pre = []" "requests post = []"
    "\<And>d tr. update (T_Http d) img fname tr =
       (case d (tr @ pre) q of
          Inl e \<Rightarrow> (Inl (upload_error e), tr @ pre @ [Ev_Req q])
        | Inr reply \<Rightarrow> (Inr oc, tr @ pre @ [Ev_Req q] @ post))"
proof -
  obtain path ct pre post oc where "requests pre = []" "requests post = []"
    and "\<forall>d tr. update (T_Http d) img fname tr =
      (case d (tr @ pre) \<lparr>hq_method = ''POST'', hq_path = path, hq_body = Some (ct, img)\<rparr> of
         Inl e \<Rightarrow> (Inl (upload_error e), tr @ pre @ [Ev_Req \<lparr>hq_method = ''POST'', hq_path = path, hq_body = Some (ct, img)\<rparr>])
       | Inr reply \<Rightarrow> (Inr oc, tr @ pre @ [Ev_Req \<lparr>hq_method = ''POST'', hq_path = path, hq_body = Some (ct, img)\<rparr>] @ post))"
    using update_answered [OF assms, of img fname] unfolding Let_def by blast
  then show thesis
    by (intro that [of "\<lparr>hq_method = ''POST'', hq_path = path, hq_body = Some (ct, img)\<rparr>" pre post oc]) simp_all
qed

text \<open>The client is handed at most one request; what it makes of it is its own retry loop.\<close>

lemma update_at_most_one:
  "\<exists>qs. requests (snd (update t img fname tr)) = requests tr @ qs \<and> length qs \<le> 1"
proof (cases "dcap_firmware caps = None \<or> t = T_Bytes")
  case True
  then show ?thesis using update_unanswered [OF True, of img fname] by (auto simp: dev_fail_def)
next
  case False
  then obtain d where t: "t = T_Http d" by (cases t) auto
  from False have fw: "dcap_firmware caps \<noteq> None" by simp
  obtain q pre post oc where q: "hq_method q = ''POST''" "map_option snd (hq_body q) = Some img"
      "requests pre = []" "requests post = []"
    and run: "\<And>d tr. update (T_Http d) img fname tr =
       (case d (tr @ pre) q of
          Inl e \<Rightarrow> (Inl (upload_error e), tr @ pre @ [Ev_Req q])
        | Inr reply \<Rightarrow> (Inr oc, tr @ pre @ [Ev_Req q] @ post))"
    by (rule update_request [OF fw, of img fname]) (rule that)
  then show ?thesis unfolding t run by (cases "d (tr @ pre) q") auto
qed

text \<open>An update succeeds only when the device accepted the whole image.\<close>

lemma update_accepted:
  assumes "is_ok (fst (update t img fname tr))"
  shows "dcap_firmware caps \<noteq> None \<and> (\<exists>d pre q reply. t = T_Http d \<and> d (tr @ pre) q = Inr reply
       \<and> hq_method q = ''POST'' \<and> map_option snd (hq_body q) = Some img)"
proof (cases "dcap_firmware caps = None \<or> t = T_Bytes")
  case True
  then show ?thesis using update_unanswered [OF True, of img fname] assms by (auto simp: dev_fail_def)
next
  case False
  then obtain d where t: "t = T_Http d" by (cases t) auto
  from False have fw: "dcap_firmware caps \<noteq> None" by simp
  obtain q pre post oc where q: "hq_method q = ''POST''" "map_option snd (hq_body q) = Some img"
      "requests pre = []" "requests post = []"
    and run: "\<And>d tr. update (T_Http d) img fname tr =
       (case d (tr @ pre) q of
          Inl e \<Rightarrow> (Inl (upload_error e), tr @ pre @ [Ev_Req q])
        | Inr reply \<Rightarrow> (Inr oc, tr @ pre @ [Ev_Req q] @ post))"
    by (rule update_request [OF fw, of img fname]) (rule that)
  obtain reply where "d (tr @ pre) q = Inr reply"
    using assms unfolding t run by (cases "d (tr @ pre) q") simp_all
  with q fw t show ?thesis by (intro conjI exI) assumption+
qed

end

interpretation wifred: device_driver "''wifred''" wifred_capabilities wifred_filters wifred_identify
  wifred_update_firmware
  by unfold_locales
    (auto simp: wifred_identify_def wifred_filters_def wifred_capabilities_def wifred_update_firmware_def
      split: option.splits if_splits)

lemma longfred_update_run:
  "longfred_update_firmware (T_Http d) img fname tr =
     (let tr1 = tr @ [Ev_Step ''write'', Ev_Detail (show_nat (length img) @ '' bytes'')] in
      case d tr1 (longfred_upload img) of
        Inl e \<Rightarrow> (Inl (upload_error e), tr1 @ [Ev_Req (longfred_upload img)])
      | Inr reply \<Rightarrow> (Inr \<lparr>oc_restarted = True, oc_mismatches = []\<rparr>,
          tr1 @ [Ev_Req (longfred_upload img), Ev_Step ''restart'']))"
  by (cases "d (tr @ [Ev_Step ''write'', Ev_Detail (show_nat (length img) @ '' bytes'')]) (longfred_upload img)")
    (simp_all add: longfred_update_firmware_def dev_io_defs Let_def)

interpretation longfred: device_driver "''longfred''" longfred_capabilities longfred_filters longfred_identify
  longfred_update_firmware
proof unfold_locales
  fix img fname
  show "\<exists>path ct pre post oc. requests pre = [] \<and> requests post = []
      \<and> (\<forall>d tr. let q = \<lparr>hq_method = ''POST'', hq_path = path, hq_body = Some (ct, img)\<rparr> in
          longfred_update_firmware (T_Http d) img fname tr =
            (case d (tr @ pre) q of
               Inl e \<Rightarrow> (Inl (upload_error e), tr @ pre @ [Ev_Req q])
             | Inr reply \<Rightarrow> (Inr oc, tr @ pre @ [Ev_Req q] @ post)))"
    by (rule exI [of _ FIRMWARE_PATH], rule exI [of _ "''application/octet-stream''"],
        rule exI [of _ "[Ev_Step ''write'', Ev_Detail (show_nat (length img) @ '' bytes'')]"],
        rule exI [of _ "[Ev_Step ''restart'']"], rule exI [of _ "\<lparr>oc_restarted = True, oc_mismatches = []\<rparr>"])
      (simp add: longfred_update_run longfred_upload_def Let_def split: sum.split)
qed (auto simp: longfred_identify_def longfred_filters_def longfred_capabilities_def
      longfred_update_firmware_def split: option.splits if_splits)

interpretation fred: device_driver "''fred''" fred_capabilities fred_filters fred_identify
  fred_update_firmware
  by unfold_locales
    (auto simp: fred_identify_def fred_filters_def fred_capabilities_def fred_update_firmware_def)

lemma rb23xx_update_run:
  "rb23xx_update_firmware (T_Http d) img fname tr =
     (let tr1 = tr @ [Ev_Step ''write'', Ev_Detail (show_nat (length img) @ '' bytes'')] in
      case d tr1 (rb23xx_upload img fname) of
        Inl e \<Rightarrow> (Inl (upload_error e), tr1 @ [Ev_Req (rb23xx_upload img fname)])
      | Inr reply \<Rightarrow> (Inr \<lparr>oc_restarted = True, oc_mismatches = []\<rparr>,
          tr1 @ [Ev_Req (rb23xx_upload img fname), Ev_Step ''restart'']))"
  by (cases "d (tr @ [Ev_Step ''write'', Ev_Detail (show_nat (length img) @ '' bytes'')]) (rb23xx_upload img fname)")
    (simp_all add: rb23xx_update_firmware_def dev_io_defs Let_def)

interpretation rb23xx: device_driver "''rb23xx''" rb23xx_capabilities rb23xx_filters rb23xx_identify
  rb23xx_update_firmware
proof unfold_locales
  fix img fname
  show "\<exists>path ct pre post oc. requests pre = [] \<and> requests post = []
      \<and> (\<forall>d tr. let q = \<lparr>hq_method = ''POST'', hq_path = path, hq_body = Some (ct, img)\<rparr> in
          rb23xx_update_firmware (T_Http d) img fname tr =
            (case d (tr @ pre) q of
               Inl e \<Rightarrow> (Inl (upload_error e), tr @ pre @ [Ev_Req q])
             | Inr reply \<Rightarrow> (Inr oc, tr @ pre @ [Ev_Req q] @ post)))"
    by (rule exI [of _ "hq_path (rb23xx_upload img fname)"], rule exI [of _ "''multipart/form-data''"],
        rule exI [of _ "[Ev_Step ''write'', Ev_Detail (show_nat (length img) @ '' bytes'')]"],
        rule exI [of _ "[Ev_Step ''restart'']"], rule exI [of _ "\<lparr>oc_restarted = True, oc_mismatches = []\<rparr>"])
      (simp add: rb23xx_update_run rb23xx_upload_def Let_def split: sum.split)
qed (auto simp: rb23xx_identify_def rb23xx_filters_def rb23xx_capabilities_def
      rb23xx_update_firmware_def list_ex_iff split: option.splits if_splits)

section \<open>The registry\<close>

datatype driver = D_WiFred | D_LongFred | D_Fred | D_Rb23xx

fun driver_id_str :: "driver \<Rightarrow> string" where
  "driver_id_str D_WiFred = ''wifred''"
| "driver_id_str D_LongFred = ''longfred''"
| "driver_id_str D_Fred = ''fred''"
| "driver_id_str D_Rb23xx = ''rb23xx''"

fun driver_name :: "driver \<Rightarrow> string" where
  "driver_name D_WiFred = ''NewHeiko WiFred''"
| "driver_name D_LongFred = ''LongFred''"
| "driver_name D_Fred = ''Digitrax FRED''"
| "driver_name D_Rb23xx = ''RailBOX RB23xx''"

fun driver_net :: "driver \<Rightarrow> commissioning_net" where
  "driver_net D_WiFred =
     \<lparr>cn_host = [192, 168, 4, 1], cn_port = 80, cn_source = [192, 168, 4, 2], cn_prefix = 24\<rparr>"
| "driver_net D_LongFred = longfred_net"
| "driver_net D_Fred =
     \<lparr>cn_host = [0, 0, 0, 0], cn_port = 0, cn_source = [0, 0, 0, 0], cn_prefix = 0\<rparr>"
| "driver_net D_Rb23xx = rb23xx_net"

definition driver_from_id :: "string \<Rightarrow> driver option" where
  "driver_from_id s =
     (if s = ''wifred'' then Some D_WiFred
      else if s = ''longfred'' then Some D_LongFred
      else if s = ''fred'' then Some D_Fred
      else if s = ''rb23xx'' then Some D_Rb23xx
      else None)"

fun registry_capabilities :: "driver \<Rightarrow> driver_capabilities" where
  "registry_capabilities D_WiFred = wifred_capabilities"
| "registry_capabilities D_LongFred = longfred_capabilities"
| "registry_capabilities D_Fred = fred_capabilities"
| "registry_capabilities D_Rb23xx = rb23xx_capabilities"

definition registry_drivers :: "(driver \<times> driver_capabilities) list" where
  "registry_drivers =
     map (\<lambda>d. (d, registry_capabilities d)) [D_WiFred, D_LongFred, D_Fred, D_Rb23xx]"

definition driver_infos :: "driver_info_wire list" where
  "driver_infos =
     map (\<lambda>(d, caps). \<lparr>di_id = driver_id_str d, di_name = driver_name d,
                       di_capabilities = capabilities_to_wire caps\<rparr>) registry_drivers"

definition driver_for :: "candidate_ref \<Rightarrow> driver option" where
  "driver_for c = driver_from_id (cr_driver c)"

definition registry_identify :: "'j observation \<Rightarrow> device_candidate option" where
  "registry_identify obs =
     (case longfred_identify obs of
        Some c \<Rightarrow> Some c
      | None \<Rightarrow> (case wifred_identify obs of Some c \<Rightarrow> Some c | None \<Rightarrow> rb23xx_identify obs))"

fun registry_validate :: "driver \<Rightarrow> program_request \<Rightarrow> validation_error + unit" where
  "registry_validate D_WiFred req = wifred_validate req"
| "registry_validate D_LongFred req = longfred_validate req"
| "registry_validate D_Fred req = fred_validate req"
| "registry_validate D_Rb23xx req = rb23xx_validate req"

text \<open>
  The libraries behind the drivers: XML reader, JSON values, and the serde conversion of the
  WiFred configuration to a JSON value.
\<close>

record 'j dev_libs =
  dl_xml :: xml_lib
  dl_json :: "'j json_lib"
  dl_config_to_value :: "device_config \<Rightarrow> string + 'j"

fun registry_probe :: "'j dev_libs \<Rightarrow> driver \<Rightarrow> transport \<Rightarrow> 'j dev_io" where
  "registry_probe L D_WiFred t =
     dev_bind (wifred_probe (dl_xml L) t)
       (\<lambda>cfg. dev_lift (map_err DE_Parse (dl_config_to_value L cfg)))"
| "registry_probe L D_LongFred t = longfred_probe (dl_json L) t"
| "registry_probe L D_Fred t = fred_probe (dl_json L) t"
| "registry_probe L D_Rb23xx t = rb23xx_probe (dl_json L) t"

fun registry_program :: "'j dev_libs \<Rightarrow> driver \<Rightarrow> transport \<Rightarrow> program_request \<Rightarrow> outcome dev_io" where
  "registry_program L D_WiFred t req = wifred_program (dl_xml L) t req"
| "registry_program L D_LongFred t req = longfred_program (dl_json L) t req"
| "registry_program L D_Fred t req = fred_program t req"
| "registry_program L D_Rb23xx t req = rb23xx_program t req"

definition supports_firmware_update :: "driver \<Rightarrow> bool" where
  "supports_firmware_update d \<longleftrightarrow> dcap_firmware (registry_capabilities d) \<noteq> None"

fun registry_update_firmware :: "driver \<Rightarrow> transport \<Rightarrow> string \<Rightarrow> string \<Rightarrow> outcome dev_io" where
  "registry_update_firmware D_WiFred t img fname = wifred_update_firmware t img fname"
| "registry_update_firmware D_LongFred t img fname = longfred_update_firmware t img fname"
| "registry_update_firmware D_Fred t img fname = fred_update_firmware t img fname"
| "registry_update_firmware D_Rb23xx t img fname = rb23xx_update_firmware t img fname"

fun registry_blink :: "driver \<Rightarrow> transport \<Rightarrow> u32 option \<Rightarrow> unit dev_io" where
  "registry_blink D_WiFred t count =
     (case t of
        T_Bytes \<Rightarrow> dev_fail (DE_Other ''wifred identify requires an HTTP transport'')
      | T_Http d \<Rightarrow>
          dev_bind (dev_request d (http_get (identify_request count))) (\<lambda>_. dev_return ()))"
| "registry_blink D_LongFred t count =
     dev_fail (DE_Other ''LongFred has no LED identify in programming mode'')"
| "registry_blink D_Fred t count = dev_fail (DE_Other ''FRED has no LED identify over Z21 LAN'')"
| "registry_blink D_Rb23xx t count = dev_fail (DE_Other ''RB23xx has no LED identify over Soft-AP'')"

lemma driver_from_id_str: "driver_from_id (driver_id_str d) = Some d"
  by (cases d) (simp_all add: driver_from_id_def)

lemma driver_from_id_Some: "driver_from_id s = Some d \<Longrightarrow> s = driver_id_str d"
  by (auto simp: driver_from_id_def split: if_splits)

lemma prefixes_disjoint:
  "starts_with ssid LONGFRED_SSID_PREFIX \<Longrightarrow> \<not> starts_with ssid WIFRED_SSID_PREFIX"
  "p \<in> set RB23XX_SSID_PREFIXES \<Longrightarrow> starts_with ssid p \<Longrightarrow>
     \<not> starts_with ssid WIFRED_SSID_PREFIX \<and> \<not> starts_with ssid LONGFRED_SSID_PREFIX"
  by (cases ssid; auto simp: LONGFRED_SSID_PREFIX_def WIFRED_SSID_PREFIX_def RB23XX_SSID_PREFIXES_def)+

section \<open>Properties\<close>

lemma registry_identify_unique:
  assumes "registry_identify obs = Some c"
  shows "ob_ssid obs = Some (dc_label c) \<and> dc_rssi c = ob_rssi obs
       \<and> dc_key c = (case ob_bssid obs of Some b \<Rightarrow> b | None \<Rightarrow> dc_label c)
       \<and> (\<exists>d. driver_from_id (dc_driver c) = Some d
            \<and> (case d of D_WiFred \<Rightarrow> wifred_identify obs = Some c \<and> longfred_identify obs = None \<and> rb23xx_identify obs = None
               | D_LongFred \<Rightarrow> longfred_identify obs = Some c \<and> wifred_identify obs = None \<and> rb23xx_identify obs = None
               | D_Rb23xx \<Rightarrow> rb23xx_identify obs = Some c \<and> wifred_identify obs = None \<and> longfred_identify obs = None
               | D_Fred \<Rightarrow> False))"
proof -
  consider (l) "longfred_identify obs = Some c" | (w) "longfred_identify obs = None" "wifred_identify obs = Some c"
    | (r) "longfred_identify obs = None" "wifred_identify obs = None" "rb23xx_identify obs = Some c"
    using assms by (auto simp: registry_identify_def split: option.splits)
  then show ?thesis
  proof cases
    case l
    note c = longfred.ident_sound [OF l]
    then have "starts_with (dc_label c) LONGFRED_SSID_PREFIX" by (simp add: longfred_filters_def)
    then have "wifred_identify obs = None" "rb23xx_identify obs = None"
      using c wifred.ident_iff [of obs] rb23xx.ident_iff [of obs] prefixes_disjoint
      by (auto simp: wifred_filters_def rb23xx_filters_def)
    with l c show ?thesis
      by (intro conjI exI [of _ D_LongFred]) (auto simp: driver_from_id_def)
  next
    case w
    note c = wifred.ident_sound [OF w(2)]
    then have "starts_with (dc_label c) WIFRED_SSID_PREFIX" by (simp add: wifred_filters_def)
    then have "rb23xx_identify obs = None"
      using c rb23xx.ident_iff [of obs] prefixes_disjoint by (auto simp: rb23xx_filters_def)
    with w c show ?thesis
      by (intro conjI exI [of _ D_WiFred]) (auto simp: driver_from_id_def)
  next
    case r
    with rb23xx.ident_sound [OF r(3)] show ?thesis
      by (intro conjI exI [of _ D_Rb23xx]) (auto simp: driver_from_id_def)
  qed
qed

text \<open>Driver ids and driver tags correspond one to one, and \<open>hello\<close> advertises for each
  driver the firmware modes it accepts: a mode is listed on the wire exactly when the driver
  has firmware support and its policy allows the mode (never Z21).\<close>

lemma driver_ids_and_modes:
  "(driver_from_id s = Some d \<longleftrightarrow> s = driver_id_str d)
 \<and> (m \<in> set (cw_firmware_modes (capabilities_to_wire (registry_capabilities d))) \<longleftrightarrow>
      (\<exists>fw. dcap_firmware (registry_capabilities d) = Some fw \<and> fw_allows fw m))
 \<and> map di_id driver_infos = map (driver_id_str \<circ> fst) registry_drivers
 \<and> (d, registry_capabilities d) \<in> set registry_drivers"
proof (intro conjI)
  show "driver_from_id s = Some d \<longleftrightarrow> s = driver_id_str d"
    using driver_from_id_str driver_from_id_Some by auto
  show "m \<in> set (cw_firmware_modes (capabilities_to_wire (registry_capabilities d))) \<longleftrightarrow>
      (\<exists>fw. dcap_firmware (registry_capabilities d) = Some fw \<and> fw_allows fw m)"
    by (cases "dcap_firmware (registry_capabilities d)")
      (simp_all add: capabilities_to_wire_def to_reach_modes_allow fw_allows_def)
  show "map di_id driver_infos = map (driver_id_str \<circ> fst) registry_drivers"
    by (simp add: driver_infos_def split_def)
  show "(d, registry_capabilities d) \<in> set registry_drivers"
    by (cases d) (simp_all add: registry_drivers_def)
qed

text \<open>One upload hands the HTTP client at most one request, whatever the driver, the transport and the
  device; the attempts that the client makes of it are bounded by its retry loop.\<close>

lemma firmware_one_request:
  "\<exists>qs. requests (snd (registry_update_firmware drv t img fname tr)) = requests tr @ qs \<and> length qs \<le> 1"
  using wifred.update_at_most_one longfred.update_at_most_one fred.update_at_most_one
    rb23xx.update_at_most_one
  by (cases drv) simp_all

text \<open>An upload succeeds only on a driver with firmware support, over HTTP, and when the device
  accepted the POST of the image.\<close>

lemma registry_update_accepted:
  assumes "is_ok (fst (registry_update_firmware drv t img fname tr))"
  shows "supports_firmware_update drv \<and> (\<exists>d pre q reply. t = T_Http d \<and> d (tr @ pre) q = Inr reply
       \<and> hq_method q = ''POST'' \<and> map_option snd (hq_body q) = Some img)"
  using assms wifred.update_accepted longfred.update_accepted fred.update_accepted rb23xx.update_accepted
  unfolding supports_firmware_update_def by (cases drv) (simp_all del: not_None_eq)

end
