(* ===== verification/Wp_Mdns.thy ===== *)
theory Wp_Mdns
  imports Wp_Core
begin

text \<open>
  The mDNS reader of \<open>crates/wp-link/src/mdns.rs\<close>: DNS names with compression pointers, the
  walk over the records of a packet, the query, the announcement LongFred sends, and the
  collection of hosts over the datagrams received before the deadline.
\<close>

section \<open>Names\<close>

definition get_byte :: "string \<Rightarrow> nat \<Rightarrow> nat option" where
  "get_byte pkt off = (if off < length pkt then Some (byte (pkt ! off)) else None)"

definition be16 :: "string \<Rightarrow> nat \<Rightarrow> nat option" where
  "be16 pkt off =
     (case get_byte pkt off of
        None \<Rightarrow> None
      | Some a \<Rightarrow> (case get_byte pkt (off + 1) of None \<Rightarrow> None | Some b \<Rightarrow> Some (a * 256 + b)))"

text \<open>
  The loop of \<open>read_name\<close>: collected labels, the offset after the first pointer, and the
  number of pointers followed, which may reach 16.
\<close>

function read_name_from ::
    "string \<Rightarrow> nat \<Rightarrow> string list \<Rightarrow> nat option \<Rightarrow> nat \<Rightarrow> (string \<times> nat) option" where
  "read_name_from pkt off labels next_after jumps =
     (case get_byte pkt off of
        None \<Rightarrow> None
      | Some len \<Rightarrow>
          if len = 0 then
            Some (join ''.'' labels, (case next_after of Some n \<Rightarrow> n | None \<Rightarrow> off + 1))
          else if 192 \<le> len then
            (case get_byte pkt (off + 1) of
               None \<Rightarrow> None
             | Some lo \<Rightarrow>
                 if jumps + 1 > 16 then None
                 else read_name_from pkt ((len mod 64) * 256 + lo) labels
                        (case next_after of Some n \<Rightarrow> Some n | None \<Rightarrow> Some (off + 2)) (jumps + 1))
          else if off + 1 + len \<le> length pkt then
            read_name_from pkt (off + 1 + len)
              (labels @ [from_utf8_lossy (take len (drop (off + 1) pkt))]) next_after jumps
          else None)"
  by pat_completeness auto
termination
  by (relation "measures [\<lambda>(pkt, off, labels, na, jumps). 16 - jumps,
                          \<lambda>(pkt, off, labels, na, jumps). length pkt - off]")
    (auto simp: get_byte_def split: if_splits)

declare read_name_from.simps [simp del]

definition read_name :: "string \<Rightarrow> nat \<Rightarrow> (string \<times> nat) option" where
  "read_name pkt start = read_name_from pkt start [] None 0"

fun skip_questions :: "string \<Rightarrow> nat \<Rightarrow> nat \<Rightarrow> nat option" where
  "skip_questions pkt off 0 = Some off"
| "skip_questions pkt off (Suc qd) =
     (case read_name pkt off of
        None \<Rightarrow> None
      | Some (_, nend) \<Rightarrow>
          if nend + 4 > usize_max then None else skip_questions pkt (nend + 4) qd)"

section \<open>Records\<close>

record ota_host =
  oh_hostname :: string
  oh_ipv4 :: ipv4
  oh_port :: u16

definition TYPE_A :: nat where
  "TYPE_A = 1"

definition TYPE_SRV :: nat where
  "TYPE_SRV = 33"

definition first_label :: "string \<Rightarrow> string" where
  "first_label name = hd (split_char (CHR ''.'') name)"

definition a_record :: "string \<Rightarrow> nat \<Rightarrow> ipv4 option" where
  "a_record pkt rdata =
     (if rdata + 4 \<le> length pkt then Some (map u8_of_char (take 4 (drop rdata pkt))) else None)"

text \<open>The record loop: port and hostname are those of the last SRV record seen.\<close>

fun parse_rrs :: "string \<Rightarrow> nat \<Rightarrow> nat \<Rightarrow> u16 \<Rightarrow> string \<Rightarrow> ota_host list" where
  "parse_rrs pkt 0 off port hostname = []"
| "parse_rrs pkt (Suc n) off port hostname =
     (case read_name pkt off of
        None \<Rightarrow> []
      | Some (name, nend) \<Rightarrow>
          (case be16 pkt nend of
             None \<Rightarrow> []
           | Some typ \<Rightarrow>
               (case be16 pkt (nend + 8) of
                  None \<Rightarrow> []
                | Some rdlen \<Rightarrow>
                    let rdata = nend + 10;
                        off' = min (rdata + rdlen) usize_max;
                        srv = (typ = TYPE_SRV \<and> rdlen \<ge> 6);
                        port' = (if srv then (case be16 pkt (rdata + 4) of Some p \<Rightarrow> of_nat p | None \<Rightarrow> port)
                                 else port);
                        hostname' = (if srv then first_label name else hostname);
                        here = (if typ = TYPE_A \<and> rdlen = 4 then
                                  (case a_record pkt rdata of
                                     None \<Rightarrow> []
                                   | Some ip \<Rightarrow>
                                       [\<lparr>oh_hostname = (if hostname' = [] then first_label name else hostname'),
                                         oh_ipv4 = ip, oh_port = port'\<rparr>])
                                else [])
                    in here @ parse_rrs pkt n off' port' hostname')))"

definition parse_ota_hosts :: "string \<Rightarrow> ota_host list" where
  "parse_ota_hosts pkt =
     (if length pkt < 12 then []
      else
        let cnt = (\<lambda>off. case be16 pkt off of Some v \<Rightarrow> v | None \<Rightarrow> 0);
            sat = (\<lambda>a b. min (a + b) 65535)
        in case skip_questions pkt 12 (cnt 4) of
             None \<Rightarrow> []
           | Some off \<Rightarrow> parse_rrs pkt (sat (sat (cnt 6) (cnt 8)) (cnt 10)) off 80 [])"

datatype mdns_recv = MR_Packet string | MR_Err io_error

fun collect_hosts :: "mdns_recv list \<Rightarrow> ota_host list \<Rightarrow> io_error + ota_host list" where
  "collect_hosts [] found = Inr found"
| "collect_hosts (MR_Packet p # ts) found =
     collect_hosts ts
       (fold (\<lambda>h f. if list_ex (\<lambda>e. oh_ipv4 e = oh_ipv4 h \<and> oh_port e = oh_port h) f then f else f @ [h])
         (parse_ota_hosts p) found)"
| "collect_hosts (MR_Err e # ts) found =
     (if ioe_kind e = IOK_WouldBlock \<or> ioe_kind e = IOK_TimedOut then collect_hosts ts found else Inl e)"

text \<open>
  \<open>discover_mdns_hosts\<close> over a listener that is a parameter: its error, or what it receives
  before the deadline. The service only goes into the query.
\<close>

definition label_byte :: "string \<Rightarrow> char" where
  "label_byte l = (if length l < 256 then char_of (length l) else char_of (0 :: nat))"

definition put_name :: "string list \<Rightarrow> string" where
  "put_name labels = concat (map (\<lambda>l. label_byte l # l) labels) @ [CHR 0x00]"

definition ptr_query :: "string \<Rightarrow> string" where
  "ptr_query service =
     map char_of [0 :: nat, 0, 0, 0, 0, 1, 0, 0, 0, 0, 0, 0]
     @ put_name (split_char (CHR ''.'') service) @ map char_of [0 :: nat, 12, 0, 1]"

definition discover_mdns_hosts ::
    "string \<Rightarrow> io_error + mdns_recv list \<Rightarrow> (io_error + ota_host list) \<times> string list" where
  "discover_mdns_hosts service listener =
     (case listener of
        Inl e \<Rightarrow> (Inl e, [])
      | Inr turns \<Rightarrow> (collect_hosts turns [], [ptr_query service]))"

section \<open>The announcement\<close>

definition name_len :: "string list \<Rightarrow> nat" where
  "name_len labels = sum_list (map (\<lambda>l. 1 + length l) labels) + 1"

definition be16_bytes :: "nat \<Rightarrow> string" where
  "be16_bytes n = (if n < 65536 then [char_of (n div 256), char_of (n mod 256)] else [CHR 0x00, CHR 0x00])"

definition rr_head :: "nat \<Rightarrow> nat \<Rightarrow> string" where
  "rr_head typ rdlen = map char_of [0, typ, 0, 1, 0, 0, 0, 120] @ be16_bytes rdlen"

definition encode_ota_announce :: "string \<Rightarrow> ipv4 \<Rightarrow> u16 \<Rightarrow> string" where
  "encode_ota_announce hostname ip port =
     (let service = [''_longfred-ota'', ''_tcp'', ''local''];
          inst = hostname # service;
          target = [hostname, ''local'']
      in map char_of [0 :: nat, 0, 132, 0, 0, 0, 0, 3, 0, 0, 0, 0]
         @ put_name service @ rr_head 12 (name_len inst) @ put_name inst
         @ put_name inst @ rr_head 33 (6 + name_len target)
         @ map char_of [0 :: nat, 0, 0, 0] @ u16_be_bytes port @ put_name target
         @ put_name target @ rr_head 1 4 @ map char_of_u8 ip)"

section \<open>Lemmas\<close>

definition label_ok :: "string \<Rightarrow> bool" where
  "label_ok l \<longleftrightarrow> l \<noteq> [] \<and> length l < 192 \<and> is_ascii l"

lemma get_byte_at: "length pre = off \<Longrightarrow> get_byte (pre @ c # rest) off = Some (byte c)"
  by (auto simp: get_byte_def)

lemma read_labels:
  assumes "list_all label_ok ls" and "pkt = pre @ put_name ls @ rest"
  shows "read_name_from pkt (length pre) acc na j
    = Some (join ''.'' (acc @ ls), (case na of Some n \<Rightarrow> n | None \<Rightarrow> length pre + name_len ls))"
  using assms
proof (induction ls arbitrary: pre acc)
  case Nil
  then have "get_byte pkt (length pre) = Some 0" by (simp add: put_name_def get_byte_at)
  then show ?case by (subst read_name_from.simps) (simp add: name_len_def split: option.split)
next
  case (Cons l ls)
  have l: "l \<noteq> []" "length l < 192" "is_ascii l" using Cons.prems(1) by (auto simp: label_ok_def)
  have pkt: "pkt = pre @ label_byte l # l @ put_name ls @ rest"
    using Cons.prems(2) by (simp add: put_name_def)
  have b: "get_byte pkt (length pre) = Some (length l)"
    using l(2) unfolding pkt by (simp add: get_byte_at label_byte_def)
  have "take (length l) (drop (length pre + 1) pkt) = l" unfolding pkt by simp
  moreover have "length pre + 1 + length l \<le> length pkt" unfolding pkt by simp
  ultimately have "read_name_from pkt (length pre) acc na j
      = read_name_from pkt (length pre + 1 + length l) (acc @ [l]) na j"
    using b l by (subst read_name_from.simps) (simp add: from_utf8_lossy_ascii)
  also have "\<dots> = read_name_from pkt (length (pre @ label_byte l # l)) (acc @ [l]) na j" by simp
  also have "\<dots> = Some (join ''.'' ((acc @ [l]) @ ls),
      (case na of Some n \<Rightarrow> n | None \<Rightarrow> length (pre @ label_byte l # l) + name_len ls))"
    by (rule Cons.IH) (use Cons.prems(1) pkt in auto)
  finally show ?case by (simp add: name_len_def split: option.split)
qed

lemma read_name_put:
  assumes "list_all label_ok ls" and "pkt = pre @ put_name ls @ rest" and "off = length pre"
  shows "read_name pkt off = Some (join ''.'' ls, off + name_len ls)"
  using read_labels [OF assms(1,2), of "[]" None 0] assms(3) by (simp add: read_name_def)

lemma length_put_name: "length (put_name ls) = name_len ls"
  by (simp add: put_name_def name_len_def length_concat comp_def)

lemma be16_at:
  assumes "n < 65536" and "pkt = pre @ [char_of (n div 256), char_of (n mod 256)] @ rest"
    and "off = length pre"
  shows "be16 pkt off = Some n"
proof -
  have a: "get_byte pkt off = Some (byte (char_of (n div 256) :: char))"
    unfolding assms(2,3) by (simp add: get_byte_at)
  have "get_byte ((pre @ [char_of (n div 256)]) @ char_of (n mod 256) # rest) (off + 1)
      = Some (byte (char_of (n mod 256) :: char))"
    by (rule get_byte_at) (simp add: assms(3))
  then have b: "get_byte pkt (off + 1) = Some (byte (char_of (n mod 256) :: char))"
    unfolding assms(2) by simp
  have "n div 256 < 256" using assms(1) by (simp add: div_less_iff_less_mult)
  then show ?thesis unfolding be16_def a b by (simp add: div_mult_mod_eq)
qed

lemma length_rr_head [simp]: "length (rr_head t n) = 10"
  by (simp add: rr_head_def be16_bytes_def)

text \<open>One record of the walk.\<close>

lemma parse_rr:
  fixes port :: u16 and hostname :: string
  assumes ls: "list_all label_ok ls" and t: "t < 256" and n: "length rd < 65536"
    and pkt: "pkt = pre @ put_name ls @ rr_head t (length rd) @ rd @ rest"
    and fits: "length pkt \<le> usize_max"
  defines "rdata \<equiv> length pre + name_len ls + 10"
    and "srv \<equiv> (t = TYPE_SRV \<and> length rd \<ge> 6)"
  defines "port' \<equiv> (if srv then (case be16 pkt (rdata + 4) of Some p \<Rightarrow> of_nat p | None \<Rightarrow> port) else port)"
    and "hostname' \<equiv> (if srv then first_label (join ''.'' ls) else hostname)"
  shows "parse_rrs pkt (Suc k) (length pre) port hostname =
     (if t = TYPE_A \<and> length rd = 4 then
        [\<lparr>oh_hostname = (if hostname' = [] then first_label (join ''.'' ls) else hostname'),
          oh_ipv4 = map u8_of_char rd, oh_port = port'\<rparr>]
      else [])
     @ parse_rrs pkt k (length (pre @ put_name ls @ rr_head t (length rd) @ rd)) port' hostname'"
proof -
  let ?e0 = "length pre + name_len ls"
  have nm: "read_name pkt (length pre) = Some (join ''.'' ls, ?e0)"
    by (rule read_name_put [OF ls pkt refl])
  have tp: "be16 pkt ?e0 = Some t"
  proof (rule be16_at)
    show "t < 65536" using t by simp
    have "t div 256 = 0" "t mod 256 = t" using t by auto
    then show "pkt = (pre @ put_name ls) @ [char_of (t div 256), char_of (t mod 256)]
        @ (map char_of [0 :: nat, 1, 0, 0, 0, 120] @ be16_bytes (length rd) @ rd @ rest)"
      unfolding pkt rr_head_def by (simp del: char_of_mod_256)
    show "?e0 = length (pre @ put_name ls)" by (simp add: length_put_name)
  qed
  have len: "be16 pkt (?e0 + 8) = Some (length rd)"
  proof (rule be16_at [OF n])
    show "pkt = (pre @ put_name ls @ map char_of [0, t, 0, 1, 0, 0, 0, 120])
        @ [char_of (length rd div 256), char_of (length rd mod 256)] @ (rd @ rest)"
      unfolding pkt rr_head_def be16_bytes_def using n by simp
    show "?e0 + 8 = length (pre @ put_name ls @ map char_of [0, t, 0, 1, 0, 0, 0, 120])"
      by (simp add: length_put_name)
  qed
  have rdata: "rdata = length (pre @ put_name ls @ rr_head t (length rd))"
    by (simp add: rdata_def length_put_name)
  have ip: "a_record pkt rdata = Some (map u8_of_char rd)" if "length rd = 4"
    using that unfolding a_record_def rdata pkt by simp
  have "rdata + length rd \<le> length pkt" unfolding rdata pkt by simp
  then have off: "min (rdata + length rd) usize_max = length (pre @ put_name ls @ rr_head t (length rd) @ rd)"
    using fits unfolding rdata by (simp add: min_def)
  show ?thesis
    unfolding parse_rrs.simps nm tp len option.case prod.case Let_def
    unfolding rdata_def [symmetric] srv_def [symmetric] port'_def [symmetric] hostname'_def [symmetric] off
    using ip by auto
qed

declare parse_rrs.simps(2) [simp del]

text \<open>A packet without questions: only the record counts of its head matter.\<close>

lemma parse_answer_packet:
  assumes "n < 256"
  shows "parse_ota_hosts (map char_of [0, 0, 132, 0, 0, 0, 0, n, 0, 0, 0, 0] @ body)
    = parse_rrs (map char_of [0, 0, 132, 0, 0, 0, 0, n, 0, 0, 0, 0] @ body) n 12 80 []"
proof -
  let ?p = "map char_of [0, 0, 132, 0, 0, 0, 0, n, 0, 0, 0, 0] @ body"
  have "be16 ?p 4 = Some 0" "be16 ?p 6 = Some n" "be16 ?p 8 = Some 0" "be16 ?p 10 = Some 0"
    using assms by (simp_all add: be16_def get_byte_def)
  then show ?thesis using assms by (simp add: parse_ota_hosts_def Let_def)
qed

lemma first_label_join: "CHR ''.'' \<notin> set h \<Longrightarrow> first_label (join ''.'' (h # ls)) = h"
  by (cases ls) (simp_all add: first_label_def split_char_clean split_char_append)

lemma map_u8_inverse [simp]: "map (u8_of_char \<circ> char_of_u8) ip = ip"
  by (induction ip) (simp_all add: u8_char_inverse)

section \<open>Properties\<close>

text \<open>The reader understands LongFred's announcement: for every host name that is one DNS
  label (ASCII, no dot, shorter than 192 bytes), every IPv4 address and every port, parsing the
  announcement gives exactly that one host.\<close>

lemma ota_announce_roundtrip:
  assumes "label_ok h" and "CHR ''.'' \<notin> set h" and "length ip = 4"
  shows "parse_ota_hosts (encode_ota_announce h ip port)
    = [\<lparr>oh_hostname = h, oh_ipv4 = ip, oh_port = port\<rparr>]"
proof -
  define service inst target where "service = [''_longfred-ota'', ''_tcp'', ''local'']"
    and "inst = h # service" and "target = [h, ''local'']"
  define hdr :: string where "hdr = map char_of [0 :: nat, 0, 132, 0, 0, 0, 0, 3, 0, 0, 0, 0]"
  define rd1 rd2 rd3 where "rd1 = put_name inst"
    and "rd2 = map char_of [0 :: nat, 0, 0, 0] @ u16_be_bytes port @ put_name target"
    and "rd3 = map char_of_u8 ip"
  define r1 r2 r3 where "r1 = put_name service @ rr_head 12 (length rd1) @ rd1"
    and "r2 = put_name inst @ rr_head 33 (length rd2) @ rd2"
    and "r3 = put_name target @ rr_head 1 (length rd3) @ rd3"
  define pkt where "pkt = encode_ota_announce h ip port"
  have hl: "length h < 192" using assms(1) by (simp add: label_ok_def)
  have lens: "length rd1 = name_len inst" "length rd2 = 6 + name_len target" "length rd3 = 4"
    using assms(3) by (simp_all add: rd1_def rd2_def rd3_def length_put_name u16_be_bytes_def)
  have pkt: "pkt = hdr @ r1 @ r2 @ r3"
    unfolding pkt_def encode_ota_announce_def Let_def r1_def r2_def r3_def lens
    by (simp add: hdr_def rd1_def rd2_def rd3_def service_def inst_def target_def)
  have svc: "list_all label_ok service" by (simp add: service_def label_ok_def is_ascii_def)
  then have inst: "list_all label_ok inst" and target: "list_all label_ok target"
    using assms(1) by (simp_all add: inst_def target_def label_ok_def is_ascii_def)
  have nl: "name_len inst < 65000" "name_len target < 65000" "name_len service < 100"
    using hl by (simp_all add: inst_def target_def service_def name_len_def)
  then have fits: "length pkt \<le> usize_max"
    unfolding pkt by (simp add: r1_def r2_def r3_def lens length_put_name hdr_def usize_max_def)
  have small: "length rd1 < 65536" "length rd2 < 65536" "length rd3 < 65536"
    unfolding lens using nl by simp_all
  have srv_port: "be16 pkt (length (hdr @ r1) + name_len inst + 10 + 4) = Some (unat port)"
  proof (rule be16_at)
    show "unat port < 65536" by (rule unat_u16_less)
    show "pkt = (hdr @ r1 @ put_name inst @ rr_head 33 (length rd2) @ map char_of [0 :: nat, 0, 0, 0])
        @ [char_of (unat port div 256), char_of (unat port mod 256)] @ (put_name target @ r3)"
      unfolding pkt r2_def by (simp add: rd2_def u16_be_bytes_def)
    show "length (hdr @ r1) + name_len inst + 10 + 4
        = length (hdr @ r1 @ put_name inst @ rr_head 33 (length rd2) @ map char_of [0 :: nat, 0, 0, 0])"
      by (simp add: length_put_name)
  qed
  have p1: "pkt = hdr @ put_name service @ rr_head 12 (length rd1) @ rd1 @ (r2 @ r3)"
    and p2: "pkt = (hdr @ r1) @ put_name inst @ rr_head 33 (length rd2) @ rd2 @ r3"
    and p3: "pkt = ((hdr @ r1) @ r2) @ put_name target @ rr_head 1 (length rd3) @ rd3 @ []"
    unfolding pkt by (simp_all add: r1_def r2_def r3_def)
  have s1: "parse_rrs pkt (Suc 2) (length hdr) 80 [] = parse_rrs pkt 2 (length (hdr @ r1)) 80 []"
    using parse_rr [OF svc _ small(1) p1 fits, where port = 80 and hostname = "[]" and k = 2]
    by (simp add: TYPE_SRV_def TYPE_A_def r1_def)
  have name: "first_label (join ''.'' inst) = h"
    unfolding inst_def by (rule first_label_join [OF assms(2)])
  have s2: "parse_rrs pkt (Suc 1) (length (hdr @ r1)) 80 []
      = parse_rrs pkt 1 (length ((hdr @ r1) @ r2)) port h"
    using parse_rr [OF inst _ small(2) p2 fits, where port = 80 and hostname = "[]" and k = 1] srv_port name
    by (simp add: TYPE_SRV_def TYPE_A_def lens r2_def)
  have s3: "parse_rrs pkt (Suc 0) (length ((hdr @ r1) @ r2)) port h
      = [\<lparr>oh_hostname = h, oh_ipv4 = ip, oh_port = port\<rparr>]"
    using parse_rr [OF target _ small(3) p3 fits, where port = port and hostname = h and k = 0] assms(1) lens(3)
    by (simp add: TYPE_SRV_def TYPE_A_def label_ok_def rd3_def)
  have "parse_ota_hosts pkt = parse_rrs pkt 3 12 80 []"
    unfolding pkt hdr_def by (rule parse_answer_packet) simp
  moreover have "length hdr = 12" by (simp add: hdr_def)
  ultimately show ?thesis using s1 s2 s3 by (simp add: numeral_3_eq_3 numeral_2_eq_2 pkt_def)
qed

lemma mdns_foreign_host_accepted:
  assumes "list_all label_ok (l # ls)" and "CHR ''.'' \<notin> set l" and "length ip = 4"
    and "name_len (l # ls) < 256"
  defines "pkt \<equiv> map char_of [0 :: nat, 0, 132, 0, 0, 0, 0, 1, 0, 0, 0, 0]
     @ put_name (l # ls) @ rr_head 1 4 @ map char_of_u8 ip"
  shows "fst (discover_mdns_hosts service (Inr [MR_Packet pkt]))
    = Inr [\<lparr>oh_hostname = l, oh_ipv4 = ip, oh_port = 80\<rparr>]"
proof -
  let ?hdr = "map char_of [0 :: nat, 0, 132, 0, 0, 0, 0, 1, 0, 0, 0, 0] :: string"
  have pkt: "pkt = ?hdr @ put_name (l # ls) @ rr_head 1 (length (map char_of_u8 ip)) @ map char_of_u8 ip @ []"
    using assms(3) by (simp add: pkt_def)
  have "length pkt \<le> usize_max"
    using assms(3,4) by (simp add: pkt_def length_put_name usize_max_def)
  from parse_rr [OF assms(1) _ _ pkt this, of 0 80 "[]"] assms(3) first_label_join [OF assms(2), of ls]
  have "parse_rrs pkt (Suc 0) (length ?hdr) 80 [] = [\<lparr>oh_hostname = l, oh_ipv4 = ip, oh_port = 80\<rparr>]"
    by (simp add: TYPE_A_def TYPE_SRV_def)
  moreover have "length ?hdr = 12" by simp
  ultimately have "parse_rrs pkt (Suc 0) 12 80 [] = [\<lparr>oh_hostname = l, oh_ipv4 = ip, oh_port = 80\<rparr>]"
    by metis
  moreover have "parse_ota_hosts pkt = parse_rrs pkt 1 12 80 []"
    unfolding pkt_def by (rule parse_answer_packet) simp
  ultimately show ?thesis by (simp add: discover_mdns_hosts_def)
qed

end
