(* ===== verification/Wp_Espflash.thy ===== *)
theory Wp_Espflash
  imports Wp_Http
begin

text \<open>
  Firmware images and the \<open>espflash\<close> command line (\<open>crates/wp-link/src/espflash.rs\<close>):
  classification of an image, the arguments it is flashed with, the reading of
  \<open>espflash list-ports\<close>, and the supervision of the child process. The file system and the
  child process are parameters.
\<close>

section \<open>Images\<close>

definition OTA0_OFFSET :: u32 where
  "OTA0_OFFSET = 0x10000"

datatype image_kind = IK_Elf | IK_AppBin u32 | IK_MergedBin u32

definition file_name_lower :: "string \<Rightarrow> string" where
  "file_name_lower p =
     (case path_file_name p of None \<Rightarrow> [] | Some n \<Rightarrow> to_ascii_lowercase (from_utf8_lossy n))"

definition elf_magic :: string where
  "elf_magic = [CHR 0x7F, CHR ''E'', CHR ''L'', CHR ''F'']"

definition classify_image :: "string \<Rightarrow> string \<Rightarrow> nat \<Rightarrow> string + image_kind" where
  "classify_image path header file_len =
     (if starts_with header elf_magic then Inr IK_Elf
      else
        let name = file_name_lower path in
        if ends_with name ''.app.bin'' then Inr (IK_AppBin OTA0_OFFSET)
        else if \<not> starts_with header [CHR 0xE9] then
          Inl (path @ '' is not an ELF or ESP32 image (expected ELF magic or 0xE9)'')
        else if ends_with name ''.bin'' \<and> file_len > unat OTA0_OFFSET then Inr (IK_MergedBin 0)
        else Inr (IK_AppBin OTA0_OFFSET))"

record file_system =
  fs_is_file :: "string \<Rightarrow> bool"
  fs_read :: "string \<Rightarrow> io_error + string"
  fs_len :: "string \<Rightarrow> nat option"

definition resolve_partition_table :: "file_system \<Rightarrow> string \<Rightarrow> string option \<Rightarrow> string option" where
  "resolve_partition_table fs img explicit =
     (case (case explicit of None \<Rightarrow> None | Some p \<Rightarrow> if fs_is_file fs p then Some p else None) of
        Some p \<Rightarrow> Some p
      | None \<Rightarrow>
          (case path_parent img of
             None \<Rightarrow> None
           | Some dir \<Rightarrow>
               find (fs_is_file fs)
                 (map (path_join dir) [''partitions.csv'', ''partition-table.csv''])))"

definition before_reset :: "string \<Rightarrow> string" where
  "before_reset port =
     (if contains port ''ttyACM'' \<or> contains port ''usbmodem'' then ''usb-reset'' else ''default-reset'')"

definition flash_common :: "string \<Rightarrow> string \<Rightarrow> string list" where
  "flash_common sub port =
     [sub, ''--non-interactive'', ''--skip-update-check'', ''--chip'', ''esp32c6'', ''--port'', port,
      ''--before'', before_reset port]"

definition flash_argv :: "image_kind \<Rightarrow> string \<Rightarrow> string \<Rightarrow> string option \<Rightarrow> string + string list" where
  "flash_argv kind port img table =
     (case kind of
        IK_Elf \<Rightarrow>
          (case table of
             None \<Rightarrow> Inl ''ELF USB flash needs --partition-table (LongFred partitions.csv)''
           | Some t \<Rightarrow>
               Inr (flash_common ''flash'' port @ [''--flash-size'', ''8mb'', ''--partition-table'', t, img]))
      | IK_AppBin offset \<Rightarrow>
          Inr (flash_common ''write-bin'' port @ [''0x'' @ show_hex (unat offset), img])
      | IK_MergedBin offset \<Rightarrow>
          Inr (flash_common ''write-bin'' port @ [''0x'' @ show_hex (unat offset), img]))"

section \<open>Ports\<close>

record usb_port =
  up_path :: string
  up_label :: string

definition looks_like_serial_path :: "string \<Rightarrow> bool" where
  "looks_like_serial_path path =
     (let name = file_name_lower path in
      starts_with name ''ttyusb'' \<or> starts_with name ''ttyacm'' \<or> starts_with name ''cu.usb''
      \<or> starts_with name ''cu.wch'' \<or> starts_with path ''/dev/'')"

definition port_from_path :: "string \<Rightarrow> usb_port" where
  "port_from_path path =
     \<lparr>up_path = path,
      up_label = (case path_file_name path of Some n \<Rightarrow> from_utf8_lossy n | None \<Rightarrow> path)\<rparr>"

definition parse_list_ports_output :: "string \<Rightarrow> usb_port list" where
  "parse_list_ports_output stdout =
     List.map_filter
       (\<lambda>line. let path = trim line in
          if path = [] \<or> starts_with path ''#'' then None
          else if \<not> looks_like_serial_path path then None
          else Some (port_from_path path))
       (lines stdout)"

text \<open>Byte-wise comparison of strings, as \<open>String\<close> orders them.\<close>

fun str_le :: "string \<Rightarrow> string \<Rightarrow> bool" where
  "str_le [] t = True"
| "str_le (c # s) [] = False"
| "str_le (c # s) (d # t) = (byte c < byte d \<or> (c = d \<and> str_le s t))"

fun insert_port :: "usb_port \<Rightarrow> usb_port list \<Rightarrow> usb_port list" where
  "insert_port p [] = [p]"
| "insert_port p (q # qs) = (if str_le (up_path p) (up_path q) then p # q # qs else q # insert_port p qs)"

text \<open>\<open>dedup_by\<close>: of neighbours with the same path the first stays.\<close>

fun dedup_ports :: "usb_port list \<Rightarrow> usb_port list" where
  "dedup_ports (p # q # ps) =
     (if up_path p = up_path q then dedup_ports (p # ps) else p # dedup_ports (q # ps))"
| "dedup_ports ps = ps"

text \<open>The entries of \<open>/dev\<close> are a parameter; \<open>None\<close> when the directory cannot be read.\<close>

definition list_dev_serial_nodes :: "string list option \<Rightarrow> usb_port list" where
  "list_dev_serial_nodes entries =
     (case entries of
        None \<Rightarrow> []
      | Some ns \<Rightarrow>
          dedup_ports (foldr insert_port
            (map (\<lambda>n. port_from_path (''/dev/'' @ n))
              (filter (\<lambda>n. starts_with n ''ttyUSB'' \<or> starts_with n ''ttyACM'') (map from_utf8_lossy ns))) []))"

text \<open>\<open>espflash list-ports\<close> ran with this output if it succeeded.\<close>

definition list_usb_ports :: "string option \<Rightarrow> string list option \<Rightarrow> usb_port list" where
  "list_usb_ports out entries =
     (case out of
        Some stdout \<Rightarrow>
          (let parsed = parse_list_ports_output (from_utf8_lossy stdout)
           in if parsed = [] then list_dev_serial_nodes entries else parsed)
      | None \<Rightarrow> list_dev_serial_nodes entries)"

section \<open>Flashing\<close>

text \<open>What one poll of the child sees.\<close>

datatype child_turn =
  CT_Exited bool string string
| CT_Running bool bool
| CT_Error string

definition USB_FLASH_DEADLINE_SECS :: nat where
  "USB_FLASH_DEADLINE_SECS = 180"

text \<open>
  The wait loop: success, standard error and status text of an exit; for a running child
  whether the deadline has passed and whether the cancel flag is set. The result says whether
  the child was killed; \<open>None\<close> while it runs.
\<close>

fun wait_child :: "string \<Rightarrow> child_turn list \<Rightarrow> ((driver_error + unit) \<times> bool) option" where
  "wait_child sub [] = None"
| "wait_child sub (CT_Exited ok err status # ts) =
     (if ok then Some (Inr (), False)
      else if trim err = [] then
        Some (Inl (DE_Other (''espflash '' @ sub @ '' failed ('' @ status @ '')'')), False)
      else Some (Inl (DE_Other (''espflash '' @ sub @ '' failed: '' @ trim err)), False))"
| "wait_child sub (CT_Running late cancelled # ts) =
     (if late then
        Some (Inl (DE_Other (''espflash timed out after '' @ show_nat USB_FLASH_DEADLINE_SECS @ ''s'')), True)
      else if cancelled then Some (Inl DE_Cancelled, True)
      else wait_child sub ts)"
| "wait_child sub (CT_Error e # ts) = Some (Inl (DE_Other (''wait espflash: '' @ e)), False)"

text \<open>The child process: how spawning the argument list goes, and then its polls.\<close>

record process_lib =
  pl_spawn :: "string list \<Rightarrow> io_error option"
  pl_turns :: "string list \<Rightarrow> child_turn list"

definition run_espflash :: "process_lib \<Rightarrow> string list \<Rightarrow> ((driver_error + unit) \<times> bool) option" where
  "run_espflash pl argv =
     (case argv of
        [] \<Rightarrow> Some (Inl (DE_Other ''empty espflash argv''), False)
      | sub # rest \<Rightarrow>
          (case pl_spawn pl argv of
             Some e \<Rightarrow>
               Some (Inl (DE_Other
                 (if ioe_kind e = IOK_NotFound then ''espflash not found in PATH''
                  else ''spawn espflash: '' @ ioe_text e)), False)
           | None \<Rightarrow> wait_child sub (pl_turns pl argv)))"

text \<open>The argument list that \<open>flash\<close> runs, or the error it stops with.\<close>

definition flash_plan :: "file_system \<Rightarrow> string \<Rightarrow> string \<Rightarrow> string option \<Rightarrow> driver_error + string list" where
  "flash_plan fs port img table =
     rbind (map_err (\<lambda>e. DE_Other (ioe_text e)) (fs_read fs img)) (\<lambda>bytes.
       let header = take 16 bytes;
           file_len = max (case fs_len fs img of Some n \<Rightarrow> n | None \<Rightarrow> 0) (length header)
       in rbind (map_err DE_Other (classify_image img header file_len)) (\<lambda>kind.
            map_err DE_Other (flash_argv kind port img (resolve_partition_table fs img table))))"

definition flash_usb ::
    "process_lib \<Rightarrow> file_system \<Rightarrow> string \<Rightarrow> string \<Rightarrow> string option \<Rightarrow> ((driver_error + unit) \<times> bool) option" where
  "flash_usb pl fs port img table =
     (case flash_plan fs port img table of
        Inl e \<Rightarrow> Some (Inl e, False)
      | Inr argv \<Rightarrow> run_espflash pl argv)"

section \<open>Properties\<close>

text \<open>How an image is classified. ELF magic always means ELF; otherwise a name ending in
  \<open>.app.bin\<close> is taken as an app image whatever its first byte is; otherwise the first byte
  must be 0xE9, and a \<open>.bin\<close> longer than 64 KiB is a merged dump for offset 0, anything else
  an app image for the first OTA slot. So an app image goes to offset 0x10000, a merged dump to 0.\<close>

lemma classify_image_cases:
  "classify_image path header n =
     (if take 4 header = elf_magic then Inr IK_Elf
      else if ends_with (file_name_lower path) ''.app.bin'' then Inr (IK_AppBin 0x10000)
      else if take 1 header \<noteq> [CHR 0xE9] then
        Inl (path @ '' is not an ELF or ESP32 image (expected ELF magic or 0xE9)'')
      else if ends_with (file_name_lower path) ''.bin'' \<and> 65536 < n then Inr (IK_MergedBin 0)
      else Inr (IK_AppBin 0x10000))"
proof -
  have len: "length elf_magic = 4" "length [CHR 0xE9] = 1" "unat (0x10000 :: u32) = 65536"
    by (simp_all add: elf_magic_def)
  show ?thesis
    by (simp only: classify_image_def starts_with_take len OTA0_OFFSET_def Let_def)
qed

text \<open>What a USB flash runs. An ELF image is flashed only together with an existing partition
  table (the caller's, or one found next to the image); without one the flash stops before any
  process is started. Every other accepted image is written with \<open>write-bin\<close> at the offset of
  its class.\<close>

lemma flash_plan_spec:
  assumes "flash_plan fs port img table = Inr argv"
  shows "\<exists>bytes kind. fs_read fs img = Inr bytes
       \<and> classify_image img (take 16 bytes)
           (max (case fs_len fs img of Some n \<Rightarrow> n | None \<Rightarrow> 0) (length (take 16 bytes))) = Inr kind
       \<and> (case kind of
            IK_Elf \<Rightarrow> \<exists>t. fs_is_file fs t \<and> argv = flash_common ''flash'' port @
                          [''--flash-size'', ''8mb'', ''--partition-table'', t, img]
          | IK_AppBin off \<Rightarrow> argv = flash_common ''write-bin'' port @ [''0x'' @ show_hex (unat off), img]
          | IK_MergedBin off \<Rightarrow> argv = flash_common ''write-bin'' port @ [''0x'' @ show_hex (unat off), img])"
proof -
  have table: "fs_is_file fs t" if "resolve_partition_table fs img table = Some t" for t
    using that unfolding resolve_partition_table_def
    by (auto simp: find_Some_iff split: option.splits if_splits)
  from assms table show ?thesis
    unfolding flash_plan_def flash_argv_def Let_def
    by (auto simp: rbind_eq_Inr split: image_kind.splits option.splits)
qed

text \<open>Waiting for \<open>espflash\<close>. The wait is still going on exactly when every poll so far saw the
  child running, before the deadline and not cancelled; otherwise the first other poll decides.
  An exit gives success exactly for a successful status and the child is not killed; a poll past
  the deadline kills it and reports the timeout, even when the job was also cancelled; a
  cancelled poll kills it and reports the cancellation.\<close>

lemma wait_child_outcome:
  "(wait_child sub turns = None \<and> (\<forall>t\<in>set turns. t = CT_Running False False))
 \<or> (\<exists>n t post r killed. turns = replicate n (CT_Running False False) @ t # post
      \<and> t \<noteq> CT_Running False False
      \<and> wait_child sub turns = Some (r, killed)
      \<and> (case t of
           CT_Exited ok err status \<Rightarrow> \<not> killed \<and> (ok = (r = Inr ()))
         | CT_Running late cancelled \<Rightarrow> killed
             \<and> r = Inl (if late then DE_Other ''espflash timed out after 180s'' else DE_Cancelled)
         | CT_Error e \<Rightarrow> \<not> killed \<and> r = Inl (DE_Other (''wait espflash: '' @ e))))"
  (is "?running \<or> ?decided turns")
proof (induction turns)
  case Nil
  then show ?case by simp
next
  case (Cons t ts)
  show ?case
  proof (cases "t = CT_Running False False")
    case True
    from Cons.IH show ?thesis
    proof
      assume "wait_child sub ts = None \<and> (\<forall>t\<in>set ts. t = CT_Running False False)"
      then show ?thesis by (simp add: True)
    next
      assume "?decided ts"
      then obtain n u post r killed
        where "ts = replicate n (CT_Running False False) @ u # post" and "u \<noteq> CT_Running False False"
          and "wait_child sub ts = Some (r, killed)" and "case u of
           CT_Exited ok err status \<Rightarrow> \<not> killed \<and> (ok = (r = Inr ()))
         | CT_Running late cancelled \<Rightarrow> killed
             \<and> r = Inl (if late then DE_Other ''espflash timed out after 180s'' else DE_Cancelled)
         | CT_Error e \<Rightarrow> \<not> killed \<and> r = Inl (DE_Other (''wait espflash: '' @ e))"
        by blast
      then have "?decided (t # ts)"
        by (intro exI [of _ "Suc n"] exI [of _ u] exI [of _ post] exI [of _ r] exI [of _ killed]) (simp add: True)
      then show ?thesis ..
    qed
  next
    case False
    have "show_nat 180 = ''180''" by code_simp
    then have timeout: "''espflash timed out after '' @ show_nat USB_FLASH_DEADLINE_SECS @ ''s''
        = ''espflash timed out after 180s''"
      by (simp add: USB_FLASH_DEADLINE_SECS_def)
    have "\<exists>r killed. wait_child sub (t # ts) = Some (r, killed) \<and> (case t of
           CT_Exited ok err status \<Rightarrow> \<not> killed \<and> (ok = (r = Inr ()))
         | CT_Running late cancelled \<Rightarrow> killed
             \<and> r = Inl (if late then DE_Other ''espflash timed out after 180s'' else DE_Cancelled)
         | CT_Error e \<Rightarrow> \<not> killed \<and> r = Inl (DE_Other (''wait espflash: '' @ e)))"
      using False by (cases t) (auto simp: timeout simp del: append_Cons)
    then have "?decided (t # ts)"
      using False by (metis append_Nil replicate_0)
    then show ?thesis ..
  qed
qed

end
