(* ===== verification/Wp_Runtime.thy ===== *)
theory Wp_Runtime
  imports Wp_Jobs Wp_Drivers Wp_Z21 Wp_Mdns Wp_Espflash
begin

text \<open>
  \<open>crates/wireless-programmer/src/runtime.rs\<close>, without the jobs themselves (\<open>Wp_Worker\<close>): the
  state that the IPC threads and the worker share, the scan cache, the radio, probing and
  blinking a device, and the queueing of jobs.

  The world is a parameter, the record \<open>env\<close>: what the radio answers (a function of all calls
  made before), what is scanned, the HTTP device behind a configured client, the file system,
  the \<open>espflash\<close> process, sockets and clocks. IPC threads run beside the worker: before every
  access of a job to the job registry or the cache one batch of client actions (\<open>rt_pending\<close>)
  takes effect, so a statement over all batches is one over all interleavings of these accesses.
\<close>

section \<open>State and environment\<close>

record cached_candidate =
  cc_ssid :: string
  cc_bssid :: "string option"
  cc_driver :: string
  cc_key :: string
  cc_label :: string
  cc_rssi :: "int option"
  cc_mode :: reach_mode
  cc_manual :: bool

type_synonym scan_cache = "(string \<times> string, cached_candidate) hmap"

datatype radio_call =
  RC_Scan nat
| RC_ConnectOpen string "u8 list option"
| RC_ConnectPsk string "u8 list option" string
| RC_SetAddress ipv4 u8
| RC_LinkUp
| RC_PrepareSoftap ipv4 ipv4
| RC_Release

text \<open>What another thread does: a job submission or cancellation, or a change of the cache.\<close>

datatype client_act =
  CA_Job "(submit_args, string) client_op"
| CA_Cache scan_cache

record runtime =
  rt_jobs :: job_registry
  rt_queue :: "string list"
  rt_cache :: scan_cache
  rt_radio_held :: bool
  rt_radio :: "radio_call list"
  rt_pending :: "client_act list list"

record scan_result =
  sr_ssid :: "string option"
  sr_bssid :: "string option"
  sr_rssi :: "int option"

record 'j env =
  en_libs :: "'j dev_libs"
  en_null :: 'j
  en_net_override :: "commissioning_net option"
  en_radio_device :: "string option"
  en_worker_gone :: "string option"
  en_radio :: "radio_call list \<Rightarrow> radio_call \<Rightarrow> driver_error option"
  en_scan :: "scan_result list"
  en_http :: "bool \<Rightarrow> bounded_http_client \<Rightarrow> device"
  en_fs :: file_system
  en_process :: "bool \<Rightarrow> process_lib"
  en_beats :: "nat list"
  en_join_beats :: nat
  en_lookup :: "string \<Rightarrow> string + sock_addr list"
  en_udp_bind :: "string option"
  en_serial_turns :: "udp_recv list"
  en_dispatch_turns :: "udp_recv list"
  en_mdns :: "string \<Rightarrow> io_error + mdns_recv list"
  en_broadcast :: "io_error + udp_recv list"
  en_list_ports :: "string option"
  en_dev_entries :: "string list option"

section \<open>Client configuration\<close>

definition effective_net :: "'j env \<Rightarrow> driver \<Rightarrow> commissioning_net" where
  "effective_net E d = (case en_net_override E of Some n \<Rightarrow> n | None \<Rightarrow> driver_net d)"

definition observation_from_scan :: "'j env \<Rightarrow> scan_result \<Rightarrow> 'j observation" where
  "observation_from_scan E s =
     \<lparr>ob_ssid = sr_ssid s, ob_bssid = sr_bssid s, ob_rssi = sr_rssi s, ob_extra = en_null E\<rparr>"

definition parse_hex_u8 :: "string \<Rightarrow> u8 option" where
  "parse_hex_u8 s = map_option of_nat (parse_uint 16 256 s)"

definition parse_bssid :: "string option \<Rightarrow> u8 list option" where
  "parse_bssid s =
     (case s of
        None \<Rightarrow> None
      | Some s \<Rightarrow>
          let parts = split_char (CHR '':'') s in
          if length parts \<noteq> 6 then None
          else those (map parse_hex_u8 parts))"

definition make_http_client :: "commissioning_net \<Rightarrow> string option \<Rightarrow> bounded_http_client" where
  "make_http_client net device =
     (http_client_new (show_ipv4 (cn_host net)) (cn_port net))
       \<lparr>hc_source := Some (cn_source net), hc_device := device\<rparr>"

definition make_http_client_cancel :: "commissioning_net \<Rightarrow> string option \<Rightarrow> bounded_http_client" where
  "make_http_client_cancel net device = (make_http_client net device)\<lparr>hc_cancel := True\<rparr>"

definition make_firmware_http_client ::
    "string \<Rightarrow> u16 \<Rightarrow> ipv4 option \<Rightarrow> string option \<Rightarrow> bool \<Rightarrow> bounded_http_client" where
  "make_firmware_http_client host port source device reset_ok =
     (http_client_new host port)
       \<lparr>hc_deadline_ms := FIRMWARE_DEADLINE_SECS * 1000, hc_retries := 3, hc_retry_delay_ms := 1000,
        hc_connect_deadline_ms := 5000, hc_success_on_reset_after_write := reset_ok,
        hc_source := source, hc_device := device, hc_cancel := True\<rparr>"

text \<open>\<open>Ipv4Addr::from_str\<close>: four decimal octets without leading zeros.\<close>

definition parse_octet :: "string \<Rightarrow> u8 option" where
  "parse_octet s =
     (if 1 \<le> length s \<and> length s \<le> 3 \<and> list_all is_ascii_digit s
         \<and> (length s = 1 \<or> hd s \<noteq> CHR ''0'')
      then map_option of_nat (parse_uint 10 256 s) else None)"

definition parse_ipv4 :: "string \<Rightarrow> ipv4 option" where
  "parse_ipv4 s =
     (let parts = split_char (CHR ''.'') s
      in if length parts = 4 then those (map parse_octet parts) else None)"

section \<open>Owned requests\<close>

record owned_roster =
  or_address :: "u16 option"
  or_long_address :: "bool option"
  or_mode :: "string option"
  or_direction :: "u8 option"
  or_functions :: "function_mapping list"

record owned_request =
  ow_identity :: string
  ow_wifi_ssid :: string
  ow_wifi_psk :: "string option"
  ow_server_host :: string
  ow_server_port :: u16
  ow_server_automatic :: bool
  ow_roster :: "owned_roster list"
  ow_bigfred_login :: "string option"
  ow_bigfred_pin :: "string option"
  ow_roster_mode :: "string option"

definition owned_from_wire :: "program_request_wire \<Rightarrow> owned_request" where
  "owned_from_wire w =
     \<lparr>ow_identity = pw_identity w, ow_wifi_ssid = ww_ssid (pw_wifi w), ow_wifi_psk = ww_psk (pw_wifi w),
      ow_server_host = tw_host (pw_server w), ow_server_port = tw_port (pw_server w),
      ow_server_automatic = (case tw_automatic (pw_server w) of Some b \<Rightarrow> b | None \<Rightarrow> False),
      ow_roster = map (\<lambda>e. \<lparr>or_address = rw_address e, or_long_address = rw_long_address e,
          or_mode = rw_mode e, or_direction = rw_direction e,
          or_functions = map (\<lambda>f. \<lparr>fm_index = fw_index f, fm_value = fw_value f\<rparr>) (rw_functions e)\<rparr>)
        (pw_roster w),
      ow_bigfred_login = map_option bw_login (pw_bigfred w),
      ow_bigfred_pin = map_option bw_pin (pw_bigfred w),
      ow_roster_mode = pw_roster_mode w\<rparr>"

definition owned_borrow :: "owned_request \<Rightarrow> program_request" where
  "owned_borrow r =
     \<lparr>pq_identity = ow_identity r,
      pq_wifi = \<lparr>wc_ssid = ow_wifi_ssid r, wc_psk = ow_wifi_psk r\<rparr>,
      pq_server = \<lparr>ts_host = ow_server_host r, ts_port = ow_server_port r,
                   ts_automatic = ow_server_automatic r\<rparr>,
      pq_roster = map (\<lambda>e. \<lparr>re_address = or_address e, re_long_address = or_long_address e,
          re_mode = or_mode e, re_direction = or_direction e, re_functions = or_functions e\<rparr>)
        (ow_roster r),
      pq_bigfred = (case (ow_bigfred_login r, ow_bigfred_pin r) of
          (Some l, Some p) \<Rightarrow> Some \<lparr>bf_login = l, bf_pin = p\<rparr>
        | _ \<Rightarrow> None),
      pq_roster_mode = ow_roster_mode r\<rparr>"

section \<open>The scan cache\<close>

definition cache_key :: "cached_candidate \<Rightarrow> string \<times> string" where
  "cache_key c = (cc_driver c, cc_key c)"

definition cache_add :: "cached_candidate \<Rightarrow> runtime \<Rightarrow> runtime" where
  "cache_add c rt = rt\<lparr>rt_cache := hm_insert (cache_key c) c (rt_cache rt)\<rparr>"

definition cache_add_all :: "cached_candidate list \<Rightarrow> runtime \<Rightarrow> runtime" where
  "cache_add_all cs rt = rt\<lparr>rt_cache := hm.insert_all (map (\<lambda>c. (cache_key c, c)) cs) (rt_cache rt)\<rparr>"

definition cache_retain :: "(cached_candidate \<Rightarrow> bool) \<Rightarrow> runtime \<Rightarrow> runtime" where
  "cache_retain P rt = rt\<lparr>rt_cache := hm_retain (\<lambda>k v. P v) (rt_cache rt)\<rparr>"

definition cached :: "string \<Rightarrow> string \<Rightarrow> runtime \<Rightarrow> cached_candidate option" where
  "cached drv key rt = hm_get (rt_cache rt) (drv, key)"

definition w_radio :: "'j env \<Rightarrow> radio_call \<Rightarrow> runtime \<Rightarrow> driver_error option \<times> runtime" where
  "w_radio E call rt = (en_radio E (rt_radio rt) call, rt\<lparr>rt_radio := rt_radio rt @ [call]\<rparr>)"

definition ap_candidate :: "'j env \<Rightarrow> scan_result \<Rightarrow> cached_candidate option" where
  "ap_candidate E s =
     map_option (\<lambda>c. \<lparr>cc_ssid = dc_label c, cc_bssid = sr_bssid s, cc_driver = dc_driver c,
         cc_key = dc_key c, cc_label = dc_label c, cc_rssi = dc_rssi c, cc_mode = RM_Ap,
         cc_manual = False\<rparr>)
       (registry_identify (observation_from_scan E s))"

definition scan_ap :: "'j env \<Rightarrow> runtime \<Rightarrow> (driver_error + cached_candidate list) \<times> runtime" where
  "scan_ap E rt =
     (case w_radio E (RC_Scan 64) rt of
        (Some e, rt1) \<Rightarrow> (Inl e, rt1)
      | (None, rt1) \<Rightarrow>
          let out = List.map_filter (ap_candidate E) (en_scan E)
          in (Inr out, cache_add_all out (cache_retain (\<lambda>v. cc_mode v \<noteq> RM_Ap) rt1)))"

definition OTA_HTTP_SERVICE :: string where
  "OTA_HTTP_SERVICE = ''_longfred-ota._tcp.local''"

definition Z21_UDP_SERVICE :: string where
  "Z21_UDP_SERVICE = ''_z21._udp.local''"

definition plain_candidate :: "driver \<Rightarrow> string \<Rightarrow> string \<Rightarrow> reach_mode \<Rightarrow> bool \<Rightarrow> cached_candidate" where
  "plain_candidate d key label m manual =
     \<lparr>cc_ssid = [], cc_bssid = None, cc_driver = driver_id_str d, cc_key = key, cc_label = label,
      cc_rssi = None, cc_mode = m, cc_manual = manual\<rparr>"

definition scan_lan :: "'j env \<Rightarrow> runtime \<Rightarrow> (driver_error + cached_candidate list) \<times> runtime" where
  "scan_lan E rt =
     (case fst (discover_mdns_hosts OTA_HTTP_SERVICE (en_mdns E OTA_HTTP_SERVICE)) of
        Inl e \<Rightarrow> (Inl (DE_Other (''mdns: '' @ ioe_text e)), rt)
      | Inr hosts \<Rightarrow>
          let out = map (\<lambda>h. plain_candidate D_LongFred (show_ipv4 (oh_ipv4 h))
                 (oh_hostname h @ '' ('' @ show_ipv4 (oh_ipv4 h) @ '')'') RM_Lan False) hosts
          in (Inr out, cache_add_all out rt))"

definition scan_usb :: "'j env \<Rightarrow> runtime \<Rightarrow> (driver_error + cached_candidate list) \<times> runtime" where
  "scan_usb E rt =
     (let out = map (\<lambda>p. plain_candidate D_LongFred (up_path p) (up_label p) RM_Usb False)
                  (list_usb_ports (en_list_ports E) (en_dev_entries E))
      in (Inr out, cache_add_all out rt))"

text \<open>\<open>discover_z21\<close> of \<open>crates/wp-link/src/z21.rs\<close>: mDNS answers first, then serial replies.\<close>

definition discover_z21 :: "'j env \<Rightarrow> z21_host list" where
  "discover_z21 E =
     (let named = (case fst (discover_mdns_hosts Z21_UDP_SERVICE (en_mdns E Z21_UDP_SERVICE)) of
                     Inl e \<Rightarrow> []
                   | Inr hosts \<Rightarrow>
                       map (\<lambda>h. \<lparr>zh_hostname = oh_hostname h, zh_ipv4 = oh_ipv4 h,
                            zh_port = (if oh_port h = 0 then Z21_UDP_PORT else oh_port h),
                            zh_serial = None\<rparr>) hosts);
          serial = (case rbind (en_broadcast E) (\<lambda>ts. probe_serial_broadcast ts []) of
                      Inl e \<Rightarrow> []
                    | Inr hs \<Rightarrow> hs)
      in fold (\<lambda>h f. push_host f h) (named @ serial) [])"

definition scan_z21 :: "'j env \<Rightarrow> runtime \<Rightarrow> (driver_error + cached_candidate list) \<times> runtime" where
  "scan_z21 E rt =
     (let out = map (\<lambda>h. plain_candidate D_Fred (z21_key h) (z21_label h) RM_Z21 False) (discover_z21 E)
      in (Inr out,
          cache_add_all out (cache_retain (\<lambda>v. \<not> (cc_mode v = RM_Z21 \<and> \<not> cc_manual v)) rt)))"

definition opt_or :: "'a \<Rightarrow> 'a option \<Rightarrow> 'a" where
  "opt_or d x = (case x of Some v \<Rightarrow> v | None \<Rightarrow> d)"

definition cache_z21_host :: "string \<Rightarrow> string option \<Rightarrow> runtime \<Rightarrow> runtime" where
  "cache_z21_host key label rt =
     cache_add (plain_candidate D_Fred key (opt_or key label) RM_Z21 True) rt"

definition cache_usb_port :: "string \<Rightarrow> string option \<Rightarrow> runtime \<Rightarrow> runtime" where
  "cache_usb_port port label rt =
     cache_add (plain_candidate D_LongFred port (opt_or port label) RM_Usb True) rt"

definition cache_lan_host :: "string \<Rightarrow> string option \<Rightarrow> runtime \<Rightarrow> runtime" where
  "cache_lan_host host label rt =
     cache_add (plain_candidate D_LongFred host (opt_or host label) RM_Lan True) rt"

section \<open>Queueing a job\<close>

text \<open>
  The worker's end of the channel is open unless \<open>en_worker_gone\<close> is the send error; the
  channel holds 8 ids and never fills, because only the job that holds the slot is in it.
\<close>

definition enqueue :: "'j env \<Rightarrow> string \<Rightarrow> runtime \<Rightarrow> (job_error + string) \<times> runtime" where
  "enqueue E jid rt =
     (case en_worker_gone E of
        Some e \<Rightarrow>
          (Inl (JE_Driver (DE_Other ''worker channel closed'')),
           rt\<lparr>rt_jobs := jobs_transition jid JS_Failed None None
                (Some (''worker channel closed: '' @ e)) (rt_jobs rt)\<rparr>)
      | None \<Rightarrow> (Inr jid, rt\<lparr>rt_queue := rt_queue rt @ [jid]\<rparr>))"

definition submit_and_enqueue ::
    "'j env \<Rightarrow> nat \<Rightarrow> driver \<Rightarrow> string \<Rightarrow> job_payload \<Rightarrow> runtime \<Rightarrow> (job_error + string) \<times> runtime" where
  "submit_and_enqueue E now d key payload rt =
     (case jobs_submit now (driver_id_str d) key (Some payload) (rt_jobs rt) of
        (Inl e, reg) \<Rightarrow> (Inl e, rt\<lparr>rt_jobs := reg\<rparr>)
      | (Inr jid, reg) \<Rightarrow> enqueue E jid (rt\<lparr>rt_jobs := reg\<rparr>))"

definition submit_firmware ::
    "'j env \<Rightarrow> nat \<Rightarrow> driver \<Rightarrow> string \<Rightarrow> firmware_job \<Rightarrow> runtime \<Rightarrow> (job_error + string) \<times> runtime" where
  "submit_firmware E now d key job rt =
     (if \<not> supports_firmware_update d then (Inl JE_FirmwareUnsupported, rt)
      else submit_and_enqueue E now d key (JP_Firmware job) rt)"

definition submit_program ::
    "'j env \<Rightarrow> nat \<Rightarrow> driver \<Rightarrow> string \<Rightarrow> program_request_wire \<Rightarrow> runtime
       \<Rightarrow> (job_error + string) \<times> runtime" where
  "submit_program E now d key w rt =
     (case registry_validate d (owned_borrow (owned_from_wire w)) of
        Inl v \<Rightarrow> (Inl (JE_Validation v), rt)
      | Inr _ \<Rightarrow>
          let rt1 = (if d = D_Fred \<and> cached (driver_id_str d) key rt = None
                     then cache_z21_host key None rt else rt)
          in submit_and_enqueue E now d key (JP_Program w) rt1)"

section \<open>The radio\<close>

definition radio_join_call :: "string \<Rightarrow> u8 list option \<Rightarrow> string option \<Rightarrow> radio_call" where
  "radio_join_call ssid bssid psk =
     (case psk of Some k \<Rightarrow> RC_ConnectPsk ssid bssid k | None \<Rightarrow> RC_ConnectOpen ssid bssid)"

text \<open>The calls after the join, each only when the ones before succeeded (\<open>?\<close>).\<close>

fun radio_seq :: "'j env \<Rightarrow> radio_call list \<Rightarrow> runtime \<Rightarrow> driver_error option \<times> runtime" where
  "radio_seq E [] rt = (None, rt)"
| "radio_seq E (c # cs) rt =
     (case w_radio E c rt of (Some e, rt1) \<Rightarrow> (Some e, rt1) | (None, rt1) \<Rightarrow> radio_seq E cs rt1)"

definition radio_release :: "'j env \<Rightarrow> runtime \<Rightarrow> runtime" where
  "radio_release E rt = snd (w_radio E RC_Release rt)"

definition join_call :: "driver \<Rightarrow> cached_candidate \<Rightarrow> radio_call" where
  "join_call d c =
     radio_join_call (cc_ssid c) (parse_bssid (cc_bssid c)) (dcap_softap_psk (registry_capabilities d))"

definition address_calls :: "commissioning_net \<Rightarrow> radio_call list" where
  "address_calls net =
     [RC_SetAddress (cn_source net) (cn_prefix net), RC_LinkUp, RC_PrepareSoftap (cn_source net) (cn_host net)]"

definition not_cached :: driver_error where
  "not_cached = DE_Other ''candidate not in scan cache; run scan first''"

definition hold :: "runtime \<Rightarrow> runtime" where
  "hold rt = rt\<lparr>rt_radio_held := True\<rparr>"

definition unhold :: "runtime \<Rightarrow> runtime" where
  "unhold rt = rt\<lparr>rt_radio_held := False\<rparr>"

definition probe ::
    "'j env \<Rightarrow> driver \<Rightarrow> string \<Rightarrow> runtime \<Rightarrow> (driver_error + 'j) \<times> runtime" where
  "probe E d key rt =
     (case cached (driver_id_str d) key rt of
        None \<Rightarrow> (Inl not_cached, rt)
      | Some c \<Rightarrow>
          let net = effective_net E d in
          case w_radio E (join_call d c) (hold rt) of
            (Some e, rt1) \<Rightarrow> (Inl e, unhold (radio_release E rt1))
          | (None, rt1) \<Rightarrow>
              (case radio_seq E (address_calls net) rt1 of
                 (Some e, rt2) \<Rightarrow> (Inl e, unhold rt2)
               | (None, rt2) \<Rightarrow>
                   let dev = en_http E False (make_http_client net (en_radio_device E));
                       result = fst (registry_probe (en_libs E) d (T_Http dev) [])
                   in (result, unhold (radio_release E rt2))))"

text \<open>\<open>Runtime::identify\<close>.\<close>

definition blink ::
    "'j env \<Rightarrow> driver \<Rightarrow> string \<Rightarrow> u32 option \<Rightarrow> runtime \<Rightarrow> (driver_error + unit) \<times> runtime" where
  "blink E d key count rt =
     (case cached (driver_id_str d) key rt of
        None \<Rightarrow> (Inl not_cached, rt)
      | Some c \<Rightarrow>
          let net = effective_net E d in
          case radio_seq E (join_call d c # address_calls net) (hold rt) of
            (Some e, rt1) \<Rightarrow> (Inl e, unhold rt1)
          | (None, rt1) \<Rightarrow>
              let dev = en_http E False (make_http_client net (en_radio_device E));
                  result = fst (registry_blink d (T_Http dev) count [])
              in (result, unhold (radio_release E rt1)))"

section \<open>Lemmas\<close>

text \<open>The index of the first call in a sequence that the radio refuses.\<close>

fun first_fail :: "'j env \<Rightarrow> radio_call list \<Rightarrow> radio_call list \<Rightarrow> nat option" where
  "first_fail E log [] = None"
| "first_fail E log (c # cs) =
     (if en_radio E log c \<noteq> None then Some 0 else map_option Suc (first_fail E (log @ [c]) cs))"

lemma first_fail_None:
  "first_fail E (rt_radio rt) cs = None \<Longrightarrow> radio_seq E cs rt = (None, rt\<lparr>rt_radio := rt_radio rt @ cs\<rparr>)"
proof (induction cs arbitrary: rt)
  case (Cons c cs)
  from Cons.prems have "en_radio E (rt_radio rt) c = None"
      "first_fail E (rt_radio (rt\<lparr>rt_radio := rt_radio rt @ [c]\<rparr>)) cs = None"
    by (simp_all split: if_splits)
  with Cons.IH [of "rt\<lparr>rt_radio := rt_radio rt @ [c]\<rparr>"] show ?case by (simp add: w_radio_def)
qed simp

lemma first_fail_Some:
  "first_fail E (rt_radio rt) cs = Some n \<Longrightarrow>
     \<exists>e. radio_seq E cs rt = (Some e, rt\<lparr>rt_radio := rt_radio rt @ take (Suc n) cs\<rparr>) \<and> n < length cs
       \<and> en_radio E (rt_radio rt @ take n cs) (cs ! n) = Some e"
proof (induction cs arbitrary: rt n)
  case (Cons c cs)
  show ?case
  proof (cases "en_radio E (rt_radio rt) c")
    case (Some e)
    with Cons.prems show ?thesis by (simp add: w_radio_def)
  next
    case None
    with Cons.prems obtain m where m: "n = Suc m"
        "first_fail E (rt_radio (rt\<lparr>rt_radio := rt_radio rt @ [c]\<rparr>)) cs = Some m"
      by auto
    from Cons.IH [OF m(2)] None m(1) show ?thesis by (simp add: w_radio_def)
  qed
qed simp

lemma cached_retain_add:
  assumes "hm_ok (rt_cache rt)"
  shows "cached drv key (cache_add_all cs (cache_retain P rt)) =
     (case find (\<lambda>c. cache_key c = (drv, key)) (rev cs) of
        Some c \<Rightarrow> Some c
      | None \<Rightarrow>
          (case cached drv key rt of None \<Rightarrow> None | Some c \<Rightarrow> if P c then Some c else None))"
proof -
  have find: "map_of (map (\<lambda>c. (cache_key c, c)) xs) k = find (\<lambda>c. cache_key c = k) xs" for xs k
    by (induction xs) auto
  show ?thesis
    using assms
    by (simp add: cached_def cache_add_all_def cache_retain_def hm.get_insert_all rev_map find
        hm.get_retain split: option.splits)
qed

lemma cached_add_all:
  "cached drv key (cache_add_all cs rt) =
     (case find (\<lambda>c. cache_key c = (drv, key)) (rev cs) of Some c \<Rightarrow> Some c | None \<Rightarrow> cached drv key rt)"
proof -
  have find: "map_of (map (\<lambda>c. (cache_key c, c)) xs) k = find (\<lambda>c. cache_key c = k) xs" for xs k
    by (induction xs) auto
  show ?thesis
    by (simp add: cached_def cache_add_all_def hm.get_insert_all rev_map find split: option.splits)
qed

section \<open>Properties\<close>

text \<open>What a Z21 rescan does to the cache: a found station is cached as a scanned entry, also
  when it was entered by hand before; of the others a scanned Z21 entry is dropped, and every
  other entry, manual Z21 entries included, is kept. So a manual entry survives a rescan that
  does not find it, but not a rescan that finds it followed by one that does not.\<close>

lemma scan_z21_cache:
  assumes "hm_ok (rt_cache rt)"
  shows "cached drv key (snd (scan_z21 E rt)) =
     (case find (\<lambda>h. drv = ''fred'' \<and> z21_key h = key) (rev (discover_z21 E)) of
        Some h \<Rightarrow> Some (plain_candidate D_Fred key (z21_label h) RM_Z21 False)
      | None \<Rightarrow>
          (case cached drv key rt of
             None \<Rightarrow> None
           | Some c \<Rightarrow> if cc_mode c = RM_Z21 \<and> \<not> cc_manual c then None else Some c))"
proof -
  let ?f = "\<lambda>h. plain_candidate D_Fred (z21_key h) (z21_label h) RM_Z21 False"
  have "find (\<lambda>c. cache_key c = (drv, key)) (map ?f hs)
      = map_option ?f (find (\<lambda>h. drv = ''fred'' \<and> z21_key h = key) hs)" for hs
    by (induction hs) (auto simp: cache_key_def plain_candidate_def)
  then have "find (\<lambda>c. cache_key c = (drv, key)) (rev (map ?f (discover_z21 E)))
      = map_option ?f (find (\<lambda>h. drv = ''fred'' \<and> z21_key h = key) (rev (discover_z21 E)))"
    by (simp only: rev_map)
  moreover have "z21_key h = key"
    if "find (\<lambda>h. drv = ''fred'' \<and> z21_key h = key) (rev (discover_z21 E)) = Some h" for h
    using that by (auto simp: find_Some_iff)
  ultimately show ?thesis
    unfolding scan_z21_def Let_def snd_conv cached_retain_add [OF assms]
    by (simp split: option.splits)
qed

text \<open>C40: the radio calls of a probe. A refused join is followed by a release, and so is a probe
  that reached the device, whether it answered or not; but when the radio refuses the address,
  the link or the preparation after a successful join, the probe returns that error and
  releases nothing. In every case the hold flag is down afterwards, even if a running job had
  raised it, and neither jobs nor cache change.\<close>

theorem probe_radio_use:
  assumes "cached (driver_id_str d) key rt = Some c"
    and "probe E d key rt = (r, rt')"
  shows "rt' = rt\<lparr>rt_radio_held := False, rt_radio := rt_radio rt @
           (let calls = join_call d c # address_calls (effective_net E d)
            in case first_fail E (rt_radio rt) calls of
                 None \<Rightarrow> calls @ [RC_Release]
               | Some 0 \<Rightarrow> [join_call d c, RC_Release]
               | Some (Suc n) \<Rightarrow> take (n + 2) calls)\<rparr>
       \<and> (first_fail E (rt_radio rt) (join_call d c # address_calls (effective_net E d)) \<noteq> None
            \<longrightarrow> (\<exists>e. r = Inl e))"
proof (cases "en_radio E (rt_radio rt) (join_call d c)")
  case (Some e)
  with assms show ?thesis
    by (auto simp: probe_def w_radio_def hold_def unhold_def radio_release_def)
next
  case None
  let ?rt1 = "(hold rt)\<lparr>rt_radio := rt_radio rt @ [join_call d c]\<rparr>"
  let ?calls = "address_calls (effective_net E d)"
  have log: "rt_radio ?rt1 = rt_radio rt @ [join_call d c]" by simp
  have join: "w_radio E (join_call d c) (hold rt) = (None, ?rt1)"
    using None by (simp add: w_radio_def hold_def)
  show ?thesis
  proof (cases "first_fail E (rt_radio ?rt1) ?calls")
    case None
    from first_fail_None [OF this] this assms join \<open>en_radio E (rt_radio rt) (join_call d c) = None\<close>
    show ?thesis by (auto simp: probe_def Let_def w_radio_def hold_def unhold_def radio_release_def)
  next
    case (Some n)
    from first_fail_Some [OF this] obtain e
      where "radio_seq E ?calls ?rt1 = (Some e, ?rt1\<lparr>rt_radio := rt_radio ?rt1 @ take (Suc n) ?calls\<rparr>)"
      by blast
    with Some assms join None show ?thesis by (auto simp: probe_def Let_def hold_def unhold_def)
  qed
qed

text \<open>A world in which the radio refuses nothing, for the witnesses.\<close>

definition demo_env :: "demo_json env" where
  "demo_env =
     \<lparr>en_libs = \<lparr>dl_xml = agreeing_xml, dl_json = demo_json_lib, dl_config_to_value = (\<lambda>c. Inr (DJ_Arr []))\<rparr>,
      en_null = DJ_Arr [], en_net_override = None, en_radio_device = Some ''wlan0'', en_worker_gone = None,
      en_radio = (\<lambda>log call. None), en_scan = [], en_http = (\<lambda>flag client tr q. Inr ''x''),
      en_fs = \<lparr>fs_is_file = (\<lambda>p. False), fs_read = (\<lambda>p. Inr elf_magic), fs_len = (\<lambda>p. None)\<rparr>,
      en_process = (\<lambda>flag. \<lparr>pl_spawn = (\<lambda>argv. None), pl_turns = (\<lambda>argv. [CT_Exited True [] []])\<rparr>),
      en_beats = [], en_join_beats = 0, en_lookup = (\<lambda>s. Inr []), en_udp_bind = None,
      en_serial_turns = [], en_dispatch_turns = [], en_mdns = (\<lambda>s. Inr []), en_broadcast = Inr [],
      en_list_ports = None, en_dev_entries = None\<rparr>"

definition demo_runtime :: runtime where
  "demo_runtime =
     \<lparr>rt_jobs = jobs_new, rt_queue = [], rt_cache = [((''fred'', ''z21:21105''),
        plain_candidate D_Fred ''z21:21105'' ''z21'' RM_Z21 True)],
      rt_radio_held = True, rt_radio = [], rt_pending = []\<rparr>"

theorem probe_radio_use_witness:
  "rt_radio (snd (probe (demo_env\<lparr>en_radio := \<lambda>log call. if call = RC_LinkUp then Some DE_Cancelled else None\<rparr>)
      D_Fred ''z21:21105'' demo_runtime))
     = [RC_ConnectOpen [] None, RC_SetAddress [0, 0, 0, 0] 0, RC_LinkUp]
 \<and> \<not> rt_radio_held (snd (probe (demo_env\<lparr>en_radio := \<lambda>log call. if call = RC_LinkUp then Some DE_Cancelled else None\<rparr>)
      D_Fred ''z21:21105'' demo_runtime))"
proof -
  let ?E = "demo_env\<lparr>en_radio := \<lambda>log call. if call = RC_LinkUp then Some DE_Cancelled else None\<rparr>"
  let ?c = "plain_candidate D_Fred ''z21:21105'' ''z21'' RM_Z21 True"
  have c: "cached (driver_id_str D_Fred) ''z21:21105'' demo_runtime = Some ?c"
    by (simp add: cached_def demo_runtime_def hm_get_def)
  have calls: "join_call D_Fred ?c # address_calls (effective_net ?E D_Fred)
      = [RC_ConnectOpen [] None, RC_SetAddress [0, 0, 0, 0] 0, RC_LinkUp, RC_PrepareSoftap [0, 0, 0, 0] [0, 0, 0, 0]]"
    by (simp add: join_call_def radio_join_call_def plain_candidate_def parse_bssid_def fred_capabilities_def
        address_calls_def effective_net_def demo_env_def)
  from probe_radio_use [OF c prod.collapse [symmetric], of ?E] show ?thesis
    unfolding calls by (simp add: demo_runtime_def Let_def join_call_def radio_join_call_def
        plain_candidate_def parse_bssid_def fred_capabilities_def)
qed

end
