(* ===== verification/Wp_FakeDevices.thy ===== *)
theory Wp_FakeDevices
  imports Wp_WifredProgram Wp_LongfredProgram Wp_Runtime
begin

text \<open>
  The mocks together: the composite of the three HTTP devices and the one that \<open>wireless-programmer fake\<close> serves,
  the in-memory radio (\<open>crates/wp-fake/src/radio.rs\<close>) with its canned scan, the firmware upload to the RB23xx
  mock and the dispatch of a locomotive to the Z21 mock.
\<close>

section \<open>The devices\<close>

datatype 'j fake_dev = FD_Wifred wifred_fake | FD_Longfred "'j longfred_fake" | FD_Rb23xx rb23xx_fake

fun fake_driver_id :: "'j fake_dev \<Rightarrow> string" where
  "fake_driver_id (FD_Wifred w) = ''wifred''"
| "fake_driver_id (FD_Longfred l) = ''longfred''"
| "fake_driver_id (FD_Rb23xx r) = ''rb23xx''"

fun fake_dev_handle :: "'j json_lib \<Rightarrow> 'j json_mut \<Rightarrow> 'j fake_dev fake_handler" where
  "fake_dev_handle J M q (FD_Wifred w) = map_prod id FD_Wifred (wifred_handle q w)"
| "fake_dev_handle J M q (FD_Longfred l) = map_prod id FD_Longfred (longfred_handle J M q l)"
| "fake_dev_handle J M q (FD_Rb23xx r) = map_prod id FD_Rb23xx (rb23xx_handle q r)"

definition composite_all :: "'j json_lib \<Rightarrow> 'j fake_dev list" where
  "composite_all J = [FD_Wifred wifred_new, FD_Longfred (longfred_new J), FD_Rb23xx rb23xx_new]"

text \<open>The device that the \<open>fake\<close> subcommand serves, \<open>None\<close> for an unknown name.\<close>

definition fake_of_driver :: "'j json_lib \<Rightarrow> string \<Rightarrow> 'j fake_dev option" where
  "fake_of_driver J name =
     (if name = ''wifred'' then Some (FD_Wifred wifred_new)
      else if name = ''longfred'' then Some (FD_Longfred (longfred_new J))
      else if name = ''rb23xx'' then Some (FD_Rb23xx rb23xx_new)
      else None)"

interpretation fd: fake_device "fake_dev_handle J M" for J M
proof
  fix q and s :: "'a fake_dev"
  assume "fr_status (fst (fake_dev_handle J M q s)) = 404"
  then show "snd (fake_dev_handle J M q s) = s"
    by (cases s) (simp_all add: wf.unclaimed_unchanged lf.unclaimed_unchanged rb.unclaimed_unchanged)
qed

interpretation fc: fake_device "composite_handle (fake_dev_handle J M)" for J M
  by (rule fd.composite_fake_device)

lemma fake_of_driver_id: "fake_of_driver J name = Some d \<Longrightarrow> fake_driver_id d = name"
  by (auto simp: fake_of_driver_def split: if_splits)

section \<open>The radio\<close>

record fake_radio =
  fk_results :: "scan_result list"
  fk_calls :: "string list"

definition fake_radio_new :: "scan_result list \<Rightarrow> fake_radio" where
  "fake_radio_new results = \<lparr>fk_results = results, fk_calls = []\<rparr>"

definition one_per_driver :: fake_radio where
  "one_per_driver = fake_radio_new
     [\<lparr>sr_ssid = Some (WIFRED_SSID_PREFIX @ ''deadbe''), sr_bssid = Some ''de:ad:be:ef:00:01'', sr_rssi = Some (-42)\<rparr>,
      \<lparr>sr_ssid = Some (LONGFRED_SSID_PREFIX @ ''_deadbe''), sr_bssid = Some ''de:ad:be:ef:00:02'', sr_rssi = Some (-42)\<rparr>,
      \<lparr>sr_ssid = Some ''RB2300_deadbe'', sr_bssid = Some ''de:ad:be:ef:00:03'', sr_rssi = Some (-42)\<rparr>]"

definition fake_scan :: "nat \<Rightarrow> fake_radio \<Rightarrow> scan_result list \<times> fake_radio" where
  "fake_scan mx r = (take mx (fk_results r), r\<lparr>fk_calls := fk_calls r @ [''scan'']\<rparr>)"

text \<open>The name that a call is recorded under; preparing a Soft-AP is the default of the trait.\<close>

fun fake_call_name :: "radio_call \<Rightarrow> string option" where
  "fake_call_name (RC_Scan mx) = Some ''scan''"
| "fake_call_name (RC_ConnectOpen ssid bssid) = Some ''connect_open''"
| "fake_call_name (RC_ConnectPsk ssid bssid psk) = Some ''connect_psk''"
| "fake_call_name (RC_SetAddress addr prefix) = Some ''set_address''"
| "fake_call_name RC_LinkUp = Some ''link_up''"
| "fake_call_name (RC_PrepareSoftap src host) = None"
| "fake_call_name RC_Release = Some ''release''"

definition fake_radio_call :: "radio_call \<Rightarrow> fake_radio \<Rightarrow> fake_radio" where
  "fake_radio_call c r =
     (case fake_call_name c of None \<Rightarrow> r | Some n \<Rightarrow> r\<lparr>fk_calls := fk_calls r @ [n]\<rparr>)"

text \<open>Every canned network is claimed by the driver it is meant for, and by no other.\<close>

lemma canned_scan_identified:
  "map (\<lambda>s. map_option dc_driver (registry_identify
       \<lparr>ob_ssid = sr_ssid s, ob_bssid = sr_bssid s, ob_rssi = sr_rssi s, ob_extra = ()\<rparr>)) (fst (fake_scan mx one_per_driver))
     = take mx [Some ''wifred'', Some ''longfred'', Some ''rb23xx'']"
  by (simp add: fake_scan_def one_per_driver_def fake_radio_new_def take_map [symmetric] registry_identify_def
      longfred_identify_def wifred_identify_def rb23xx_identify_def LONGFRED_SSID_PREFIX_def WIFRED_SSID_PREFIX_def
      RB23XX_SSID_PREFIXES_def del: take_Cons_numeral)

section \<open>Firmware to an RB23xx\<close>

lemma rb_upload_path:
  "path_and_query (hq_path (rb23xx_upload img fname)) = (''/upload'', drop (length ''/upload?'') (hq_path (rb23xx_upload img fname)))"
  by (simp add: rb23xx_upload_def Let_def path_and_query_def)

lemma rb_uploaded:
  assumes "img \<noteq> []"
  shows "fst (rb23xx_update_firmware (T_Http (served_by True rb23xx_handle rb23xx_new)) img fname [])
       = Inr \<lparr>oc_restarted = True, oc_mismatches = []\<rparr>"
    and "after rb23xx_handle rb23xx_new [rb23xx_upload img fname] = Some (length img)"
proof -
  have "rb23xx_handle (received (rb23xx_upload img fname)) s = (drop_without_reply, Some (length img))" for s
    using assms rb_upload_path [of img fname]
    by (simp add: rb23xx_handle_def received_def request_content_def) (simp add: rb23xx_upload_def Let_def)
  then show "fst (rb23xx_update_firmware (T_Http (served_by True rb23xx_handle rb23xx_new)) img fname [])
       = Inr \<lparr>oc_restarted = True, oc_mismatches = []\<rparr>"
    "after rb23xx_handle rb23xx_new [rb23xx_upload img fname] = Some (length img)"
    by (simp_all add: rb23xx_update_firmware_def dev_io_defs served_by_def drop_without_reply_def after_simps)
qed

section \<open>Dispatch to a Z21\<close>

lemma parse_one: "length d \<le> 65531 \<Longrightarrow> parse_records (z21_encode h d) = [\<lparr>zr_header = h, zr_data = d\<rparr>]"
  using parse_encoded [of d h "[]"] by (simp add: parse_records.simps [of "[]"])

lemma headers_differ:
  "HEADER_LOCONET_DISPATCH_ADDR \<noteq> HEADER_GET_SERIAL_NUMBER" "HEADER_GET_SERIAL_NUMBER \<noteq> HEADER_XBUS"
  "HEADER_LOCONET_DISPATCH_ADDR \<noteq> HEADER_XBUS"
  by (simp_all add: HEADER_LOCONET_DISPATCH_ADDR_def HEADER_GET_SERIAL_NUMBER_def HEADER_XBUS_def)

lemma mock_serial:
  "fake_z21_replies mode serial_number_request = [z21_encode HEADER_GET_SERIAL_NUMBER (u32_le_bytes FAKE_SERIAL)]"
  by (simp add: fake_z21_replies_def serial_number_request_def parse_one fake_z21_record_def map_filter_simps)

lemma mock_dispatch:
  "fake_z21_replies mode (dispatch_addr_request loco)
     = (case fake_dispatch_reply mode (u16_le_bytes loco) of None \<Rightarrow> [] | Some r \<Rightarrow> [r])"
  using headers_differ
  by (simp add: fake_z21_replies_def dispatch_addr_request_def parse_one fake_z21_record_def map_filter_simps split: option.split)

definition timed_out :: io_error where
  "timed_out = \<lparr>ioe_kind = IOK_TimedOut, ioe_text = []\<rparr>"

text \<open>The outcome of dispatching any address to the mock in each of its modes.\<close>

fun mode_outcome :: "fake_z21_mode \<Rightarrow> dispatch_error + dispatch_outcome" where
  "mode_outcome ZM_Accept = Inr (DO_Slot 3)"
| "mode_outcome ZM_Reject = Inl DX_Rejected"
| "mode_outcome ZM_UnknownCommand = Inl DX_UnknownCommand"
| "mode_outcome ZM_NoAck = Inr DO_NoAck"

lemma dispatch_to_mock:
  "fst (dispatch_addr target loco (map (UR_From target) (fake_z21_replies mode serial_number_request))
      (map (UR_From target) (fake_z21_replies mode (dispatch_addr_request loco)) @ [UR_Err timed_out])) = mode_outcome mode"
proof -
  obtain a b where ab: "u16_le_bytes loco = [a, b]" "u16_from_le a b = loco" using u16_le_split by blast
  have serial: "serial_phase (fst target) (map (UR_From target) (fake_z21_replies m serial_number_request)) = Inr True" for m
    using headers_differ by (simp add: mock_serial parse_one u32_le_bytes_def is_unknown_command_def)
  show ?thesis
    using headers_differ ab
    by (cases mode) (simp_all add: dispatch_addr_def serial mock_dispatch fake_loco_def parse_one is_unknown_command_def
        parse_dispatch_reply_def timed_out_def would_block_def u8_of_char_def Let_def)
qed

end
