(* ===== verification/Wp_Netcfg.thy ===== *)
theory Wp_Netcfg
  imports Wp_Text
begin

text \<open>
  \<open>crates/wp-link/src/netcfg.rs\<close>: the interface settings for a device network that collides with
  the hub's own addresses. The sysctls are files with contents and a permission; the \<open>ip\<close>
  program is a parameter over an abstract kernel state, and every state it leaves behind is
  kept in order, so that statements can be made about each moment of a change. What is relied
  on of \<open>ip rule\<close> is \<open>ip_laws\<close>.
\<close>

section \<open>Sysctls\<close>

record sysctls =
  sy_text :: "string \<times> string \<Rightarrow> string option"
  sy_writable :: "string \<times> string \<Rightarrow> bool"

definition ACCEPT_LOCAL :: string where
  "ACCEPT_LOCAL = ''accept_local''"

definition RP_FILTER :: string where
  "RP_FILTER = ''rp_filter''"

definition conf_path :: "string \<Rightarrow> string \<Rightarrow> string" where
  "conf_path dev key = path_join (path_join ''/proc/sys/net/ipv4/conf'' dev) key"

definition read_conf :: "string \<Rightarrow> string \<Rightarrow> sysctls \<Rightarrow> string option" where
  "read_conf dev key s = map_option trim (sy_text s (dev, key))"

text \<open>Writing replaces the text of an existing file; \<open>None\<close> is the I/O error.\<close>

definition write_conf :: "string \<Rightarrow> string \<Rightarrow> string \<Rightarrow> sysctls \<Rightarrow> sysctls option" where
  "write_conf dev key v s =
     (if sy_text s (dev, key) \<noteq> None \<and> sy_writable s (dev, key)
      then Some (s\<lparr>sy_text := (sy_text s)((dev, key) := Some (v @ [LF]))\<rparr>) else None)"

type_synonym saved_conf = "(string \<times> string \<times> string) list"

definition apply_conf ::
    "string \<Rightarrow> string \<Rightarrow> string \<Rightarrow> saved_conf \<times> sysctls \<Rightarrow> saved_conf \<times> sysctls" where
  "apply_conf dev key want st =
     (case read_conf dev key (snd st) of
        None \<Rightarrow> st
      | Some current \<Rightarrow>
          if current = want then st
          else (case write_conf dev key want (snd st) of
                  Some s \<Rightarrow> (fst st @ [(dev, key, current)], s)
                | None \<Rightarrow> st))"

definition prepare_softap :: "string \<Rightarrow> sysctls \<Rightarrow> saved_conf \<times> sysctls" where
  "prepare_softap dev s =
     apply_conf ''all'' RP_FILTER ''0''
       (apply_conf dev RP_FILTER ''0''
         (apply_conf ''all'' ACCEPT_LOCAL ''1''
           (apply_conf dev ACCEPT_LOCAL ''1'' ([], s))))"

definition restore_one :: "string \<times> string \<times> string \<Rightarrow> sysctls \<Rightarrow> sysctls" where
  "restore_one e s =
     (case e of (dev, key, v) \<Rightarrow>
        (case write_conf dev key v s of Some s' \<Rightarrow> s' | None \<Rightarrow> s))"

definition restore_conf :: "saved_conf \<Rightarrow> sysctls \<Rightarrow> sysctls" where
  "restore_conf saved s = fold restore_one (rev saved) s"

section \<open>Policy routing\<close>

definition SOFTAP_TABLE :: nat where
  "SOFTAP_TABLE = 100"

definition SOFTAP_RULE_PREF :: nat where
  "SOFTAP_RULE_PREF = 0"

definition LOCAL_PARK_PREF :: nat where
  "LOCAL_PARK_PREF = 1"

text \<open>Running \<open>ip\<close>: it cannot be started, or ends with a status and its two outputs.\<close>

type_synonym 'k ip_lib = "string list \<Rightarrow> 'k \<Rightarrow> (string + bool \<times> string \<times> string) \<times> 'k"

record 'k kern =
  kn_now :: 'k
  kn_seen :: "'k list"

definition ip_run :: "'k ip_lib \<Rightarrow> string list \<Rightarrow> 'k kern \<Rightarrow> (string + bool \<times> string \<times> string) \<times> 'k kern" where
  "ip_run L args k =
     (case L args (kn_now k) of (r, k') \<Rightarrow> (r, \<lparr>kn_now = k', kn_seen = kn_seen k @ [k']\<rparr>))"

definition ip_cmd :: "'k ip_lib \<Rightarrow> string list \<Rightarrow> 'k kern \<Rightarrow> string option \<times> 'k kern" where
  "ip_cmd L args k =
     (case ip_run L args k of
        (Inl e, k') \<Rightarrow> (Some e, k')
      | (Inr (True, out, err), k') \<Rightarrow> (None, k')
      | (Inr (False, out, err), k') \<Rightarrow>
          (Some (''ip '' @ join '' '' args @ '' failed: '' @ trim (from_utf8_lossy err)), k'))"

definition ip_stdout :: "'k ip_lib \<Rightarrow> string list \<Rightarrow> 'k kern \<Rightarrow> string \<times> 'k kern" where
  "ip_stdout L args k =
     (case ip_run L args k of
        (Inl e, k') \<Rightarrow> ([], k')
      | (Inr (ok, out, err), k') \<Rightarrow> (trim (from_utf8_lossy out), k'))"

fun local_pref_of_lines :: "string list \<Rightarrow> nat option" where
  "local_pref_of_lines [] = None"
| "local_pref_of_lines (l # ls) =
     (let line = trim l in
      if contains line ''lookup local'' \<or> contains line ''lookup 255''
      then map_option unat (parse_u32 (trim (hd (split_char (CHR '':'') line))))
      else local_pref_of_lines ls)"

definition parse_local_pref :: "string \<Rightarrow> nat option" where
  "parse_local_pref text = local_pref_of_lines (lines text)"

definition route_is_via_loopback :: "string \<Rightarrow> bool" where
  "route_is_via_loopback route_get \<longleftrightarrow>
     (let t = trim route_get
      in contains t ''dev lo'' \<or> starts_with t ''local '' \<or> contains t '' cache <local>'')"

definition is_exists :: "string \<Rightarrow> bool" where
  "is_exists msg \<longleftrightarrow> contains msg ''exists'' \<or> contains msg ''File exists'' \<or> contains msg ''error -17''"

record policy_route =
  po_source :: ipv4
  po_host :: ipv4
  po_relocated :: bool

definition route_replace_args :: "ipv4 \<Rightarrow> ipv4 \<Rightarrow> string \<Rightarrow> string list" where
  "route_replace_args src host dev =
     [''route'', ''replace'', ''table'', show_nat SOFTAP_TABLE, show_ipv4 host @ ''/32'', ''dev'', dev,
      ''scope'', ''link'', ''src'', show_ipv4 src]"

definition exception_args :: "string \<Rightarrow> ipv4 \<Rightarrow> ipv4 \<Rightarrow> string list" where
  "exception_args verb src host =
     [''-4'', ''rule'', verb, ''pref'', show_nat SOFTAP_RULE_PREF, ''from'', show_ipv4 src, ''to'',
      show_ipv4 host, ''lookup'', show_nat SOFTAP_TABLE]"

definition local_args :: "string \<Rightarrow> nat \<Rightarrow> string list" where
  "local_args verb pref = [''-4'', ''rule'', verb, ''pref'', show_nat pref, ''table'', ''local'']"

definition flush_table_args :: "string list" where
  "flush_table_args = [''route'', ''flush'', ''table'', show_nat SOFTAP_TABLE]"

definition flush_cache_args :: "string list" where
  "flush_cache_args = [''route'', ''flush'', ''cache'']"

definition rule_list_args :: "string list" where
  "rule_list_args = [''-4'', ''rule'', ''list'']"

definition route_get_args :: "ipv4 \<Rightarrow> ipv4 \<Rightarrow> string list" where
  "route_get_args src host = [''-4'', ''route'', ''get'', show_ipv4 host, ''from'', show_ipv4 src]"

text \<open>Moving \<open>lookup local\<close> from pref 0 to pref 1: add the parked copy, then delete the original.\<close>

definition park_local :: "'k ip_lib \<Rightarrow> 'k kern \<Rightarrow> bool \<times> 'k kern" where
  "park_local L k =
     (let k1 = snd (ip_cmd L (local_args ''add'' LOCAL_PARK_PREF) k) in
      case ip_cmd L (local_args ''del'' SOFTAP_RULE_PREF) k1 of
        (None, k2) \<Rightarrow> (True, k2)
      | (Some e, k2) \<Rightarrow> (False, snd (ip_cmd L (local_args ''del'' LOCAL_PARK_PREF) k2)))"

definition relocate_local :: "'k ip_lib \<Rightarrow> ('k \<Rightarrow> bool) \<Rightarrow> 'k kern \<Rightarrow> bool \<times> 'k kern" where
  "relocate_local L host_is_local k =
     (if host_is_local (kn_now k)
      then (case ip_stdout L rule_list_args k of
              (rules, k1) \<Rightarrow> if parse_local_pref rules = Some 0 then park_local L k1 else (False, k1))
      else (False, k))"

definition install_policy_route ::
    "'k ip_lib \<Rightarrow> (ipv4 \<Rightarrow> 'k \<Rightarrow> bool) \<Rightarrow> ipv4 \<Rightarrow> ipv4 \<Rightarrow> string \<Rightarrow> 'k kern \<Rightarrow> policy_route \<times> 'k kern" where
  "install_policy_route L is_local src host dev k =
     (let installed = \<lparr>po_source = src, po_host = host, po_relocated = False\<rparr> in
      case ip_cmd L (route_replace_args src host dev) k of
        (Some e, k1) \<Rightarrow> (installed, k1)
      | (None, k1) \<Rightarrow>
          (case ip_cmd L (exception_args ''add'' src host) k1 of
             (r, k2) \<Rightarrow>
               if r \<noteq> None \<and> \<not> is_exists (the r)
               then (installed, snd (ip_cmd L flush_table_args k2))
               else (case relocate_local L (is_local host) k2 of
                       (moved, k3) \<Rightarrow>
                         (installed\<lparr>po_relocated := moved\<rparr>,
                          snd (ip_stdout L (route_get_args src host)
                            (snd (ip_stdout L rule_list_args
                              (snd (ip_cmd L flush_cache_args k3)))))))))"

definition remove_policy_route :: "'k ip_lib \<Rightarrow> policy_route \<Rightarrow> 'k kern \<Rightarrow> 'k kern" where
  "remove_policy_route L r k =
     (let k1 = snd (ip_cmd L (exception_args ''del'' (po_source r) (po_host r)) k);
          k2 = (if po_relocated r
                then snd (ip_cmd L (local_args ''del'' LOCAL_PARK_PREF)
                       (snd (ip_cmd L (local_args ''add'' SOFTAP_RULE_PREF) k1)))
                else k1)
      in snd (ip_cmd L flush_cache_args (snd (ip_cmd L flush_table_args k2))))"

section \<open>The sysctls are put back\<close>

text \<open>Two states that no reader of sysctls can tell apart.\<close>

definition same_conf :: "sysctls \<Rightarrow> sysctls \<Rightarrow> bool" where
  "same_conf s t \<longleftrightarrow> (\<forall>dev key. read_conf dev key s = read_conf dev key t) \<and> sy_writable s = sy_writable t"

lemma same_conf_sym: "same_conf s t \<Longrightarrow> same_conf t s"
  by (simp add: same_conf_def)

lemma same_conf_trans: "same_conf s t \<Longrightarrow> same_conf t u \<Longrightarrow> same_conf s u"
  by (simp add: same_conf_def)

lemma read_None: "read_conf dev key s = None \<longleftrightarrow> sy_text s (dev, key) = None"
  by (simp add: read_conf_def)

lemma write_conf_same:
  assumes "same_conf s t"
  shows "rel_option same_conf (write_conf dev key v s) (write_conf dev key v t)"
proof -
  have "sy_text s (dev, key) = None \<longleftrightarrow> sy_text t (dev, key) = None"
    using assms by (metis read_None same_conf_def)
  with assms show ?thesis by (auto simp: write_conf_def same_conf_def read_conf_def)
qed

lemma restore_same: "same_conf s t \<Longrightarrow> same_conf (restore_conf saved s) (restore_conf saved t)"
proof -
  have "same_conf (fold restore_one es s) (fold restore_one es t)" if "same_conf s t" for es
    using that
  proof (induction es arbitrary: s t)
    case (Cons e es)
    obtain dev key v where e: "e = (dev, key, v)" by (cases e)
    have "same_conf (restore_one e s) (restore_one e t)"
      using write_conf_same [OF Cons.prems, of dev key v] Cons.prems
      by (auto simp: restore_one_def e split: option.splits)
    then show ?case by (simp add: Cons.IH)
  qed simp
  then show "same_conf s t \<Longrightarrow> ?thesis" by (simp add: restore_conf_def)
qed

lemma write_back:
  assumes "read_conf dev key s = Some cur" and "write_conf dev key want s = Some s'"
  shows "same_conf (restore_one (dev, key, cur) s') s"
  using assms
  by (auto simp: write_conf_def restore_one_def same_conf_def read_conf_def trim_idem_LF split: if_splits)

definition undoes :: "sysctls \<Rightarrow> saved_conf \<times> sysctls \<Rightarrow> bool" where
  "undoes s0 st \<longleftrightarrow> same_conf (restore_conf (fst st) (snd st)) s0"

lemma apply_conf_undone:
  assumes "undoes s0 st" shows "undoes s0 (apply_conf dev key want st)"
proof (cases "read_conf dev key (snd st)")
  case None
  with assms show ?thesis by (simp add: apply_conf_def)
next
  case (Some cur)
  show ?thesis
  proof (cases "cur \<noteq> want \<and> write_conf dev key want (snd st) \<noteq> None")
    case True
    then obtain s where s: "write_conf dev key want (snd st) = Some s" by blast
    have "restore_conf (fst st @ [(dev, key, cur)]) s = restore_conf (fst st) (restore_one (dev, key, cur) s)"
      by (simp add: restore_conf_def)
    with restore_same [OF write_back [OF Some s], of "fst st"] assms True Some s show ?thesis
      by (auto simp: apply_conf_def undoes_def intro: same_conf_trans)
  next
    case False
    with assms Some show ?thesis by (auto simp: apply_conf_def split: option.split)
  qed
qed

lemma prepare_undone: "undoes s (prepare_softap dev s)"
proof -
  have "undoes s ([], s)" by (simp add: undoes_def restore_conf_def same_conf_def)
  then show ?thesis by (simp add: prepare_softap_def apply_conf_undone)
qed

lemma apply_conf_effect:
  "read_conf d k (snd (apply_conf dev key want st)) =
     (if (d, k) = (dev, key) \<and> sy_text (snd st) (d, k) \<noteq> None \<and> sy_writable (snd st) (d, k)
      then Some (if read_conf d k (snd st) = Some want then want else trim (want @ [LF]))
      else read_conf d k (snd st))"
  by (auto simp: apply_conf_def write_conf_def read_conf_def split: option.splits if_splits)

lemma apply_conf_static [simp]:
  "sy_writable (snd (apply_conf dev key want st)) = sy_writable (snd st)"
  "sy_text (snd (apply_conf dev key want st)) (d, k) = None \<longleftrightarrow> sy_text (snd st) (d, k) = None"
  by (auto simp: apply_conf_def write_conf_def split: option.splits if_splits)

lemma trim_digit: "trim [CHR ''0'', LF] = [CHR ''0'']" "trim [CHR ''1'', LF] = [CHR ''1'']"
proof -
  have "trim [c, LF] = [c]" if "ws_len [of_char c] = 0" for c
  proof -
    have "ws_len [of_char c, 10] = 0" using ws_len_snoc_LF [of "[of_char c]"] that by simp
    then have "trim_start [c, LF] = [c, LF]"
      by (subst trim_start.simps) (simp add: byte_LF)
    moreover have "trim_end_rev [c] = [c]"
      using that by (subst trim_end_rev.simps) (simp add: ws_len_rev_def)
    ultimately show ?thesis using trim_end_snoc_LF [of "[c]"] by (simp add: trim_def trim_end_def)
  qed
  then show "trim [CHR ''0'', LF] = [CHR ''0'']" "trim [CHR ''1'', LF] = [CHR ''1'']"
    by (simp_all add: ws_len_short)
qed

text \<open>The value that the device network needs of a sysctl; the others are left alone.\<close>

definition wanted :: "string \<Rightarrow> string \<Rightarrow> string \<Rightarrow> string option" where
  "wanted dev d key =
     (if d = dev \<or> d = ''all''
      then (if key = ACCEPT_LOCAL then Some ''1'' else if key = RP_FILTER then Some ''0'' else None)
      else None)"

text \<open>C23: the sysctls of a device network. Preparing sets the four that replies from a local address
  need, on the device and on \<open>all\<close>, wherever they exist and may be written, and changes no
  other; and restoring what was saved makes every sysctl read as it did before, whatever
  subset of them could be changed and whatever white space the old values carried.\<close>

theorem softap_sysctls_restored:
  "read_conf d key (snd (prepare_softap dev s)) =
     (if wanted dev d key \<noteq> None \<and> sy_text s (d, key) \<noteq> None \<and> sy_writable s (d, key)
      then wanted dev d key else read_conf d key s)
 \<and> read_conf d key (restore_conf (fst (prepare_softap dev s)) (snd (prepare_softap dev s))) = read_conf d key s"
proof
  show "read_conf d key (snd (prepare_softap dev s)) =
     (if wanted dev d key \<noteq> None \<and> sy_text s (d, key) \<noteq> None \<and> sy_writable s (d, key)
      then wanted dev d key else read_conf d key s)"
    by (auto simp: prepare_softap_def apply_conf_effect wanted_def trim_digit ACCEPT_LOCAL_def RP_FILTER_def)
next
  show "read_conf d key (restore_conf (fst (prepare_softap dev s)) (snd (prepare_softap dev s))) = read_conf d key s"
    using prepare_undone [of s dev] by (simp add: undoes_def same_conf_def)
qed

section \<open>Local delivery while the rules move\<close>

definition ip_succeeds :: "'k ip_lib \<Rightarrow> string list \<Rightarrow> 'k \<Rightarrow> bool" where
  "ip_succeeds L args k = (case fst (L args k) of Inl e \<Rightarrow> False | Inr (ok, out, err) \<Rightarrow> ok)"

definition ip_error :: "'k ip_lib \<Rightarrow> string list \<Rightarrow> 'k \<Rightarrow> string" where
  "ip_error L args k =
     (case fst (L args k) of
        Inl e \<Rightarrow> e
      | Inr (ok, out, err) \<Rightarrow> ''ip '' @ join '' '' args @ '' failed: '' @ trim (from_utf8_lossy err))"

definition ip_listing :: "'k ip_lib \<Rightarrow> 'k \<Rightarrow> string" where
  "ip_listing L k =
     (case fst (L rule_list_args k) of Inl e \<Rightarrow> [] | Inr (ok, out, err) \<Rightarrow> trim (from_utf8_lossy out))"

text \<open>The commands of the module that leave every rule for the local table alone.\<close>

definition no_local_rule :: "string list \<Rightarrow> bool" where
  "no_local_rule args \<longleftrightarrow>
     args \<in> {flush_table_args, flush_cache_args, rule_list_args}
   \<or> (\<exists>src host dev. args = route_replace_args src host dev)
   \<or> (\<exists>verb src host. args = exception_args verb src host)
   \<or> (\<exists>src host. args = route_get_args src host)"

text \<open>
  What the module relies on of \<open>ip\<close>, where \<open>prefs k\<close> are the preferences at which \<open>k\<close> has a rule
  for the local table: a command that succeeds has its effect and one that fails has none,
  an addition that fails with \<open>File exists\<close> found the rule, and a listed local rule is there.
\<close>

definition ip_laws :: "'k ip_lib \<Rightarrow> ('k \<Rightarrow> nat set) \<Rightarrow> bool" where
  "ip_laws L prefs \<longleftrightarrow>
     (\<forall>k. \<forall>p\<le>1. prefs (snd (L (local_args ''add'' p) k)) =
              (if ip_succeeds L (local_args ''add'' p) k then insert p (prefs k) else prefs k)
          \<and> prefs (snd (L (local_args ''del'' p) k)) =
              (if ip_succeeds L (local_args ''del'' p) k then prefs k - {p} else prefs k)
          \<and> (\<not> ip_succeeds L (local_args ''add'' p) k \<longrightarrow> is_exists (ip_error L (local_args ''add'' p) k) \<longrightarrow> p \<in> prefs k)
          \<and> (parse_local_pref (ip_listing L k) = Some p \<longrightarrow> p \<in> prefs k))
   \<and> (\<forall>k args. no_local_rule args \<longrightarrow> prefs (snd (L args k)) = prefs k)"

text \<open>Adding a local rule works, or the rule is there.\<close>

definition adds_work :: "'k ip_lib \<Rightarrow> bool" where
  "adds_work L \<longleftrightarrow>
     (\<forall>k. \<forall>p\<le>1. ip_succeeds L (local_args ''add'' p) k \<or> is_exists (ip_error L (local_args ''add'' p) k))"

definition adds_fail :: "'k ip_lib \<Rightarrow> bool" where
  "adds_fail L \<longleftrightarrow>
     (\<forall>k. \<forall>p\<le>1. \<not> ip_succeeds L (local_args ''add'' p) k \<and> \<not> is_exists (ip_error L (local_args ''add'' p) k))"

text \<open>Deleting a local rule that is there works.\<close>

definition dels_work :: "'k ip_lib \<Rightarrow> ('k \<Rightarrow> nat set) \<Rightarrow> bool" where
  "dels_work L prefs \<longleftrightarrow> (\<forall>k. \<forall>p\<le>1. p \<in> prefs k \<longrightarrow> ip_succeeds L (local_args ''del'' p) k)"

lemma ip_cmd_parts:
  "ip_cmd L args k =
     (if ip_succeeds L args (kn_now k) then None else Some (ip_error L args (kn_now k)),
      \<lparr>kn_now = snd (L args (kn_now k)), kn_seen = kn_seen k @ [snd (L args (kn_now k))]\<rparr>)"
  by (auto simp: ip_cmd_def ip_run_def ip_succeeds_def ip_error_def
           split: prod.splits sum.splits bool.splits)

lemma ip_stdout_parts:
  "snd (ip_stdout L args k) =
     \<lparr>kn_now = snd (L args (kn_now k)), kn_seen = kn_seen k @ [snd (L args (kn_now k))]\<rparr>"
  "fst (ip_stdout L rule_list_args k) = ip_listing L (kn_now k)"
  by (auto simp: ip_stdout_def ip_run_def ip_listing_def split: prod.splits sum.splits)

lemma no_local_rule_issued [simp]:
  "no_local_rule flush_table_args" "no_local_rule flush_cache_args" "no_local_rule rule_list_args"
  "no_local_rule (route_replace_args src host dev)" "no_local_rule (exception_args verb src host)"
  "no_local_rule (route_get_args src host)"
  unfolding no_local_rule_def by blast+

lemma ip_law_simps:
  assumes "ip_laws L prefs"
  shows "p \<le> 1 \<Longrightarrow> prefs (snd (L (local_args ''add'' p) k)) =
           (if ip_succeeds L (local_args ''add'' p) k then insert p (prefs k) else prefs k)"
    and "p \<le> 1 \<Longrightarrow> prefs (snd (L (local_args ''del'' p) k)) =
           (if ip_succeeds L (local_args ''del'' p) k then prefs k - {p} else prefs k)"
    and "no_local_rule args \<Longrightarrow> prefs (snd (L args k)) = prefs k"
  using assms by (auto simp: ip_laws_def)

lemma ip_law_exists:
  assumes "ip_laws L prefs" "adds_work L" "p \<le> 1" "\<not> ip_succeeds L (local_args ''add'' p) k"
  shows "p \<in> prefs k"
  using assms by (auto simp: ip_laws_def adds_work_def)

lemma ip_law_listed:
  "ip_laws L prefs \<Longrightarrow> parse_local_pref (ip_listing L k) = Some p \<Longrightarrow> p \<le> 1 \<Longrightarrow> p \<in> prefs k"
  by (auto simp: ip_laws_def)

text \<open>A local rule is there now and was in every state recorded.\<close>

definition delivers :: "('k \<Rightarrow> nat set) \<Rightarrow> 'k kern \<Rightarrow> bool" where
  "delivers prefs k \<longleftrightarrow> prefs (kn_now k) \<noteq> {} \<and> list_all (\<lambda>s. prefs s \<noteq> {}) (kn_seen k)"

lemma delivers_neutral:
  assumes "ip_laws L prefs" "no_local_rule args"
  shows "prefs (kn_now (snd (ip_cmd L args k))) = prefs (kn_now k)"
    and "prefs (kn_now (snd (ip_stdout L args k))) = prefs (kn_now k)"
    and "delivers prefs (snd (ip_cmd L args k)) \<longleftrightarrow> delivers prefs k"
    and "delivers prefs (snd (ip_stdout L args k)) \<longleftrightarrow> delivers prefs k"
  using assms by (auto simp: ip_cmd_parts ip_stdout_parts ip_law_simps delivers_def)

lemma park_local_effect:
  assumes L: "ip_laws L prefs" "adds_work L" and "0 \<in> prefs (kn_now k)" "delivers prefs k"
  shows "delivers prefs (snd (park_local L k))"
    and "fst (park_local L k) \<Longrightarrow> prefs (kn_now (snd (park_local L k))) = insert 1 (prefs (kn_now k)) - {0}"
    and "\<not> fst (park_local L k) \<Longrightarrow> dels_work L prefs \<Longrightarrow> 1 \<notin> prefs (kn_now k)
         \<Longrightarrow> prefs (kn_now (snd (park_local L k))) = prefs (kn_now k)"
  using assms(3,4) ip_law_exists [OF L]
  by (auto simp: park_local_def ip_cmd_parts ip_law_simps [OF L(1)] delivers_def dels_work_def
           SOFTAP_RULE_PREF_def LOCAL_PARK_PREF_def Let_def split: if_splits)

lemma relocate_local_effect:
  assumes L: "ip_laws L prefs" "adds_work L" and "delivers prefs k"
  shows "delivers prefs (snd (relocate_local L hl k))"
    and "fst (relocate_local L hl k)
         \<Longrightarrow> 0 \<in> prefs (kn_now k) \<and> prefs (kn_now (snd (relocate_local L hl k))) = insert 1 (prefs (kn_now k)) - {0}"
    and "\<not> fst (relocate_local L hl k) \<Longrightarrow> dels_work L prefs \<Longrightarrow> 1 \<notin> prefs (kn_now k)
         \<Longrightarrow> prefs (kn_now (snd (relocate_local L hl k))) = prefs (kn_now k)"
proof -
  define k1 where "k1 = snd (ip_stdout L rule_list_args k)"
  have st: "ip_stdout L rule_list_args k = (ip_listing L (kn_now k), k1)"
    by (simp add: k1_def ip_stdout_parts prod_eq_iff)
  have k1: "prefs (kn_now k1) = prefs (kn_now k)" "delivers prefs k1"
    using assms(3) by (simp_all add: k1_def delivers_neutral [OF L(1)])
  have z: "parse_local_pref (ip_listing L (kn_now k)) = Some 0 \<Longrightarrow> 0 \<in> prefs (kn_now k1)"
    using ip_law_listed [OF L(1)] k1 by simp
  note park = park_local_effect [OF L z k1(2)]
  show "delivers prefs (snd (relocate_local L hl k))"
    using assms(3) park(1) k1 by (simp add: relocate_local_def st)
  show "fst (relocate_local L hl k)
         \<Longrightarrow> 0 \<in> prefs (kn_now k) \<and> prefs (kn_now (snd (relocate_local L hl k))) = insert 1 (prefs (kn_now k)) - {0}"
    using park(2) k1 z by (simp add: relocate_local_def st split: if_splits)
  show "\<not> fst (relocate_local L hl k) \<Longrightarrow> dels_work L prefs \<Longrightarrow> 1 \<notin> prefs (kn_now k)
         \<Longrightarrow> prefs (kn_now (snd (relocate_local L hl k))) = prefs (kn_now k)"
    using park(3) k1 by (simp add: relocate_local_def st split: if_splits)
qed

text \<open>What installing leaves behind, and that no state on the way is without a local rule.\<close>

lemma install_effect:
  assumes L: "ip_laws L prefs" "adds_work L" and "delivers prefs k"
    and out_def: "out = install_policy_route L is_local src host dev k"
  shows "delivers prefs (snd out)"
    and "po_relocated (fst out)
         \<Longrightarrow> 0 \<in> prefs (kn_now k) \<and> prefs (kn_now (snd out)) = insert 1 (prefs (kn_now k)) - {0}"
    and "\<not> po_relocated (fst out) \<Longrightarrow> dels_work L prefs \<Longrightarrow> 1 \<notin> prefs (kn_now k)
         \<Longrightarrow> prefs (kn_now (snd out)) = prefs (kn_now k)"
proof -
  obtain r1 k1 where c1: "ip_cmd L (route_replace_args src host dev) k = (r1, k1)" by fastforce
  obtain r2 k2 where c2: "ip_cmd L (exception_args ''add'' src host) k1 = (r2, k2)" by fastforce
  have k1: "prefs (kn_now k1) = prefs (kn_now k)" "delivers prefs k1"
    using delivers_neutral [OF L(1), of "route_replace_args src host dev" k] c1 assms(3) by simp_all
  have k2: "prefs (kn_now k2) = prefs (kn_now k)" "delivers prefs k2"
    using delivers_neutral [OF L(1), of "exception_args ''add'' src host" k1] c2 k1 by simp_all
  note rel = relocate_local_effect [OF L k2(2), of "is_local host"]
  note simps = out_def install_policy_route_def c1 c2 Let_def delivers_neutral [OF L(1)]
  show "delivers prefs (snd out)"
    using k1 k2 rel(1) by (auto simp: simps split: option.splits prod.splits)
  show "po_relocated (fst out)
         \<Longrightarrow> 0 \<in> prefs (kn_now k) \<and> prefs (kn_now (snd out)) = insert 1 (prefs (kn_now k)) - {0}"
    using k2 rel(2) by (auto simp: simps split: option.splits prod.splits if_splits)
  show "\<not> po_relocated (fst out) \<Longrightarrow> dels_work L prefs \<Longrightarrow> 1 \<notin> prefs (kn_now k)
         \<Longrightarrow> prefs (kn_now (snd out)) = prefs (kn_now k)"
    using k1 k2 rel(3) by (auto simp: simps split: option.splits prod.splits if_splits)
qed

lemma remove_effect:
  assumes L: "ip_laws L prefs" "adds_work L" and "delivers prefs k"
  shows "delivers prefs (remove_policy_route L r k)"
    and "po_relocated r \<Longrightarrow> dels_work L prefs
         \<Longrightarrow> prefs (kn_now (remove_policy_route L r k)) = insert 0 (prefs (kn_now k)) - {1}"
    and "\<not> po_relocated r \<Longrightarrow> prefs (kn_now (remove_policy_route L r k)) = prefs (kn_now k)"
proof -
  define k1 where "k1 = snd (ip_cmd L (exception_args ''del'' (po_source r) (po_host r)) k)"
  define k2 where "k2 = snd (ip_cmd L (local_args ''add'' SOFTAP_RULE_PREF) k1)"
  define k3 where "k3 = snd (ip_cmd L (local_args ''del'' LOCAL_PARK_PREF) k2)"
  have k1: "prefs (kn_now k1) = prefs (kn_now k)" "delivers prefs k1"
    using assms(3) by (simp_all add: k1_def delivers_neutral [OF L(1)])
  have k2: "prefs (kn_now k2) = insert 0 (prefs (kn_now k))"
    using ip_law_exists [OF L] k1
    by (auto simp: k2_def ip_cmd_parts ip_law_simps [OF L(1)] SOFTAP_RULE_PREF_def)
  have d2: "delivers prefs k2"
    using k1(2) k2 by (auto simp: delivers_def k2_def ip_cmd_parts)
  have k3: "0 \<in> prefs (kn_now k3)" "dels_work L prefs \<Longrightarrow> prefs (kn_now k3) = insert 0 (prefs (kn_now k)) - {1}"
    using k2 by (auto simp: k3_def ip_cmd_parts ip_law_simps [OF L(1)] LOCAL_PARK_PREF_def dels_work_def)
  have d3: "delivers prefs k3"
    using d2 k3(1) by (auto simp: delivers_def k3_def ip_cmd_parts)
  have *: "remove_policy_route L r k =
      snd (ip_cmd L flush_cache_args (snd (ip_cmd L flush_table_args (if po_relocated r then k3 else k1))))"
    by (simp add: remove_policy_route_def Let_def k1_def k2_def k3_def)
  show "delivers prefs (remove_policy_route L r k)"
    and "po_relocated r \<Longrightarrow> dels_work L prefs
         \<Longrightarrow> prefs (kn_now (remove_policy_route L r k)) = insert 0 (prefs (kn_now k)) - {1}"
    and "\<not> po_relocated r \<Longrightarrow> prefs (kn_now (remove_policy_route L r k)) = prefs (kn_now k)"
    using k1 k3 d3 by (simp_all add: * delivers_neutral [OF L(1)])
qed

text \<open>C21: the policy route of a device network, with an \<open>ip\<close> that keeps its contract and can add and
  delete local rules. Through installation and removal there is no moment at which the kernel
  has no rule for the local table; while the rule is parked the preference 0 belongs to the exception; and
  removing the route, from any state with the rules installation left, puts the local
  rules back where they were. At the start there is a rule for the local table, and none at preference 1.\<close>

theorem policy_route_keeps_local_delivery:
  assumes "ip_laws L prefs" "adds_work L" "dels_work L prefs"
    and "prefs s0 \<noteq> {}" "1 \<notin> prefs s0"
    and "install_policy_route L is_local src host dev \<lparr>kn_now = s0, kn_seen = []\<rparr> = (r, k)"
    and "prefs s1 = prefs (kn_now k)"
  shows "list_all (\<lambda>s. prefs s \<noteq> {}) (kn_seen k)
       \<and> (\<not> po_relocated r \<or> 0 \<notin> prefs (kn_now k))
       \<and> list_all (\<lambda>s. prefs s \<noteq> {}) (kn_seen (remove_policy_route L r \<lparr>kn_now = s1, kn_seen = []\<rparr>))
       \<and> prefs (kn_now (remove_policy_route L r \<lparr>kn_now = s1, kn_seen = []\<rparr>)) = prefs s0"
proof -
  have "delivers prefs \<lparr>kn_now = s0, kn_seen = []\<rparr>" using assms(4) by (simp add: delivers_def)
  note inst = install_effect [OF assms(1,2) this assms(6) [symmetric]]
  have "delivers prefs \<lparr>kn_now = s1, kn_seen = []\<rparr>" using inst(1) assms(7) by (simp add: delivers_def)
  note rem = remove_effect [OF assms(1,2) this, of r]
  have "prefs (kn_now (remove_policy_route L r \<lparr>kn_now = s1, kn_seen = []\<rparr>)) = prefs s0"
    using inst(2,3) rem(2,3) assms(3,5,7) by (cases "po_relocated r") auto
  then show ?thesis using inst(1,2) rem(1) by (auto simp: delivers_def)
qed

text \<open>A kernel with at most the local rules 0 and 1, whose additions may be refused.\<close>

definition demo_ip :: "bool \<Rightarrow> (bool \<times> bool) ip_lib" where
  "demo_ip adds args k =
     (case args of
        [_, _, verb, _, p, _, _] \<Rightarrow>
          (let there = (if p = ''0'' then fst k else snd k);
               upd = (\<lambda>b. if p = ''0'' then (b, snd k) else (fst k, b)) in
           if verb = ''add''
           then (if \<not> adds then (Inr (False, [], ''denied''), k)
                 else if there then (Inr (False, [], ''File exists''), k) else (Inr (True, [], []), upd True))
           else if there then (Inr (True, [], []), upd False) else (Inr (False, [], ''not found''), k))
      | [_, _, what] \<Rightarrow>
          (Inr (True, if what = ''list'' \<and> fst k then ''0: from all lookup local'' else [], []), k)
      | _ \<Rightarrow> (Inr (True, [], []), k))"

definition demo_prefs :: "bool \<times> bool \<Rightarrow> nat set" where
  "demo_prefs k = (if fst k then {0} else {}) \<union> (if snd k then {1} else {})"

lemma demo_neutral: "no_local_rule args \<Longrightarrow> snd (demo_ip adds args k) = k"
  by (auto simp: no_local_rule_def demo_ip_def flush_table_args_def flush_cache_args_def rule_list_args_def
           route_replace_args_def exception_args_def route_get_args_def split: list.splits)

lemma le_1: "(\<forall>p\<le>1. P p) \<longleftrightarrow> P 0 \<and> P (1::nat)"
  by (metis le_0_eq le_SucE One_nat_def order_refl zero_le)

lemma demo_listing: "ip_listing (demo_ip adds) (a, b) = (if a then ''0: from all lookup local'' else [])"
proof -
  have "trim (from_utf8_lossy ''0: from all lookup local'') = ''0: from all lookup local''"
    and "trim (from_utf8_lossy []) = []"
    by code_simp+
  then show ?thesis by (simp add: ip_listing_def demo_ip_def rule_list_args_def)
qed

lemma demo_verbs: "show_nat 0 = ''0''" "show_nat 1 = ''1''"
  by code_simp+

lemma demo_runs:
  "demo_ip adds (local_args ''add'' 0) (a, b) =
     (if \<not> adds then (Inr (False, [], ''denied''), a, b)
      else if a then (Inr (False, [], ''File exists''), a, b) else (Inr (True, [], []), True, b))"
  "demo_ip adds (local_args ''add'' 1) (a, b) =
     (if \<not> adds then (Inr (False, [], ''denied''), a, b)
      else if b then (Inr (False, [], ''File exists''), a, b) else (Inr (True, [], []), a, True))"
  "demo_ip adds (local_args ''del'' 0) (a, b) =
     (if a then (Inr (True, [], []), False, b) else (Inr (False, [], ''not found''), a, b))"
  "demo_ip adds (local_args ''del'' 1) (a, b) =
     (if b then (Inr (True, [], []), a, False) else (Inr (False, [], ''not found''), a, b))"
  by (simp_all add: demo_ip_def local_args_def demo_verbs Let_def del: One_nat_def)

lemma demo_texts:
  "trim (from_utf8_lossy ''File exists'') = ''File exists''" "trim (from_utf8_lossy ''denied'') = ''denied''"
  "is_exists (''ip '' @ join '' '' (local_args ''add'' 0) @ '' failed: '' @ ''File exists'')"
  "is_exists (''ip '' @ join '' '' (local_args ''add'' 1) @ '' failed: '' @ ''File exists'')"
  "\<not> is_exists (''ip '' @ join '' '' (local_args ''add'' 0) @ '' failed: '' @ ''denied'')"
  "\<not> is_exists (''ip '' @ join '' '' (local_args ''add'' 1) @ '' failed: '' @ ''denied'')"
  by code_simp+

lemma demo_exists:
  "\<not> ip_succeeds (demo_ip adds) (local_args ''add'' 0) (a, b)
     \<Longrightarrow> is_exists (ip_error (demo_ip adds) (local_args ''add'' 0) (a, b)) \<longleftrightarrow> adds"
  "\<not> ip_succeeds (demo_ip adds) (local_args ''add'' 1) (a, b)
     \<Longrightarrow> is_exists (ip_error (demo_ip adds) (local_args ''add'' 1) (a, b)) \<longleftrightarrow> adds"
  using demo_texts
  by (simp_all add: ip_error_def ip_succeeds_def demo_runs del: One_nat_def append.simps split: if_splits)

lemma demo_local_pref: "parse_local_pref ''0: from all lookup local'' = Some 0" "parse_local_pref [] = None"
proof -
  have "lines ''0: from all lookup local'' = [''0: from all lookup local'']"
    and "trim ''0: from all lookup local'' = ''0: from all lookup local''"
    and "contains ''0: from all lookup local'' ''lookup local''"
    and "trim (hd (split_char (CHR '':'') ''0: from all lookup local'')) = ''0''"
    and "lines [] = []"
    by code_simp+
  moreover have "digit_val 10 (CHR ''0'') = Some 0"
    by code_simp
  then have "parse_u32 ''0'' = Some 0"
    by (simp add: parse_u32_def parse_uint_def)
  ultimately show "parse_local_pref ''0: from all lookup local'' = Some 0" "parse_local_pref [] = None"
    by (simp_all add: parse_local_pref_def Let_def)
qed

lemma demo_ip_laws: "ip_laws (demo_ip adds) demo_prefs"
  unfolding ip_laws_def le_1
  by (auto simp: demo_neutral demo_runs demo_exists demo_listing demo_local_pref ip_succeeds_def demo_prefs_def
           simp del: One_nat_def split: if_splits)

lemma demo_dels: "dels_work (demo_ip adds) demo_prefs"
  unfolding dels_work_def le_1
  by (auto simp: demo_runs ip_succeeds_def demo_prefs_def simp del: One_nat_def split: if_splits)

lemma demo_adds: "adds_work (demo_ip True)" "adds_fail (demo_ip False)"
  unfolding adds_work_def adds_fail_def le_1
  by (auto simp: demo_runs demo_exists ip_succeeds_def simp del: One_nat_def)

text \<open>An installation on the hub's own address: the kernel lists its local rule at 0.\<close>

lemma demo_install:
  "install_policy_route (demo_ip adds) (\<lambda>h s. True) [192, 168, 4, 2] [192, 168, 4, 1] ''wlan0'' \<lparr>kn_now = (True, False), kn_seen = []\<rparr> =
     (\<lparr>po_source = [192, 168, 4, 2], po_host = [192, 168, 4, 1], po_relocated = True\<rparr>,
      \<lparr>kn_now = (False, adds),
       kn_seen = [(True, False), (True, False), (True, False), (True, adds), (False, adds), (False, adds),
                  (False, adds), (False, adds)]\<rparr>)"
proof -
  have "ip_succeeds (demo_ip adds) (route_replace_args [192, 168, 4, 2] [192, 168, 4, 1] ''wlan0'') k"
    and "ip_succeeds (demo_ip adds) (exception_args ''add'' [192, 168, 4, 2] [192, 168, 4, 1]) k" for k
    by (simp_all add: ip_succeeds_def demo_ip_def route_replace_args_def exception_args_def)
  then show ?thesis
    by (simp add: install_policy_route_def relocate_local_def park_local_def ip_cmd_parts ip_stdout_parts demo_neutral
        prod_eq_iff Let_def demo_runs demo_listing demo_local_pref ip_succeeds_def SOFTAP_RULE_PREF_def
        LOCAL_PARK_PREF_def del: One_nat_def split: prod.split)
qed

theorem policy_route_keeps_local_delivery_witness:
  "list_all (\<lambda>s. demo_prefs s \<noteq> {})
     [(True, False), (True, False), (True, False), (True, True), (False, True), (False, True), (False, True), (False, True)]
   \<and> demo_prefs (kn_now (remove_policy_route (demo_ip True) \<lparr>po_source = [192, 168, 4, 2], po_host = [192, 168, 4, 1], po_relocated = True\<rparr>
       \<lparr>kn_now = (False, True), kn_seen = []\<rparr>)) = {0}"
  using policy_route_keeps_local_delivery
    [OF demo_ip_laws [of True] demo_adds(1) demo_dels [of True] _ _ demo_install, of "(False, True)"]
  by (simp add: demo_prefs_def)

text \<open>C22: where the parked copy of the local rule cannot be added, installing the policy route for one
  of the hub's own addresses deletes the rule at preference 0 all the same and records it as
  moved: the kernel is left without any local rule. Removing the route does not mend it, since
  the rule it would put back cannot be added either, and deleting the parked copy follows whatever came
  of that.\<close>

theorem failed_park_drops_local_delivery:
  assumes "ip_laws L prefs" "adds_fail L" "dels_work L prefs" "prefs s0 = {0}"
    and "parse_local_pref (ip_listing L (kn_now k2)) = Some 0" "is_local host (kn_now k2)"
    and "ip_cmd L (route_replace_args src host dev) \<lparr>kn_now = s0, kn_seen = []\<rparr> = (None, k1)"
    and "ip_cmd L (exception_args ''add'' src host) k1 = (None, k2)"
    and "install_policy_route L is_local src host dev \<lparr>kn_now = s0, kn_seen = []\<rparr> = (r, k)"
    and "prefs s1 = prefs (kn_now k)"
  shows "po_relocated r \<and> prefs (kn_now k) = {}
       \<and> prefs (kn_now (remove_policy_route L r \<lparr>kn_now = s1, kn_seen = []\<rparr>)) = {}"
proof -
  note L = ip_law_simps [OF assms(1)]
  have fails: "\<not> ip_succeeds L (local_args ''add'' p) s" if "p \<le> 1" for p s
    using assms(2) that by (simp add: adds_fail_def)
  have "prefs (kn_now k2) = {0}"
    using assms(4,7,8) delivers_neutral(1) [OF assms(1) no_local_rule_issued(4)]
      delivers_neutral(1) [OF assms(1) no_local_rule_issued(5)]
    by (metis (no_types, lifting) kern.select_convs(1) snd_conv)
  moreover define k3 where "k3 = snd (ip_stdout L rule_list_args k2)"
  ultimately have k3: "prefs (kn_now k3) = {0}" and st: "ip_stdout L rule_list_args k2 = (ip_listing L (kn_now k2), k3)"
    by (simp_all add: delivers_neutral [OF assms(1)] ip_stdout_parts L prod_eq_iff)
  define k4 where "k4 = snd (ip_cmd L (local_args ''add'' LOCAL_PARK_PREF) k3)"
  have k4: "prefs (kn_now k4) = {0}"
    using k3 fails by (simp add: k4_def ip_cmd_parts L LOCAL_PARK_PREF_def)
  define k5 where "k5 = snd (ip_cmd L (local_args ''del'' SOFTAP_RULE_PREF) k4)"
  have k5: "prefs (kn_now k5) = {}" "ip_cmd L (local_args ''del'' SOFTAP_RULE_PREF) k4 = (None, k5)"
    using k4 assms(3) by (auto simp: k5_def ip_cmd_parts L SOFTAP_RULE_PREF_def dels_work_def)
  have "relocate_local L (is_local host) k2 = (True, k5)"
    using assms(5,6) k5(2) by (simp add: relocate_local_def park_local_def st k4_def)
  with assms(7,8,9) k5(1) have end_state: "po_relocated r" "prefs (kn_now k) = {}"
    by (auto simp: install_policy_route_def Let_def delivers_neutral [OF assms(1)])
  with assms(10) fails show ?thesis
    by (auto simp: remove_policy_route_def Let_def delivers_neutral [OF assms(1)] ip_cmd_parts L
        SOFTAP_RULE_PREF_def LOCAL_PARK_PREF_def)
qed

theorem failed_park_drops_local_delivery_witness:
  "demo_prefs (kn_now (remove_policy_route (demo_ip False)
     \<lparr>po_source = [192, 168, 4, 2], po_host = [192, 168, 4, 1], po_relocated = True\<rparr>
     \<lparr>kn_now = (False, False), kn_seen = []\<rparr>)) = {}"
proof -
  have "ip_cmd (demo_ip False) (route_replace_args [192, 168, 4, 2] [192, 168, 4, 1] ''wlan0'') \<lparr>kn_now = (True, False), kn_seen = []\<rparr>
      = (None, \<lparr>kn_now = (True, False), kn_seen = [(True, False)]\<rparr>)"
    and "ip_cmd (demo_ip False) (exception_args ''add'' [192, 168, 4, 2] [192, 168, 4, 1]) \<lparr>kn_now = (True, False), kn_seen = [(True, False)]\<rparr>
      = (None, \<lparr>kn_now = (True, False), kn_seen = [(True, False), (True, False)]\<rparr>)"
    by (simp_all add: ip_cmd_parts ip_succeeds_def demo_ip_def route_replace_args_def exception_args_def)
  from failed_park_drops_local_delivery
    [OF demo_ip_laws demo_adds(2) demo_dels _ _ _ this demo_install [of False], of "(False, False)"]
  show ?thesis by (simp add: demo_listing demo_local_pref demo_prefs_def)
qed

end
