(* ===== verification/Wp_Sysfs.thy ===== *)
theory Wp_Sysfs
  imports Wp_Core
begin

text \<open>
  What the daemon reads below \<open>/sys/class\<close>: the rfkill switches
  (\<open>crates/wp-link/src/rfkill.rs\<close>) and the wireless interfaces (the first part of
  \<open>crates/wp-link/src/radio.rs\<close>). The file system is the parameter \<open>sys_fs\<close>: a directory is
  an error or the list of its entries, each of which may itself be an error.
\<close>

record sys_fs =
  sf_dir :: "string \<Rightarrow> io_error + (io_error + string) list"
  sf_exists :: "string \<Rightarrow> bool"
  sf_read :: "string \<Rightarrow> io_error + string"

section \<open>rfkill\<close>

record rfkill_state =
  rk_soft :: bool
  rk_hard :: bool

definition rfkill_blocked :: "rfkill_state \<Rightarrow> bool" where
  "rfkill_blocked s \<longleftrightarrow> rk_soft s \<or> rk_hard s"

definition RFKILL_DIR :: string where
  "RFKILL_DIR = ''/sys/class/rfkill''"

definition rfkill_read_one :: "sys_fs \<Rightarrow> string \<Rightarrow> string \<Rightarrow> io_error + bool" where
  "rfkill_read_one S p name = ok_map (\<lambda>v. trim v = ''1'') (sf_read S (path_join p name))"

text \<open>The loop over the switches; the accumulator is \<open>None\<close> until one was read.\<close>

fun rfkill_switches ::
    "sys_fs \<Rightarrow> (io_error + string) list \<Rightarrow> rfkill_state option \<Rightarrow> io_error + rfkill_state option" where
  "rfkill_switches S [] acc = Inr acc"
| "rfkill_switches S (Inl e # es) acc = Inl e"
| "rfkill_switches S (Inr name # es) acc =
     (let p = path_join RFKILL_DIR name in
      rbind (rfkill_read_one S p ''soft'') (\<lambda>soft.
      rbind (rfkill_read_one S p ''hard'') (\<lambda>hard.
        rfkill_switches S es
          (Some (case acc of
             None \<Rightarrow> \<lparr>rk_soft = soft, rk_hard = hard\<rparr>
           | Some a \<Rightarrow> \<lparr>rk_soft = rk_soft a \<or> soft, rk_hard = rk_hard a \<or> hard\<rparr>)))))"

definition rfkill_aggregate_state :: "sys_fs \<Rightarrow> io_error + rfkill_state option" where
  "rfkill_aggregate_state S =
     (case sf_dir S RFKILL_DIR of
        Inl e \<Rightarrow> if ioe_kind e = IOK_NotFound then Inr None else Inl e
      | Inr entries \<Rightarrow> rfkill_switches S entries None)"

text \<open>The reading of the answer in \<open>link.status\<close>.\<close>

definition reports_blocked :: "rfkill_state option \<Rightarrow> bool" where
  "reports_blocked r = (case r of None \<Rightarrow> False | Some s \<Rightarrow> rfkill_blocked s)"

section \<open>Wireless interfaces\<close>

definition NET_DIR :: string where
  "NET_DIR = ''/sys/class/net''"

definition net_path :: "string \<Rightarrow> string" where
  "net_path name = path_join NET_DIR name"

fun first_wireless_entry :: "sys_fs \<Rightarrow> (io_error + string) list \<Rightarrow> driver_error + string" where
  "first_wireless_entry S [] = Inl DE_NoInterface"
| "first_wireless_entry S (Inl e # es) = first_wireless_entry S es"
| "first_wireless_entry S (Inr name # es) =
     (if sf_exists S (path_join (net_path name) ''wireless'') then Inr (from_utf8_lossy name)
      else first_wireless_entry S es)"

definition first_wireless_interface :: "sys_fs \<Rightarrow> driver_error + string" where
  "first_wireless_interface S =
     (case sf_dir S NET_DIR of
        Inl e \<Rightarrow> Inl (DE_Other (''cannot read /sys/class/net: '' @ ioe_text e))
      | Inr entries \<Rightarrow> first_wireless_entry S entries)"

definition is_wireless_interface :: "sys_fs \<Rightarrow> string \<Rightarrow> bool" where
  "is_wireless_interface S name \<longleftrightarrow>
     name \<noteq> [] \<and> sf_exists S (path_join (net_path name) ''wireless'')"

definition resolve_wireless_interface :: "sys_fs \<Rightarrow> string option \<Rightarrow> driver_error + string" where
  "resolve_wireless_interface S preferred =
     (case preferred of
        None \<Rightarrow> first_wireless_interface S
      | Some n \<Rightarrow>
          let name = trim n in
          if name = [] then Inl (DE_Other ''wireless interface name must not be empty'')
          else if \<not> sf_exists S (net_path name)
          then Inl (DE_Other (''interface '' @ name @ '' does not exist''))
          else if \<not> sf_exists S (path_join (net_path name) ''wireless'')
          then Inl (DE_Other (''interface '' @ name @ '' is not wireless''))
          else Inr name)"

definition interface_index :: "sys_fs \<Rightarrow> (string \<Rightarrow> string) \<Rightarrow> string \<Rightarrow> driver_error + u32" where
  "interface_index S int_error name =
     (case sf_read S (path_join (net_path name) ''ifindex'') of
        Inl e \<Rightarrow> Inl (DE_Other (''cannot read ifindex for '' @ name @ '': '' @ ioe_text e))
      | Inr s \<Rightarrow>
          (case parse_u32 (trim s) of
             Some i \<Rightarrow> Inr i
           | None \<Rightarrow> Inl (DE_Other (''bad ifindex for '' @ name @ '': '' @ int_error (trim s)))))"

definition iface_to_index :: "sys_fs \<Rightarrow> string \<Rightarrow> u32 option" where
  "iface_to_index S iface =
     (case sf_read S (''/sys/class/net/'' @ iface @ ''/ifindex'') of
        Inl e \<Rightarrow> None
      | Inr s \<Rightarrow> parse_u32 (trim s))"

fun trim_start_matches_0x :: "string \<Rightarrow> string" where
  "trim_start_matches_0x (a # b # s) =
     (if a = CHR ''0'' \<and> b = CHR ''x'' then trim_start_matches_0x s else a # b # s)"
| "trim_start_matches_0x s = s"

definition IFF_UP :: nat where
  "IFF_UP = 1"

definition iface_is_up :: "sys_fs \<Rightarrow> string \<Rightarrow> bool" where
  "iface_is_up S name =
     (case sf_read S (path_join (net_path name) ''flags'') of
        Inl e \<Rightarrow> False
      | Inr s \<Rightarrow>
          (case parse_uint 16 4294967296 (trim_start_matches_0x (trim s)) of
             Some f \<Rightarrow> f mod 2 = IFF_UP
           | None \<Rightarrow> False))"

definition iface_operstate :: "sys_fs \<Rightarrow> string \<Rightarrow> string" where
  "iface_operstate S name =
     (case sf_read S (path_join (net_path name) ''operstate'') of Inl e \<Rightarrow> ''unknown'' | Inr s \<Rightarrow> trim s)"

definition iface_carrier :: "sys_fs \<Rightarrow> string \<Rightarrow> bool option" where
  "iface_carrier S name =
     (case sf_read S (path_join (net_path name) ''carrier'') of Inl e \<Rightarrow> None | Inr s \<Rightarrow> Some (trim s = ''1''))"

definition iface_associated :: "sys_fs \<Rightarrow> string \<Rightarrow> bool" where
  "iface_associated S name \<longleftrightarrow> iface_carrier S name = Some True \<or> iface_operstate S name = ''up''"

section \<open>Lemmas\<close>

lemma first_wireless_entry_is:
  "first_wireless_entry S es = Inr n \<Longrightarrow>
     \<exists>raw. Inr raw \<in> set es \<and> n = from_utf8_lossy raw \<and> sf_exists S (path_join (net_path raw) ''wireless'')"
  by (induction S es rule: first_wireless_entry.induct) (auto split: if_splits)

text \<open>The fold over the switches: no answer only for no switch, and blocked as soon as one is.\<close>

definition switch_blocked :: "sys_fs \<Rightarrow> string \<Rightarrow> bool" where
  "switch_blocked S name \<longleftrightarrow>
     rfkill_read_one S (path_join RFKILL_DIR name) ''soft'' = Inr True
   \<or> rfkill_read_one S (path_join RFKILL_DIR name) ''hard'' = Inr True"

lemma rfkill_switches_blocked:
  "rfkill_switches S es acc = Inr r \<Longrightarrow>
     (r = None \<longleftrightarrow> acc = None \<and> es = [])
   \<and> (reports_blocked r \<longleftrightarrow> reports_blocked acc \<or> (\<exists>n. Inr n \<in> set es \<and> switch_blocked S n))"
proof (induction es arbitrary: acc)
  case (Cons e es)
  then obtain n soft hard where e: "e = Inr n"
      "rfkill_read_one S (path_join RFKILL_DIR n) ''soft'' = Inr soft"
      "rfkill_read_one S (path_join RFKILL_DIR n) ''hard'' = Inr hard"
    by (cases e) (auto simp: rbind_eq_Inr Let_def)
  have "switch_blocked S n \<longleftrightarrow> soft \<or> hard" using e by (simp add: switch_blocked_def)
  with Cons.prems Cons.IH e show ?case
    by (cases acc) (fastforce simp: Let_def rfkill_blocked_def reports_blocked_def)+
qed simp

end
