(* ===== verification/Wp_Radio.thy ===== *)
theory Wp_Radio
  imports Wp_Netcfg Wp_Sysfs Wp_Runtime
begin

text \<open>
  \<open>crates/wp-link/src/radio.rs\<close>: scan results from nl80211 attributes, association by nl80211 or
  by a \<open>wpa_supplicant\<close> child, addresses, and \<open>Nl80211Radio\<close> with what it must undo.
  The kernel, its netlink sockets, the file system and child processes are the parameter
  \<open>radio_os\<close> over an abstract state \<open>'k\<close>; a netlink reply stream is the list of its messages,
  and a child is known by its number. Times are in milliseconds.
\<close>

section \<open>Scan results\<close>

text \<open>The variants of \<open>Nl80211BssInfo\<close> and \<open>Nl80211Attr\<close> that the code tells apart.\<close>

datatype bss_info =
  BI_Bssid "u8 list"
| BI_SignalMbm int
| BI_RawInformationElements string
| BI_RawBeaconInformationElements string
| BI_RawProbeResponseInformationElements string
| BI_Other

datatype nl_attr =
  NA_Bss "bss_info list"
| NA_Other

definition hex_02 :: "u8 \<Rightarrow> string" where
  "hex_02 b = [hex_lower (unat b div 16), hex_lower (unat b mod 16)]"

definition format_bssid :: "u8 list \<Rightarrow> string" where
  "format_bssid mac = join '':'' (map hex_02 mac)"

text \<open>The elements are identifier, length, data; a truncated one ends the walk.\<close>

function ssid_from_ies :: "string \<Rightarrow> string option" where
  "ssid_from_ies (eid # len # rest) =
     (if byte len > length rest then None
      else if byte eid = 0
      then (if byte len = 0 then None else Some (from_utf8_lossy (take (byte len) rest)))
      else ssid_from_ies (drop (byte len) rest))"
| "ssid_from_ies [] = None"
| "ssid_from_ies [x] = None"
  by pat_completeness auto
termination by (relation "measure length") auto

text \<open>The loop over the elements of a BSS; the three variables are assigned in order.\<close>

definition div_trunc :: "int \<Rightarrow> int \<Rightarrow> int" where
  "div_trunc a b = (if a < 0 then - ((- a) div b) else a div b)"

fun bss_info_step :: "bss_info \<Rightarrow> scan_result \<Rightarrow> scan_result" where
  "bss_info_step (BI_Bssid mac) r = r\<lparr>sr_bssid := Some (format_bssid mac)\<rparr>"
| "bss_info_step (BI_SignalMbm mbm) r = r\<lparr>sr_rssi := Some (div_trunc mbm 100)\<rparr>"
| "bss_info_step (BI_RawInformationElements ies) r =
     (if sr_ssid r = None then r\<lparr>sr_ssid := ssid_from_ies ies\<rparr> else r)"
| "bss_info_step (BI_RawBeaconInformationElements ies) r =
     (if sr_ssid r = None then r\<lparr>sr_ssid := ssid_from_ies ies\<rparr> else r)"
| "bss_info_step (BI_RawProbeResponseInformationElements ies) r =
     (if sr_ssid r = None then r\<lparr>sr_ssid := ssid_from_ies ies\<rparr> else r)"
| "bss_info_step BI_Other r = r"

definition no_result :: scan_result where
  "no_result = \<lparr>sr_ssid = None, sr_bssid = None, sr_rssi = None\<rparr>"

definition parse_bss_infos :: "bss_info list \<Rightarrow> scan_result option" where
  "parse_bss_infos bss =
     (let r = fold bss_info_step bss no_result
      in if sr_ssid r = None \<and> sr_bssid r = None then None else Some r)"

fun parse_scan_attrs :: "nl_attr list \<Rightarrow> scan_result option" where
  "parse_scan_attrs [] = None"
| "parse_scan_attrs (NA_Bss bss # attrs) = parse_bss_infos bss"
| "parse_scan_attrs (NA_Other # attrs) = parse_scan_attrs attrs"

text \<open>The loop of \<open>dump_bss\<close> over the reply stream: full is noticed at the next message.\<close>

fun dump_loop :: "nat \<Rightarrow> scan_result list \<Rightarrow> (string + nl_attr list) list \<Rightarrow> driver_error + scan_result list" where
  "dump_loop mx results [] = Inr results"
| "dump_loop mx results (Inl e # ms) = Inl (DE_Other (''scan dump: '' @ e))"
| "dump_loop mx results (Inr attrs # ms) =
     (if length results \<ge> mx then Inr results
      else dump_loop mx (case parse_scan_attrs attrs of None \<Rightarrow> results | Some r \<Rightarrow> results @ [r]) ms)"

section \<open>The system\<close>

datatype scan_msg =
  SM_NewScanResults
| SM_ScanAborted
| SM_ScanStart
| SM_Unrelated
| SM_Closed
| SM_Timeout

record connect_request =
  cq_ssid :: string
  cq_privacy :: bool
  cq_pmk :: "string option"
  cq_mac :: "u8 list option"

record ('k, 'm) radio_os =
  ro_ip :: "'k ip_lib"
  ro_fs :: "'k \<Rightarrow> sys_fs"
  ro_is_local :: "ipv4 \<Rightarrow> 'k \<Rightarrow> bool"
  ro_now :: "'k \<Rightarrow> nat"
  ro_sleep :: "nat \<Rightarrow> 'k \<Rightarrow> 'k"
  ro_rtnl :: "'k \<Rightarrow> string option"
  ro_genl :: "'k \<Rightarrow> string option"
  ro_link_set :: "u32 \<Rightarrow> bool \<Rightarrow> 'k \<Rightarrow> string option \<times> 'k"
  ro_addr_dump :: "u32 \<Rightarrow> ipv4 \<Rightarrow> 'k \<Rightarrow> (string + 'm) list"
  ro_addr_del :: "'m \<Rightarrow> 'k \<Rightarrow> string option \<times> 'k"
  ro_addr_add :: "u32 \<Rightarrow> ipv4 \<Rightarrow> u8 \<Rightarrow> 'k \<Rightarrow> string option \<times> 'k"
  ro_connect :: "u32 \<Rightarrow> connect_request \<Rightarrow> 'k \<Rightarrow> (string + unit) list \<times> 'k"
  ro_disconnect :: "u32 \<Rightarrow> 'k \<Rightarrow> 'k"
  ro_trigger :: "u32 \<Rightarrow> nat list option \<Rightarrow> 'k \<Rightarrow> (string + unit) list \<times> 'k"
  ro_subscribe :: "'k \<Rightarrow> string option"
  ro_events :: "nat \<Rightarrow> 'k \<Rightarrow> (scan_msg \<times> 'k) list"
  ro_dump :: "u32 \<Rightarrow> 'k \<Rightarrow> (string + nl_attr list) list"
  ro_pbkdf2 :: "string \<Rightarrow> string \<Rightarrow> nat \<Rightarrow> string"
  ro_temp :: string
  ro_mkdir :: "string \<Rightarrow> 'k \<Rightarrow> string option \<times> 'k"
  ro_write :: "string \<Rightarrow> string \<Rightarrow> 'k \<Rightarrow> string option \<times> 'k"
  ro_rmdir :: "string \<Rightarrow> 'k \<Rightarrow> 'k"
  ro_spawn :: "string list \<Rightarrow> 'k \<Rightarrow> (string + nat) \<times> 'k"
  ro_output :: "nat \<Rightarrow> 'k \<Rightarrow> (io_error + string) list \<times> (io_error + string) list"
  ro_kill :: "nat \<Rightarrow> 'k \<Rightarrow> 'k"

definition SCAN_DEADLINE :: nat where "SCAN_DEADLINE = 8000"

definition SCAN_FALLBACK_WAIT :: nat where "SCAN_FALLBACK_WAIT = 4000"

definition ASSOCIATE_DEADLINE :: nat where "ASSOCIATE_DEADLINE = 10000"

definition ASSOCIATE_POLL :: nat where "ASSOCIATE_POLL = 100"

definition ASSOCIATE_SETTLE :: nat where "ASSOCIATE_SETTLE = 3000"

definition OPERSTATE_UP_WAIT :: nat where "OPERSTATE_UP_WAIT = 5000"

definition WPA_ASSOCIATE_DEADLINE :: nat where "WPA_ASSOCIATE_DEADLINE = 30000"

definition GHZ_24 :: "nat list" where
  "GHZ_24 = [2412, 2417, 2422, 2427, 2432, 2437, 2442, 2447, 2452, 2457, 2462, 2467, 2472]"

section \<open>Scanning\<close>

fun await_nl80211 :: "string \<Rightarrow> (string + unit) list \<Rightarrow> driver_error option" where
  "await_nl80211 what [] = None"
| "await_nl80211 what (Inr _ # ms) = await_nl80211 what ms"
| "await_nl80211 what (Inl e # ms) = Some (DE_Other (what @ '': '' @ e))"

definition set_link_up :: "('k, 'm) radio_os \<Rightarrow> u32 \<Rightarrow> 'k \<Rightarrow> driver_error option \<times> 'k" where
  "set_link_up os idx k =
     (case ro_rtnl os k of
        Some e \<Rightarrow> (Some (DE_Other (''rtnetlink connection: '' @ e)), k)
      | None \<Rightarrow>
          (case ro_link_set os idx True k of
             (r, k') \<Rightarrow> (map_option (\<lambda>e. DE_Other (''link up: '' @ e)) r, k')))"

definition trigger_scan ::
    "('k, 'm) radio_os \<Rightarrow> u32 \<Rightarrow> nat list option \<Rightarrow> 'k \<Rightarrow> driver_error option \<times> 'k" where
  "trigger_scan os idx freqs k =
     (case ro_trigger os idx freqs k of (ms, k') \<Rightarrow> (await_nl80211 ''scan trigger'' ms, k'))"

definition dump_bss :: "('k, 'm) radio_os \<Rightarrow> u32 \<Rightarrow> nat \<Rightarrow> 'k \<Rightarrow> driver_error + scan_result list" where
  "dump_bss os idx mx k = dump_loop mx [] (ro_dump os idx k)"

text \<open>
  Waiting on the scan group: the messages until the deadline, each with the state when it
  arrives; the end of the stream and the deadline are messages. Every outcome leads to the dump.
\<close>

fun await_scan :: "(scan_msg \<times> 'k) list \<Rightarrow> 'k \<Rightarrow> 'k" where
  "await_scan [] k = k"
| "await_scan ((m, k') # ms) k =
     (if m \<in> {SM_ScanStart, SM_Unrelated} then await_scan ms k' else k')"

text \<open>First the 2.4 GHz channels, then, where the driver refuses that, every channel.\<close>

definition trigger_any :: "('k, 'm) radio_os \<Rightarrow> u32 \<Rightarrow> 'k \<Rightarrow> driver_error option \<times> 'k" where
  "trigger_any os idx k =
     (case trigger_scan os idx (Some GHZ_24) k of
        (None, k1) \<Rightarrow> (None, k1)
      | (Some e, k1) \<Rightarrow> trigger_scan os idx None k1)"

definition scan_settled :: "('k, 'm) radio_os \<Rightarrow> bool \<Rightarrow> 'k \<Rightarrow> 'k" where
  "scan_settled os subscribed k =
     (if subscribed then await_scan (ro_events os SCAN_DEADLINE k) k
      else ro_sleep os SCAN_FALLBACK_WAIT k)"

definition run_scan :: "('k, 'm) radio_os \<Rightarrow> u32 \<Rightarrow> nat \<Rightarrow> 'k \<Rightarrow> (driver_error + scan_result list) \<times> 'k" where
  "run_scan os idx mx k =
     (case set_link_up os idx k of
        (Some e, k1) \<Rightarrow> (Inl e, k1)
      | (None, k1) \<Rightarrow>
          let subscribed = (ro_subscribe os k1 = None) in
          case ro_genl os k1 of
            Some e \<Rightarrow> (Inl (DE_Other (''nl80211 connection: '' @ e)), k1)
          | None \<Rightarrow>
              (case trigger_any os idx k1 of
                 (Some e, k2) \<Rightarrow> (Inl e, k2)
               | (None, k2) \<Rightarrow>
                   let k3 = scan_settled os subscribed k2 in (dump_bss os idx mx k3, k3)))"

section \<open>Waiting for the link\<close>

text \<open>
  Polling until the condition holds or the deadline has passed; \<open>None\<close>: the fuel ran out. The
  bound \<open>polls\<close> is enough when the clock advances by at least the requested sleep.
\<close>

fun poll_until :: "('k, 'm) radio_os \<Rightarrow> ('k \<Rightarrow> bool) \<Rightarrow> nat \<Rightarrow> nat \<Rightarrow> nat \<Rightarrow> 'k \<Rightarrow> (bool \<times> 'k) option" where
  "poll_until os done t0 deadline 0 k = None"
| "poll_until os done t0 deadline (Suc fuel) k =
     (if done k then Some (True, k)
      else if ro_now os k - t0 \<ge> deadline then Some (False, k)
      else poll_until os done t0 deadline fuel (ro_sleep os ASSOCIATE_POLL k))"

definition polls :: "nat \<Rightarrow> nat" where
  "polls deadline = deadline div ASSOCIATE_POLL + 2"

definition wait_associated :: "('k, 'm) radio_os \<Rightarrow> string \<Rightarrow> nat \<Rightarrow> 'k \<Rightarrow> (bool \<times> 'k) option" where
  "wait_associated os iface deadline k =
     poll_until os (\<lambda>k. iface_associated (ro_fs os k) iface) (ro_now os k) deadline (polls deadline) k"

definition wait_operstate_up :: "('k, 'm) radio_os \<Rightarrow> string \<Rightarrow> 'k \<Rightarrow> 'k option" where
  "wait_operstate_up os iface k =
     map_option snd
       (poll_until os (\<lambda>k. iface_operstate (ro_fs os k) iface = ''up'') (ro_now os k) OPERSTATE_UP_WAIT
          (polls OPERSTATE_UP_WAIT) k)"

section \<open>Association\<close>

definition wpa2_pmk :: "('k, 'm) radio_os \<Rightarrow> string \<Rightarrow> string \<Rightarrow> string" where
  "wpa2_pmk os ssid passphrase = ro_pbkdf2 os passphrase ssid 4096"

definition connect_once ::
    "('k, 'm) radio_os \<Rightarrow> u32 \<Rightarrow> string \<Rightarrow> u8 list option \<Rightarrow> string option \<Rightarrow> 'k \<Rightarrow> driver_error option \<times> 'k" where
  "connect_once os idx ssid bssid psk k =
     (case ro_connect os idx
        \<lparr>cq_ssid = ssid, cq_privacy = (psk \<noteq> None), cq_pmk = map_option (wpa2_pmk os ssid) psk, cq_mac = bssid\<rparr> k of
        (ms, k') \<Rightarrow> (await_nl80211 ''nl80211 connect'' ms, k'))"

fun escape_char :: "char \<Rightarrow> string \<Rightarrow> string" where
  "escape_char q [] = []"
| "escape_char q (c # s) = (if c = q then [CHR 0x5C, q] else [c]) @ escape_char q s"

definition QUOTE :: char where "QUOTE = CHR 0x22"

definition BACKSLASH :: char where "BACKSLASH = CHR 0x5C"

definition TAB :: char where "TAB = CHR 0x09"

definition wpa_quote :: "string \<Rightarrow> string" where
  "wpa_quote s = escape_char QUOTE (escape_char BACKSLASH s)"

definition wpa_config :: "string \<Rightarrow> string \<Rightarrow> string" where
  "wpa_config ssid psk =
     ''ap_scan=1'' @ [LF]
   @ ''network={'' @ [LF]
   @ [TAB] @ ''ssid='' @ [QUOTE] @ wpa_quote ssid @ [QUOTE, LF]
   @ [TAB] @ ''scan_ssid=1'' @ [LF]
   @ [TAB] @ ''psk='' @ [QUOTE] @ wpa_quote psk @ [QUOTE, LF]
   @ [TAB] @ ''key_mgmt=WPA-PSK'' @ [LF]
   @ ''}'' @ [LF]"

text \<open>One underscore for each character that is not allowed: the bytes that continue a character go.\<close>

definition sanitize_byte :: "char \<Rightarrow> string" where
  "sanitize_byte c =
     (if is_ascii_alphanumeric c \<or> c = CHR ''-'' \<or> c = CHR ''.'' then [c]
      else if 128 \<le> byte c \<and> byte c < 192 then [] else [CHR 0x5F])"

definition sanitize :: "string \<Rightarrow> string" where
  "sanitize s = concat (map sanitize_byte s)"

definition wpa_dir :: "('k, 'm) radio_os \<Rightarrow> string \<Rightarrow> string" where
  "wpa_dir os s = path_join (ro_temp os) (''wp-wpa-'' @ sanitize s)"

definition wpa_conf_file :: "string \<Rightarrow> string" where
  "wpa_conf_file dir = path_join dir ''wpa_supplicant.conf''"

text \<open>The log threads: what one output stream has reported so far.\<close>

fun wpa_reports :: "string list \<Rightarrow> (io_error + string) list \<Rightarrow> bool" where
  "wpa_reports words [] = False"
| "wpa_reports words (Inl e # ls) = False"
| "wpa_reports words (Inr l # ls) =
     ((l \<noteq> [] \<and> list_ex (contains l) words) \<or> wpa_reports words ls)"

definition child_reports :: "('k, 'm) radio_os \<Rightarrow> nat \<Rightarrow> string list \<Rightarrow> 'k \<Rightarrow> bool" where
  "child_reports os pid words k =
     (wpa_reports words (fst (ro_output os pid k)) \<or> wpa_reports words (snd (ro_output os pid k)))"

definition four_way_ok :: "('k, 'm) radio_os \<Rightarrow> nat \<Rightarrow> 'k \<Rightarrow> bool" where
  "four_way_ok os pid = child_reports os pid [''CTRL-EVENT-CONNECTED'']"

definition four_way_fail :: "('k, 'm) radio_os \<Rightarrow> nat \<Rightarrow> 'k \<Rightarrow> bool" where
  "four_way_fail os pid = child_reports os pid [''WRONG_KEY'', ''4-Way Handshake failed'']"

text \<open>The three ways out of the wait for the handshake.\<close>

definition kill_and_clean :: "('k, 'm) radio_os \<Rightarrow> nat \<Rightarrow> string \<Rightarrow> 'k \<Rightarrow> 'k" where
  "kill_and_clean os pid dir k = ro_rmdir os dir (ro_kill os pid k)"

definition psk_rejected :: driver_error where
  "psk_rejected = DE_Other ''wpa_supplicant: 4-way handshake failed (PSK rejected)''"

definition wpa_wait ::
    "('k, 'm) radio_os \<Rightarrow> string \<Rightarrow> nat \<Rightarrow> string \<Rightarrow> 'k \<Rightarrow> ((driver_error + nat) \<times> 'k) option" where
  "wpa_wait os iface pid dir k =
     (case poll_until os (\<lambda>k. four_way_fail os pid k \<or> four_way_ok os pid k) (ro_now os k)
             WPA_ASSOCIATE_DEADLINE (polls WPA_ASSOCIATE_DEADLINE) k of
        None \<Rightarrow> None
      | Some (False, k') \<Rightarrow> Some (Inl DE_AssociationTimedOut, kill_and_clean os pid dir k')
      | Some (True, k') \<Rightarrow>
          if four_way_fail os pid k' then Some (Inl psk_rejected, kill_and_clean os pid dir k')
          else map_option (\<lambda>k''. (Inr pid, ro_sleep os ASSOCIATE_SETTLE k'')) (wait_operstate_up os iface k'))"

definition wpa_disconnect :: "('k, 'm) radio_os \<Rightarrow> string \<Rightarrow> 'k \<Rightarrow> 'k" where
  "wpa_disconnect os iface k =
     (if ro_genl os k = None
      then ro_disconnect os (case iface_to_index (ro_fs os k) iface of None \<Rightarrow> 0 | Some i \<Rightarrow> i) k else k)"

text \<open>The temporary directory, the configuration and the child, each with its error.\<close>

definition wpa_start :: "('k, 'm) radio_os \<Rightarrow> string \<Rightarrow> string \<Rightarrow> string \<Rightarrow> 'k \<Rightarrow> (driver_error + nat) \<times> 'k" where
  "wpa_start os iface ssid psk k =
     (let dir = wpa_dir os ssid; conf = wpa_conf_file dir in
      case ro_mkdir os dir k of
        (Some e, k1) \<Rightarrow> (Inl (DE_Other (''wpa_supplicant temp dir: '' @ e)), k1)
      | (None, k1) \<Rightarrow>
          (case ro_write os conf (wpa_config ssid psk) k1 of
             (Some e, k2) \<Rightarrow> (Inl (DE_Other (''wpa_supplicant config: '' @ e)), k2)
           | (None, k2) \<Rightarrow>
               (case ro_spawn os [''wpa_supplicant'', ''-i'', iface, ''-c'', conf] k2 of
                  (Inl e, k3) \<Rightarrow> (Inl (DE_Other (''spawn wpa_supplicant: '' @ e)), k3)
                | (Inr pid, k3) \<Rightarrow> (Inr pid, k3))))"

definition spawn_wpa_supplicant ::
    "('k, 'm) radio_os \<Rightarrow> string \<Rightarrow> string \<Rightarrow> string \<Rightarrow> 'k \<Rightarrow> ((driver_error + nat) \<times> 'k) option" where
  "spawn_wpa_supplicant os iface ssid psk k =
     (case wpa_start os iface ssid psk (wpa_disconnect os iface k) of
        (Inl e, k1) \<Rightarrow> Some (Inl e, k1)
      | (Inr pid, k1) \<Rightarrow> wpa_wait os iface pid (wpa_dir os ssid) k1)"

text \<open>One CONNECT and the wait for carrier: \<open>Some None\<close> means associated.\<close>

definition try_open ::
    "('k, 'm) radio_os \<Rightarrow> string \<Rightarrow> u32 \<Rightarrow> string \<Rightarrow> u8 list option \<Rightarrow> 'k \<Rightarrow> (driver_error option \<times> 'k) option" where
  "try_open os iface idx ssid bssid k =
     (case connect_once os idx ssid bssid None k of
        (Some e, k1) \<Rightarrow> Some (Some e, k1)
      | (None, k1) \<Rightarrow>
          (case wait_associated os iface ASSOCIATE_DEADLINE k1 of
             None \<Rightarrow> None
           | Some (True, k2) \<Rightarrow> Some (None, ro_sleep os ASSOCIATE_SETTLE k2)
           | Some (False, k2) \<Rightarrow> Some (Some DE_AssociationTimedOut, k2)))"

definition associate_open ::
    "('k, 'm) radio_os \<Rightarrow> string \<Rightarrow> u32 \<Rightarrow> string \<Rightarrow> u8 list option \<Rightarrow> 'k
       \<Rightarrow> ((driver_error + nat option) \<times> 'k) option" where
  "associate_open os iface idx ssid bssid k =
     (case ro_genl os k of
        Some e \<Rightarrow> Some (Inl (DE_Other (''nl80211 connection: '' @ e)), k)
      | None \<Rightarrow>
          (case try_open os iface idx ssid bssid k of
             None \<Rightarrow> None
           | Some (None, k1) \<Rightarrow> Some (Inr None, k1)
           | Some (Some _, k1) \<Rightarrow>
               (case run_scan os idx 64 k1 of
                  (Inl e, k2) \<Rightarrow> Some (Inl e, k2)
                | (Inr found, k2) \<Rightarrow>
                    map_option (\<lambda>(r, k3). (case r of None \<Rightarrow> Inr None | Some e \<Rightarrow> Inl e, k3))
                      (try_open os iface idx ssid bssid k2))))"

definition associate ::
    "('k, 'm) radio_os \<Rightarrow> string \<Rightarrow> u32 \<Rightarrow> string \<Rightarrow> u8 list option \<Rightarrow> string option \<Rightarrow> 'k
       \<Rightarrow> ((driver_error + nat option) \<times> 'k) option" where
  "associate os iface idx ssid bssid psk k =
     (case set_link_up os idx k of
        (Some e, k1) \<Rightarrow> Some (Inl e, k1)
      | (None, k1) \<Rightarrow>
          (case psk of
             Some passphrase \<Rightarrow>
               map_option (\<lambda>(r, k2). (ok_map Some r, k2)) (spawn_wpa_supplicant os iface ssid passphrase k1)
           | None \<Rightarrow> associate_open os iface idx ssid bssid k1))"

section \<open>Nl80211Radio\<close>

record nl_radio =
  rd_iface :: string
  rd_index :: u32
  rd_saved :: saved_conf
  rd_assigned :: "(ipv4 \<times> u8) option"
  rd_policy :: "policy_route option"
  rd_supplicant :: "nat option"

record 'k hub =
  hub_os :: 'k
  hub_sys :: sysctls

definition radio_with_interface_opt ::
    "(string \<Rightarrow> string) \<Rightarrow> sys_fs \<Rightarrow> string option \<Rightarrow> driver_error + nl_radio" where
  "radio_with_interface_opt int_error S preferred =
     rbind (resolve_wireless_interface S preferred) (\<lambda>iface.
     rbind (interface_index S int_error iface) (\<lambda>idx.
       Inr \<lparr>rd_iface = iface, rd_index = idx, rd_saved = [], rd_assigned = None, rd_policy = None,
            rd_supplicant = None\<rparr>))"

text \<open>Every address that the lookup finds is deleted, until the stream ends or fails.\<close>

fun delete_each :: "('k, 'm) radio_os \<Rightarrow> (string + 'm) list \<Rightarrow> 'k \<Rightarrow> 'k" where
  "delete_each os [] k = k"
| "delete_each os (Inl e # ms) k = k"
| "delete_each os (Inr m # ms) k = delete_each os ms (snd (ro_addr_del os m k))"

definition remove_address :: "('k, 'm) radio_os \<Rightarrow> u32 \<Rightarrow> ipv4 \<Rightarrow> 'k \<Rightarrow> 'k" where
  "remove_address os idx addr k = delete_each os (ro_addr_dump os idx addr k) k"

type_synonym 'k radio_state = "nl_radio \<times> 'k hub"

definition radio_connect ::
    "('k, 'm) radio_os \<Rightarrow> string \<Rightarrow> u8 list option \<Rightarrow> string option \<Rightarrow> 'k radio_state
       \<Rightarrow> (driver_error option \<times> 'k radio_state) option" where
  "radio_connect os ssid bssid psk st =
     (case st of (r, h) \<Rightarrow>
        (case associate os (rd_iface r) (rd_index r) ssid bssid psk (hub_os h) of
           None \<Rightarrow> None
         | Some (Inl e, k) \<Rightarrow> Some (Some e, r, h\<lparr>hub_os := k\<rparr>)
         | Some (Inr None, k) \<Rightarrow> Some (None, r, h\<lparr>hub_os := k\<rparr>)
         | Some (Inr (Some pid), k) \<Rightarrow> Some (None, r\<lparr>rd_supplicant := Some pid\<rparr>, h\<lparr>hub_os := k\<rparr>)))"

definition radio_set_address ::
    "('k, 'm) radio_os \<Rightarrow> ipv4 \<Rightarrow> u8 \<Rightarrow> 'k radio_state \<Rightarrow> driver_error option \<times> 'k radio_state" where
  "radio_set_address os addr prefix st =
     (case st of (r, h) \<Rightarrow>
        let r' = r\<lparr>rd_assigned := Some (addr, prefix)\<rparr>; k = hub_os h in
        case ro_rtnl os k of
          Some e \<Rightarrow> (Some (DE_Other (''rtnetlink connection: '' @ e)), r', h)
        | None \<Rightarrow>
            (case ro_addr_add os (rd_index r) addr prefix (remove_address os (rd_index r) addr k) of
               (e, k') \<Rightarrow> (map_option (\<lambda>e. DE_Other (''address add: '' @ e)) e, r', h\<lparr>hub_os := k'\<rparr>)))"

definition radio_link_up :: "('k, 'm) radio_os \<Rightarrow> 'k radio_state \<Rightarrow> driver_error option \<times> 'k radio_state" where
  "radio_link_up os st =
     (case st of (r, h) \<Rightarrow>
        case set_link_up os (rd_index r) (hub_os h) of (e, k) \<Rightarrow> (e, r, h\<lparr>hub_os := k\<rparr>))"

text \<open>Running the module for the policy route on the present state.\<close>

definition fresh_kern :: "'k \<Rightarrow> 'k kern" where
  "fresh_kern k = \<lparr>kn_now = k, kn_seen = []\<rparr>"

definition radio_prepare_softap :: "('k, 'm) radio_os \<Rightarrow> ipv4 \<Rightarrow> ipv4 \<Rightarrow> 'k radio_state \<Rightarrow> 'k radio_state" where
  "radio_prepare_softap os source host st =
     (case st of (r, h) \<Rightarrow>
        let (saved, sys) = prepare_softap (rd_iface r) (hub_sys h);
            (route, kern) = install_policy_route (ro_ip os) (ro_is_local os) source host (rd_iface r)
                              (fresh_kern (hub_os h))
        in (r\<lparr>rd_saved := saved, rd_policy := Some route\<rparr>, \<lparr>hub_os = kn_now kern, hub_sys = sys\<rparr>))"

definition release_child :: "('k, 'm) radio_os \<Rightarrow> nl_radio \<Rightarrow> 'k \<Rightarrow> 'k" where
  "release_child os r k =
     (case rd_supplicant r of
        None \<Rightarrow> k
      | Some pid \<Rightarrow> kill_and_clean os pid (wpa_dir os (rd_iface r)) k)"

definition release_route :: "('k, 'm) radio_os \<Rightarrow> nl_radio \<Rightarrow> 'k \<Rightarrow> 'k" where
  "release_route os r k =
     (case rd_policy r of
        None \<Rightarrow> k
      | Some route \<Rightarrow> kn_now (remove_policy_route (ro_ip os) route (fresh_kern k)))"

definition release_link :: "('k, 'm) radio_os \<Rightarrow> nl_radio \<Rightarrow> 'k \<Rightarrow> 'k" where
  "release_link os r k =
     (let k1 = (if ro_genl os k = None then ro_disconnect os (rd_index r) k else k) in
      if ro_rtnl os k1 = None
      then snd (ro_link_set os (rd_index r) False
             (case rd_assigned r of None \<Rightarrow> k1 | Some (addr, _) \<Rightarrow> remove_address os (rd_index r) addr k1))
      else k1)"

definition nl_release :: "('k, 'm) radio_os \<Rightarrow> 'k radio_state \<Rightarrow> 'k radio_state" where
  "nl_release os st =
     (case st of (r, h) \<Rightarrow>
        (r\<lparr>rd_saved := [], rd_assigned := None, rd_policy := None, rd_supplicant := None\<rparr>,
         \<lparr>hub_os = release_link os r (release_route os r (release_child os r (hub_os h))),
          hub_sys = restore_conf (rd_saved r) (hub_sys h)\<rparr>))"

text \<open>The radio under the calls of the runtime; \<open>None\<close>: a wait ran out of fuel.\<close>

fun radio_step ::
    "('k, 'm) radio_os \<Rightarrow> radio_call \<Rightarrow> 'k radio_state \<Rightarrow> (driver_error option \<times> 'k radio_state) option" where
  "radio_step os (RC_Scan mx) st =
     (case st of (r, h) \<Rightarrow>
        (case run_scan os (rd_index r) mx (hub_os h) of
           (Inl e, k) \<Rightarrow> Some (Some e, r, h\<lparr>hub_os := k\<rparr>)
         | (Inr found, k) \<Rightarrow> Some (None, r, h\<lparr>hub_os := k\<rparr>)))"
| "radio_step os (RC_ConnectOpen ssid bssid) st = radio_connect os ssid bssid None st"
| "radio_step os (RC_ConnectPsk ssid bssid psk) st = radio_connect os ssid bssid (Some psk) st"
| "radio_step os (RC_SetAddress addr prefix) st = Some (radio_set_address os addr prefix st)"
| "radio_step os RC_LinkUp st = Some (radio_link_up os st)"
| "radio_step os (RC_PrepareSoftap source host) st = Some (None, radio_prepare_softap os source host st)"
| "radio_step os RC_Release st = Some (None, nl_release os st)"

fun radio_steps :: "('k, 'm) radio_os \<Rightarrow> radio_call list \<Rightarrow> 'k radio_state \<Rightarrow> 'k radio_state option" where
  "radio_steps os [] st = Some st"
| "radio_steps os (c # cs) st =
     (case radio_step os c st of None \<Rightarrow> None | Some (e, st') \<Rightarrow> radio_steps os cs st')"

end
