(* ===== verification/Wp_Flow.thy ===== *)
theory Wp_Flow
  imports Wp_Prelude
begin

text \<open>
  Sequential code with early returns over a shared state: a step either goes on with a value,
  has returned from the enclosing function (\<open>Exit\<close>), or waits for something that does not
  come (\<open>Blocked\<close>). \<open>sat P m Q E B\<close> is the Hoare triple for such code, with one condition for
  each of the three outcomes; the rules are collected in \<open>sat_intro\<close>.
\<close>

datatype 'a flow = Go 'a | Exit | Blocked

type_synonym ('a, 's) step = "'s \<Rightarrow> 'a flow \<times> 's"

definition fl_return :: "'a \<Rightarrow> ('a, 's) step" where
  "fl_return x = (\<lambda>s. (Go x, s))"

definition fl_exit :: "('a, 's) step" where
  "fl_exit = (\<lambda>s. (Exit, s))"

definition fl_blocked :: "('a, 's) step" where
  "fl_blocked = (\<lambda>s. (Blocked, s))"

definition fl_update :: "('s \<Rightarrow> 's) \<Rightarrow> (unit, 's) step" where
  "fl_update f = (\<lambda>s. (Go (), f s))"

definition fl_call :: "('s \<Rightarrow> 'a \<times> 's) \<Rightarrow> ('a, 's) step" where
  "fl_call f = (\<lambda>s. (Go (fst (f s)), snd (f s)))"

definition fl_bind :: "('a, 's) step \<Rightarrow> ('a \<Rightarrow> ('b, 's) step) \<Rightarrow> ('b, 's) step" where
  "fl_bind m k = (\<lambda>s. case m s of (Go x, s') \<Rightarrow> k x s' | (Exit, s') \<Rightarrow> (Exit, s') | (Blocked, s') \<Rightarrow> (Blocked, s'))"

definition fl_then :: "('a, 's) step \<Rightarrow> ('b, 's) step \<Rightarrow> ('b, 's) step" where
  "fl_then m k = fl_bind m (\<lambda>_. k)"

definition fl_when :: "bool \<Rightarrow> (unit, 's) step \<Rightarrow> (unit, 's) step" where
  "fl_when b m = (if b then m else fl_return ())"

fun fl_each :: "('a \<Rightarrow> (unit, 's) step) \<Rightarrow> 'a list \<Rightarrow> (unit, 's) step" where
  "fl_each f [] = fl_return ()"
| "fl_each f (x # xs) = fl_then (f x) (fl_each f xs)"

text \<open>Run a function: its early returns end here.\<close>

definition fl_function :: "(unit, 's) step \<Rightarrow> (unit, 's) step" where
  "fl_function m = (\<lambda>s. case m s of (Blocked, s') \<Rightarrow> (Blocked, s') | (_, s') \<Rightarrow> (Go (), s'))"

lemmas fl_defs = fl_return_def fl_exit_def fl_blocked_def fl_update_def fl_call_def fl_bind_def
  fl_then_def fl_when_def fl_function_def

definition sat ::
    "('s \<Rightarrow> bool) \<Rightarrow> ('a, 's) step \<Rightarrow> ('a \<Rightarrow> 's \<Rightarrow> bool) \<Rightarrow> ('s \<Rightarrow> bool) \<Rightarrow> ('s \<Rightarrow> bool) \<Rightarrow> bool" where
  "sat P m Q E B \<longleftrightarrow>
     (\<forall>s. P s \<longrightarrow> (case m s of (Go x, s') \<Rightarrow> Q x s' | (Exit, s') \<Rightarrow> E s' | (Blocked, s') \<Rightarrow> B s'))"

named_theorems sat_intro "Hoare rules"

lemma satI: "(\<And>s f s'. P s \<Longrightarrow> m s = (f, s') \<Longrightarrow>
     (case f of Go x \<Rightarrow> Q x s' | Exit \<Rightarrow> E s' | Blocked \<Rightarrow> B s')) \<Longrightarrow> sat P m Q E B"
  by (auto simp: sat_def split: prod.splits flow.splits)

lemma satD: "sat P m Q E B \<Longrightarrow> P s \<Longrightarrow> m s = (f, s') \<Longrightarrow>
     (case f of Go x \<Rightarrow> Q x s' | Exit \<Rightarrow> E s' | Blocked \<Rightarrow> B s')"
  by (auto simp: sat_def split: prod.splits flow.splits)

lemma sat_return [sat_intro]: "(\<And>s. P s \<Longrightarrow> Q x s) \<Longrightarrow> sat P (fl_return x) Q E B"
  by (simp add: sat_def fl_return_def)

lemma sat_exit [sat_intro]: "(\<And>s. P s \<Longrightarrow> E s) \<Longrightarrow> sat P fl_exit Q E B"
  by (simp add: sat_def fl_exit_def)

lemma sat_blocked [sat_intro]: "(\<And>s. P s \<Longrightarrow> B s) \<Longrightarrow> sat P fl_blocked Q E B"
  by (simp add: sat_def fl_blocked_def)

lemma sat_update: "(\<And>s. P s \<Longrightarrow> Q () (f s)) \<Longrightarrow> sat P (fl_update f) Q E B"
  by (simp add: sat_def fl_update_def)

lemma sat_call: "(\<And>s x s'. P s \<Longrightarrow> f s = (x, s') \<Longrightarrow> Q x s') \<Longrightarrow> sat P (fl_call f) Q E B"
  by (simp add: sat_def fl_call_def)

lemma sat_bind:
  assumes "sat P m M E B" and "\<And>x. sat (M x) (k x) Q E B"
  shows "sat P (fl_bind m k) Q E B"
proof (rule satI)
  fix s f s'
  assume P: "P s" and run: "fl_bind m k s = (f, s')"
  obtain g s1 where m: "m s = (g, s1)" by (cases "m s")
  from satD [OF assms(1) P m] run m satD [OF assms(2)]
  show "case f of Go x \<Rightarrow> Q x s' | Exit \<Rightarrow> E s' | Blocked \<Rightarrow> B s'"
    by (cases g) (auto simp: fl_bind_def)
qed

lemma sat_then: "sat P m (\<lambda>_. M) E B \<Longrightarrow> sat M k Q E B \<Longrightarrow> sat P (fl_then m k) Q E B"
  unfolding fl_then_def by (rule sat_bind)

lemma sat_when [sat_intro]:
  "(b \<Longrightarrow> sat P m Q E B) \<Longrightarrow> (\<not> b \<Longrightarrow> sat P (fl_return ()) Q E B) \<Longrightarrow> sat P (fl_when b m) Q E B"
  by (simp add: fl_when_def)

lemma sat_each: "(\<And>x. sat P (f x) (\<lambda>_. P) E B) \<Longrightarrow> sat P (fl_each f xs) (\<lambda>_. P) E B"
  by (induction xs) (auto intro: sat_return sat_then)

lemma sat_function: "sat P m (\<lambda>_. Q) Q B \<Longrightarrow> sat P (fl_function m) (\<lambda>_. Q) E B"
  by (auto simp: sat_def fl_function_def split: flow.splits prod.splits)

lemma sat_conseq:
  "sat P m Q E B \<Longrightarrow> (\<And>s. P' s \<Longrightarrow> P s) \<Longrightarrow> (\<And>x s. Q x s \<Longrightarrow> Q' x s) \<Longrightarrow> (\<And>s. E s \<Longrightarrow> E' s)
     \<Longrightarrow> (\<And>s. B s \<Longrightarrow> B' s) \<Longrightarrow> sat P' m Q' E' B'"
proof (rule satI)
  fix s f s'
  assume m: "sat P m Q E B" and "\<And>s. P' s \<Longrightarrow> P s" and QEB: "\<And>x s. Q x s \<Longrightarrow> Q' x s" "\<And>s. E s \<Longrightarrow> E' s"
      "\<And>s. B s \<Longrightarrow> B' s" and "P' s" and run: "m s = (f, s')"
  then have "P s" by blast
  from satD [OF m this run] show "case f of Go x \<Rightarrow> Q' x s' | Exit \<Rightarrow> E' s' | Blocked \<Rightarrow> B' s'"
    by (cases f) (simp_all add: QEB)
qed

text \<open>Facts about values move out of the precondition.\<close>

lemma sat_pure: "(A \<Longrightarrow> sat P m Q E B) \<Longrightarrow> sat (\<lambda>s. P s \<and> A) m Q E B"
  by (cases A) (auto simp: sat_def)

text \<open>Case distinctions of the code.\<close>

lemma sat_if [sat_intro]: "(b \<Longrightarrow> sat P m Q E B) \<Longrightarrow> (\<not> b \<Longrightarrow> sat P n Q E B) \<Longrightarrow> sat P (if b then m else n) Q E B"
  by simp

lemma sat_option [sat_intro]:
  "(x = None \<Longrightarrow> sat P m Q E B) \<Longrightarrow> (\<And>y. x = Some y \<Longrightarrow> sat P (k y) Q E B) \<Longrightarrow>
     sat P (case x of None \<Rightarrow> m | Some y \<Rightarrow> k y) Q E B"
  by (cases x) auto

lemma sat_sum [sat_intro]:
  "(\<And>y. x = Inl y \<Longrightarrow> sat P (f y) Q E B) \<Longrightarrow> (\<And>y. x = Inr y \<Longrightarrow> sat P (g y) Q E B) \<Longrightarrow>
     sat P (case x of Inl y \<Rightarrow> f y | Inr y \<Rightarrow> g y) Q E B"
  by (cases x) auto

lemma sat_let [sat_intro]: "(\<And>y. y = x \<Longrightarrow> sat P (f y) Q E B) \<Longrightarrow> sat P (let y = x in f y) Q E B"
  by simp

end
