(* ===== verification/Wp_Worker.thy ===== *)
theory Wp_Worker
  imports Wp_Runtime Wp_Flow
begin

text \<open>
  The programming worker of \<open>crates/wireless-programmer/src/runtime.rs\<close>: \<open>run_job\<close> and the
  three kinds of jobs. Every access to the job registry or the scan cache lets one batch of
  client actions take effect first (\<open>preempt\<close>). Early returns are \<open>fl_exit\<close>; a child process
  whose polls run out while it still runs leaves the job \<open>Blocked\<close>.

  The 120 s timeout around the driver program is not modelled: driver futures have no
  suspension point (the HTTP client is synchronous), so it cannot fire before they finish.
\<close>

section \<open>Accesses to the shared state\<close>

fun client_act :: "client_act \<Rightarrow> runtime \<Rightarrow> runtime" where
  "client_act (CA_Job op) rt = rt\<lparr>rt_jobs := slot.client_step op (rt_jobs rt)\<rparr>"
| "client_act (CA_Cache c) rt = rt\<lparr>rt_cache := c\<rparr>"

definition preempt :: "runtime \<Rightarrow> runtime" where
  "preempt rt =
     (case rt_pending rt of
        [] \<Rightarrow> rt
      | acts # rest \<Rightarrow> fold client_act acts (rt\<lparr>rt_pending := rest\<rparr>))"

type_synonym 'a worker = "('a, runtime) step"

definition w_is_cancelled :: "string \<Rightarrow> bool worker" where
  "w_is_cancelled jid =
     fl_call (\<lambda>rt. let rt' = preempt rt in (jobs_is_cancelled jid (rt_jobs rt'), rt'))"

definition w_snapshot :: "string \<Rightarrow> job_snapshot option worker" where
  "w_snapshot jid = fl_call (\<lambda>rt. let rt' = preempt rt in (jobs_snapshot jid (rt_jobs rt'), rt'))"

definition w_cached :: "string \<Rightarrow> string \<Rightarrow> cached_candidate option worker" where
  "w_cached drv key = fl_call (\<lambda>rt. let rt' = preempt rt in (cached drv key rt', rt'))"

definition w_take_payload :: "string \<Rightarrow> job_payload option worker" where
  "w_take_payload jid =
     fl_call (\<lambda>rt. let rt' = preempt rt; (p, reg) = jobs_take_payload jid (rt_jobs rt')
                   in (p, rt'\<lparr>rt_jobs := reg\<rparr>))"

definition w_transition ::
    "string \<Rightarrow> job_state \<Rightarrow> string option \<Rightarrow> u8 option \<Rightarrow> string option \<Rightarrow> unit worker" where
  "w_transition jid st stp pr dt =
     fl_update (\<lambda>rt. let rt' = preempt rt
                     in rt'\<lparr>rt_jobs := jobs_transition jid st stp pr dt (rt_jobs rt')\<rparr>)"

text \<open>The two ends of a job that most early returns use.\<close>

definition w_failed :: "string \<Rightarrow> string option \<Rightarrow> string \<Rightarrow> unit worker" where
  "w_failed jid stp msg = w_transition jid JS_Failed stp None (Some msg)"

definition w_cancelled :: "string \<Rightarrow> unit worker" where
  "w_cancelled jid = w_transition jid JS_Cancelled None None (Some ''cancelled'')"

definition w_fail_exit :: "string \<Rightarrow> string option \<Rightarrow> string \<Rightarrow> 'a worker" where
  "w_fail_exit jid stp msg = fl_then (w_failed jid stp msg) fl_exit"

definition w_radio_call :: "'j env \<Rightarrow> radio_call \<Rightarrow> driver_error option worker" where
  "w_radio_call E c = fl_call (w_radio E c)"

definition w_release :: "'j env \<Rightarrow> unit worker" where
  "w_release E = fl_update (radio_release E)"

text \<open>\<open>RadioHold\<close>: the flag is up until the enclosing function returns.\<close>

definition with_hold :: "'a worker \<Rightarrow> 'a worker" where
  "with_hold m =
     (\<lambda>rt. case m (hold rt) of (Blocked, rt') \<Rightarrow> (Blocked, rt') | (f, rt') \<Rightarrow> (f, unhold rt'))"

section \<open>Progress\<close>

definition step_state :: "string \<Rightarrow> job_state" where
  "step_state s =
     (if s = ''read'' \<or> s = ''probe'' then JS_Probing
      else if s \<in> {''identity'', ''locos'', ''functions'', ''server'', ''wifi'', ''write''} then JS_Writing
      else if s = ''verify'' then JS_Verifying
      else if s = ''restart'' \<or> s = ''exit'' then JS_Restarting
      else JS_Writing)"

definition sink_step :: "string \<Rightarrow> string \<Rightarrow> unit worker" where
  "sink_step jid s = w_transition jid (step_state s) (Some s) None None"

definition snapshot_state :: "job_snapshot option \<Rightarrow> job_state" where
  "snapshot_state s = (case s of None \<Rightarrow> JS_Writing | Some s \<Rightarrow> jsn_state s)"

definition sink_progress :: "string \<Rightarrow> u8 \<Rightarrow> unit worker" where
  "sink_progress jid p =
     fl_bind (w_snapshot jid) (\<lambda>s. w_transition jid (snapshot_state s) None (Some p) None)"

definition sink_detail :: "string \<Rightarrow> string \<Rightarrow> unit worker" where
  "sink_detail jid d =
     fl_bind (w_snapshot jid) (\<lambda>s. w_transition jid (snapshot_state s) None None (Some d))"

text \<open>What the effects of a driver do to the job.\<close>

fun sink_event :: "string \<Rightarrow> dev_event \<Rightarrow> unit worker" where
  "sink_event jid (Ev_Step s) = sink_step jid s"
| "sink_event jid (Ev_Progress p) = sink_progress jid p"
| "sink_event jid (Ev_Detail d) = sink_detail jid d"
| "sink_event jid (Ev_Req q) = fl_return ()"

section \<open>FRED programming\<close>

definition report_dispatch :: "string \<Rightarrow> dispatch_error + dispatch_outcome \<Rightarrow> unit worker" where
  "report_dispatch jid r =
     (case r of
        Inr (DO_Slot slot) \<Rightarrow>
          w_transition jid JS_Done (Some ''done'') (Some 100) (Some (''slot '' @ show_nat (unat slot)))
      | Inr DO_NoAck \<Rightarrow> w_transition jid JS_Done (Some ''done'') (Some 100) (Some ''noAck'')
      | Inl DX_Rejected \<Rightarrow> w_failed jid (Some ''write'') ''dispatchFailed''
      | Inl DX_UnknownCommand \<Rightarrow> w_failed jid (Some ''write'') ''z21NoLocoNet''
      | Inl (DX_Unreachable a) \<Rightarrow> w_failed jid (Some ''write'') ''unreachable''
      | Inl e \<Rightarrow> w_failed jid (Some ''write'') (dispatch_error_text e))"

definition first_address :: "program_request_wire \<Rightarrow> u16 option" where
  "first_address w = (case pw_roster w of [] \<Rightarrow> None | e # _ \<Rightarrow> rw_address e)"

definition fred_dispatch :: "'j env \<Rightarrow> string \<Rightarrow> sock_addr \<Rightarrow> u16 \<Rightarrow> unit worker" where
  "fred_dispatch E jid target loco =
     (case en_udp_bind E of
        Some e \<Rightarrow> w_fail_exit jid (Some ''write'') (''udp bind: '' @ e)
      | None \<Rightarrow>
          let outcome = fst (dispatch_addr target loco (en_serial_turns E) (en_dispatch_turns E)) in
          fl_bind (w_is_cancelled jid) (\<lambda>c.
            if c then fl_then (w_cancelled jid) fl_exit else report_dispatch jid outcome))"

definition run_fred_program_job :: "'j env \<Rightarrow> string \<Rightarrow> program_request_wire \<Rightarrow> string \<Rightarrow> unit worker" where
  "run_fred_program_job E jid w key =
     fl_function
       (case en_lookup E (normalize_key key) of
          Inl e \<Rightarrow> w_fail_exit jid None (''invalid Z21 address (want host:port): '' @ e)
        | Inr [] \<Rightarrow> w_fail_exit jid None ''invalid Z21 address (want host:port)''
        | Inr (target # _) \<Rightarrow>
            (case first_address w of
               None \<Rightarrow> w_fail_exit jid None ''fred programming needs exactly one DCC address 1..=10239''
             | Some loco \<Rightarrow>
                 fl_bind (w_is_cancelled jid) (\<lambda>c.
                   if c then fl_then (w_cancelled jid) fl_exit
                   else fl_then (w_transition jid JS_Writing (Some ''write'') (Some 10) None)
                          (fred_dispatch E jid target loco))))"

section \<open>Soft-AP programming\<close>

text \<open>Each failing step of the association fails the job, releases the radio and returns.\<close>

definition softap_call :: "'j env \<Rightarrow> string \<Rightarrow> radio_call \<Rightarrow> unit worker" where
  "softap_call E jid c =
     fl_bind (w_radio_call E c) (\<lambda>r. case r of
        Some e \<Rightarrow> fl_then (w_failed jid (Some ''join'') (driver_error_text e)) (fl_then (w_release E) fl_exit)
      | None \<Rightarrow> fl_return ())"

definition program_finish :: "string \<Rightarrow> driver_error + outcome \<Rightarrow> unit worker" where
  "program_finish jid outcome =
     fl_bind (w_is_cancelled jid) (\<lambda>c.
       if c then
         fl_bind (w_snapshot jid) (\<lambda>s.
           fl_when (case s of None \<Rightarrow> False | Some s \<Rightarrow> \<not> js_is_terminal (jsn_state s)) (w_cancelled jid))
       else (case outcome of
          Inr oc \<Rightarrow> w_transition jid JS_Done (Some ''done'') (Some 100)
                      (if oc_restarted oc then Some ''restarted'' else None)
        | Inl e \<Rightarrow> w_failed jid None (driver_error_text e)))"

definition driver_run ::
    "'j env \<Rightarrow> driver \<Rightarrow> program_request_wire \<Rightarrow> (driver_error + outcome) \<times> dev_event list" where
  "driver_run E d w =
     (let client = make_http_client_cancel (effective_net E d) (en_radio_device E)
      in registry_program (en_libs E) d (T_Http (en_http E False client))
           (owned_borrow (owned_from_wire w)) [])"

definition softap_session ::
    "'j env \<Rightarrow> string \<Rightarrow> driver \<Rightarrow> cached_candidate \<Rightarrow> program_request_wire \<Rightarrow> unit worker" where
  "softap_session E jid d c w =
     fl_then (fl_each (softap_call E jid) (join_call d c # address_calls (effective_net E d)))
       (fl_bind (w_is_cancelled jid) (\<lambda>cancelled.
          if cancelled then fl_then (w_release E) (fl_then (w_cancelled jid) fl_exit)
          else
            let (outcome, events) = driver_run E d w in
            fl_then (fl_each (sink_event jid) events)
              (fl_then (w_release E) (program_finish jid outcome))))"

definition run_program_job :: "'j env \<Rightarrow> string \<Rightarrow> program_request_wire \<Rightarrow> unit worker" where
  "run_program_job E jid w =
     fl_function
       (fl_bind (w_snapshot jid) (\<lambda>snap. case snap of None \<Rightarrow> fl_exit | Some snap \<Rightarrow>
          case driver_from_id (jsn_driver snap) of
            None \<Rightarrow> w_fail_exit jid None ''unknown driver''
          | Some d \<Rightarrow>
              fl_bind (w_cached (jsn_driver snap) (jsn_key snap)) (\<lambda>c. case c of
                 None \<Rightarrow> w_fail_exit jid None ''candidate not in scan cache; run scan first''
               | Some c \<Rightarrow>
                   if d = D_Fred then run_fred_program_job E jid w (cc_key c)
                   else
                     fl_then (w_transition jid JS_Joining (Some ''join'') None None)
                       (fl_bind (w_is_cancelled jid) (\<lambda>cancelled.
                          if cancelled then fl_then (w_cancelled jid) fl_exit
                          else with_hold (softap_session E jid d c w))))))"

section \<open>Firmware\<close>

text \<open>
  \<open>await_blocking_with_heartbeats\<close>: the heartbeats that pass before the work is joined, with the
  elapsed seconds at each. A heartbeat raises the cancel flag when the job is cancelled, and
  writes a detail frame otherwise. The work's result may depend on the flag; \<open>None\<close>: it never ends.
\<close>

fun heartbeats :: "string \<Rightarrow> string \<Rightarrow> bool \<Rightarrow> nat list \<Rightarrow> bool worker" where
  "heartbeats jid label flag [] = fl_return flag"
| "heartbeats jid label flag (secs # beats) =
     fl_bind (w_is_cancelled jid) (\<lambda>c.
       if c then heartbeats jid label True beats
       else fl_then (sink_detail jid (label @ '' ('' @ show_nat secs @ ''s)''))
              (heartbeats jid label flag beats))"

definition await_blocking :: "'j env \<Rightarrow> string \<Rightarrow> string \<Rightarrow> (bool \<Rightarrow> 'a option) \<Rightarrow> 'a worker" where
  "await_blocking E jid label work =
     fl_bind (heartbeats jid label False (en_beats E)) (\<lambda>flag.
       case work flag of None \<Rightarrow> fl_blocked | Some r \<Rightarrow> fl_return r)"

definition firmware_http ::
    "'j env \<Rightarrow> string \<Rightarrow> driver \<Rightarrow> string \<Rightarrow> string \<Rightarrow> string \<Rightarrow> u16 \<Rightarrow> ipv4 option \<Rightarrow> string option
       \<Rightarrow> (driver_error + outcome) worker" where
  "firmware_http E jid d img filename host port source device =
     (let reset_ok = (case dcap_firmware (registry_capabilities d) of
                        None \<Rightarrow> False | Some fw \<Rightarrow> fc_success_on_reset_after_write fw);
          client = make_firmware_http_client host port source device reset_ok
      in await_blocking E jid ''firmware http'' (\<lambda>flag.
           Some (fst (registry_update_firmware d (T_Http (en_http E flag client)) img filename []))))"

definition finish_firmware_job :: "string \<Rightarrow> driver_error + outcome \<Rightarrow> unit worker" where
  "finish_firmware_job jid outcome =
     fl_bind (w_snapshot jid) (\<lambda>s.
       if (case s of None \<Rightarrow> False | Some s \<Rightarrow> js_is_terminal (jsn_state s)) then fl_exit
       else fl_bind (w_is_cancelled jid) (\<lambda>c.
         if c \<or> outcome = Inl DE_Cancelled then fl_then (w_cancelled jid) fl_exit
         else (case outcome of
            Inr oc \<Rightarrow> w_transition jid JS_Done (Some ''done'') (Some 100)
                        (if oc_restarted oc then Some ''restarted'' else None)
          | Inl e \<Rightarrow> w_failed jid None (driver_error_text e))))"

text \<open>The checks before the image is read, and the image (empty for USB).\<close>

definition firmware_filename :: "string \<Rightarrow> string" where
  "firmware_filename path =
     (case path_file_name path of
        None \<Rightarrow> ''firmware.bin''
      | Some n \<Rightarrow> (case from_utf8 n of None \<Rightarrow> ''firmware.bin'' | Some n \<Rightarrow> n))"

definition firmware_admit :: "'j env \<Rightarrow> firmware_capabilities \<Rightarrow> firmware_job \<Rightarrow> string option" where
  "firmware_admit E fw job =
     (if \<not> fw_allows fw (fj_mode job) then Some (mode_rejected_detail fw)
      else if fj_mode job \<noteq> RM_Usb
        \<and> (case fs_len (en_fs E) (fj_path job) of None \<Rightarrow> False | Some n \<Rightarrow> n > unat (fc_max_bytes fw))
      then Some (too_large_detail fw)
      else None)"

definition firmware_image :: "'j env \<Rightarrow> firmware_job \<Rightarrow> string + string" where
  "firmware_image E job =
     (if fj_mode job = RM_Usb then Inr []
      else case fs_read (en_fs E) (fj_path job) of
        Inr b \<Rightarrow> if b \<noteq> [] then Inr b else Inl ''firmware file is empty''
      | Inl e \<Rightarrow> Inl (''read '' @ fj_path job @ '': '' @ ioe_text e))"

definition firmware_check :: "firmware_capabilities \<Rightarrow> firmware_job \<Rightarrow> string \<Rightarrow> string option" where
  "firmware_check fw job img =
     (if fj_mode job = RM_Usb then None
      else if length img > unat (fc_max_bytes fw) then Some (too_large_detail fw)
      else if fc_require_esp_app_bin fw then
        (case classify_image (fj_path job) (take (min (length img) 16) img) (length img) of
           Inr (IK_AppBin off) \<Rightarrow> None
         | Inr k \<Rightarrow> Some ''HTTP firmware needs a .app.bin ESP app image, not ELF or a merged dump''
         | Inl e \<Rightarrow> Some e)
      else None)"

text \<open>The address that a job names: its own field, or the cached candidate, or its key.\<close>

definition w_target :: "string option \<Rightarrow> job_snapshot \<Rightarrow> string worker" where
  "w_target explicit snap =
     (case explicit of
        Some t \<Rightarrow> fl_return t
      | None \<Rightarrow>
          fl_bind (w_cached (jsn_driver snap) (jsn_key snap)) (\<lambda>c.
            fl_return (case c of Some c \<Rightarrow> cc_key c | None \<Rightarrow> jsn_key snap)))"

definition usb_is_app_bin :: "'j env \<Rightarrow> string \<Rightarrow> bool" where
  "usb_is_app_bin E path =
     (case fs_read (en_fs E) path of
        Inl e \<Rightarrow> False
      | Inr b \<Rightarrow>
          (case classify_image path (take 16 b) (case fs_len (en_fs E) path of None \<Rightarrow> 0 | Some n \<Rightarrow> n) of
             Inr (IK_AppBin off) \<Rightarrow> True
           | _ \<Rightarrow> False))"

definition restarted_outcome :: outcome where
  "restarted_outcome = \<lparr>oc_restarted = True, oc_mismatches = []\<rparr>"

definition firmware_usb ::
    "'j env \<Rightarrow> string \<Rightarrow> job_snapshot \<Rightarrow> firmware_job \<Rightarrow> (driver_error + outcome) worker" where
  "firmware_usb E jid snap job =
     fl_bind (w_target (fj_port job) snap) (\<lambda>port.
       if port = [] then w_fail_exit jid None ''USB firmware update needs --port or scan --mode usb''
       else
         fl_then (sink_step jid ''write'')
           (fl_then (sink_detail jid (''espflash '' @ port))
             (fl_then (fl_when (usb_is_app_bin E (fj_path job))
                (sink_detail jid ''USB .app.bin writes ota_0 only; first dual-slot install needs ELF + --partition-table''))
               (await_blocking E jid (''espflash '' @ port) (\<lambda>flag.
                  map_option (\<lambda>(r, killed). ok_map (\<lambda>_. restarted_outcome) r)
                    (flash_usb (en_process E flag) (en_fs E) port (fj_path job) (fj_partition_table job)))))))"

definition byte_count :: "string \<Rightarrow> string" where
  "byte_count img = show_nat (length img) @ '' bytes''"

definition firmware_lan ::
    "'j env \<Rightarrow> string \<Rightarrow> job_snapshot \<Rightarrow> driver \<Rightarrow> firmware_job \<Rightarrow> string \<Rightarrow> (driver_error + outcome) worker" where
  "firmware_lan E jid snap d job img =
     fl_bind (w_target (fj_host job) snap) (\<lambda>host.
       if parse_ipv4 host = None
       then w_fail_exit jid None ''LAN firmware update needs an IPv4 --host or scan --mode lan key''
       else
         fl_then (sink_step jid ''write'')
           (fl_then (sink_detail jid (byte_count img))
             (firmware_http E jid d img (firmware_filename (fj_path job)) host 80 None None)))"

fun join_beats :: "string \<Rightarrow> nat \<Rightarrow> unit worker" where
  "join_beats jid 0 = fl_return ()"
| "join_beats jid (Suc n) = fl_then (sink_detail jid ''associating'') (join_beats jid n)"

definition firmware_ap_session ::
    "'j env \<Rightarrow> string \<Rightarrow> driver \<Rightarrow> cached_candidate \<Rightarrow> firmware_job \<Rightarrow> string \<Rightarrow> (driver_error + outcome) worker" where
  "firmware_ap_session E jid d c job img =
     (let net = effective_net E d in
      fl_then (join_beats jid (en_join_beats E))
        (fl_then (fl_each (softap_call E jid) (join_call d c # address_calls net))
          (fl_then (w_transition jid JS_Writing (Some ''write'') None None)
            (fl_then (sink_step jid ''write'')
              (fl_then (sink_detail jid (byte_count img))
                (fl_bind (firmware_http E jid d img (firmware_filename (fj_path job))
                    (show_ipv4 (cn_host net)) (cn_port net) (Some (cn_source net)) (en_radio_device E))
                  (\<lambda>r. fl_then (w_release E) (fl_return r))))))))"

definition firmware_ap ::
    "'j env \<Rightarrow> string \<Rightarrow> job_snapshot \<Rightarrow> driver \<Rightarrow> firmware_job \<Rightarrow> string \<Rightarrow> (driver_error + outcome) worker" where
  "firmware_ap E jid snap d job img =
     fl_bind (w_cached (jsn_driver snap) (jsn_key snap)) (\<lambda>c. case c of
        None \<Rightarrow> w_fail_exit jid None ''candidate not in scan cache; run scan first''
      | Some c \<Rightarrow>
          fl_then (w_transition jid JS_Joining (Some ''join'') None None)
            (with_hold (firmware_ap_session E jid d c job img)))"

definition firmware_upload ::
    "'j env \<Rightarrow> string \<Rightarrow> job_snapshot \<Rightarrow> driver \<Rightarrow> firmware_job \<Rightarrow> string \<Rightarrow> (driver_error + outcome) worker" where
  "firmware_upload E jid snap d job img =
     (case fj_mode job of
        RM_Usb \<Rightarrow> firmware_usb E jid snap job
      | RM_Lan \<Rightarrow> firmware_lan E jid snap d job img
      | RM_Z21 \<Rightarrow> w_fail_exit jid None ''firmware update is not supported over Z21 LAN''
      | RM_Ap \<Rightarrow> firmware_ap E jid snap d job img)"

definition firmware_body :: "'j env \<Rightarrow> string \<Rightarrow> job_snapshot \<Rightarrow> driver \<Rightarrow> firmware_job \<Rightarrow> string \<Rightarrow> unit worker" where
  "firmware_body E jid snap d job img =
     fl_then (w_transition jid JS_Writing (Some ''write'') (Some 0) None)
       (fl_bind (firmware_upload E jid snap d job img) (finish_firmware_job jid))"

text \<open>The image that will be uploaded, or the detail with which the job fails.\<close>

definition firmware_prepare :: "'j env \<Rightarrow> firmware_capabilities \<Rightarrow> firmware_job \<Rightarrow> string + string" where
  "firmware_prepare E fw job =
     (case firmware_admit E fw job of
        Some msg \<Rightarrow> Inl msg
      | None \<Rightarrow>
          rbind (firmware_image E job) (\<lambda>img.
            case firmware_check fw job img of Some msg \<Rightarrow> Inl msg | None \<Rightarrow> Inr img))"

definition run_firmware_job :: "'j env \<Rightarrow> string \<Rightarrow> firmware_job \<Rightarrow> unit worker" where
  "run_firmware_job E jid job =
     fl_function
       (fl_bind (w_snapshot jid) (\<lambda>snap. case snap of None \<Rightarrow> fl_exit | Some snap \<Rightarrow>
          case driver_from_id (jsn_driver snap) of
            None \<Rightarrow> w_fail_exit jid None ''unknown driver''
          | Some d \<Rightarrow>
              (case dcap_firmware (registry_capabilities d) of
                 None \<Rightarrow> w_fail_exit jid None ''firmware update is not supported''
               | Some fw \<Rightarrow>
                   (case firmware_prepare E fw job of
                      Inl msg \<Rightarrow> w_fail_exit jid None msg
                    | Inr img \<Rightarrow> firmware_body E jid snap d job img))))"

section \<open>Any job\<close>

definition run_job :: "'j env \<Rightarrow> string \<Rightarrow> unit worker" where
  "run_job E jid =
     fl_function
       (fl_bind (w_is_cancelled jid) (\<lambda>c.
          if c then
            fl_bind (w_snapshot jid) (\<lambda>s.
              fl_then
                (fl_when (case s of None \<Rightarrow> False | Some s \<Rightarrow> \<not> js_is_terminal (jsn_state s)) (w_cancelled jid))
                fl_exit)
          else
            fl_bind (w_take_payload jid) (\<lambda>p. case p of
               None \<Rightarrow> w_fail_exit jid None ''missing job payload''
             | Some (JP_Program w) \<Rightarrow> run_program_job E jid w
             | Some (JP_Firmware job) \<Rightarrow> run_firmware_job E jid job)))"

text \<open>One turn of \<open>worker_loop\<close>; nothing is queued: the worker waits.\<close>

definition worker_step :: "'j env \<Rightarrow> unit worker" where
  "worker_step E =
     (\<lambda>rt. case rt_queue rt of
        [] \<Rightarrow> (Blocked, rt)
      | jid # rest \<Rightarrow> run_job E jid (rt\<lparr>rt_queue := rest\<rparr>))"

end
