(* ===== verification/Wp_WorkerProofs.thy ===== *)
theory Wp_WorkerProofs
  imports Wp_Worker
begin

text \<open>
  What the worker guarantees. While a job runs, \<open>holding\<close> is kept: the registry is reachable
  by registry steps and the slot belongs to the job, whatever clients do beside it; when the job
  returns, \<open>ended\<close>: the slot is free and \<open>Done\<close> is only reported for a run that succeeded.
  The rules for the worker's accesses are collected in \<open>sat_intro\<close>. A second invariant
  follows the calls to the radio.
\<close>

section \<open>The slot\<close>

definition job_at :: "string \<Rightarrow> string \<Rightarrow> string \<Rightarrow> job_registry \<Rightarrow> bool" where
  "job_at jid drv key reg \<longleftrightarrow>
     (\<exists>rec. hm_get (rg_jobs reg) jid = Some rec \<and> jsn_driver (jr_snapshot rec) = drv
        \<and> jsn_key (jr_snapshot rec) = key)"

definition held_by :: "string \<Rightarrow> string \<Rightarrow> string \<Rightarrow> job_registry \<Rightarrow> bool" where
  "held_by jid drv key reg \<longleftrightarrow> reg_reach reg \<and> rg_active reg = Some jid \<and> job_at jid drv key reg"

text \<open>
  What may happen to the registry from \<open>reg\<close> on, as long as the job \<open>jid\<close> holds the slot: the job takes its
  payload and reports frames, and clients submit and cancel.
\<close>

inductive job_path :: "string \<Rightarrow> job_registry \<Rightarrow> job_registry \<Rightarrow> bool" for jid reg where
  jp_start: "job_path jid reg reg"
| jp_client: "job_path jid reg r \<Longrightarrow> rg_active r = Some jid \<Longrightarrow> job_path jid reg (slot.client_step op r)"
| jp_take: "job_path jid reg r \<Longrightarrow> rg_active r = Some jid \<Longrightarrow> job_path jid reg (snd (jobs_take_payload jid r))"
| jp_frame: "job_path jid reg r \<Longrightarrow> rg_active r = Some jid \<Longrightarrow> job_path jid reg (jobs_transition jid st stp pr dt r)"

text \<open>\<open>holding reg0\<close>: the slot belongs to the job, which has come here from the registry \<open>reg0\<close>.\<close>

definition holding :: "job_registry \<Rightarrow> string \<Rightarrow> string \<Rightarrow> string \<Rightarrow> runtime \<Rightarrow> bool" where
  "holding reg0 jid drv key rt \<longleftrightarrow> held_by jid drv key (rt_jobs rt) \<and> job_path jid reg0 (rt_jobs rt)"

definition job_done :: "string \<Rightarrow> runtime \<Rightarrow> bool" where
  "job_done jid rt \<longleftrightarrow> map_option jsn_state (jobs_snapshot jid (rt_jobs rt)) = Some JS_Done"

definition ended :: "job_registry \<Rightarrow> string \<Rightarrow> bool \<Rightarrow> runtime \<Rightarrow> bool" where
  "ended reg0 jid R rt \<longleftrightarrow>
     reg_reach (rt_jobs rt) \<and> rg_active (rt_jobs rt) = None \<and> job_path jid reg0 (rt_jobs rt) \<and> (job_done jid rt \<longrightarrow> R)"

text \<open>
  What a path leaves of the other jobs: a remembered one has the snapshot and the frames it had, no new one has
  appeared, and none is forgotten unless the history was already full.
\<close>

definition others_kept :: "string \<Rightarrow> job_registry \<Rightarrow> job_registry \<Rightarrow> bool" where
  "others_kept jid reg reg' \<longleftrightarrow>
     (\<forall>i rec'. i \<noteq> jid \<longrightarrow> hm_get (rg_jobs reg') i = Some rec' \<longrightarrow>
        (\<exists>rec. hm_get (rg_jobs reg) i = Some rec \<and> jr_snapshot rec' = jr_snapshot rec \<and> jr_frames rec' = jr_frames rec))
   \<and> (hm_len (rg_jobs reg) \<le> MAX_JOB_HISTORY \<longrightarrow>
        (\<forall>i. hm_get (rg_jobs reg) i \<noteq> None \<longrightarrow> hm_get (rg_jobs reg') i \<noteq> None))"

definition same_names :: "job_registry \<Rightarrow> job_registry \<Rightarrow> bool" where
  "same_names reg reg' \<longleftrightarrow> (\<forall>i. hm_get (rg_jobs reg') i = None \<longleftrightarrow> hm_get (rg_jobs reg) i = None)"

lemma job_path_reach: "job_path jid reg r \<Longrightarrow> reg_reach reg \<Longrightarrow> reg_reach r"
proof (induction rule: job_path.induct)
  case (jp_client r op)
  then show ?case by (cases op) (auto simp: slot_submit_def intro: rr_step rs_submit rs_cancel)
qed (auto intro: rr_step rs_take rs_transition)

lemma others_kept_update:
  assumes "others_kept jid reg r" "same_names reg r" and r': "hm_get (rg_jobs r) k = Some rec"
    and "k \<noteq> jid \<Longrightarrow> jr_snapshot rec' = jr_snapshot rec \<and> jr_frames rec' = jr_frames rec"
  shows "others_kept jid reg (r\<lparr>rg_jobs := hm_insert k rec' (rg_jobs r)\<rparr>)"
    and "same_names reg (r\<lparr>rg_jobs := hm_insert k rec' (rg_jobs r)\<rparr>)"
proof -
  have reg: "hm_get (rg_jobs reg) k \<noteq> None" using assms(2) r' unfolding same_names_def by (metis option.discI)
  show "same_names reg (r\<lparr>rg_jobs := hm_insert k rec' (rg_jobs r)\<rparr>)"
    using assms(2) reg by (auto simp: same_names_def hm.get_insert)
  show "others_kept jid reg (r\<lparr>rg_jobs := hm_insert k rec' (rg_jobs r)\<rparr>)"
    using assms(1,3,4) unfolding others_kept_def by (auto simp: hm.get_insert)
qed

lemma job_path_others:
  assumes "reg_reach reg"
  shows "job_path jid reg r \<Longrightarrow> others_kept jid reg r \<and> (rg_active r = Some jid \<longrightarrow> same_names reg r)"
proof (induction rule: job_path.induct)
  case jp_start
  show ?case by (simp add: others_kept_def same_names_def)
next
  case (jp_client r op)
  then have kept: "others_kept jid reg r" "same_names reg r" by simp_all
  note ok = reg_reach_ok [OF job_path_reach [OF jp_client.hyps(1) assms]]
  show ?case
  proof (cases op)
    case (CO_Submit a)
    with kept jp_client.hyps(2) show ?thesis by (simp add: slot_submit_def jobs_submit_def)
  next
    case (CO_Cancel i)
    show ?thesis
    proof (cases "hm_get (rg_jobs r) i")
      case None
      with CO_Cancel kept show ?thesis by (simp add: jobs_cancel_def)
    next
      case (Some rec)
      have "js_is_terminal (jsn_state (jr_snapshot rec))" if "i \<noteq> jid"
        using reg_okD(4) [OF ok Some] jp_client.hyps(2) that by simp
      with CO_Cancel Some others_kept_update [OF kept Some] show ?thesis
        by (auto simp: jobs_cancel_def Let_def)
    qed
  qed
next
  case (jp_take r)
  then have kept: "others_kept jid reg r" "same_names reg r" by simp_all
  with others_kept_update [OF kept, of jid] show ?case
    by (auto simp: jobs_take_payload_def split: option.split)
next
  case (jp_frame r st stp pr dt)
  then have kept: "others_kept jid reg r" "same_names reg r" by simp_all
  note reach = job_path_reach [OF jp_frame.hyps(1) assms]
  obtain rec where rec: "hm_get (rg_jobs r) jid = Some rec"
    using reg_okD(5) [OF reg_reach_ok [OF reach] jp_frame.hyps(2)] by blast
  let ?r1 = "r\<lparr>rg_jobs := hm_insert jid (push_frame jid st stp pr dt rec) (rg_jobs r)\<rparr>"
  have one: "others_kept jid reg ?r1" "same_names reg ?r1"
    using others_kept_update [OF kept rec] by simp_all
  show ?case
  proof (cases "js_is_terminal st")
    case False
    with rec one show ?thesis by (simp add: jobs_transition_def)
  next
    case True
    have h: "hm_ok (rg_jobs ?r1)" using reg_okD(1) [OF reg_reach_ok [OF reach]] by (simp add: hm.ok_insert)
    have len: "hm_len (rg_jobs ?r1) = hm_len (rg_jobs reg)"
      using one(2) h reg_okD(1) [OF reg_reach_ok [OF assms]] by (simp add: hm.len_dom same_names_def)
    have "others_kept jid reg (evict_old_jobs (?r1\<lparr>rg_active := None\<rparr>))"
      using one(1) h len unfolding others_kept_def by (auto simp: evict_get)
    with rec True show ?thesis by (simp add: jobs_transition_def Let_def)
  qed
qed

definition live :: "job_snapshot option \<Rightarrow> bool" where
  "live s \<longleftrightarrow> \<not> js_is_terminal (snapshot_state s)"

lemma held_client_step:
  assumes "held_by jid drv key reg" shows "held_by jid drv key (slot.client_step op reg)"
proof (cases op)
  case (CO_Submit a)
  with assms show ?thesis by (simp add: held_by_def slot_submit_def jobs_submit_def)
next
  case (CO_Cancel i)
  with assms have "reg_reach (jobs_cancel i reg)" by (auto simp: held_by_def intro: rr_step rs_cancel)
  with CO_Cancel assms show ?thesis
    by (auto simp: held_by_def job_at_def jobs_cancel_def Let_def hm.get_insert split: option.splits)
qed

lemma held_transition:
  assumes "held_by jid drv key reg" and "\<not> js_is_terminal st"
  shows "held_by jid drv key (jobs_transition jid st stp pr dt reg)"
proof -
  have ok: "reg_reach (jobs_transition jid st stp pr dt reg)"
    using assms(1) by (auto simp: held_by_def intro: rr_step rs_transition)
  with assms show ?thesis
    by (auto simp: held_by_def job_at_def jobs_transition_def hm.get_insert)
qed

lemma held_take_payload:
  assumes "held_by jid drv key reg" shows "held_by jid drv key (snd (jobs_take_payload i reg))"
proof -
  have "reg_reach (snd (jobs_take_payload i reg))"
    using assms by (auto simp: held_by_def intro: rr_step rs_take)
  with assms show ?thesis
    by (auto simp: held_by_def job_at_def jobs_take_payload_def hm.get_insert split: option.splits)
qed

lemma held_active: "held_by jid drv key reg \<Longrightarrow> rg_active reg = Some jid"
  by (simp add: held_by_def)

lemma ended_transition:
  assumes "held_by jid drv key reg" "job_path jid reg0 reg" and "js_is_terminal st" and "st = JS_Done \<Longrightarrow> R"
  shows "ended reg0 jid R (rt\<lparr>rt_jobs := jobs_transition jid st stp pr dt reg\<rparr>)"
proof -
  let ?reg = "jobs_transition jid st stp pr dt reg"
  have act: "reg_reach reg" "rg_active reg = Some jid" using assms(1) by (auto simp: held_by_def)
  obtain rec where rec: "hm_get (rg_jobs reg) jid = Some rec"
    using assms(1) by (auto simp: held_by_def job_at_def)
  have h: "hm_ok (hm_insert jid x (rg_jobs reg))" for x
    using reg_okD(1) [OF reg_reach_ok [OF act(1)]] by (rule hm.ok_insert)
  have "reg_reach ?reg" using act by (auto intro: rr_step rs_transition)
  moreover have "rg_active ?reg = None"
    using reg_ok_transition(2) [OF reg_reach_ok [OF act(1)] act(2)] assms(3) by simp
  moreover have "job_path jid reg0 ?reg" by (rule jp_frame [OF assms(2) act(2)])
  moreover have "jsn_state s = st" if "jobs_snapshot jid ?reg = Some s" for s
    using that assms(3) rec
    by (auto simp: jobs_snapshot_def jobs_transition_def Let_def evict_get h hm.get_insert split: if_splits)
  ultimately show ?thesis using assms(4) by (auto simp: ended_def job_done_def)
qed

lemma holding_act: "holding reg0 jid drv key rt \<Longrightarrow> holding reg0 jid drv key (client_act act rt)"
  by (cases act) (auto simp: holding_def held_client_step held_active intro: jp_client)

lemma holding_preempt: "holding reg0 jid drv key rt \<Longrightarrow> holding reg0 jid drv key (preempt rt)"
proof -
  have "holding reg0 jid drv key rt \<Longrightarrow> holding reg0 jid drv key (fold client_act acts rt)" for acts rt
    by (induction acts arbitrary: rt) (auto simp: holding_act)
  moreover assume "holding reg0 jid drv key rt"
  ultimately show ?thesis by (auto simp: preempt_def holding_def split: list.splits)
qed

lemma holding_transition:
  "holding reg0 jid drv key rt \<Longrightarrow> \<not> js_is_terminal st \<Longrightarrow>
     holding reg0 jid drv key (rt\<lparr>rt_jobs := jobs_transition jid st stp pr dt (rt_jobs rt)\<rparr>)"
  by (auto simp: holding_def held_transition held_active intro: jp_frame)

lemma held_live: "held_by jid drv key reg \<Longrightarrow> live (jobs_snapshot jid reg)"
  using reg_okD(4) [OF reg_reach_ok]
  by (auto simp: held_by_def job_at_def live_def snapshot_state_def jobs_snapshot_def)

lemma held_snapshot:
  "held_by jid drv key reg \<Longrightarrow> \<exists>s. jobs_snapshot jid reg = Some s \<and> jsn_driver s = drv \<and> jsn_key s = key"
  by (auto simp: held_by_def job_at_def jobs_snapshot_def)

section \<open>Rules\<close>

lemma sat_is_cancelled [sat_intro]:
  "sat (holding reg0 jid drv key) (w_is_cancelled i) (\<lambda>_. holding reg0 jid drv key) E B"
  unfolding w_is_cancelled_def by (rule sat_call) (auto simp: Let_def holding_preempt)

lemma sat_snapshot:
  "sat (holding reg0 jid drv key) (w_snapshot jid)
     (\<lambda>s rt. holding reg0 jid drv key rt \<and> live s \<and> (\<exists>t. s = Some t \<and> jsn_driver t = drv \<and> jsn_key t = key)) E B"
  unfolding w_snapshot_def
proof (rule sat_call)
  fix rt x rt'
  assume "holding reg0 jid drv key rt" and run: "(let rt' = preempt rt in (jobs_snapshot jid (rt_jobs rt'), rt')) = (x, rt')"
  then have "holding reg0 jid drv key rt'" and x: "x = jobs_snapshot jid (rt_jobs rt')"
    using holding_preempt by (auto simp: Let_def)
  then show "holding reg0 jid drv key rt' \<and> live x \<and> (\<exists>t. x = Some t \<and> jsn_driver t = drv \<and> jsn_key t = key)"
    unfolding holding_def x using held_live held_snapshot by blast
qed

lemma sat_cached [sat_intro]:
  "sat (holding reg0 jid drv key) (w_cached a b) (\<lambda>_. holding reg0 jid drv key) E B"
  unfolding w_cached_def by (rule sat_call) (auto simp: Let_def holding_preempt)

lemma sat_take_payload [sat_intro]:
  "sat (holding reg0 jid drv key) (w_take_payload jid) (\<lambda>_. holding reg0 jid drv key) E B"
  unfolding w_take_payload_def
proof (rule sat_call)
  fix rt x rt'
  assume "holding reg0 jid drv key rt" and run: "(let rt' = preempt rt; (p, reg) = jobs_take_payload jid (rt_jobs rt')
      in (p, rt'\<lparr>rt_jobs := reg\<rparr>)) = (x, rt')"
  then have h: "held_by jid drv key (rt_jobs (preempt rt))" "job_path jid reg0 (rt_jobs (preempt rt))"
    using holding_preempt by (auto simp: holding_def)
  from held_take_payload [OF h(1), of jid] jp_take [OF h(2) held_active [OF h(1)]] run show "holding reg0 jid drv key rt'"
    by (cases "jobs_take_payload jid (rt_jobs (preempt rt))") (auto simp: Let_def holding_def)
qed

lemma sat_transition_live [sat_intro]:
  "\<not> js_is_terminal st \<Longrightarrow>
     sat (holding reg0 jid drv key) (w_transition jid st stp pr dt) (\<lambda>_. holding reg0 jid drv key) E B"
  unfolding w_transition_def Let_def by (rule sat_update) (rule holding_transition [OF holding_preempt])

lemma sat_transition_end [sat_intro]:
  "js_is_terminal st \<Longrightarrow> (st = JS_Done \<Longrightarrow> R) \<Longrightarrow>
     sat (holding reg0 jid drv key) (w_transition jid st stp pr dt) (\<lambda>_. ended reg0 jid R) E B"
  unfolding w_transition_def Let_def
  by (rule sat_update, drule holding_preempt) (auto simp: holding_def intro: ended_transition)

lemma sat_failed [sat_intro]:
  "sat (holding reg0 jid drv key) (w_failed jid stp msg) (\<lambda>_. ended reg0 jid R) E B"
  unfolding w_failed_def by (rule sat_transition_end) simp_all

lemma sat_cancelled [sat_intro]:
  "sat (holding reg0 jid drv key) (w_cancelled jid) (\<lambda>_. ended reg0 jid R) E B"
  unfolding w_cancelled_def by (rule sat_transition_end) simp_all

lemma sat_fail_exit [sat_intro]:
  "sat (holding reg0 jid drv key) (w_fail_exit jid stp msg) Q (ended reg0 jid R) B"
  unfolding w_fail_exit_def by (rule sat_then [OF sat_failed sat_exit])

lemma sat_release:
  "(\<And>rt. P rt \<Longrightarrow> Q () (radio_release E rt)) \<Longrightarrow> sat P (w_release E) Q X B"
  unfolding w_release_def by (rule sat_update)

lemma release_simps [simp]:
  "rt_jobs (radio_release E rt) = rt_jobs rt" "rt_jobs (hold rt) = rt_jobs rt" "rt_jobs (unhold rt) = rt_jobs rt"
  by (simp_all add: radio_release_def w_radio_def hold_def unhold_def)

lemma release_holding [simp]:
  "holding reg0 jid drv key (radio_release E rt) = holding reg0 jid drv key rt"
  "ended reg0 jid R (radio_release E rt) = ended reg0 jid R rt"
  "holding reg0 jid drv key (hold rt) = holding reg0 jid drv key rt" "holding reg0 jid drv key (unhold rt) = holding reg0 jid drv key rt"
  "ended reg0 jid R (unhold rt) = ended reg0 jid R rt"
  by (simp_all add: holding_def ended_def job_done_def)

lemma sat_release_holding [sat_intro]:
  "sat (holding reg0 jid drv key) (w_release E) (\<lambda>_. holding reg0 jid drv key) X B"
  "sat (ended reg0 jid R) (w_release E) (\<lambda>_. ended reg0 jid R) X B"
  by (rule sat_release; simp)+

lemma sat_radio_call [sat_intro]:
  "sat (holding reg0 jid drv key) (w_radio_call E c) (\<lambda>_. holding reg0 jid drv key) X B"
  unfolding w_radio_call_def by (rule sat_call) (auto simp: w_radio_def holding_def)

lemma sat_with_hold [sat_intro]:
  assumes "sat (holding reg0 jid drv key) m Q (ended reg0 jid R) (holding reg0 jid drv key)"
    and "\<And>x rt. Q x rt \<Longrightarrow> Q x (unhold rt)"
  shows "sat (holding reg0 jid drv key) (with_hold m) Q (ended reg0 jid R) (holding reg0 jid drv key)"
proof (rule satI)
  fix rt f rt'
  assume P: "holding reg0 jid drv key rt" and run: "with_hold m rt = (f, rt')"
  obtain g rt1 where m: "m (hold rt) = (g, rt1)" by (cases "m (hold rt)")
  have "holding reg0 jid drv key (hold rt)" using P by simp
  from satD [OF assms(1) this m] run m assms(2)
  show "case f of Go x \<Rightarrow> Q x rt' | Exit \<Rightarrow> ended reg0 jid R rt' | Blocked \<Rightarrow> holding reg0 jid drv key rt'"
    by (cases g) (auto simp: with_hold_def)
qed

text \<open>The progress sink never ends a job.\<close>

lemma step_state_live [simp]: "\<not> js_is_terminal (step_state s)"
  by (simp add: step_state_def)

lemma sat_sink_step [sat_intro]:
  "sat (holding reg0 jid drv key) (sink_step jid s) (\<lambda>_. holding reg0 jid drv key) E B"
  unfolding sink_step_def by (rule sat_transition_live) simp

lemma sat_snapshot_live:
  assumes "\<And>s. live s \<Longrightarrow> sat (holding reg0 jid drv key) (k s) Q E B"
  shows "sat (holding reg0 jid drv key) (fl_bind (w_snapshot jid) k) Q E B"
  by (rule sat_bind, rule sat_snapshot, rule sat_pure) (use assms in blast)

lemma sat_sink_detail [sat_intro]:
  "sat (holding reg0 jid drv key) (sink_detail jid d) (\<lambda>_. holding reg0 jid drv key) E B"
  unfolding sink_detail_def by (rule sat_snapshot_live, rule sat_transition_live) (simp add: live_def)

lemma sat_sink_progress:
  "sat (holding reg0 jid drv key) (sink_progress jid p) (\<lambda>_. holding reg0 jid drv key) E B"
  unfolding sink_progress_def by (rule sat_snapshot_live, rule sat_transition_live) (simp add: live_def)

lemma sat_sink_event [sat_intro]:
  "sat (holding reg0 jid drv key) (sink_event jid e) (\<lambda>_. holding reg0 jid drv key) E B"
  by (cases e) (simp_all add: sat_sink_step sat_sink_detail sat_sink_progress sat_return)

lemma sat_sink_events [sat_intro]:
  "sat (holding reg0 jid drv key) (fl_each (sink_event jid) es) (\<lambda>_. holding reg0 jid drv key) E B"
  by (rule sat_each) (rule sat_sink_event)

lemma sat_softap_call [sat_intro]:
  "sat (holding reg0 jid drv key) (softap_call E jid c) (\<lambda>_. holding reg0 jid drv key) (ended reg0 jid R) B"
  unfolding softap_call_def
  by (rule sat_bind, rule sat_radio_call, rule sat_option, rule sat_return, assumption,
      rule sat_then, rule sat_failed, rule sat_then, rule sat_release_holding, rule sat_exit)

lemma sat_softap_calls [sat_intro]:
  "sat (holding reg0 jid drv key) (fl_each (softap_call E jid) cs) (\<lambda>_. holding reg0 jid drv key) (ended reg0 jid R) B"
  by (rule sat_each) (rule sat_softap_call)

section \<open>Programming jobs\<close>

lemma sat_report_dispatch:
  assumes "is_ok r \<Longrightarrow> R"
  shows "sat (holding reg0 jid drv key) (report_dispatch jid r) (\<lambda>_. ended reg0 jid R) E B"
proof (cases r)
  case (Inl e)
  then show ?thesis by (cases e) (simp_all add: report_dispatch_def sat_failed)
next
  case (Inr oc)
  with assms show ?thesis
    by (cases oc) (simp_all add: report_dispatch_def sat_transition_end)
qed

lemma sat_program_finish:
  assumes "is_ok outcome \<Longrightarrow> R"
  shows "sat (holding reg0 jid drv key) (program_finish jid outcome) (\<lambda>_. ended reg0 jid R) E B"
  unfolding program_finish_def
proof (rule sat_bind [OF sat_is_cancelled], rule sat_if)
  show "sat (holding reg0 jid drv key) (fl_bind (w_snapshot jid) (\<lambda>s.
      fl_when (case s of None \<Rightarrow> False | Some s \<Rightarrow> \<not> js_is_terminal (jsn_state s)) (w_cancelled jid)))
      (\<lambda>_. ended reg0 jid R) E B"
    by (rule sat_bind, rule sat_snapshot, rule sat_pure)
      (auto simp: fl_when_def live_def snapshot_state_def intro: sat_cancelled)
  show "sat (holding reg0 jid drv key) (case outcome of
        Inl e \<Rightarrow> w_failed jid None (driver_error_text e)
      | Inr oc \<Rightarrow> w_transition jid JS_Done (Some ''done'') (Some 100)
          (if oc_restarted oc then Some ''restarted'' else None)) (\<lambda>_. ended reg0 jid R) E B"
    using assms by (cases outcome) (simp_all add: sat_failed sat_transition_end)
qed

text \<open>What a programming job that ends as \<open>Done\<close> has achieved.\<close>

definition fred_target :: "'j env \<Rightarrow> string \<Rightarrow> sock_addr option" where
  "fred_target E key = (case en_lookup E (normalize_key key) of Inr (t # _) \<Rightarrow> Some t | _ \<Rightarrow> None)"

definition fred_dispatched :: "'j env \<Rightarrow> program_request_wire \<Rightarrow> string \<Rightarrow> bool" where
  "fred_dispatched E w key \<longleftrightarrow>
     (\<exists>target loco. fred_target E key = Some target \<and> first_address w = Some loco
        \<and> is_ok (fst (dispatch_addr target loco (en_serial_turns E) (en_dispatch_turns E))))"

lemma sat_fred_dispatch:
  assumes "is_ok (fst (dispatch_addr target loco (en_serial_turns E) (en_dispatch_turns E))) \<Longrightarrow> R"
  shows "sat (holding reg0 jid drv key) (fred_dispatch E jid target loco) (\<lambda>_. ended reg0 jid R) (ended reg0 jid R) B"
  unfolding fred_dispatch_def
  by (rule sat_option, rule sat_let, rule sat_bind, rule sat_is_cancelled, rule sat_if, rule sat_then,
      rule sat_cancelled, rule sat_exit, assumption, rule sat_report_dispatch, simp add: assms, rule sat_fail_exit)

lemma sat_fred_job:
  assumes "fred_dispatched E w k \<Longrightarrow> R"
  shows "sat (holding reg0 jid drv key) (run_fred_program_job E jid w k) (\<lambda>_. ended reg0 jid R) X B"
proof -
  have "sat (holding reg0 jid drv key) (fl_bind (w_is_cancelled jid) (\<lambda>c.
      if c then fl_then (w_cancelled jid) fl_exit
      else fl_then (w_transition jid JS_Writing (Some ''write'') (Some 10) None)
             (fred_dispatch E jid target loco))) (\<lambda>_. ended reg0 jid R) (ended reg0 jid R) B"
    if "fred_target E k = Some target" "first_address w = Some loco" for target loco
    by (rule sat_bind, rule sat_is_cancelled, rule sat_if, rule sat_then, rule sat_cancelled, rule sat_exit,
        assumption, rule sat_then, rule sat_transition_live, simp, rule sat_fred_dispatch)
      (use that assms in \<open>auto simp: fred_dispatched_def\<close>)
  then show ?thesis
    unfolding run_fred_program_job_def
    by (intro sat_function) (auto simp: fred_target_def intro: sat_fail_exit split: sum.splits list.splits option.splits)
qed

definition programmed :: "'j env \<Rightarrow> string \<Rightarrow> program_request_wire \<Rightarrow> bool" where
  "programmed E drv w \<longleftrightarrow>
     (\<exists>d. driver_from_id drv = Some d
        \<and> (if d = D_Fred then \<exists>k. fred_dispatched E w k else is_ok (fst (driver_run E d w))))"

lemma sat_softap_session:
  assumes "is_ok (fst (driver_run E d w)) \<Longrightarrow> R"
  shows "sat (holding reg0 jid drv key) (softap_session E jid d c w) (\<lambda>_. ended reg0 jid R) (ended reg0 jid R) B"
proof -
  have run: "sat (holding reg0 jid drv key) (fl_then (fl_each (sink_event jid) events)
      (fl_then (w_release E) (program_finish jid outcome))) (\<lambda>_. ended reg0 jid R) (ended reg0 jid R) B"
    if "driver_run E d w = (outcome, events)" for outcome events
    by (rule sat_then, rule sat_sink_events, rule sat_then, rule sat_release_holding, rule sat_program_finish)
      (use that assms in simp)
  have cancelled: "sat (holding reg0 jid drv key) (fl_then (w_release E) (fl_then (w_cancelled jid) fl_exit))
      (\<lambda>_. ended reg0 jid R) (ended reg0 jid R) B"
    by (rule sat_then, rule sat_release_holding, rule sat_then, rule sat_cancelled, rule sat_exit)
  show ?thesis
    unfolding softap_session_def
    by (rule sat_then, rule sat_softap_calls, rule sat_bind, rule sat_is_cancelled, rule sat_if, rule cancelled)
      (simp add: run Let_def split: prod.split)
qed

lemma sat_program_job:
  "sat (holding reg0 jid drv key) (run_program_job E jid w)
     (\<lambda>_. ended reg0 jid (programmed E drv w)) X (holding reg0 jid drv key)"
proof -
  let ?R = "programmed E drv w"
  have softap: "sat (holding reg0 jid drv key)
      (fl_then (w_transition jid JS_Joining (Some ''join'') None None)
         (fl_bind (w_is_cancelled jid) (\<lambda>cancelled.
            if cancelled then fl_then (w_cancelled jid) fl_exit
            else with_hold (softap_session E jid d c w)))) (\<lambda>_. ended reg0 jid ?R) (ended reg0 jid ?R) (holding reg0 jid drv key)"
    if "driver_from_id drv = Some d" "d \<noteq> D_Fred" for d c
    by (rule sat_then, rule sat_transition_live, simp, rule sat_bind, rule sat_is_cancelled, rule sat_if,
        rule sat_then, rule sat_cancelled, rule sat_exit, assumption, rule sat_with_hold, rule sat_softap_session)
      (use that in \<open>auto simp: programmed_def\<close>)
  have fred: "sat (holding reg0 jid drv key) (run_fred_program_job E jid w k)
      (\<lambda>_. ended reg0 jid ?R) (ended reg0 jid ?R) (holding reg0 jid drv key)"
    if "driver_from_id drv = Some D_Fred" for k
    by (rule sat_fred_job) (use that in \<open>auto simp: programmed_def\<close>)
  have body: "sat (holding reg0 jid drv key)
      (case driver_from_id drv of
         None \<Rightarrow> w_fail_exit jid None ''unknown driver''
       | Some d \<Rightarrow>
           fl_bind (w_cached drv ky) (\<lambda>c. case c of
              None \<Rightarrow> w_fail_exit jid None ''candidate not in scan cache; run scan first''
            | Some c \<Rightarrow>
                if d = D_Fred then run_fred_program_job E jid w (cc_key c)
                else fl_then (w_transition jid JS_Joining (Some ''join'') None None)
                  (fl_bind (w_is_cancelled jid) (\<lambda>cancelled.
                     if cancelled then fl_then (w_cancelled jid) fl_exit
                     else with_hold (softap_session E jid d c w)))))
      (\<lambda>_. ended reg0 jid ?R) (ended reg0 jid ?R) (holding reg0 jid drv key)" for ky
    by (rule sat_option, rule sat_fail_exit, rule sat_bind, rule sat_cached, rule sat_option, rule sat_fail_exit,
        rule sat_if) (auto intro: fred softap)
  show ?thesis
    unfolding run_program_job_def
    by (rule sat_function, rule sat_bind, rule sat_snapshot, rule sat_pure) (use body in auto)
qed

section \<open>Firmware jobs\<close>

lemma sat_heartbeats:
  "sat (holding reg0 jid drv key) (heartbeats jid label flag beats) (\<lambda>_. holding reg0 jid drv key) E B"
proof (induction jid label flag beats rule: heartbeats.induct)
  case (1 jid label flag)
  show ?case by (simp add: sat_return)
next
  case (2 jid label flag secs beats)
  show ?case
    unfolding heartbeats.simps
    by (rule sat_bind, rule sat_is_cancelled, rule sat_if, rule 2, assumption, rule sat_then,
        rule sat_sink_detail, rule 2, assumption)
qed

lemma sat_await:
  "sat (holding reg0 jid drv key) (await_blocking E jid label work)
     (\<lambda>r rt. holding reg0 jid drv key rt \<and> (\<exists>flag. work flag = Some r)) X (holding reg0 jid drv key)"
  unfolding await_blocking_def
  by (rule sat_bind, rule sat_heartbeats, rule sat_option, rule sat_blocked, assumption, rule sat_return, blast)

lemma sat_target: "sat (holding reg0 jid drv key) (w_target x snap) (\<lambda>_. holding reg0 jid drv key) E B"
  unfolding w_target_def
  by (rule sat_option, rule sat_bind, rule sat_cached, rule sat_return, assumption, rule sat_return, assumption)

lemma sat_join_beats: "sat (holding reg0 jid drv key) (join_beats jid n) (\<lambda>_. holding reg0 jid drv key) E B"
  by (induction n) (auto intro: sat_return sat_then sat_sink_detail)

lemma sat_finish_firmware:
  "sat (holding reg0 jid drv key) (finish_firmware_job jid outcome)
     (\<lambda>_. ended reg0 jid (is_ok outcome)) (ended reg0 jid (is_ok outcome)) B"
proof -
  let ?R = "is_ok outcome"
  have finish: "sat (holding reg0 jid drv key) (fl_bind (w_is_cancelled jid) (\<lambda>c.
      if c \<or> outcome = Inl DE_Cancelled then fl_then (w_cancelled jid) fl_exit
      else (case outcome of
          Inl e \<Rightarrow> w_failed jid None (driver_error_text e)
        | Inr oc \<Rightarrow> w_transition jid JS_Done (Some ''done'') (Some 100)
            (if oc_restarted oc then Some ''restarted'' else None)))) (\<lambda>_. ended reg0 jid ?R) (ended reg0 jid ?R) B"
  proof (rule sat_bind [OF sat_is_cancelled], rule sat_if)
    show "sat (holding reg0 jid drv key) (fl_then (w_cancelled jid) fl_exit) (\<lambda>_. ended reg0 jid ?R) (ended reg0 jid ?R) B"
      by (rule sat_then, rule sat_cancelled, rule sat_exit)
    show "sat (holding reg0 jid drv key) (case outcome of
          Inl e \<Rightarrow> w_failed jid None (driver_error_text e)
        | Inr oc \<Rightarrow> w_transition jid JS_Done (Some ''done'') (Some 100)
            (if oc_restarted oc then Some ''restarted'' else None)) (\<lambda>_. ended reg0 jid ?R) (ended reg0 jid ?R) B"
      by (cases outcome) (simp_all add: sat_failed sat_transition_end)
  qed
  show ?thesis
    unfolding finish_firmware_job_def
    by (rule sat_snapshot_live) (use finish in \<open>auto simp: live_def snapshot_state_def split: option.splits\<close>)
qed

text \<open>What a firmware job that ends as \<open>Done\<close> has achieved. Over USB an \<open>espflash\<close> run on a port, planned for
  the file of the job, exited with success; over HTTP the device accepted a POST of the image,
  through a client for an address of the kind the job names.\<close>

definition usb_flashed :: "'j env \<Rightarrow> firmware_job \<Rightarrow> bool" where
  "usb_flashed E job \<longleftrightarrow>
     (\<exists>flag port argv err status. port \<noteq> []
        \<and> flash_plan (en_fs E) port (fj_path job) (fj_partition_table job) = Inr argv
        \<and> pl_spawn (en_process E flag) argv = None
        \<and> CT_Exited True err status \<in> set (pl_turns (en_process E flag) argv))"

definition upload_client :: "'j env \<Rightarrow> driver \<Rightarrow> reach_mode \<Rightarrow> bounded_http_client \<Rightarrow> bool" where
  "upload_client E d m client \<longleftrightarrow>
     (let reset_ok = (case dcap_firmware (registry_capabilities d) of
                        None \<Rightarrow> False | Some fw \<Rightarrow> fc_success_on_reset_after_write fw);
          net = effective_net E d
      in m = RM_Lan \<and> (\<exists>host. parse_ipv4 host \<noteq> None \<and> client = make_firmware_http_client host 80 None None reset_ok)
       \<or> m = RM_Ap \<and> client = make_firmware_http_client (show_ipv4 (cn_host net)) (cn_port net)
           (Some (cn_source net)) (en_radio_device E) reset_ok)"

definition http_flashed :: "'j env \<Rightarrow> driver \<Rightarrow> firmware_job \<Rightarrow> string \<Rightarrow> bool" where
  "http_flashed E d job img \<longleftrightarrow>
     (\<exists>flag client tr q reply. upload_client E d (fj_mode job) client \<and> en_http E flag client tr q = Inr reply
        \<and> hq_method q = ''POST'' \<and> map_option snd (hq_body q) = Some img)"

definition uploaded :: "'j env \<Rightarrow> driver \<Rightarrow> firmware_job \<Rightarrow> string \<Rightarrow> bool" where
  "uploaded E d job img \<longleftrightarrow> (if fj_mode job = RM_Usb then usb_flashed E job else http_flashed E d job img)"

definition flashed :: "'j env \<Rightarrow> string \<Rightarrow> firmware_job \<Rightarrow> bool" where
  "flashed E drv job \<longleftrightarrow>
     (\<exists>d fw img. driver_from_id drv = Some d \<and> dcap_firmware (registry_capabilities d) = Some fw
        \<and> firmware_prepare E fw job = Inr img \<and> uploaded E d job img)"

lemma wait_child_success: "wait_child sub ts = Some (Inr u, k) \<Longrightarrow> \<exists>err status. CT_Exited True err status \<in> set ts"
  by (induction sub ts rule: wait_child.induct) (auto split: if_splits)

lemma flash_usb_success:
  assumes "port \<noteq> []" and "flash_usb (en_process E flag) (en_fs E) port (fj_path job) (fj_partition_table job) = Some (Inr u, k)"
  shows "usb_flashed E job"
proof -
  obtain argv where plan: "flash_plan (en_fs E) port (fj_path job) (fj_partition_table job) = Inr argv"
    and run: "run_espflash (en_process E flag) argv = Some (Inr u, k)"
    using assms(2) by (auto simp: flash_usb_def split: sum.splits)
  then obtain sub rest where "argv = sub # rest" "pl_spawn (en_process E flag) argv = None"
      "wait_child sub (pl_turns (en_process E flag) argv) = Some (Inr u, k)"
    by (auto simp: run_espflash_def split: list.splits option.splits)
  with wait_child_success [of sub] plan assms(1) show ?thesis unfolding usb_flashed_def by blast
qed

lemma sat_firmware_http:
  assumes "\<And>reset_ok. reset_ok = (case dcap_firmware (registry_capabilities d) of
              None \<Rightarrow> False | Some fw \<Rightarrow> fc_success_on_reset_after_write fw) \<Longrightarrow>
      upload_client E d (fj_mode job) (make_firmware_http_client host port source device reset_ok)"
  shows "sat (holding reg0 jid drv key) (firmware_http E jid d img fname host port source device)
     (\<lambda>r rt. holding reg0 jid drv key rt \<and> (is_ok r \<longrightarrow> http_flashed E d job img)) X (holding reg0 jid drv key)"
  unfolding firmware_http_def Let_def
proof (rule sat_conseq [OF sat_await])
  fix r rt
  assume "holding reg0 jid drv key rt \<and> (\<exists>flag. Some (fst (registry_update_firmware d (T_Http (en_http E flag
      (make_firmware_http_client host port source device (case dcap_firmware (registry_capabilities d) of
          None \<Rightarrow> False | Some fw \<Rightarrow> fc_success_on_reset_after_write fw)))) img fname [])) = Some r)"
  with assms registry_update_accepted [of d _ img fname "[]"]
  show "holding reg0 jid drv key rt \<and> (is_ok r \<longrightarrow> http_flashed E d job img)"
    unfolding http_flashed_def by fastforce
qed

lemma sat_firmware_usb:
  "sat (holding reg0 jid drv key) (firmware_usb E jid snap job)
     (\<lambda>r rt. holding reg0 jid drv key rt \<and> (is_ok r \<longrightarrow> usb_flashed E job)) (ended reg0 jid R) (holding reg0 jid drv key)"
proof -
  have work: "sat (holding reg0 jid drv key) (await_blocking E jid l (\<lambda>flag.
        map_option (\<lambda>(r, killed). ok_map (\<lambda>_. restarted_outcome) r)
          (flash_usb (en_process E flag) (en_fs E) port (fj_path job) (fj_partition_table job))))
      (\<lambda>r rt. holding reg0 jid drv key rt \<and> (is_ok r \<longrightarrow> usb_flashed E job)) (ended reg0 jid R) (holding reg0 jid drv key)"
    if port: "port \<noteq> []" for port l
  proof (rule sat_conseq [OF sat_await])
    fix r :: "driver_error + outcome" and rt
    assume h: "holding reg0 jid drv key rt \<and> (\<exists>flag. map_option (\<lambda>(r, killed). ok_map (\<lambda>_. restarted_outcome) r)
        (flash_usb (en_process E flag) (en_fs E) port (fj_path job) (fj_partition_table job)) = Some r)"
    then obtain flag u k where
        "flash_usb (en_process E flag) (en_fs E) port (fj_path job) (fj_partition_table job) = Some (u, k)"
        "r = ok_map (\<lambda>_. restarted_outcome) u"
      by auto
    with flash_usb_success [OF port] h show "holding reg0 jid drv key rt \<and> (is_ok r \<longrightarrow> usb_flashed E job)"
      by (cases u) auto
  qed
  show ?thesis
    unfolding firmware_usb_def
    by (rule sat_bind, rule sat_target, rule sat_if, rule sat_fail_exit, rule sat_then, rule sat_sink_step,
        rule sat_then, rule sat_sink_detail, rule sat_then, rule sat_when, rule sat_sink_detail, rule sat_return,
        assumption, rule work)
qed

lemma sat_firmware_lan:
  assumes "fj_mode job = RM_Lan"
  shows "sat (holding reg0 jid drv key) (firmware_lan E jid snap d job img)
     (\<lambda>r rt. holding reg0 jid drv key rt \<and> (is_ok r \<longrightarrow> http_flashed E d job img)) (ended reg0 jid R) (holding reg0 jid drv key)"
  unfolding firmware_lan_def
  by (rule sat_bind, rule sat_target, rule sat_if, rule sat_fail_exit, rule sat_then, rule sat_sink_step,
      rule sat_then, rule sat_sink_detail, rule sat_firmware_http) (use assms in \<open>auto simp: upload_client_def\<close>)

lemma sat_firmware_ap:
  assumes "fj_mode job = RM_Ap"
  shows "sat (holding reg0 jid drv key) (firmware_ap E jid snap d job img)
     (\<lambda>r rt. holding reg0 jid drv key rt \<and> (is_ok r \<longrightarrow> http_flashed E d job img)) (ended reg0 jid R) (holding reg0 jid drv key)"
proof -
  have http: "sat (holding reg0 jid drv key) (firmware_http E jid d img fname (show_ipv4 (cn_host (effective_net E d)))
        (cn_port (effective_net E d)) (Some (cn_source (effective_net E d))) (en_radio_device E))
      (\<lambda>r rt. holding reg0 jid drv key rt \<and> (is_ok r \<longrightarrow> http_flashed E d job img)) (ended reg0 jid R) (holding reg0 jid drv key)"
    for fname
    by (rule sat_firmware_http) (use assms in \<open>simp add: upload_client_def Let_def\<close>)
  have release: "sat (holding reg0 jid drv key) (fl_then (w_release E) (fl_return r))
      (\<lambda>r rt. holding reg0 jid drv key rt \<and> (is_ok r \<longrightarrow> http_flashed E d job img)) (ended reg0 jid R) (holding reg0 jid drv key)"
    if "is_ok r \<longrightarrow> http_flashed E d job img" for r
    by (rule sat_then, rule sat_release_holding, rule sat_return) (use that in blast)
  have "sat (holding reg0 jid drv key) (firmware_ap_session E jid d c job img)
      (\<lambda>r rt. holding reg0 jid drv key rt \<and> (is_ok r \<longrightarrow> http_flashed E d job img)) (ended reg0 jid R) (holding reg0 jid drv key)" for c
    unfolding firmware_ap_session_def Let_def
    by (rule sat_then, rule sat_join_beats, rule sat_then, rule sat_softap_calls, rule sat_then,
        rule sat_transition_live, simp, rule sat_then, rule sat_sink_step, rule sat_then, rule sat_sink_detail,
        rule sat_bind, rule http, rule sat_pure, rule release)
  then show ?thesis
    unfolding firmware_ap_def
    by (intro sat_bind [OF sat_cached] sat_option sat_fail_exit sat_then [OF sat_transition_live] sat_with_hold)
      simp_all
qed

lemma sat_firmware_upload:
  "sat (holding reg0 jid drv key) (firmware_upload E jid snap d job img)
     (\<lambda>r rt. holding reg0 jid drv key rt \<and> (is_ok r \<longrightarrow> uploaded E d job img)) (ended reg0 jid R) (holding reg0 jid drv key)"
  by (cases "fj_mode job")
    (simp_all add: firmware_upload_def uploaded_def sat_firmware_usb sat_firmware_lan sat_firmware_ap sat_fail_exit)

lemma sat_firmware_job:
  "sat (holding reg0 jid drv key) (run_firmware_job E jid job)
     (\<lambda>_. ended reg0 jid (flashed E drv job)) X (holding reg0 jid drv key)"
proof -
  let ?R = "flashed E drv job"
  have fin: "sat (holding reg0 jid drv key) (finish_firmware_job jid r) (\<lambda>_. ended reg0 jid ?R) (ended reg0 jid ?R) B"
    if "is_ok r \<longrightarrow> ?R" for r B key
    by (rule sat_conseq [OF sat_finish_firmware]) (use that in \<open>auto simp: ended_def\<close>)
  have body: "sat (holding reg0 jid drv key) (firmware_body E jid snap d job img)
      (\<lambda>_. ended reg0 jid ?R) (ended reg0 jid ?R) (holding reg0 jid drv key)"
    if "driver_from_id drv = Some d" "dcap_firmware (registry_capabilities d) = Some fw" "firmware_prepare E fw job = Inr img"
    for snap d fw img key
    unfolding firmware_body_def
    by (rule sat_then, rule sat_transition_live, simp, rule sat_bind, rule sat_firmware_upload, rule sat_pure, rule fin)
      (use that in \<open>auto simp: flashed_def\<close>)
  have job: "sat (holding reg0 jid drv key)
      (case driver_from_id drv of
         None \<Rightarrow> w_fail_exit jid None ''unknown driver''
       | Some d \<Rightarrow>
           (case dcap_firmware (registry_capabilities d) of
              None \<Rightarrow> w_fail_exit jid None ''firmware update is not supported''
            | Some fw \<Rightarrow>
                (case firmware_prepare E fw job of
                   Inl msg \<Rightarrow> w_fail_exit jid None msg
                 | Inr img \<Rightarrow> firmware_body E jid snap d job img)))
      (\<lambda>_. ended reg0 jid ?R) (ended reg0 jid ?R) (holding reg0 jid drv key)" for snap
    by (rule sat_option, rule sat_fail_exit, rule sat_option, rule sat_fail_exit, rule sat_sum, rule sat_fail_exit, rule body)
  show ?thesis
    unfolding run_firmware_job_def
    by (rule sat_function, rule sat_bind, rule sat_snapshot, rule sat_pure) (use job in auto)
qed

lemma sat_run_job:
  "sat (holding reg0 jid drv key) (run_job E jid) (\<lambda>_. ended reg0 jid True) X (holding reg0 jid drv key)"
proof -
  have prog: "sat (holding reg0 jid drv key) (run_program_job E jid w) (\<lambda>_. ended reg0 jid True) X (holding reg0 jid drv key)" for w X
    by (rule sat_conseq [OF sat_program_job]) (auto simp: ended_def)
  have cancelled: "sat (holding reg0 jid drv key) (fl_bind (w_snapshot jid) (\<lambda>s.
      fl_then (fl_when (case s of None \<Rightarrow> False | Some s \<Rightarrow> \<not> js_is_terminal (jsn_state s)) (w_cancelled jid))
        fl_exit)) (\<lambda>_. ended reg0 jid True) (ended reg0 jid True) B" for B
    by (rule sat_bind, rule sat_snapshot, rule sat_pure)
      (auto simp: fl_when_def live_def snapshot_state_def intro: sat_then [OF sat_cancelled] sat_exit)
  have firmware: "sat (holding reg0 jid drv key) (run_firmware_job E jid job) (\<lambda>_. ended reg0 jid True) X (holding reg0 jid drv key)"
    for job X
    by (rule sat_conseq [OF sat_firmware_job]) (auto simp: ended_def)
  have payload: "sat (holding reg0 jid drv key) (case p of
        None \<Rightarrow> w_fail_exit jid None ''missing job payload''
      | Some (JP_Program w) \<Rightarrow> run_program_job E jid w
      | Some (JP_Firmware job) \<Rightarrow> run_firmware_job E jid job) (\<lambda>_. ended reg0 jid True) (ended reg0 jid True) (holding reg0 jid drv key)" for p
    by (auto intro: sat_fail_exit prog firmware split: option.split job_payload.split)
  show ?thesis
    unfolding run_job_def
    by (rule sat_function, rule sat_bind, rule sat_is_cancelled, rule sat_if, rule cancelled, rule sat_bind,
        rule sat_take_payload, rule payload)
qed

end
