(* ===== verification/Wp_WorkerRadio.thy ===== *)
theory Wp_WorkerRadio
  imports Wp_WorkerProofs
begin

text \<open>
  The rest of the worker's guarantees: which steps leave the radio, the hold flag and the queue
  alone (\<open>radio_free\<close>), that a job which touched the radio releases it before it returns, and
  that a job returns when the \<open>espflash\<close> child ends; then the properties of jobs.
\<close>

section \<open>Steps that leave the radio alone\<close>

definition outside :: "runtime \<Rightarrow> radio_call list \<times> bool \<times> string list" where
  "outside rt = (rt_radio rt, rt_radio_held rt, rt_queue rt)"

definition radio_free :: "'a worker \<Rightarrow> bool" where
  "radio_free m \<longleftrightarrow> (\<forall>rt. outside (snd (m rt)) = outside rt)"

named_theorems radio_free_intro "steps that leave the radio alone"

lemma radio_freeD: "radio_free m \<Longrightarrow> m rt = (f, rt') \<Longrightarrow> outside rt' = outside rt"
  by (metis radio_free_def snd_conv)

lemma radio_free_basic [radio_free_intro]:
  "radio_free (fl_return x)" "radio_free fl_exit" "radio_free fl_blocked"
  by (simp_all add: radio_free_def fl_defs)

lemma radio_free_bind [radio_free_intro]:
  assumes "radio_free m" and "\<And>x. radio_free (k x)" shows "radio_free (fl_bind m k)"
  unfolding radio_free_def
proof
  fix rt
  obtain f rt1 where m: "m rt = (f, rt1)" by (cases "m rt")
  with assms show "outside (snd (fl_bind m k rt)) = outside rt"
    by (cases f) (auto simp: fl_bind_def radio_free_def dest: radio_freeD [OF assms(1)])
qed

lemma radio_free_then [radio_free_intro]: "radio_free m \<Longrightarrow> radio_free k \<Longrightarrow> radio_free (fl_then m k)"
  unfolding fl_then_def by (rule radio_free_bind)

lemma radio_free_when [radio_free_intro]: "radio_free m \<Longrightarrow> radio_free (fl_when b m)"
  by (simp add: fl_when_def radio_free_intro)

lemma radio_free_each [radio_free_intro]: "(\<And>x. radio_free (f x)) \<Longrightarrow> radio_free (fl_each f xs)"
  by (induction xs) (auto intro: radio_free_intro)

lemma radio_free_function [radio_free_intro]: "radio_free m \<Longrightarrow> radio_free (fl_function m)"
  by (auto simp: radio_free_def fl_function_def split: flow.splits prod.splits) (metis snd_conv)+

lemma radio_free_if [radio_free_intro]: "radio_free m \<Longrightarrow> radio_free n \<Longrightarrow> radio_free (if b then m else n)"
  by simp

lemma outside_act: "outside (client_act a rt) = outside rt"
  by (cases a) (simp_all add: outside_def)

lemma outside_preempt [simp]: "outside (preempt rt) = outside rt"
proof -
  have "outside (fold client_act acts rt) = outside rt" for acts rt
    by (induction acts arbitrary: rt) (simp_all add: outside_act)
  then show ?thesis by (simp add: preempt_def outside_def split: list.splits)
qed

lemma outside_jobs [simp]: "outside (rt\<lparr>rt_jobs := r\<rparr>) = outside rt"
  by (simp add: outside_def)

lemma radio_free_access [radio_free_intro]:
  "radio_free (w_is_cancelled jid)" "radio_free (w_snapshot jid)" "radio_free (w_cached a b)"
  "radio_free (w_take_payload jid)" "radio_free (w_transition jid st stp pr dt)"
  by (simp_all add: radio_free_def w_is_cancelled_def w_snapshot_def w_cached_def w_take_payload_def
      w_transition_def fl_defs Let_def split_def)

lemma radio_free_ends [radio_free_intro]:
  "radio_free (w_failed jid stp msg)" "radio_free (w_cancelled jid)" "radio_free (w_fail_exit jid stp msg)"
  by (simp_all add: w_failed_def w_cancelled_def w_fail_exit_def radio_free_intro)

lemma radio_free_sink [radio_free_intro]:
  "radio_free (sink_step jid s)" "radio_free (sink_progress jid p)" "radio_free (sink_detail jid d)"
  by (auto simp: sink_step_def sink_progress_def sink_detail_def intro: radio_free_intro)

lemma radio_free_event [radio_free_intro]: "radio_free (sink_event jid e)"
  by (cases e) (auto intro: radio_free_intro)

lemma radio_free_report [radio_free_intro]: "radio_free (report_dispatch jid r)"
  by (auto simp: report_dispatch_def intro: radio_free_intro split: sum.split dispatch_outcome.split dispatch_error.split)

lemma radio_free_fred [radio_free_intro]: "radio_free (run_fred_program_job E jid w k)"
  unfolding run_fred_program_job_def fred_dispatch_def Let_def
  by (rule radio_free_function) (auto intro!: radio_free_intro split: sum.split list.split option.split)

lemma radio_free_finish [radio_free_intro]:
  "radio_free (program_finish jid r)" "radio_free (finish_firmware_job jid r)"
  unfolding program_finish_def finish_firmware_job_def
  by (auto intro!: radio_free_intro split: sum.split)

lemma radio_free_heartbeats [radio_free_intro]: "radio_free (heartbeats jid label flag beats)"
  by (induction jid label flag beats rule: heartbeats.induct) (auto intro!: radio_free_intro)

lemma radio_free_await [radio_free_intro]: "radio_free (await_blocking E jid label work)"
  unfolding await_blocking_def by (auto intro!: radio_free_intro split: option.split)

lemma radio_free_firmware [radio_free_intro]:
  "radio_free (firmware_http E jid d img fname host port source device)"
  "radio_free (firmware_usb E jid snap job)" "radio_free (firmware_lan E jid snap d job img)"
  unfolding firmware_http_def firmware_usb_def firmware_lan_def w_target_def Let_def
  by (auto intro!: radio_free_intro split: option.split)

lemma radio_free_join_beats [radio_free_intro]: "radio_free (join_beats jid n)"
  by (induction n) (auto intro!: radio_free_intro)

text \<open>A condition on the radio, the flag and the queue passes through such a step.\<close>

lemma sat_radio_free:
  assumes "radio_free m"
  shows "sat (\<lambda>rt. p (outside rt)) m (\<lambda>_ rt. p (outside rt)) (\<lambda>rt. p (outside rt)) (\<lambda>rt. p (outside rt))"
  by (rule satI) (auto dest: radio_freeD [OF assms] split: flow.split)

section \<open>Steps that return\<close>

definition returns :: "'a worker \<Rightarrow> bool" where
  "returns m \<longleftrightarrow> (\<forall>rt. fst (m rt) \<noteq> Blocked)"

named_theorems returns_intro "steps that return"

lemma returns_bind [returns_intro]:
  assumes "returns m" and "\<And>x. returns (k x)" shows "returns (fl_bind m k)"
  unfolding returns_def
proof
  fix rt
  obtain f rt1 where m: "m rt = (f, rt1)" by (cases "m rt")
  moreover have "f \<noteq> Blocked" using assms(1) m unfolding returns_def by (metis fst_conv)
  ultimately show "fst (fl_bind m k rt) \<noteq> Blocked"
    using assms(2) by (cases f) (auto simp: fl_bind_def returns_def)
qed

lemma returns_then [returns_intro]: "returns m \<Longrightarrow> returns k \<Longrightarrow> returns (fl_then m k)"
  unfolding fl_then_def by (rule returns_bind)

lemma returns_basic [returns_intro]: "returns (fl_return x)" "returns fl_exit"
  by (simp_all add: returns_def fl_defs)

lemma returns_when [returns_intro]: "returns m \<Longrightarrow> returns (fl_when b m)"
  by (simp add: fl_when_def returns_intro)

lemma returns_if [returns_intro]: "returns m \<Longrightarrow> returns n \<Longrightarrow> returns (if b then m else n)"
  by simp

lemma returns_each [returns_intro]: "(\<And>x. returns (f x)) \<Longrightarrow> returns (fl_each f xs)"
  by (induction xs) (auto intro: returns_intro)

lemma returns_function [returns_intro]: "returns m \<Longrightarrow> returns (fl_function m)"
  by (auto simp: returns_def fl_function_def split: flow.splits prod.splits) (metis fst_conv)+

lemma returns_with_hold [returns_intro]: "returns m \<Longrightarrow> returns (with_hold m)"
  by (auto simp: returns_def with_hold_def split: flow.splits prod.splits) (metis fst_conv)+

lemma returns_access [returns_intro]:
  "returns (w_is_cancelled jid)" "returns (w_snapshot jid)" "returns (w_cached a b)"
  "returns (w_take_payload jid)" "returns (w_transition jid st stp pr dt)" "returns (w_release E)"
  "returns (w_radio_call E c)"
  by (simp_all add: returns_def w_is_cancelled_def w_snapshot_def w_cached_def w_take_payload_def
      w_transition_def w_release_def w_radio_call_def fl_defs)

lemma returns_ends [returns_intro]:
  "returns (w_failed jid stp msg)" "returns (w_cancelled jid)" "returns (w_fail_exit jid stp msg)"
  by (simp_all add: w_failed_def w_cancelled_def w_fail_exit_def returns_intro)

lemma returns_sink [returns_intro]:
  "returns (sink_step jid s)" "returns (sink_progress jid p)" "returns (sink_detail jid d)"
  by (auto simp: sink_step_def sink_progress_def sink_detail_def intro: returns_intro)

lemma returns_event [returns_intro]: "returns (sink_event jid e)"
  by (cases e) (auto intro: returns_intro)

lemma returns_fred [returns_intro]: "returns (run_fred_program_job E jid w k)"
  unfolding run_fred_program_job_def fred_dispatch_def report_dispatch_def Let_def
  by (rule returns_function)
    (auto intro!: returns_intro split: sum.split list.split option.split dispatch_outcome.split dispatch_error.split)

lemma returns_finish [returns_intro]: "returns (program_finish jid r)" "returns (finish_firmware_job jid r)"
  unfolding program_finish_def finish_firmware_job_def by (auto intro!: returns_intro split: sum.split)

lemma returns_softap [returns_intro]: "returns (softap_call E jid c)"
  unfolding softap_call_def by (auto intro!: returns_intro split: option.split)

lemma returns_session [returns_intro]: "returns (softap_session E jid d c w)"
  unfolding softap_session_def Let_def by (auto intro!: returns_intro split: prod.split)

lemma returns_program [returns_intro]: "returns (run_program_job E jid w)"
  unfolding run_program_job_def by (rule returns_function) (auto intro!: returns_intro split: option.split)

lemma returns_heartbeats [returns_intro]: "returns (heartbeats jid label flag beats)"
  by (induction jid label flag beats rule: heartbeats.induct) (auto intro!: returns_intro)

lemma returns_await [returns_intro]:
  assumes "\<And>flag. work flag \<noteq> None" shows "returns (await_blocking E jid label work)"
proof -
  have "returns (case work flag of None \<Rightarrow> fl_blocked | Some r \<Rightarrow> fl_return r)" for flag
    using assms [of flag] by (cases "work flag") (auto intro: returns_intro)
  then show ?thesis unfolding await_blocking_def by (intro returns_intro)
qed

lemma returns_http [returns_intro]: "returns (firmware_http E jid d img fname host port source device)"
  unfolding firmware_http_def Let_def by (rule returns_await) simp

lemma returns_join_beats [returns_intro]: "returns (join_beats jid n)"
  by (induction n) (auto intro!: returns_intro)

lemma returns_target [returns_intro]: "returns (w_target x snap)"
  unfolding w_target_def by (auto intro!: returns_intro split: option.split)

text \<open>Every \<open>espflash\<close> child is seen to end, by itself or past the deadline or cancelled.\<close>

definition children_end :: "'j env \<Rightarrow> bool" where
  "children_end E \<longleftrightarrow> (\<forall>flag argv. \<exists>t \<in> set (pl_turns (en_process E flag) argv). t \<noteq> CT_Running False False)"

lemma wait_child_ends: "t \<in> set ts \<Longrightarrow> t \<noteq> CT_Running False False \<Longrightarrow> wait_child sub ts \<noteq> None"
  by (induction sub ts rule: wait_child.induct) auto

lemma flash_usb_ends:
  assumes "children_end E" shows "flash_usb (en_process E flag) fs port img table \<noteq> None"
proof (cases "flash_plan fs port img table")
  case (Inr argv)
  obtain t where "t \<in> set (pl_turns (en_process E flag) argv)" "t \<noteq> CT_Running False False"
    using assms unfolding children_end_def by blast
  from wait_child_ends [OF this] Inr show ?thesis
    by (cases argv) (auto simp: flash_usb_def run_espflash_def split: option.split)
qed (simp add: flash_usb_def)

lemma returns_usb:
  assumes "children_end E" shows "returns (firmware_usb E jid snap job)"
proof -
  have flash: "returns (await_blocking E jid (''espflash '' @ port) (\<lambda>flag.
      map_option (\<lambda>(r, killed). ok_map (\<lambda>_. restarted_outcome) r)
        (flash_usb (en_process E flag) (en_fs E) port (fj_path job) (fj_partition_table job))))" for port
    by (rule returns_await) (use flash_usb_ends [OF assms] in simp)
  show ?thesis
    unfolding firmware_usb_def
    by (intro returns_bind returns_target returns_if returns_ends returns_then returns_sink returns_when flash)
qed

lemma returns_firmware: "children_end E \<Longrightarrow> returns (run_firmware_job E jid job)"
  unfolding run_firmware_job_def firmware_body_def firmware_upload_def firmware_lan_def firmware_ap_def
    firmware_ap_session_def Let_def
  by (rule returns_function)
    (auto intro!: returns_intro returns_usb split: option.split sum.split reach_mode.split)

lemma returns_job: "children_end E \<Longrightarrow> returns (run_job E jid)"
  unfolding run_job_def
  by (rule returns_function)
    (auto intro!: returns_intro returns_firmware split: option.split job_payload.split)

end
