(* ===== verification/Wp_WorkerProps.thy ===== *)
theory Wp_WorkerProps
  imports Wp_WorkerRadio
begin

text \<open>
  The properties of jobs, and of the queue between the IPC threads and the worker.
\<close>

section \<open>The radio in a job\<close>

text \<open>\<open>tidy E h l q\<close>: the radio, the hold flag and the queue are as before the job; or some of the
  association calls were made, ended by a release, and the flag is down.\<close>

definition associated_then_released :: "'j env \<Rightarrow> radio_call list \<Rightarrow> bool" where
  "associated_then_released E ext \<longleftrightarrow>
     (\<exists>d c n. 1 \<le> n \<and> ext = take n (join_call d c # address_calls (effective_net E d)) @ [RC_Release])"

definition tidy :: "'j env \<Rightarrow> radio_call list \<times> bool \<times> string list \<Rightarrow> runtime \<Rightarrow> bool" where
  "tidy E out rt \<longleftrightarrow>
     outside rt = out
   \<or> (\<exists>ext. associated_then_released E ext \<and> outside rt = (fst out @ ext, False, snd (snd out)))"

lemma sat_tidy_free:
  assumes "radio_free m"
  shows "sat (\<lambda>rt. outside rt = out) m (\<lambda>_. tidy E out) (tidy E out) (tidy E out)"
  by (rule sat_conseq [OF sat_radio_free [OF assms, of "\<lambda>o'. o' = out"]]) (simp_all add: tidy_def)

lemma sat_out_free:
  assumes "radio_free m"
  shows "sat (\<lambda>rt. outside rt = out) m (\<lambda>_ rt. outside rt = out) (tidy E out) (tidy E out)"
  by (rule sat_conseq [OF sat_radio_free [OF assms, of "\<lambda>o'. o' = out"]]) (simp_all add: tidy_def)

lemma sat_out_radio_call:
  "sat (\<lambda>rt. outside rt = (l, h, q)) (w_radio_call E c) (\<lambda>_ rt. outside rt = (l @ [c], h, q)) X B"
  unfolding w_radio_call_def by (rule sat_call) (auto simp: outside_def w_radio_def)

lemma sat_out_release:
  "sat (\<lambda>rt. outside rt = (l, h, q)) (w_release E) (\<lambda>_ rt. outside rt = (l @ [RC_Release], h, q)) X B"
  by (rule sat_release) (auto simp: outside_def radio_release_def w_radio_def)

text \<open>Steps that neither return early nor block.\<close>

definition proceeds :: "'a worker \<Rightarrow> bool" where
  "proceeds m \<longleftrightarrow> (\<forall>rt. \<exists>x. fst (m rt) = Go x)"

named_theorems proceeds_intro "steps that go on"

lemma proceeds_bind [proceeds_intro]:
  assumes "proceeds m" and "\<And>x. proceeds (k x)" shows "proceeds (fl_bind m k)"
  unfolding proceeds_def
proof
  fix rt
  obtain f rt1 where m: "m rt = (f, rt1)" by (cases "m rt")
  moreover obtain x where "f = Go x" using assms(1) m unfolding proceeds_def by (metis fst_conv)
  ultimately show "\<exists>y. fst (fl_bind m k rt) = Go y" using assms(2) by (auto simp: fl_bind_def proceeds_def)
qed

lemma proceeds_then [proceeds_intro]: "proceeds m \<Longrightarrow> proceeds k \<Longrightarrow> proceeds (fl_then m k)"
  unfolding fl_then_def by (rule proceeds_bind)

lemma proceeds_basic [proceeds_intro]:
  "proceeds (fl_return x)" "proceeds (w_is_cancelled jid)" "proceeds (w_snapshot jid)"
  "proceeds (w_transition jid st stp pr dt)" "proceeds (w_failed jid stp msg)" "proceeds (w_cancelled jid)"
  by (simp_all add: proceeds_def w_is_cancelled_def w_snapshot_def w_transition_def w_failed_def
      w_cancelled_def fl_defs)

lemma proceeds_if [proceeds_intro]: "proceeds m \<Longrightarrow> proceeds n \<Longrightarrow> proceeds (if b then m else n)"
  by simp

lemma proceeds_when [proceeds_intro]: "proceeds m \<Longrightarrow> proceeds (fl_when b m)"
  by (simp add: fl_when_def proceeds_intro)

lemma proceeds_each [proceeds_intro]: "(\<And>x. proceeds (f x)) \<Longrightarrow> proceeds (fl_each f xs)"
  by (induction xs) (auto intro: proceeds_intro)

lemma proceeds_sink [proceeds_intro]:
  "proceeds (sink_step jid s)" "proceeds (sink_progress jid p)" "proceeds (sink_detail jid d)"
  by (auto simp: sink_step_def sink_progress_def sink_detail_def intro: proceeds_intro)

lemma proceeds_event [proceeds_intro]: "proceeds (sink_event jid e)"
  by (cases e) (auto intro: proceeds_intro)

lemma proceeds_finish [proceeds_intro]: "proceeds (program_finish jid r)"
  unfolding program_finish_def by (auto intro!: proceeds_intro split: sum.split)

lemma proceeds_heartbeats [proceeds_intro]: "proceeds (heartbeats jid label flag beats)"
  by (induction jid label flag beats rule: heartbeats.induct) (auto intro!: proceeds_intro)

lemma proceeds_http [proceeds_intro]: "proceeds (firmware_http E jid d img fname host port source device)"
  unfolding firmware_http_def await_blocking_def Let_def by (auto intro!: proceeds_intro)

lemma proceeds_join_beats [proceeds_intro]: "proceeds (join_beats jid n)"
  by (induction n) (auto intro!: proceeds_intro)

lemma sat_out_exact:
  assumes "radio_free m" and "proceeds m"
  shows "sat (\<lambda>rt. outside rt = out) m (\<lambda>_ rt. outside rt = out) X B"
proof (rule satI)
  fix rt f rt'
  assume "outside rt = out" and run: "m rt = (f, rt')"
  moreover obtain x where "f = Go x" using assms(2) run unfolding proceeds_def by (metis fst_conv)
  ultimately show "case f of Go x \<Rightarrow> outside rt' = out | Exit \<Rightarrow> X rt' | Blocked \<Rightarrow> B rt'"
    using radio_freeD [OF assms(1) run] by auto
qed

lemma sat_out_softap_call:
  "sat (\<lambda>rt. outside rt = (l, h, q)) (softap_call E jid c)
     (\<lambda>_ rt. outside rt = (l @ [c], h, q)) (\<lambda>rt. outside rt = (l @ [c, RC_Release], h, q)) B"
proof -
  have failed: "sat (\<lambda>rt. outside rt = (l, h, q)) (w_failed jid stp msg)
      (\<lambda>_ rt. outside rt = (l, h, q)) X B" for l X stp msg
    by (rule sat_out_exact) (auto intro: radio_free_intro proceeds_intro)
  have "sat (\<lambda>rt. outside rt = (l @ [c], h, q))
      (fl_then (w_failed jid stp msg) (fl_then (w_release E) fl_exit)) Q
      (\<lambda>rt. outside rt = (l @ [c, RC_Release], h, q)) B" for stp msg and Q :: "unit \<Rightarrow> runtime \<Rightarrow> bool"
    by (rule sat_then, rule failed, rule sat_then, rule sat_out_release, rule sat_exit) simp
  then show ?thesis
    unfolding softap_call_def
    by (intro sat_bind [OF sat_out_radio_call] sat_option) (auto intro: sat_return)
qed

lemma sat_out_softap_calls:
  "sat (\<lambda>rt. outside rt = (l, h, q)) (fl_each (softap_call E jid) cs)
     (\<lambda>_ rt. outside rt = (l @ cs, h, q))
     (\<lambda>rt. \<exists>n\<ge>1. outside rt = (l @ take n cs @ [RC_Release], h, q)) B"
proof (induction cs arbitrary: l)
  case Nil
  show ?case by (auto intro: sat_return)
next
  case (Cons c cs)
  have first: "sat (\<lambda>rt. outside rt = (l, h, q)) (softap_call E jid c)
      (\<lambda>_ rt. outside rt = (l @ [c], h, q))
      (\<lambda>rt. \<exists>n\<ge>1. outside rt = (l @ take n (c # cs) @ [RC_Release], h, q)) B"
    by (rule sat_conseq [OF sat_out_softap_call]) (auto intro: exI [of _ 1])
  have rest: "sat (\<lambda>rt. outside rt = (l @ [c], h, q)) (fl_each (softap_call E jid) cs)
      (\<lambda>_ rt. outside rt = (l @ c # cs, h, q))
      (\<lambda>rt. \<exists>n\<ge>1. outside rt = (l @ take n (c # cs) @ [RC_Release], h, q)) B"
  proof (rule sat_conseq [OF Cons.IH [of "l @ [c]"]])
    fix rt
    assume "\<exists>n\<ge>1. outside rt = ((l @ [c]) @ take n cs @ [RC_Release], h, q)"
    then obtain n where "1 \<le> n" "outside rt = ((l @ [c]) @ take n cs @ [RC_Release], h, q)" by blast
    then show "\<exists>n\<ge>1. outside rt = (l @ take n (c # cs) @ [RC_Release], h, q)"
      by (intro exI [of _ "Suc n"]) simp
  qed simp_all
  show ?case unfolding fl_each.simps by (rule sat_then [OF first rest])
qed

text \<open>The radio calls of a session, from the state before it.\<close>

definition session_over :: "'j env \<Rightarrow> radio_call list \<times> bool \<times> string list \<Rightarrow> runtime \<Rightarrow> bool" where
  "session_over E out rt \<longleftrightarrow>
     (\<exists>ext. associated_then_released E ext \<and> outside rt = (fst out @ ext, snd out))"

lemma session_over_full:
  "outside rt = ((l @ join_call d c # address_calls (effective_net E d)) @ [RC_Release], o2)
     \<Longrightarrow> session_over E (l, o2) rt"
  unfolding session_over_def associated_then_released_def
  by (intro exI [of _ "join_call d c # address_calls (effective_net E d) @ [RC_Release]"] conjI
      exI [of _ d] exI [of _ c] exI [of _ 4])
    (simp_all add: address_calls_def)

lemma sat_session_calls:
  "sat (\<lambda>rt. outside rt = (l, h, q))
     (fl_each (softap_call E jid) (join_call d c # address_calls (effective_net E d)))
     (\<lambda>_ rt. outside rt = (l @ join_call d c # address_calls (effective_net E d), h, q))
     (session_over E (l, h, q)) B"
  by (rule sat_conseq [OF sat_out_softap_calls]) (auto simp: session_over_def associated_then_released_def)

lemma sat_out_session:
  "sat (\<lambda>rt. outside rt = (l, h, q)) (softap_session E jid d c w)
     (\<lambda>_. session_over E (l, h, q)) (session_over E (l, h, q)) B"
proof -
  let ?calls = "join_call d c # address_calls (effective_net E d)"
  let ?T = "session_over E (l, h, q)"
  have cancelled: "sat (\<lambda>rt. outside rt = (l @ ?calls, h, q))
      (fl_then (w_release E) (fl_then (w_cancelled jid) fl_exit)) (\<lambda>_. ?T) ?T B"
    by (rule sat_then, rule sat_out_release, rule sat_then, rule sat_out_exact, rule radio_free_intro,
        rule proceeds_intro, rule sat_exit) (rule session_over_full)
  have finish: "sat (\<lambda>rt. outside rt = ((l @ ?calls) @ [RC_Release], h, q)) (program_finish jid r) (\<lambda>_. ?T) ?T B" for r
    by (rule sat_conseq [OF sat_out_exact [where X = ?T and B = B]])
      (intro radio_free_intro, intro proceeds_intro, assumption, rule session_over_full)
  have finished: "sat (\<lambda>rt. outside rt = (l @ ?calls, h, q)) (fl_then (fl_each (sink_event jid) events)
      (fl_then (w_release E) (program_finish jid r))) (\<lambda>_. ?T) ?T B" for events r
    by (rule sat_then, rule sat_out_exact, intro radio_free_intro, intro proceeds_intro, rule sat_then,
        rule sat_out_release, rule finish)
  show ?thesis
    unfolding softap_session_def
    by (rule sat_then, rule sat_session_calls, rule sat_bind, rule sat_out_exact, rule radio_free_intro,
        rule proceeds_intro, rule sat_if, rule cancelled) (simp add: finished Let_def split: prod.split)
qed

lemma sat_out_ap_session:
  "sat (\<lambda>rt. outside rt = (l, h, q)) (firmware_ap_session E jid d c job img)
     (\<lambda>_. session_over E (l, h, q)) (session_over E (l, h, q)) B"
  unfolding firmware_ap_session_def Let_def
  by (rule sat_then, rule sat_out_exact, intro radio_free_intro, intro proceeds_intro,
      rule sat_then, rule sat_session_calls,
      rule sat_then, rule sat_out_exact, intro radio_free_intro, intro proceeds_intro,
      rule sat_then, rule sat_out_exact, intro radio_free_intro, intro proceeds_intro,
      rule sat_then, rule sat_out_exact, intro radio_free_intro, intro proceeds_intro,
      rule sat_bind, rule sat_out_exact, intro radio_free_intro, intro proceeds_intro,
      rule sat_then, rule sat_out_release, rule sat_return, rule session_over_full)

lemma sat_tidy_session:
  assumes "sat (\<lambda>rt. outside rt = (l, True, q)) m
      (\<lambda>_. session_over E (l, True, q)) (session_over E (l, True, q)) (\<lambda>rt. False)"
  shows "sat (\<lambda>rt. outside rt = (l, h, q)) (with_hold m) (\<lambda>_. tidy E (l, h, q)) (tidy E (l, h, q)) B"
proof (rule satI)
  fix rt f rt'
  assume out: "outside rt = (l, h, q)" and run: "with_hold m rt = (f, rt')"
  obtain g rt1 where m: "m (hold rt) = (g, rt1)" by (cases "m (hold rt)")
  have "outside (hold rt) = (l, True, q)" using out by (simp add: outside_def hold_def)
  from satD [OF assms this m] run m
  show "case f of Go x \<Rightarrow> tidy E (l, h, q) rt' | Exit \<Rightarrow> tidy E (l, h, q) rt' | Blocked \<Rightarrow> B rt'"
    by (cases g) (auto simp: with_hold_def tidy_def session_over_def outside_def unhold_def)
qed

text \<open>From a tidy state, a step that leaves the radio alone keeps it tidy.\<close>

lemma sat_tidy_keep:
  assumes "radio_free m"
  shows "sat (tidy E out) m (\<lambda>_. tidy E out) (tidy E out) (tidy E out)"
  by (rule satI) (auto simp: tidy_def dest: radio_freeD [OF assms] split: flow.split)

lemma tidy_program_job:
  "sat (\<lambda>rt. outside rt = (l, h, q)) (run_program_job E jid w)
     (\<lambda>_. tidy E (l, h, q)) (tidy E (l, h, q)) (tidy E (l, h, q))"
proof -
  have softap: "sat (\<lambda>rt. outside rt = (l, h, q))
      (fl_then (w_transition jid JS_Joining (Some ''join'') None None)
         (fl_bind (w_is_cancelled jid) (\<lambda>cancelled.
            if cancelled then fl_then (w_cancelled jid) fl_exit
            else with_hold (softap_session E jid d c w))))
      (\<lambda>_. tidy E (l, h, q)) (tidy E (l, h, q)) (tidy E (l, h, q))" for d c
    by (rule sat_then, rule sat_out_free, rule radio_free_intro, rule sat_bind, rule sat_out_free,
        rule radio_free_intro, rule sat_if, rule sat_tidy_free, intro radio_free_intro,
        rule sat_tidy_session, rule sat_out_session)
  show ?thesis
    unfolding run_program_job_def
    by (rule sat_function, rule sat_bind, rule sat_out_free, rule radio_free_intro,
        rule sat_option, rule sat_tidy_free, rule radio_free_intro,
        rule sat_option, rule sat_tidy_free, rule radio_free_intro,
        rule sat_bind, rule sat_out_free, rule radio_free_intro,
        rule sat_option, rule sat_tidy_free, rule radio_free_intro,
        rule sat_if, rule sat_tidy_free, rule radio_free_intro, rule softap)
qed

lemma tidy_firmware_upload:
  "sat (\<lambda>rt. outside rt = (l, h, q)) (firmware_upload E jid snap d job img)
     (\<lambda>_. tidy E (l, h, q)) (tidy E (l, h, q)) (tidy E (l, h, q))"
proof -
  have "sat (\<lambda>rt. outside rt = (l, h, q)) (firmware_ap E jid snap d job img)
      (\<lambda>_. tidy E (l, h, q)) (tidy E (l, h, q)) (tidy E (l, h, q))"
    unfolding firmware_ap_def
    by (rule sat_bind, rule sat_out_free, rule radio_free_intro, rule sat_option, rule sat_tidy_free,
        rule radio_free_intro, rule sat_then, rule sat_out_free, rule radio_free_intro, rule sat_tidy_session,
        rule sat_out_ap_session)
  then show ?thesis
    by (cases "fj_mode job") (simp_all add: firmware_upload_def sat_tidy_free radio_free_intro)
qed

lemma tidy_firmware_job:
  "sat (\<lambda>rt. outside rt = (l, h, q)) (run_firmware_job E jid job)
     (\<lambda>_. tidy E (l, h, q)) (tidy E (l, h, q)) (tidy E (l, h, q))"
proof -
  have body: "sat (\<lambda>rt. outside rt = (l, h, q)) (firmware_body E jid snap d job img)
      (\<lambda>_. tidy E (l, h, q)) (tidy E (l, h, q)) (tidy E (l, h, q))" for snap d img
    unfolding firmware_body_def
    by (rule sat_then, rule sat_out_free, rule radio_free_intro, rule sat_bind, rule tidy_firmware_upload,
        rule sat_tidy_keep, rule radio_free_intro)
  show ?thesis
    unfolding run_firmware_job_def
    by (rule sat_function, rule sat_bind, rule sat_out_free, rule radio_free_intro,
        rule sat_option, rule sat_tidy_free, rule radio_free_intro,
        rule sat_option, rule sat_tidy_free, rule radio_free_intro,
        rule sat_option, rule sat_tidy_free, rule radio_free_intro,
        rule sat_sum, rule sat_tidy_free, rule radio_free_intro, rule body)
qed

lemma tidy_job:
  "sat (\<lambda>rt. outside rt = (l, h, q)) (run_job E jid)
     (\<lambda>_. tidy E (l, h, q)) (tidy E (l, h, q)) (tidy E (l, h, q))"
proof -
  have payload: "sat (\<lambda>rt. outside rt = (l, h, q)) (case p of
        None \<Rightarrow> w_fail_exit jid None ''missing job payload''
      | Some (JP_Program w) \<Rightarrow> run_program_job E jid w
      | Some (JP_Firmware job) \<Rightarrow> run_firmware_job E jid job)
      (\<lambda>_. tidy E (l, h, q)) (tidy E (l, h, q)) (tidy E (l, h, q))" for p
    by (auto intro: sat_tidy_free radio_free_intro tidy_program_job tidy_firmware_job
        split: option.split job_payload.split)
  show ?thesis
    unfolding run_job_def
    by (rule sat_function, rule sat_bind, rule sat_out_free, rule radio_free_intro, rule sat_if,
        rule sat_tidy_free, intro radio_free_intro, rule sat_bind, rule sat_out_free, rule radio_free_intro,
        rule payload)
qed

section \<open>The runtime as a state machine\<close>

text \<open>
  What IPC threads and the worker do to the runtime, between two turns of the worker. The
  interference inside a turn is in \<open>rt_pending\<close>, which any step may find refilled.
\<close>

inductive runtime_step :: "'j env \<Rightarrow> runtime \<Rightarrow> runtime \<Rightarrow> bool" for E where
  rs_program: "runtime_step E rt (snd (submit_program E now d key w rt))"
| rs_firmware: "runtime_step E rt (snd (submit_firmware E now d key job rt))"
| rs_cancel_job: "runtime_step E rt (rt\<lparr>rt_jobs := jobs_cancel jid (rt_jobs rt)\<rparr>)"
| rs_scan: "runtime_step E rt (snd (scan_ap E rt))"
| rs_probe: "runtime_step E rt (snd (probe E d key rt))"
| rs_blink: "runtime_step E rt (snd (blink E d key count rt))"
| rs_cache: "runtime_step E rt (rt\<lparr>rt_cache := c\<rparr>)"
| rs_pending: "runtime_step E rt (rt\<lparr>rt_pending := acts\<rparr>)"
| rs_worker: "worker_step E rt = (Go (), rt') \<Longrightarrow> runtime_step E rt rt'"

inductive_cases runtime_stepE: "runtime_step E rt rt'"

inductive runtime_reach :: "'j env \<Rightarrow> runtime \<Rightarrow> bool" for E where
  rr_start: "rt_jobs rt = jobs_new \<Longrightarrow> rt_queue rt = [] \<Longrightarrow> runtime_reach E rt"
| rr_next: "runtime_reach E rt \<Longrightarrow> runtime_step E rt rt' \<Longrightarrow> runtime_reach E rt'"

definition queue_ok :: "runtime \<Rightarrow> bool" where
  "queue_ok rt \<longleftrightarrow> reg_reach (rt_jobs rt)
     \<and> rt_queue rt = (case rg_active (rt_jobs rt) of None \<Rightarrow> [] | Some jid \<Rightarrow> [jid])"

lemma reach_held:
  assumes "reg_reach reg" and "rg_active reg = Some jid"
  shows "\<exists>drv key. held_by jid drv key reg"
proof -
  obtain rec where "hm_get (rg_jobs reg) jid = Some rec"
    using reg_okD(5) [OF reg_reach_ok [OF assms(1)] assms(2)] by blast
  with assms show ?thesis by (auto simp: held_by_def job_at_def)
qed

lemma submit_and_enqueue_ok:
  assumes ok: "queue_ok rt" shows "queue_ok (snd (submit_and_enqueue E now d key p rt))"
proof (cases "rg_active (rt_jobs rt)")
  case (Some a)
  with ok show ?thesis by (simp add: submit_and_enqueue_def jobs_submit_def queue_ok_def)
next
  case None
  define reg where "reg = snd (jobs_submit now (driver_id_str d) key (Some p) (rt_jobs rt))"
  obtain jid where sub: "jobs_submit now (driver_id_str d) key (Some p) (rt_jobs rt) = (Inr jid, reg)"
      and act: "rg_active reg = Some jid"
    using None by (simp add: jobs_submit_def Let_def reg_def)
  have reach: "reg_reach reg" unfolding reg_def using ok by (auto simp: queue_ok_def intro: rr_step rs_submit)
  show ?thesis
  proof (cases "en_worker_gone E")
    case None
    with sub act reach ok \<open>rg_active (rt_jobs rt) = None\<close> show ?thesis
      by (simp add: submit_and_enqueue_def enqueue_def queue_ok_def)
  next
    case (Some e)
    have "reg_reach (jobs_transition jid JS_Failed None None (Some (''worker channel closed: '' @ e)) reg)"
      using reach act by (auto intro: rr_step rs_transition)
    moreover have "rg_active (jobs_transition jid JS_Failed None None (Some (''worker channel closed: '' @ e)) reg) = None"
      using reg_ok_transition(2) [OF reg_reach_ok [OF reach] act] by simp
    ultimately show ?thesis
      using Some sub ok \<open>rg_active (rt_jobs rt) = None\<close>
      by (simp add: submit_and_enqueue_def enqueue_def queue_ok_def)
  qed
qed

lemma radio_seq_frame: "\<exists>log. snd (radio_seq E cs rt) = rt\<lparr>rt_radio := log\<rparr>"
proof (induction cs arbitrary: rt)
  case (Cons c cs)
  show ?case
  proof (cases "en_radio E (rt_radio rt) c")
    case (Some e)
    then show ?thesis by (auto simp: w_radio_def)
  next
    case None
    with Cons.IH [of "rt\<lparr>rt_radio := rt_radio rt @ [c]\<rparr>"] show ?thesis by (auto simp: w_radio_def)
  qed
next
  case Nil
  show ?case by (rule exI [of _ "rt_radio rt"]) (cases rt, simp)
qed

lemma radio_ops_frame:
  "rt_jobs (snd (probe E d key rt)) = rt_jobs rt \<and> rt_queue (snd (probe E d key rt)) = rt_queue rt"
  "rt_jobs (snd (blink E d key count rt)) = rt_jobs rt \<and> rt_queue (snd (blink E d key count rt)) = rt_queue rt"
  "rt_jobs (snd (scan_ap E rt)) = rt_jobs rt \<and> rt_queue (snd (scan_ap E rt)) = rt_queue rt"
proof -
  have seq: "rt_jobs q = rt_jobs p \<and> rt_queue q = rt_queue p" if "radio_seq E cs p = (r, q)" for cs p r q
    using radio_seq_frame [of E cs p] that by auto
  note defs = hold_def unhold_def radio_release_def w_radio_def Let_def
  show "rt_jobs (snd (probe E d key rt)) = rt_jobs rt \<and> rt_queue (snd (probe E d key rt)) = rt_queue rt"
    by (auto simp: probe_def defs split: option.splits prod.splits dest!: seq)
  show "rt_jobs (snd (blink E d key count rt)) = rt_jobs rt \<and> rt_queue (snd (blink E d key count rt)) = rt_queue rt"
    by (auto simp: blink_def defs simp del: radio_seq.simps split: option.splits prod.splits dest!: seq)
  show "rt_jobs (snd (scan_ap E rt)) = rt_jobs rt \<and> rt_queue (snd (scan_ap E rt)) = rt_queue rt"
    by (simp add: scan_ap_def defs cache_add_all_def cache_retain_def split: option.splits)
qed

text \<open>A turn of the worker on the queued job.\<close>

lemma run_job_run:
  assumes "held_by jid drv key (rt_jobs rt)" and "run_job E jid rt = (f, rt')"
  shows "f \<noteq> Exit" and "f = Go () \<Longrightarrow> ended (rt_jobs rt) jid True rt'" and "f = Blocked \<Longrightarrow> holding (rt_jobs rt) jid drv key rt'"
    and "rt_queue rt' = rt_queue rt" and "children_end E \<Longrightarrow> f = Go ()"
proof -
  have "holding (rt_jobs rt) jid drv key rt" using assms(1) by (simp add: holding_def jp_start)
  from satD [OF sat_run_job [where X = "\<lambda>_. False"] this assms(2)]
  show f: "f \<noteq> Exit" "f = Go () \<Longrightarrow> ended (rt_jobs rt) jid True rt'" "f = Blocked \<Longrightarrow> holding (rt_jobs rt) jid drv key rt'" by auto
  have "tidy E (outside rt) rt'"
    using satD [OF tidy_job _ assms(2), of "rt_radio rt" "rt_radio_held rt" "rt_queue rt"]
    by (cases f) (simp_all add: outside_def)
  then show "rt_queue rt' = rt_queue rt" by (auto simp: tidy_def outside_def)
  show "f = Go ()" if "children_end E"
    using returns_job [OF that, of jid] assms(2) f(1) unfolding returns_def by (cases f) (auto, metis fst_conv)
qed

lemma worker_step_run:
  assumes ok: "queue_ok rt" and run: "worker_step E rt = (f, rt')" and busy: "rt_queue rt \<noteq> []"
  shows "f = Go () \<Longrightarrow> queue_ok rt' \<and> rt_queue rt' = [] \<and> ended (rt_jobs rt) (hd (rt_queue rt)) True rt'"
    and "children_end E \<Longrightarrow> f = Go ()"
proof -
  obtain jid where act: "rg_active (rt_jobs rt) = Some jid" and q: "rt_queue rt = [jid]"
    using ok busy by (auto simp: queue_ok_def split: option.splits)
  obtain drv key where held: "held_by jid drv key (rt_jobs (rt\<lparr>rt_queue := []\<rparr>))"
    using reach_held [OF _ act] ok by (auto simp: queue_ok_def)
  have run': "run_job E jid (rt\<lparr>rt_queue := []\<rparr>) = (f, rt')" using run q by (simp add: worker_step_def)
  note r = run_job_run [OF held run']
  show "queue_ok rt' \<and> rt_queue rt' = [] \<and> ended (rt_jobs rt) (hd (rt_queue rt)) True rt'" if "f = Go ()"
    using r(2) [OF that] r(4) q by (simp add: queue_ok_def ended_def)
  show "f = Go ()" if "children_end E" by (rule r(5) [OF that])
qed

lemma queue_ok_step: "runtime_step E rt rt' \<Longrightarrow> queue_ok rt \<Longrightarrow> queue_ok rt'"
proof (erule runtime_stepE, goal_cases)
  case (1 now d key w)
  have "queue_ok (cache_z21_host k l rt)" for k l
    using 1(1) by (simp add: queue_ok_def cache_z21_host_def cache_add_def)
  with 1 show ?case by (auto simp: submit_program_def Let_def submit_and_enqueue_ok split: sum.split)
next
  case (2 now d key job)
  then show ?case by (simp add: submit_firmware_def submit_and_enqueue_ok)
next
  case (3 jid)
  then show ?case by (auto simp: queue_ok_def intro: rr_step rs_cancel)
next
  case 9
  show ?case
  proof (cases "rt_queue rt")
    case Nil
    with 9 show ?thesis by (simp add: worker_step_def)
  next
    case (Cons jid rest)
    with worker_step_run(1) [OF 9(1,2)] show ?thesis by simp
  qed
qed (simp_all add: queue_ok_def radio_ops_frame)

lemma runtime_reach_ok: "runtime_reach E rt \<Longrightarrow> queue_ok rt"
proof (induction rule: runtime_reach.induct)
  case (rr_start rt)
  then show ?case using rr_new by (simp add: queue_ok_def) (simp add: jobs_new_def)
next
  case (rr_next rt rt')
  then show ?case using queue_ok_step by blast
qed

section \<open>Properties\<close>

text \<open>C1: a job that holds the slot runs to an end. Whatever clients submit, cancel or rescan
  meanwhile and whatever radio, device and files answer, \<open>run_job\<close> returns provided every
  \<open>espflash\<close> child is seen to end; then the slot is free and the job, if it is still remembered, is
  finished. From the registry it started with, the run has only taken the payload of the job and reported
  its frames, beside the submissions and cancellations of clients (\<open>job_path\<close>), and what it leaves of the
  other jobs is what was there: each one still remembered has the snapshot and the frames it had, no
  new one has appeared, and no job at all is forgotten unless more than 32 were remembered.\<close>

theorem job_runs_to_an_end:
  assumes "held_by jid drv key (rt_jobs rt)" and "children_end E"
    and "run_job E jid rt = (f, rt')"
  shows "f = Go () \<and> reg_reach (rt_jobs rt') \<and> \<not> jobs_is_busy (rt_jobs rt')
       \<and> pred_option (\<lambda>s. js_is_terminal (jsn_state s)) (jobs_snapshot jid (rt_jobs rt'))
       \<and> job_path jid (rt_jobs rt) (rt_jobs rt') \<and> others_kept jid (rt_jobs rt) (rt_jobs rt')"
proof -
  note r = run_job_run [OF assms(1,3)]
  have f: "f = Go ()" by (rule r(5) [OF assms(2)])
  with r(2) have e: "reg_reach (rt_jobs rt')" "rg_active (rt_jobs rt') = None" "job_path jid (rt_jobs rt) (rt_jobs rt')"
    by (simp_all add: ended_def)
  have "reg_reach (rt_jobs rt)" using assms(1) by (simp add: held_by_def)
  note kept = job_path_others [OF this e(3)]
  have "js_is_terminal (jsn_state (jr_snapshot rec))" if "hm_get (rg_jobs (rt_jobs rt')) jid = Some rec" for rec
    using reg_okD(4) [OF reg_reach_ok [OF e(1)] that] e(2) by simp
  with f e kept show ?thesis
    by (cases "hm_get (rg_jobs (rt_jobs rt')) jid") (auto simp: jobs_is_busy_def jobs_snapshot_def)
qed

text \<open>C2: a programming job only ends as \<open>Done\<close> when the programming succeeded: the driver of the
  job ran on the request as the client sent it and returned success, or, for a FRED, the
  command station accepted the dispatch or stayed silent after answering the serial probe.\<close>

theorem done_means_programmed:
  assumes "held_by jid drv key (rt_jobs rt)"
    and "run_program_job E jid w rt = (f, rt')" and "job_done jid rt'"
  shows "programmed E drv w"
proof -
  have "holding (rt_jobs rt) jid drv key rt" using assms(1) by (simp add: holding_def jp_start)
  note out = satD [OF sat_program_job [where X = "\<lambda>_. False"] this assms(2)]
  show ?thesis
  proof (cases f)
    case (Go u)
    with out assms(3) show ?thesis by (simp add: ended_def)
  next
    case Exit
    with out show ?thesis by simp
  next
    case Blocked
    with out have "live (jobs_snapshot jid (rt_jobs rt'))" by (auto simp: holding_def dest: held_live)
    with assms(3) show ?thesis by (auto simp: job_done_def live_def snapshot_state_def)
  qed
qed


lemma job_radio_use:
  assumes "run_job E jid rt = (f, rt')"
  shows "(rt_radio rt' = rt_radio rt \<and> rt_radio_held rt' = rt_radio_held rt)
       \<or> (\<exists>d c n. 1 \<le> n \<and> rt_radio rt' = rt_radio rt
            @ take n (join_call d c # address_calls (effective_net E d)) @ [RC_Release]
            \<and> \<not> rt_radio_held rt')"
proof -
  have "tidy E (outside rt) rt'"
    using satD [OF tidy_job _ assms, of "rt_radio rt" "rt_radio_held rt" "rt_queue rt"]
    by (cases f) (simp_all add: outside_def)
  then show ?thesis
    unfolding tidy_def associated_then_released_def outside_def by fastforce
qed

text \<open>C4: a job leaves the radio as it found it, or released. Either the job made no radio call and
  left the hold flag alone, or it joined a network, set up the address as far as the radio
  allowed, and released the radio as its last call, exactly once, and the hold flag is down.
  This holds of every way out of a job: errors, cancellation, success.\<close>

theorem job_releases_radio:
  assumes "run_job E jid rt = (f, rt')"
  shows "(rt_radio rt' = rt_radio rt \<and> rt_radio_held rt' = rt_radio_held rt)
       \<or> (\<exists>d c n. 1 \<le> n \<and> rt_radio rt' = rt_radio rt
            @ take n (join_call d c # address_calls (effective_net E d)) @ [RC_Release]
            \<and> \<not> rt_radio_held rt')"
  by (rule job_radio_use [OF assms])

text \<open>C8: in every reachable state of the runtime between two turns of the worker, the queue holds
  exactly the job that occupies the slot, and a worker turn on it, once it returns, empties
  both: a job is never lost, never run twice, and the slot is never occupied by a job that
  nobody will run. With every \<open>espflash\<close> child seen to end, the turn does return.\<close>

theorem runtime_queue_matches_slot:
  assumes "runtime_reach E rt"
  shows "rt_queue rt = (case rg_active (rt_jobs rt) of None \<Rightarrow> [] | Some jid \<Rightarrow> [jid])
       \<and> (jobs_is_busy (rt_jobs rt) \<and> children_end E \<longrightarrow>
            (\<exists>rt'. worker_step E rt = (Go (), rt') \<and> rt_queue rt' = [] \<and> \<not> jobs_is_busy (rt_jobs rt')))"
proof -
  have ok: "queue_ok rt" by (rule runtime_reach_ok [OF assms])
  have "\<exists>rt'. worker_step E rt = (Go (), rt') \<and> rt_queue rt' = [] \<and> \<not> jobs_is_busy (rt_jobs rt')"
    if "jobs_is_busy (rt_jobs rt)" and "children_end E"
  proof -
    obtain f rt' where run: "worker_step E rt = (f, rt')" by (cases "worker_step E rt")
    have "rt_queue rt \<noteq> []" using ok that(1) by (auto simp: queue_ok_def jobs_is_busy_def)
    note w = worker_step_run [OF ok run this]
    from w(2) [OF that(2)] w(1) run show ?thesis
      by (auto simp: queue_ok_def jobs_is_busy_def ended_def)
  qed
  with ok show ?thesis by (simp add: queue_ok_def)
qed

text \<open>The HTTP client of a firmware upload repeats the upload: when the device refuses every
  attempt with an error other than an interrupt, the image is sent four times before the
  upload fails. The documentation says that the POST is not retried.\<close>

lemma firmware_upload_is_retried:
  assumes "ioe_kind e \<noteq> IOK_Interrupted"
  shows "http_request_retry (make_firmware_http_client host port source device reset_ok)
           (\<lambda>k. Ret (Inl e)) = (Ret (Inl e), 4)"
proof -
  have "http_request_retry (make_firmware_http_client host port source device reset_ok) (\<lambda>k. Ret (Inl e))
      = attempt_loop (\<lambda>k. Ret (Inl e)) 1 4 (io_err IOK_Other ''no attempt made'')"
    by (simp add: http_request_retry_def make_firmware_http_client_def)
  also have "\<dots> = (Ret (Inl e), 4)" using assms by (simp add: eval_nat_numeral)
  finally show ?thesis .
qed

section \<open>Witnesses\<close>

definition demo_usb_job :: firmware_job where
  "demo_usb_job =
     \<lparr>fj_mode = RM_Usb, fj_path = ''/fw.elf'', fj_host = None, fj_port = Some ''/dev/ttyACM0'',
      fj_partition_table = None\<rparr>"

text \<open>A firmware job is queued, and a client cancels it while it runs.\<close>

definition demo_submitted :: runtime where
  "demo_submitted =
     snd (submit_firmware demo_env 7 D_LongFred ''/dev/ttyACM0'' demo_usb_job
       (demo_runtime\<lparr>rt_pending := [[], [], [CA_Job (CO_Cancel ''job-1'')]]\<rparr>))"

lemma demo_children_end: "children_end demo_env"
  by (simp add: children_end_def demo_env_def)

lemma demo_submitted_reach: "runtime_reach demo_env demo_submitted"
  unfolding demo_submitted_def
  by (rule rr_next [OF rr_start rs_firmware]) (simp_all add: demo_runtime_def)

lemma demo_submitted_jobs:
  "rt_jobs demo_submitted = snd (jobs_submit 7 ''longfred'' ''/dev/ttyACM0'' (Some (JP_Firmware demo_usb_job)) jobs_new)"
  by (simp add: demo_submitted_def submit_firmware_def supports_firmware_update_def longfred_capabilities_def
      submit_and_enqueue_def enqueue_def demo_env_def demo_runtime_def jobs_submit_def jobs_new_def Let_def)

lemma demo_submitted_held: "held_by ''job-1'' ''longfred'' ''/dev/ttyACM0'' (rt_jobs demo_submitted)"
proof -
  have "reg_reach (rt_jobs demo_submitted)"
    using runtime_reach_ok [OF demo_submitted_reach] by (simp add: queue_ok_def)
  then show ?thesis
    by (simp add: held_by_def job_at_def demo_submitted_jobs jobs_submit_def jobs_new_def Let_def
        job_name_1 hm.get_insert)
qed

theorem job_runs_to_an_end_witness:
  "\<not> jobs_is_busy (rt_jobs (snd (run_job demo_env ''job-1'' demo_submitted)))"
  using job_runs_to_an_end [OF demo_submitted_held demo_children_end prod.collapse [symmetric]] by blast

theorem job_releases_radio_witness:
  "rt_radio (snd (run_job demo_env ''job-1'' demo_submitted)) = []
 \<or> last (rt_radio (snd (run_job demo_env ''job-1'' demo_submitted))) = RC_Release"
proof -
  have "rt_radio demo_submitted = []"
    by (simp add: demo_submitted_def submit_firmware_def submit_and_enqueue_def enqueue_def demo_env_def
        demo_runtime_def jobs_submit_def jobs_new_def Let_def)
  with job_releases_radio [OF prod.collapse [symmetric], of demo_env "''job-1''" demo_submitted]
  show ?thesis by (auto simp del: take_Suc_Cons)
qed

theorem runtime_queue_matches_slot_witness:
  "rt_queue demo_submitted = [''job-1'']
 \<and> (\<exists>rt'. worker_step demo_env demo_submitted = (Go (), rt') \<and> rt_queue rt' = [])"
proof -
  have "rg_active (rt_jobs demo_submitted) = Some ''job-1''"
    using demo_submitted_held by (simp add: held_by_def)
  with runtime_queue_matches_slot [OF demo_submitted_reach] demo_children_end
  show ?thesis by (auto simp: jobs_is_busy_def)
qed

text \<open>A FRED job whose command station answers the serial probe and then stays silent.\<close>

definition fred_env :: "demo_json env" where
  "fred_env = demo_env\<lparr>en_lookup := (\<lambda>s. Inr [([10, 0, 0, 2], 21105)]),
     en_serial_turns := [UR_From ([10, 0, 0, 2], 21105) (z21_encode HEADER_GET_SERIAL_NUMBER ''abcd'')]\<rparr>"

definition fred_wire :: program_request_wire where
  "fred_wire =
     \<lparr>pw_identity = [], pw_wifi = \<lparr>ww_ssid = [], ww_psk = None\<rparr>,
      pw_server = \<lparr>tw_host = [], tw_port = 0, tw_automatic = None\<rparr>,
      pw_roster = [\<lparr>rw_address = Some 42, rw_long_address = None, rw_mode = None, rw_direction = None,
                    rw_functions = []\<rparr>],
      pw_bigfred = None, pw_roster_mode = None\<rparr>"

definition fred_runtime :: runtime where
  "fred_runtime = demo_runtime\<lparr>rt_jobs := snd (jobs_submit 7 ''fred'' ''z21:21105'' None jobs_new)\<rparr>"

lemma fred_dispatch_result:
  "fst (dispatch_addr ([10, 0, 0, 2], 21105) 42 (en_serial_turns fred_env) (en_dispatch_turns fred_env)) = Inr DO_NoAck"
proof -
  have "parse_records (z21_encode HEADER_GET_SERIAL_NUMBER ''abcd'')
      = [\<lparr>zr_header = HEADER_GET_SERIAL_NUMBER, zr_data = ''abcd''\<rparr>]"
    using parse_encoded [of "''abcd''" HEADER_GET_SERIAL_NUMBER "[]"] by (simp add: parse_records.simps)
  then show ?thesis
    by (simp add: dispatch_addr_def fred_env_def demo_env_def is_unknown_command_def HEADER_XBUS_def
        HEADER_GET_SERIAL_NUMBER_def)
qed

lemma demo_access:
  "w_snapshot jid (demo_runtime\<lparr>rt_jobs := r\<rparr>) = (Go (jobs_snapshot jid r), demo_runtime\<lparr>rt_jobs := r\<rparr>)"
  "w_cached a b (demo_runtime\<lparr>rt_jobs := r\<rparr>) = (Go (cached a b demo_runtime), demo_runtime\<lparr>rt_jobs := r\<rparr>)"
  "w_is_cancelled jid (demo_runtime\<lparr>rt_jobs := r\<rparr>) = (Go (jobs_is_cancelled jid r), demo_runtime\<lparr>rt_jobs := r\<rparr>)"
  "w_transition jid st stp pr dt (demo_runtime\<lparr>rt_jobs := r\<rparr>)
     = (Go (), demo_runtime\<lparr>rt_jobs := jobs_transition jid st stp pr dt r\<rparr>)"
  by (simp_all add: w_snapshot_def w_cached_def w_is_cancelled_def w_transition_def fl_defs preempt_def
      demo_runtime_def cached_def)

lemma fred_run: "job_done ''job-1'' (snd (run_program_job fred_env ''job-1'' fred_wire fred_runtime))"
proof -
  have env: "en_lookup fred_env k = Inr [([10, 0, 0, 2], 21105)]" "en_udp_bind fred_env = None" for k
    by (simp_all add: fred_env_def demo_env_def)
  have addr: "first_address fred_wire = Some 42" by (simp add: first_address_def fred_wire_def)
  have drv: "driver_from_id ''fred'' = Some D_Fred" by (simp add: driver_from_id_def)
  define r0 where "r0 = snd (jobs_submit 7 ''fred'' ''z21:21105'' None jobs_new)"
  define r1 where "r1 = jobs_transition ''job-1'' JS_Writing (Some ''write'') (Some 10) None r0"
  obtain s0 where s0: "jobs_snapshot ''job-1'' r0 = Some s0" "jsn_driver s0 = ''fred''" "jsn_key s0 = ''z21:21105''"
    by (simp add: r0_def jobs_submit_def jobs_new_def Let_def job_name_1 jobs_snapshot_def hm.get_insert)
  obtain c where c: "cached ''fred'' ''z21:21105'' demo_runtime = Some c"
    by (simp add: cached_def demo_runtime_def hm_get_def)
  have r1: "\<not> jobs_is_cancelled ''job-1'' r0" "\<not> jobs_is_cancelled ''job-1'' r1"
      "hm_get (rg_jobs r1) ''job-1'' \<noteq> None" "hm_len (rg_jobs r1) \<le> 1"
    by (simp_all add: r1_def r0_def jobs_submit_def jobs_new_def Let_def job_name_1 jobs_is_cancelled_def
        jobs_transition_def hm_get_def hm_insert_def hm_len_def push_frame_def)
  have run: "run_program_job fred_env ''job-1'' fred_wire (demo_runtime\<lparr>rt_jobs := r0\<rparr>)
      = (Go (), demo_runtime\<lparr>rt_jobs := jobs_transition ''job-1'' JS_Done (Some ''done'') (Some 100) (Some ''noAck'') r1\<rparr>)"
    by (simp add: run_program_job_def run_fred_program_job_def fred_dispatch_def fl_then_def fl_bind_def
        fl_function_def demo_access s0 drv c env addr r1 r1_def [symmetric] fred_dispatch_result report_dispatch_def)
  obtain rec where rec: "hm_get (rg_jobs r1) ''job-1'' = Some rec" using r1(3) by blast
  have "evict_old_jobs r = r" if "hm_len (rg_jobs r) \<le> 32" for r
    using that by (simp add: evict_old_jobs_def MAX_JOB_HISTORY_def)
  moreover have "hm_len (hm_insert ''job-1'' x (rg_jobs r1)) \<le> 32" for x
    using hm.len_insert_le [of "rg_jobs r1" "''job-1''" x] r1(4)
    by (simp add: r1_def r0_def jobs_submit_def jobs_new_def Let_def job_name_1 jobs_transition_def
        hm_get_def hm_insert_def hm_len_def)
  ultimately have "job_done ''job-1'' (demo_runtime\<lparr>rt_jobs :=
      jobs_transition ''job-1'' JS_Done (Some ''done'') (Some 100) (Some ''noAck'') r1\<rparr>)"
    using rec by (simp add: job_done_def jobs_snapshot_def jobs_transition_def Let_def hm.get_insert)
  with run show ?thesis by (simp add: fred_runtime_def r0_def)
qed

lemma fred_held: "held_by ''job-1'' ''fred'' ''z21:21105'' (rt_jobs fred_runtime)"
proof -
  have "reg_reach (snd (jobs_submit 7 ''fred'' ''z21:21105'' None jobs_new))"
    by (rule rr_step [OF rr_new rs_submit])
  then show ?thesis
    by (simp add: held_by_def job_at_def fred_runtime_def jobs_submit_def jobs_new_def Let_def
        job_name_1 hm.get_insert)
qed

theorem done_means_programmed_witness: "programmed fred_env ''fred'' fred_wire"
  by (rule done_means_programmed [OF fred_held prod.collapse [symmetric] fred_run])

text \<open>A firmware job over the Soft-AP of an RB23xx that accepts everything.\<close>

definition ap_job :: firmware_job where
  "ap_job = \<lparr>fj_mode = RM_Ap, fj_path = ''/fw.bin'', fj_host = None, fj_port = None, fj_partition_table = None\<rparr>"

definition ap_candidate_1 :: cached_candidate where
  "ap_candidate_1 = plain_candidate D_Rb23xx ''RB2300_1'' ''RB2300_1'' RM_Ap False"

definition ap_record :: job_record where
  "ap_record =
     \<lparr>jr_snapshot = \<lparr>jsn_id = ''job-1'', jsn_state = JS_Queued, jsn_driver = ''rb23xx'', jsn_key = ''RB2300_1'',
        jsn_detail = None, jsn_created_at = 7\<rparr>,
      jr_frames = [], jr_cancel = False, jr_payload = Some (JP_Firmware ap_job)\<rparr>"

definition ap_state :: "job_record \<Rightarrow> radio_call list \<Rightarrow> bool \<Rightarrow> runtime" where
  "ap_state rec log held =
     \<lparr>rt_jobs = \<lparr>rg_active = Some ''job-1'', rg_jobs = [(''job-1'', rec)], rg_seq = 1\<rparr>, rt_queue = [],
      rt_cache = [((''rb23xx'', ''RB2300_1''), ap_candidate_1)], rt_radio_held = held, rt_radio = log, rt_pending = []\<rparr>"

definition ap_start :: runtime where
  "ap_start = ap_state ap_record [] False"


lemma ap_access:
  "w_snapshot ''job-1'' (ap_state rec log held) = (Go (Some (jr_snapshot rec)), ap_state rec log held)"
  "w_cached ''rb23xx'' ''RB2300_1'' (ap_state rec log held) = (Go (Some ap_candidate_1), ap_state rec log held)"
  "w_is_cancelled ''job-1'' (ap_state rec log held) = (Go (jr_cancel rec), ap_state rec log held)"
  "w_take_payload ''job-1'' (ap_state rec log held) = (Go (jr_payload rec), ap_state (rec\<lparr>jr_payload := None\<rparr>) log held)"
  "\<not> js_is_terminal st \<Longrightarrow> w_transition ''job-1'' st stp pr dt (ap_state rec log held)
     = (Go (), ap_state (push_frame ''job-1'' st stp pr dt rec) log held)"
  "softap_call demo_env ''job-1'' c (ap_state rec log held) = (Go (), ap_state rec (log @ [c]) held)"
  "w_release demo_env (ap_state rec log held) = (Go (), ap_state rec (log @ [RC_Release]) held)"
  by (simp_all add: w_snapshot_def w_cached_def w_is_cancelled_def w_take_payload_def w_transition_def softap_call_def
      w_radio_call_def w_release_def radio_release_def w_radio_def fl_defs preempt_def ap_state_def jobs_snapshot_def
      jobs_is_cancelled_def jobs_take_payload_def jobs_transition_def cached_def hm_get_def hm_insert_def demo_env_def Let_def)

lemma ap_sinks:
  "sink_step ''job-1'' s (ap_state rec log held) = (Go (), ap_state (push_frame ''job-1'' (step_state s) (Some s) None None rec) log held)"
  "\<not> js_is_terminal (jsn_state (jr_snapshot rec)) \<Longrightarrow> sink_detail ''job-1'' d (ap_state rec log held)
     = (Go (), ap_state (push_frame ''job-1'' (jsn_state (jr_snapshot rec)) None None (Some d) rec) log held)"
  by (simp_all add: sink_step_def sink_detail_def fl_bind_def ap_access snapshot_state_def)

definition ap_calls :: "radio_call list" where
  "ap_calls =
     [RC_ConnectPsk [] None ''00000000'', RC_SetAddress [192, 168, 4, 2] 24, RC_LinkUp,
      RC_PrepareSoftap [192, 168, 4, 2] [192, 168, 4, 1]]"

lemma ap_joins: "join_call D_Rb23xx ap_candidate_1 # address_calls (effective_net demo_env D_Rb23xx) = ap_calls"
  by (simp add: ap_calls_def join_call_def radio_join_call_def ap_candidate_1_def plain_candidate_def parse_bssid_def
      rb23xx_capabilities_def rb23xx_net_def address_calls_def effective_net_def demo_env_def)

lemma ap_prepared: "firmware_prepare demo_env
    \<lparr>fc_max_bytes = 5242880, fc_max_bytes_label = ''5 MiB'', fc_modes = FM_AP,
     fc_require_esp_app_bin = False, fc_success_on_reset_after_write = True\<rparr> ap_job = Inr elf_magic"
  by (simp add: firmware_prepare_def firmware_admit_def firmware_image_def firmware_check_def ap_job_def demo_env_def
      fw_allows_def FM_AP_def elf_magic_def)

lemma ap_http: "firmware_http demo_env ''job-1'' D_Rb23xx elf_magic fname host port source device rt
    = (Go (Inr \<lparr>oc_restarted = True, oc_mismatches = []\<rparr>), rt)"
  by (simp add: firmware_http_def await_blocking_def demo_env_def fl_defs rb23xx_update_run Let_def)

lemma ap_calls_each: "fl_each (softap_call demo_env ''job-1'') cs (ap_state rec log held) = (Go (), ap_state rec (log @ cs) held)"
  by (induction cs arbitrary: log) (simp_all add: fl_return_def fl_then_def fl_bind_def ap_access)

text \<open>The run makes every call of the association, then releases the radio, and ends as \<open>Done\<close>.\<close>

lemma ap_finish:
  assumes "\<not> jr_cancel rec" "\<not> js_is_terminal (jsn_state (jr_snapshot rec))"
  shows "\<exists>rt'. finish_firmware_job ''job-1'' (Inr \<lparr>oc_restarted = True, oc_mismatches = []\<rparr>) (ap_state rec log held) = (Go (), rt')
       \<and> job_done ''job-1'' rt' \<and> rt_radio rt' = log"
proof -
  let ?rec = "push_frame ''job-1'' JS_Done (Some ''done'') (Some 100) (Some ''restarted'') rec"
  let ?rt = "(ap_state rec log held)\<lparr>rt_jobs := \<lparr>rg_active = None, rg_jobs = [(''job-1'', ?rec)], rg_seq = 1\<rparr>\<rparr>"
  have "w_transition ''job-1'' JS_Done (Some ''done'') (Some 100) (Some ''restarted'') (ap_state rec log held) = (Go (), ?rt)"
    by (simp add: w_transition_def fl_update_def preempt_def ap_state_def jobs_transition_def hm_get_def hm_insert_def
        evict_old_jobs_def hm_len_def MAX_JOB_HISTORY_def Let_def)
  with assms have "finish_firmware_job ''job-1'' (Inr \<lparr>oc_restarted = True, oc_mismatches = []\<rparr>) (ap_state rec log held) = (Go (), ?rt)"
    by (simp add: finish_firmware_job_def fl_bind_def ap_access)
  then show ?thesis by (simp add: job_done_def jobs_snapshot_def hm_get_def ap_state_def)
qed

lemma ap_firmware_run:
  assumes "\<not> jr_cancel rec" "jsn_driver (jr_snapshot rec) = ''rb23xx''" "jsn_key (jr_snapshot rec) = ''RB2300_1''"
  shows "\<exists>rt'. run_firmware_job demo_env ''job-1'' ap_job (ap_state rec [] False) = (Go (), rt')
       \<and> job_done ''job-1'' rt' \<and> rt_radio rt' = ap_calls @ [RC_Release]"
proof -
  have drv: "driver_from_id ''rb23xx'' = Some D_Rb23xx" by (simp add: driver_from_id_def)
  obtain rec' where up: "firmware_upload demo_env ''job-1'' (jr_snapshot rec) D_Rb23xx ap_job elf_magic
        (ap_state (push_frame ''job-1'' JS_Writing (Some ''write'') (Some 0) None rec) [] False)
      = (Go (Inr \<lparr>oc_restarted = True, oc_mismatches = []\<rparr>), ap_state rec' (ap_calls @ [RC_Release]) False)"
    and rec': "\<not> jr_cancel rec'" "\<not> js_is_terminal (jsn_state (jr_snapshot rec'))"
  proof -
    have beats: "en_join_beats demo_env = 0" by (simp add: demo_env_def)
    have hold: "hold (ap_state r l b) = ap_state r l True" "unhold (ap_state r l b) = ap_state r l False" for r l b
      by (simp_all add: hold_def unhold_def ap_state_def)
    show thesis
      by (rule that) (simp_all add: firmware_upload_def firmware_ap_def firmware_ap_session_def Let_def ap_joins ap_job_def
          beats fl_then_def fl_bind_def fl_return_def ap_access assms(2,3) with_hold_def hold ap_calls_each ap_sinks ap_http,
          simp_all add: assms(1))
  qed
  from ap_finish [OF rec'] obtain rt' where
      "finish_firmware_job ''job-1'' (Inr \<lparr>oc_restarted = True, oc_mismatches = []\<rparr>) (ap_state rec' (ap_calls @ [RC_Release]) False)
        = (Go (), rt')" "job_done ''job-1'' rt'" "rt_radio rt' = ap_calls @ [RC_Release]" by blast
  then show ?thesis
    by (simp add: run_firmware_job_def fl_function_def fl_bind_def fl_then_def ap_access assms(2) drv rb23xx_capabilities_def
        ap_prepared firmware_body_def up)
qed


lemma ap_job_run:
  "\<exists>rt'. run_job demo_env ''job-1'' ap_start = (Go (), rt') \<and> rt_radio rt' = rt_radio ap_start @ ap_calls @ [RC_Release]"
proof -
  obtain rt' where "run_firmware_job demo_env ''job-1'' ap_job (ap_state (ap_record\<lparr>jr_payload := None\<rparr>) [] False) = (Go (), rt')"
      "rt_radio rt' = ap_calls @ [RC_Release]"
    using ap_firmware_run [of "ap_record\<lparr>jr_payload := None\<rparr>"] by (auto simp: ap_record_def)
  then show ?thesis
    by (simp add: ap_start_def run_job_def fl_function_def fl_bind_def ap_access ap_record_def)
      (simp add: ap_state_def)
qed

end
