(* ===== verification/Wp_Config.thy ===== *)
theory Wp_Config
  imports Wp_Sysfs
begin

text \<open>
  The configuration of the daemon: \<open>crates/wireless-programmer/src/config.rs\<close>, the flags that
  \<open>main.rs\<close> and \<open>cli/daemon.rs\<close> apply to it before the daemon serves. The environment
  variables are a function (\<open>None\<close>: unset or not Unicode); the data directory comes from the
  shared daemon crate, the version from \<open>version.rs\<close>, and the port of the fake web server from
  the socket layer: three more parameters.
\<close>

type_synonym env_vars = "string \<Rightarrow> string option"

record config =
  cf_socket :: string
  cf_socket_mode :: nat
  cf_require_auth :: bool
  cf_allow_users :: "string list"
  cf_socket_group_user :: "string option"
  cf_data_dir :: string
  cf_version :: string
  cf_commit :: "string option"
  cf_interface :: "string option"
  cf_net_override :: "commissioning_net option"
  cf_fake_port :: "u16 option"

record version_info =
  vi_version :: string
  vi_tag_commit :: string
  vi_build_commit :: string
  vi_build_time :: string

section \<open>Resolution from the environment\<close>

definition SHARED_MODE :: nat where
  "SHARED_MODE = 6 * 64 + 6 * 8 + 6"

definition GROUP_MODE :: nat where
  "GROUP_MODE = 6 * 64 + 6 * 8"

definition resolve_version :: "version_info \<Rightarrow> string \<Rightarrow> string" where
  "resolve_version i pkg_version = (if vi_version i \<noteq> ''dev'' then vi_version i else pkg_version)"

definition resolve_commit :: "version_info \<Rightarrow> string option" where
  "resolve_commit i =
     (if vi_tag_commit i \<noteq> [] then Some (vi_tag_commit i)
      else if vi_build_commit i \<noteq> ''unknown'' then Some (vi_build_commit i)
      else None)"

definition resolve_require_auth :: "env_vars \<Rightarrow> bool" where
  "resolve_require_auth env =
     (case env ''WIRELESS_PROGRAMMER_REQUIRE_AUTH'' of
        Some v \<Rightarrow> to_ascii_lowercase (trim v) \<in> {''1'', ''true'', ''yes'', ''on''}
      | None \<Rightarrow> False)"

definition default_allow_users :: "string list" where
  "default_allow_users = [''bigfred'', ''bigfred-wizard'']"

text \<open>The comma-separated list, as the environment variable and the flag give it.\<close>

definition split_users :: "string \<Rightarrow> string list" where
  "split_users v = filter (\<lambda>s. s \<noteq> []) (map trim (split_char (CHR '','') v))"

definition resolve_allow_users :: "env_vars \<Rightarrow> bool \<Rightarrow> string list" where
  "resolve_allow_users env require_auth =
     (case env ''WIRELESS_PROGRAMMER_ALLOW_USERS'' of
        Some v \<Rightarrow>
          let users = split_users v
          in if require_auth \<and> users = [] then default_allow_users else users
      | None \<Rightarrow> if require_auth then default_allow_users else [])"

definition nonempty_var :: "env_vars \<Rightarrow> string \<Rightarrow> string option" where
  "nonempty_var env name =
     (case env name of
        None \<Rightarrow> None
      | Some v \<Rightarrow> if trim v = [] then None else Some (trim v))"

definition resolve_interface_env :: "env_vars \<Rightarrow> string option" where
  "resolve_interface_env env = nonempty_var env ''WIRELESS_PROGRAMMER_INTERFACE''"

definition resolve_fake_web_port_env :: "env_vars \<Rightarrow> u16 option" where
  "resolve_fake_web_port_env env =
     (case env ''WIRELESS_PROGRAMMER_FAKE_WEB_PORT'' of None \<Rightarrow> None | Some v \<Rightarrow> parse_u16 (trim v))"

definition config_default :: "env_vars \<Rightarrow> string \<Rightarrow> version_info \<Rightarrow> string \<Rightarrow> config" where
  "config_default env data_dir i pkg_version =
     (let require_auth = resolve_require_auth env
      in \<lparr>cf_socket = path_join (path_join (path_join data_dir ''run'') ''wireless-programmer'')
             ''wireless-programmer.sock'',
          cf_socket_mode = (if require_auth then GROUP_MODE else SHARED_MODE),
          cf_require_auth = require_auth,
          cf_allow_users = resolve_allow_users env require_auth,
          cf_socket_group_user = nonempty_var env ''WIRELESS_PROGRAMMER_SOCKET_GROUP_USER'',
          cf_data_dir = data_dir,
          cf_version = resolve_version i pkg_version,
          cf_commit = resolve_commit i,
          cf_interface = resolve_interface_env env,
          cf_net_override = None,
          cf_fake_port = resolve_fake_web_port_env env\<rparr>)"

section \<open>Operations\<close>

definition finalize_auth :: "config \<Rightarrow> config" where
  "finalize_auth c =
     (let c1 = (if cf_require_auth c \<and> cf_allow_users c = []
                then c\<lparr>cf_allow_users := default_allow_users\<rparr> else c)
      in if \<not> cf_require_auth c1 then c1\<lparr>cf_socket_mode := SHARED_MODE\<rparr>
         else if cf_socket_mode c1 = SHARED_MODE then c1\<lparr>cf_socket_mode := GROUP_MODE\<rparr>
         else c1)"

definition is_fake_radio :: "config \<Rightarrow> bool" where
  "is_fake_radio c \<longleftrightarrow> cf_interface c = Some ''fake''"

definition socket_group_owner :: "config \<Rightarrow> string option" where
  "socket_group_owner c =
     (case cf_socket_group_user c of
        Some u \<Rightarrow> Some u
      | None \<Rightarrow>
          if cf_require_auth c
          then (case cf_allow_users c of [] \<Rightarrow> None | u # _ \<Rightarrow> Some u)
          else None)"

definition localhost_commissioning :: "u16 \<Rightarrow> commissioning_net" where
  "localhost_commissioning port =
     \<lparr>cn_host = [127, 0, 0, 1], cn_port = port, cn_source = [127, 0, 0, 1], cn_prefix = 8\<rparr>"

section \<open>The flags of the daemon\<close>

datatype log_level = LL_Error | LL_Warn | LL_Info | LL_Debug | LL_Trace

fun log_level_str :: "log_level \<Rightarrow> string" where
  "log_level_str LL_Error = ''error''"
| "log_level_str LL_Warn = ''warn''"
| "log_level_str LL_Info = ''info''"
| "log_level_str LL_Debug = ''debug''"
| "log_level_str LL_Trace = ''trace''"

definition log_filter_directive :: "bool \<Rightarrow> log_level option \<Rightarrow> string option" where
  "log_filter_directive verbose level =
     (case level of
        Some l \<Rightarrow> Some (log_level_str l)
      | None \<Rightarrow> if verbose then Some ''debug'' else None)"

record daemon_args =
  da_verbose :: bool
  da_log_level :: "log_level option"
  da_interface :: "string option"
  da_require_auth :: bool
  da_allow_users :: "string option"
  da_fake_port :: "u16 option"

text \<open>\<open>main\<close>: the flags before the subcommand fill what the subcommand leaves open.\<close>

definition merge_args :: "daemon_args \<Rightarrow> daemon_args option \<Rightarrow> daemon_args" where
  "merge_args outer sub =
     (case sub of
        None \<Rightarrow> outer\<lparr>da_fake_port := None\<rparr>
      | Some a \<Rightarrow>
          a\<lparr>da_interface := (if da_interface a = None then da_interface outer else da_interface a),
            da_verbose := (if \<not> da_verbose a then da_verbose outer else da_verbose a),
            da_log_level := (if da_log_level a = None then da_log_level outer else da_log_level a),
            da_require_auth := (if \<not> da_require_auth a then da_require_auth outer else da_require_auth a),
            da_allow_users :=
              (if da_allow_users a = None then da_allow_users outer else da_allow_users a)\<rparr>)"

definition apply_socket_flag :: "string option \<Rightarrow> config \<Rightarrow> config" where
  "apply_socket_flag s c = (case s of Some p \<Rightarrow> c\<lparr>cf_socket := p\<rparr> | None \<Rightarrow> c)"

definition apply_interface_flag :: "string option \<Rightarrow> config \<Rightarrow> string + config" where
  "apply_interface_flag i c =
     (case i of
        None \<Rightarrow> Inr c
      | Some v \<Rightarrow>
          if trim v = [] then Inl ''--interface must not be empty''
          else Inr (c\<lparr>cf_interface := Some (trim v)\<rparr>))"

definition apply_port_flag :: "u16 option \<Rightarrow> config \<Rightarrow> config" where
  "apply_port_flag p c = (case p of Some q \<Rightarrow> c\<lparr>cf_fake_port := Some q\<rparr> | None \<Rightarrow> c)"

definition apply_auth_flags :: "bool \<Rightarrow> string option \<Rightarrow> config \<Rightarrow> config" where
  "apply_auth_flags require users c =
     (let c1 = (if require then c\<lparr>cf_require_auth := True\<rparr> else c)
      in case users of
           None \<Rightarrow> c1
         | Some v \<Rightarrow>
             let c2 = c1\<lparr>cf_allow_users := split_users v\<rparr>
             in if cf_allow_users c2 \<noteq> [] then c2\<lparr>cf_require_auth := True\<rparr> else c2)"

definition fake_forces_auth_off :: "config \<Rightarrow> config" where
  "fake_forces_auth_off c =
     (if is_fake_radio c \<and> cf_require_auth c then c\<lparr>cf_require_auth := False\<rparr> else c)"

text \<open>The interface of a real radio must be wireless, and is then named as it was resolved.\<close>

definition check_interface :: "sys_fs \<Rightarrow> config \<Rightarrow> string + config" where
  "check_interface S c =
     (case cf_interface c of
        Some name \<Rightarrow>
          if is_fake_radio c then Inr c
          else (case resolve_wireless_interface S (Some name) of
                  Inl e \<Rightarrow> Inl (''wireless interface: '' @ driver_error_text e)
                | Inr n \<Rightarrow> Inr (c\<lparr>cf_interface := Some n\<rparr>))
      | None \<Rightarrow> Inr c)"

definition bind_fake_server :: "(u16 \<Rightarrow> string + u16) \<Rightarrow> bool \<Rightarrow> config \<Rightarrow> string + config" where
  "bind_fake_server bind_port fake c =
     (if fake
      then ok_map (\<lambda>port. c\<lparr>cf_net_override := Some (localhost_commissioning port)\<rparr>)
             (bind_port (case cf_fake_port c of Some p \<Rightarrow> p | None \<Rightarrow> 8070))
      else Inr c)"

text \<open>
  \<open>run_daemon\<close> up to the point where the radio is opened: the flag \<open>fake\<close> and the configuration; \<open>Inl\<close>
  is the failure exit.
\<close>

definition daemon_config ::
    "sys_fs \<Rightarrow> (u16 \<Rightarrow> string + u16) \<Rightarrow> daemon_args \<Rightarrow> string option \<Rightarrow> config \<Rightarrow> string + bool \<times> config" where
  "daemon_config S bind_port args socket_override cfg =
     rbind (apply_interface_flag (da_interface args) (apply_socket_flag socket_override cfg)) (\<lambda>c1.
       let c2 = apply_auth_flags (da_require_auth args) (da_allow_users args)
                  (apply_port_flag (da_fake_port args) c1);
           fake = is_fake_radio c2;
           c3 = finalize_auth (fake_forces_auth_off c2)
       in ok_map (Pair fake) (rbind (check_interface S c3) (bind_fake_server bind_port fake)))"

section \<open>Properties\<close>

lemma ok_map_eq_Inr: "ok_map f r = Inr y \<longleftrightarrow> (\<exists>x. r = Inr x \<and> y = f x)"
  by (cases r) auto

lemma bind_fake_server_auth:
  assumes "bind_fake_server bp fake c = Inr c'"
  shows "cf_require_auth c' = cf_require_auth c" and "cf_socket_mode c' = cf_socket_mode c"
    and "cf_allow_users c' = cf_allow_users c" and "cf_socket_group_user c' = cf_socket_group_user c"
    and "cf_net_override c' \<noteq> None \<longleftrightarrow> fake \<or> cf_net_override c \<noteq> None"
  using assms
  by (auto simp: bind_fake_server_def split: if_splits sum.splits;
      cases "bp (case cf_fake_port c of None \<Rightarrow> 8070 | Some p \<Rightarrow> p)"; auto)+

lemma check_interface_auth:
  assumes "check_interface S c = Inr c'"
  shows "cf_require_auth c' = cf_require_auth c" and "cf_socket_mode c' = cf_socket_mode c"
    and "cf_allow_users c' = cf_allow_users c" and "cf_socket_group_user c' = cf_socket_group_user c"
    and "cf_net_override c' = cf_net_override c"
  using assms by (auto simp: check_interface_def split: option.splits if_splits sum.splits)

text \<open>The allowlist that a daemon with peer authentication serves.\<close>

definition effective_users :: "env_vars \<Rightarrow> string option \<Rightarrow> string list" where
  "effective_users env flag =
     (case (case flag of Some v \<Rightarrow> Some v | None \<Rightarrow> env ''WIRELESS_PROGRAMMER_ALLOW_USERS'') of
        Some v \<Rightarrow> if split_users v = [] then default_allow_users else split_users v
      | None \<Rightarrow> default_allow_users)"

lemma effective_users_nonempty: "effective_users env flag \<noteq> []"
  by (auto simp: effective_users_def default_allow_users_def split: option.splits)

lemma finalize_auth_sound:
  "cf_require_auth (finalize_auth c) = cf_require_auth c"
  "cf_net_override (finalize_auth c) = cf_net_override c"
  "cf_require_auth c \<Longrightarrow> cf_allow_users (finalize_auth c)
     = (if cf_allow_users c = [] then default_allow_users else cf_allow_users c)"
  "\<not> cf_require_auth c \<Longrightarrow> cf_socket_mode (finalize_auth c) = SHARED_MODE"
  "cf_require_auth c \<Longrightarrow> cf_socket_mode c \<in> {SHARED_MODE, GROUP_MODE} \<Longrightarrow>
     cf_socket_mode (finalize_auth c) = GROUP_MODE"
  by (auto simp: finalize_auth_def Let_def)

text \<open>Peer authentication for every environment and every flags.
  It is on exactly when the variable, the flag or a non-empty list of users asks for it and
  the radio is a real one; without it the socket is open to all (0666), with it the socket
  is 0660, a group owner is known, and the allowlist is never empty: the users of the flag,
  else those of the variable, else the two default users.\<close>

lemma daemon_auth_settings:
  assumes "daemon_config S bp args sock (config_default env dd vi pv) = Inr (fake, c)"
  shows "(cf_require_auth c \<longleftrightarrow>
            \<not> fake
          \<and> (resolve_require_auth env \<or> da_require_auth args
              \<or> (\<exists>v. da_allow_users args = Some v \<and> split_users v \<noteq> [])))
       \<and> cf_socket_mode c = (if cf_require_auth c then GROUP_MODE else SHARED_MODE)
       \<and> (cf_require_auth c \<longrightarrow>
            cf_allow_users c = effective_users env (da_allow_users args)
          \<and> cf_allow_users c \<noteq> [] \<and> socket_group_owner c \<noteq> None)
       \<and> (cf_net_override c \<noteq> None \<longleftrightarrow> fake)"
proof -
  let ?c0 = "apply_socket_flag sock (config_default env dd vi pv)"
  obtain c1 where c1: "apply_interface_flag (da_interface args) ?c0 = Inr c1"
    using assms by (auto simp: daemon_config_def rbind_eq_Inr)
  define c2 where "c2 = apply_auth_flags (da_require_auth args) (da_allow_users args)
                  (apply_port_flag (da_fake_port args) c1)"
  define c3 where "c3 = finalize_auth (fake_forces_auth_off c2)"
  obtain c4 where c4: "check_interface S c3 = Inr c4" and c: "bind_fake_server bp (is_fake_radio c2) c4 = Inr c"
    and flag: "fake = is_fake_radio c2"
    using assms c1 by (auto simp: daemon_config_def rbind_eq_Inr ok_map_eq_Inr Let_def c2_def c3_def)
  note later = bind_fake_server_auth [OF c] check_interface_auth [OF c4]
  have base: "cf_require_auth c1 = resolve_require_auth env" "cf_net_override c1 = None"
      "cf_socket_mode c1 \<in> {SHARED_MODE, GROUP_MODE}"
      "cf_allow_users c1 = resolve_allow_users env (resolve_require_auth env)"
    using c1 by (auto simp: apply_interface_flag_def apply_socket_flag_def config_default_def Let_def
        split: option.splits if_splits)
  have two: "cf_require_auth c2 \<longleftrightarrow> resolve_require_auth env \<or> da_require_auth args
          \<or> (\<exists>v. da_allow_users args = Some v \<and> split_users v \<noteq> [])"
      "cf_net_override c2 = None" "cf_socket_mode c2 \<in> {SHARED_MODE, GROUP_MODE}"
      "cf_allow_users c2 = (case da_allow_users args of Some v \<Rightarrow> split_users v
         | None \<Rightarrow> resolve_allow_users env (resolve_require_auth env))"
    using base by (auto simp: c2_def apply_auth_flags_def apply_port_flag_def Let_def split: option.splits)
  have fake: "cf_require_auth (fake_forces_auth_off c2) \<longleftrightarrow> cf_require_auth c2 \<and> \<not> is_fake_radio c2"
      "cf_net_override (fake_forces_auth_off c2) = cf_net_override c2"
      "cf_socket_mode (fake_forces_auth_off c2) = cf_socket_mode c2"
      "cf_allow_users (fake_forces_auth_off c2) = cf_allow_users c2"
    by (auto simp: fake_forces_auth_off_def)
  have users: "cf_allow_users c = effective_users env (da_allow_users args)" if auth: "cf_require_auth c"
  proof -
    have "cf_require_auth (fake_forces_auth_off c2)"
      using auth by (simp add: later c3_def finalize_auth_sound)
    then have "cf_allow_users c = (if cf_allow_users c2 = [] then default_allow_users else cf_allow_users c2)"
      by (simp add: later c3_def finalize_auth_sound(3) fake)
    then show ?thesis
      by (simp add: two(4) effective_users_def resolve_allow_users_def Let_def default_allow_users_def
          split: option.splits)
  qed
  moreover note effective_users_nonempty [of env "da_allow_users args"]
  moreover have "cf_socket_mode c = (if cf_require_auth c then GROUP_MODE else SHARED_MODE)"
    using two(3) by (simp add: later c3_def finalize_auth_sound fake del: insert_iff)
  moreover have "cf_require_auth c \<longleftrightarrow> \<not> fake \<and> cf_require_auth c2"
    by (auto simp: later c3_def finalize_auth_sound fake flag)
  moreover have "cf_net_override c \<noteq> None \<longleftrightarrow> fake"
    using later(5) by (simp add: later c3_def finalize_auth_sound fake two(2) flag)
  ultimately show ?thesis
    using two(1) by (auto simp: socket_group_owner_def neq_Nil_conv split: option.splits)
qed

text \<open>The daemon started with \<open>--require-auth\<close> and nothing else.\<close>

definition bare_env :: env_vars where
  "bare_env name = None"

definition empty_sys :: sys_fs where
  "empty_sys = \<lparr>sf_dir = (\<lambda>p. Inr []), sf_exists = (\<lambda>p. False),
     sf_read = (\<lambda>p. Inl \<lparr>ioe_kind = IOK_NotFound, ioe_text = ''not found''\<rparr>)\<rparr>"

definition auth_args :: daemon_args where
  "auth_args = \<lparr>da_verbose = False, da_log_level = None, da_interface = None, da_require_auth = True,
     da_allow_users = None, da_fake_port = None\<rparr>"

definition dev_version :: version_info where
  "dev_version = \<lparr>vi_version = ''dev'', vi_tag_commit = [], vi_build_commit = ''unknown'', vi_build_time = []\<rparr>"

definition auth_config :: config where
  "auth_config = (config_default bare_env ''/data'' dev_version ''0.1.0'')
     \<lparr>cf_require_auth := True, cf_allow_users := default_allow_users, cf_socket_mode := GROUP_MODE\<rparr>"

lemma auth_config_run:
  "daemon_config S bp auth_args None (config_default bare_env ''/data'' dev_version ''0.1.0'')
     = Inr (False, auth_config)"
  by (simp add: daemon_config_def apply_interface_flag_def apply_socket_flag_def auth_args_def
      apply_auth_flags_def apply_port_flag_def fake_forces_auth_off_def is_fake_radio_def finalize_auth_def
      check_interface_def bind_fake_server_def config_default_def bare_env_def Let_def auth_config_def
      resolve_require_auth_def resolve_allow_users_def resolve_interface_env_def nonempty_var_def
      resolve_fake_web_port_env_def SHARED_MODE_def GROUP_MODE_def)

end
