(* ===== verification/Wp_Ipc.thy ===== *)
theory Wp_Ipc
  imports Wp_WorkerProps Wp_Config
begin

text \<open>
  The socket server: \<open>crates/wireless-programmer/src/ipc.rs\<close>. \<open>dispatch\<close> answers one request
  and changes the shared runtime; \<open>stream_job_watch\<close> sends the frames of a job until it ends.
  The framing, the accept loop and the peer check are those of the shared daemon crate; its
  reply operation is a parameter, as is what other threads do between two accesses of the
  shared state (\<open>ie_gap\<close>, and the registry views a watcher polls).
\<close>

section \<open>Requests\<close>

record 'j ipc_env =
  ie_env :: "'j env"
  ie_config :: config
  ie_sys :: sys_fs
  ie_as_u64 :: "'j \<Rightarrow> u64 option"
  ie_now :: nat
  ie_gap :: "runtime \<Rightarrow> runtime"

definition err_response :: "request_kind \<Rightarrow> string \<Rightarrow> string \<Rightarrow> response" where
  "err_response kind code message =
     \<lparr>rs_kind = kind, rs_result = None, rs_error = Some \<lparr>eb_code = code, eb_message = message\<rparr>\<rparr>"

definition ok_response :: "request_kind \<Rightarrow> result_body \<Rightarrow> response" where
  "ok_response kind body = \<lparr>rs_kind = kind, rs_result = Some body, rs_error = None\<rparr>"

definition busy_response :: "request_kind \<Rightarrow> response" where
  "busy_response kind = err_response kind ''busy'' ''radio in use by a programming job''"

definition missing_params :: "request_kind \<Rightarrow> response" where
  "missing_params kind = err_response kind ''bad_params'' ''missing params''"

definition unknown_driver :: "request_kind \<Rightarrow> response" where
  "unknown_driver kind = err_response kind ''unknown_driver'' ''no driver owns this candidate''"

definition no_such_job :: "request_kind \<Rightarrow> response" where
  "no_such_job kind = err_response kind ''not_found'' ''no such job''"

fun state_to_wire :: "job_state \<Rightarrow> job_state_wire" where
  "state_to_wire JS_Queued = JW_Queued"
| "state_to_wire JS_Joining = JW_Joining"
| "state_to_wire JS_Probing = JW_Probing"
| "state_to_wire JS_Writing = JW_Writing"
| "state_to_wire JS_Verifying = JW_Verifying"
| "state_to_wire JS_Restarting = JW_Restarting"
| "state_to_wire JS_Done = JW_Done"
| "state_to_wire JS_Failed = JW_Failed"
| "state_to_wire JS_Cancelled = JW_Cancelled"

definition snapshot_to_wire :: "job_snapshot \<Rightarrow> job_snapshot_wire" where
  "snapshot_to_wire s =
     \<lparr>jsw_job_id = jsn_id s, jsw_state = state_to_wire (jsn_state s), jsw_driver = jsn_driver s,
      jsw_key = jsn_key s, jsw_detail = jsn_detail s\<rparr>"

definition snapshot_to_frame :: "job_snapshot \<Rightarrow> job_frame_wire" where
  "snapshot_to_frame s =
     \<lparr>jfw_job_id = jsn_id s, jfw_state = state_to_wire (jsn_state s), jfw_step = None,
      jfw_progress = None, jfw_detail = jsn_detail s\<rparr>"

definition job_frame_to_wire :: "job_frame \<Rightarrow> job_frame_wire" where
  "job_frame_to_wire f =
     \<lparr>jfw_job_id = jfr_id f, jfw_state = state_to_wire (jfr_state f), jfw_step = jfr_step f,
      jfw_progress = jfr_progress f, jfw_detail = jfr_detail f\<rparr>"

definition candidate_to_wire :: "cached_candidate \<Rightarrow> candidate_wire" where
  "candidate_to_wire c =
     \<lparr>cd_driver = cc_driver c, cd_key = cc_key c, cd_label = cc_label c, cd_rssi = cc_rssi c\<rparr>"

definition opt_bind :: "'a option \<Rightarrow> ('a \<Rightarrow> 'b option) \<Rightarrow> 'b option" where
  "opt_bind x f = (case x of None \<Rightarrow> None | Some v \<Rightarrow> f v)"

definition or_else :: "'a option \<Rightarrow> 'a option \<Rightarrow> 'a option" where
  "or_else x y = (case x of Some v \<Rightarrow> Some v | None \<Rightarrow> y)"

definition device_info_from_probe ::
    "'j json_lib \<Rightarrow> ('j \<Rightarrow> u64 option) \<Rightarrow> string \<Rightarrow> string \<Rightarrow> 'j \<Rightarrow> device_info_wire" where
  "device_info_from_probe L as_u64 drv key info =
     \<lparr>dw_driver = drv, dw_key = key,
      dw_firmware_revision = opt_bind (js_get L ''firmwareRevision'' info) (js_as_str L),
      dw_identity = or_else (opt_bind (js_get L ''throttleName'' info) (js_as_str L))
                      (opt_bind (js_pointer L ''/wifi/hostname'' info) (js_as_str L)),
      dw_battery_mv = map_option ucast (opt_bind (js_get L ''batteryMv'' info) as_u64),
      dw_roster = []\<rparr>"

section \<open>Dispatch\<close>

definition dispatch_hello :: "'j ipc_env \<Rightarrow> runtime \<Rightarrow> response \<times> runtime" where
  "dispatch_hello I rt =
     (ok_response K_Hello (R_Hello \<lparr>hr_version = cf_version (ie_config I),
        hr_commit = cf_commit (ie_config I), hr_drivers = driver_infos\<rparr>), rt)"

definition run_scan :: "'j env \<Rightarrow> reach_mode \<Rightarrow> runtime \<Rightarrow> (driver_error + cached_candidate list) \<times> runtime" where
  "run_scan E mode rt =
     (case mode of
        RM_Lan \<Rightarrow> scan_lan E rt
      | RM_Usb \<Rightarrow> scan_usb E rt
      | RM_Z21 \<Rightarrow> scan_z21 E rt
      | RM_Ap \<Rightarrow> scan_ap E rt)"

definition scan_mode :: "params option \<Rightarrow> reach_mode" where
  "scan_mode ps = (case ps of Some (P_Scan p) \<Rightarrow> sp_mode p | _ \<Rightarrow> RM_Ap)"

definition dispatch_scan :: "'j ipc_env \<Rightarrow> params option \<Rightarrow> runtime \<Rightarrow> response \<times> runtime" where
  "dispatch_scan I ps rt =
     (if scan_mode ps = RM_Ap \<and> rt_radio_held rt then (busy_response K_Scan, rt)
      else (case run_scan (ie_env I) (scan_mode ps) (ie_gap I rt) of
              (Inr found, rt1) \<Rightarrow> (ok_response K_Scan (R_Scan (map candidate_to_wire found)), rt1)
            | (Inl e, rt1) \<Rightarrow> (err_response K_Scan ''scan_failed'' (driver_error_text e), rt1)))"

definition dispatch_probe :: "'j ipc_env \<Rightarrow> params option \<Rightarrow> runtime \<Rightarrow> response \<times> runtime" where
  "dispatch_probe I ps rt =
     (case ps of
        Some (P_Probe p) \<Rightarrow>
          if rt_radio_held rt then (busy_response K_Probe, rt)
          else (case driver_for (pb_candidate p) of
                  None \<Rightarrow> (unknown_driver K_Probe, rt)
                | Some d \<Rightarrow>
                    (case probe (ie_env I) d (cr_key (pb_candidate p)) (ie_gap I rt) of
                       (Inr info, rt1) \<Rightarrow>
                         (ok_response K_Probe (R_Probe (device_info_from_probe
                            (dl_json (en_libs (ie_env I))) (ie_as_u64 I) (driver_id_str d)
                            (cr_key (pb_candidate p)) info)), rt1)
                     | (Inl e, rt1) \<Rightarrow> (err_response K_Probe ''probe_failed'' (driver_error_text e), rt1)))
      | _ \<Rightarrow> (missing_params K_Probe, rt))"

definition program_error_code :: "job_error \<Rightarrow> string" where
  "program_error_code e =
     (case e of
        JE_Busy j \<Rightarrow> ''busy''
      | JE_Validation v \<Rightarrow> ''validation''
      | _ \<Rightarrow> ''program_failed'')"

definition dispatch_program :: "'j ipc_env \<Rightarrow> params option \<Rightarrow> runtime \<Rightarrow> response \<times> runtime" where
  "dispatch_program I ps rt =
     (case ps of
        Some (P_Program p) \<Rightarrow>
          (case driver_for (pp_candidate p) of
             None \<Rightarrow> (unknown_driver K_Program, rt)
           | Some d \<Rightarrow>
               (case submit_program (ie_env I) (ie_now I) d (cr_key (pp_candidate p)) (pp_request p) rt of
                  (Inr jid, rt1) \<Rightarrow> (ok_response K_Program (R_Program \<lparr>pr_job_id = jid\<rparr>), rt1)
                | (Inl e, rt1) \<Rightarrow>
                    (err_response K_Program (program_error_code e) (job_error_text e), rt1)))
      | _ \<Rightarrow> (missing_params K_Program, rt))"

definition job_answer ::
    "request_kind \<Rightarrow> (job_snapshot_wire \<Rightarrow> result_body) \<Rightarrow> string \<Rightarrow> runtime \<Rightarrow> response" where
  "job_answer kind wrap jid rt =
     (case jobs_snapshot jid (rt_jobs rt) of
        Some s \<Rightarrow> ok_response kind (wrap (snapshot_to_wire s))
      | None \<Rightarrow> no_such_job kind)"

definition dispatch_job_get :: "params option \<Rightarrow> runtime \<Rightarrow> response \<times> runtime" where
  "dispatch_job_get ps rt =
     (case ps of
        Some (P_Job p) \<Rightarrow> (job_answer K_JobGet R_Job (jp_job_id p) rt, rt)
      | _ \<Rightarrow> (missing_params K_JobGet, rt))"

definition dispatch_job_cancel :: "'j ipc_env \<Rightarrow> params option \<Rightarrow> runtime \<Rightarrow> response \<times> runtime" where
  "dispatch_job_cancel I ps rt =
     (case ps of
        Some (P_Job p) \<Rightarrow>
          let rt1 = ie_gap I (rt\<lparr>rt_jobs := jobs_cancel (jp_job_id p) (rt_jobs rt)\<rparr>)
          in (job_answer K_JobCancel R_JobCancelled (jp_job_id p) rt1, rt1)
      | _ \<Rightarrow> (missing_params K_JobCancel, rt))"

definition dispatch_identify :: "'j ipc_env \<Rightarrow> params option \<Rightarrow> runtime \<Rightarrow> response \<times> runtime" where
  "dispatch_identify I ps rt =
     (case ps of
        Some (P_Identify p) \<Rightarrow>
          if rt_radio_held rt then (busy_response K_Identify, rt)
          else (case driver_for (ip_candidate p) of
                  None \<Rightarrow> (unknown_driver K_Identify, rt)
                | Some d \<Rightarrow>
                    (case blink (ie_env I) d (cr_key (ip_candidate p)) (ip_count p) (ie_gap I rt) of
                       (Inr u, rt1) \<Rightarrow> (ok_response K_Identify R_Identify, rt1)
                     | (Inl e, rt1) \<Rightarrow> (err_response K_Identify ''driverError'' (driver_error_text e), rt1)))
      | _ \<Rightarrow> (missing_params K_Identify, rt))"

definition link_interface :: "sys_fs \<Rightarrow> config \<Rightarrow> string option" where
  "link_interface S c =
     or_else (cf_interface c)
       (if is_fake_radio c then Some ''fake''
        else (case first_wireless_interface S of Inl e \<Rightarrow> None | Inr n \<Rightarrow> Some n))"

definition dispatch_link_status :: "'j ipc_env \<Rightarrow> runtime \<Rightarrow> response \<times> runtime" where
  "dispatch_link_status I rt =
     (ok_response K_LinkStatus (R_LinkStatus
        \<lparr>lw_busy = jobs_is_busy (rt_jobs rt),
         lw_interface = link_interface (ie_sys I) (ie_config I),
         lw_rfkill_blocked =
           (case rfkill_aggregate_state (ie_sys I) of Inl e \<Rightarrow> False | Inr s \<Rightarrow> reports_blocked s)\<rparr>), rt)"

definition firmware_driver :: "update_firmware_params \<Rightarrow> string" where
  "firmware_driver p = opt_or ''longfred'' (map_option cr_driver (uf_candidate p))"

definition firmware_key :: "update_firmware_params \<Rightarrow> string" where
  "firmware_key p = opt_or [] (or_else (uf_port p) (or_else (uf_host p) (map_option cr_key (uf_candidate p))))"

definition firmware_error_code :: "job_error \<Rightarrow> string" where
  "firmware_error_code e =
     (case e of
        JE_Busy j \<Rightarrow> ''busy''
      | JE_FirmwareUnsupported \<Rightarrow> ''driverError''
      | _ \<Rightarrow> ''firmware_failed'')"

text \<open>Without a key in USB mode the one port there is is taken.\<close>

definition only_usb_port :: "'j env \<Rightarrow> runtime \<Rightarrow> (response + string) \<times> runtime" where
  "only_usb_port E rt =
     (case scan_usb E rt of
        (Inr [c], rt1) \<Rightarrow> (Inr (cc_key c), rt1)
      | (Inr [], rt1) \<Rightarrow>
          (Inl (err_response K_UpdateFirmware ''noCandidates'' ''no USB serial ports; pass --port''), rt1)
      | (Inr _, rt1) \<Rightarrow>
          (Inl (err_response K_UpdateFirmware ''bad_params'' ''multiple USB ports; pass --port''), rt1)
      | (Inl e, rt1) \<Rightarrow>
          (Inl (err_response K_UpdateFirmware ''scan_failed'' (driver_error_text e)), rt1))"

definition firmware_job_of :: "update_firmware_params \<Rightarrow> string \<Rightarrow> firmware_job" where
  "firmware_job_of p key =
     \<lparr>fj_mode = uf_mode p, fj_path = uf_path p, fj_host = uf_host p,
      fj_port = or_else (uf_port p) (if uf_mode p = RM_Usb then Some key else None),
      fj_partition_table = uf_partition_table p\<rparr>"

definition submit_firmware_request ::
    "'j ipc_env \<Rightarrow> update_firmware_params \<Rightarrow> string \<Rightarrow> runtime \<Rightarrow> response \<times> runtime" where
  "submit_firmware_request I p key rt =
     (case driver_from_id (firmware_driver p) of
        None \<Rightarrow> (unknown_driver K_UpdateFirmware, rt)
      | Some d \<Rightarrow>
          (case submit_firmware (ie_env I) (ie_now I) d key (firmware_job_of p key) rt of
             (Inr jid, rt1) \<Rightarrow> (ok_response K_UpdateFirmware (R_UpdateFirmware \<lparr>pr_job_id = jid\<rparr>), rt1)
           | (Inl e, rt1) \<Rightarrow>
               (err_response K_UpdateFirmware (firmware_error_code e) (job_error_text e), rt1)))"

definition cache_firmware_host :: "update_firmware_params \<Rightarrow> runtime \<Rightarrow> runtime" where
  "cache_firmware_host p rt =
     (case uf_host p of
        Some h \<Rightarrow> if uf_mode p = RM_Lan then cache_lan_host h None rt else rt
      | None \<Rightarrow> rt)"

definition dispatch_update_firmware :: "'j ipc_env \<Rightarrow> params option \<Rightarrow> runtime \<Rightarrow> response \<times> runtime" where
  "dispatch_update_firmware I ps rt =
     (case ps of
        Some (P_UpdateFirmware p) \<Rightarrow>
          if firmware_key p = [] \<and> uf_mode p \<noteq> RM_Usb
          then (err_response K_UpdateFirmware ''bad_params'' ''candidate.key, host, or port is required'', rt)
          else (case (if firmware_key p = [] then only_usb_port (ie_env I) (cache_firmware_host p rt)
                      else (Inr (firmware_key p), cache_firmware_host p rt)) of
                  (Inl r, rt1) \<Rightarrow> (r, rt1)
                | (Inr key, rt1) \<Rightarrow>
                    submit_firmware_request I p key
                      (ie_gap I (if uf_mode p = RM_Usb then cache_usb_port key None rt1 else rt1)))
      | _ \<Rightarrow> (missing_params K_UpdateFirmware, rt))"

definition dispatch :: "'j ipc_env \<Rightarrow> request \<Rightarrow> runtime \<Rightarrow> response \<times> runtime" where
  "dispatch I req rt =
     (case rq_kind req of
        K_Hello \<Rightarrow> dispatch_hello I rt
      | K_Scan \<Rightarrow> dispatch_scan I (rq_params req) rt
      | K_Probe \<Rightarrow> dispatch_probe I (rq_params req) rt
      | K_Program \<Rightarrow> dispatch_program I (rq_params req) rt
      | K_JobGet \<Rightarrow> dispatch_job_get (rq_params req) rt
      | K_JobWatch \<Rightarrow> (err_response K_JobWatch ''internal'' ''job.watch must stream'', rt)
      | K_JobCancel \<Rightarrow> dispatch_job_cancel I (rq_params req) rt
      | K_Identify \<Rightarrow> dispatch_identify I (rq_params req) rt
      | K_LinkStatus \<Rightarrow> dispatch_link_status I rt
      | K_UpdateFirmware \<Rightarrow> dispatch_update_firmware I (rq_params req) rt)"

section \<open>Watching a job\<close>

text \<open>
  A reply is accepted by the connection or breaks it; \<open>accepts\<close> decides it from what was sent
  before. One pass of the loop reads the frames in one registry and, while nothing was sent,
  the snapshot in a later one; \<open>WR_Polling\<close> is a watcher that has used up the views given.
\<close>

type_synonym conn = "response list \<Rightarrow> response \<Rightarrow> bool"

datatype watch_result =
  WR_Closed "response list"
| WR_Broken "response list"
| WR_Polling "response list"

fun wr_sent :: "watch_result \<Rightarrow> response list" where
  "wr_sent (WR_Closed out) = out"
| "wr_sent (WR_Broken out) = out"
| "wr_sent (WR_Polling out) = out"

fun reply_all :: "conn \<Rightarrow> response list \<Rightarrow> response list \<Rightarrow> response list + response list" where
  "reply_all C [] out = Inr out"
| "reply_all C (r # rs) out = (if C out r then reply_all C rs (out @ [r]) else Inl out)"

definition frame_response :: "job_frame_wire \<Rightarrow> response" where
  "frame_response f = ok_response K_JobWatch (R_JobWatch f)"

definition close_after :: "conn \<Rightarrow> response \<Rightarrow> response list \<Rightarrow> watch_result" where
  "close_after C r out =
     (case reply_all C [r] out of Inl out' \<Rightarrow> WR_Broken out' | Inr out' \<Rightarrow> WR_Closed out')"

definition last_terminal :: "job_frame list \<Rightarrow> bool" where
  "last_terminal fs \<longleftrightarrow> fs \<noteq> [] \<and> jw_is_terminal (jfw_state (job_frame_to_wire (last fs)))"

text \<open>One pass of the loop either stops the stream or goes on with \<open>since\<close>, \<open>sent_snapshot\<close> and
  what was sent.\<close>

datatype watch_pass = WP_Stop watch_result | WP_Next nat bool "response list"

definition send_snapshot :: "conn \<Rightarrow> string \<Rightarrow> job_registry \<Rightarrow> response list \<Rightarrow> watch_pass" where
  "send_snapshot C jid r out =
     (case jobs_snapshot jid r of
        None \<Rightarrow> WP_Next 0 False out
      | Some s \<Rightarrow>
          (case reply_all C [frame_response (snapshot_to_frame s)] out of
             Inl out' \<Rightarrow> WP_Stop (WR_Broken out')
           | Inr out' \<Rightarrow>
               if jw_is_terminal (jfw_state (snapshot_to_frame s)) then WP_Stop (WR_Closed out')
               else WP_Next 0 True out'))"

definition poll_job ::
    "conn \<Rightarrow> string \<Rightarrow> job_registry \<times> job_registry \<Rightarrow> nat \<Rightarrow> bool \<Rightarrow> response list \<Rightarrow> watch_pass" where
  "poll_job C jid v since sent out =
     (case jobs_frames_since jid since (fst v) of
        None \<Rightarrow> WP_Stop (close_after C (no_such_job K_JobWatch) out)
      | Some fs \<Rightarrow>
          (case reply_all C (map (frame_response \<circ> job_frame_to_wire) fs) out of
             Inl out' \<Rightarrow> WP_Stop (WR_Broken out')
           | Inr out' \<Rightarrow>
               if last_terminal fs then WP_Stop (WR_Closed out')
               else if since + length fs = 0 \<and> \<not> sent then send_snapshot C jid (snd v) out'
               else WP_Next (since + length fs) sent out'))"

fun watch_loop ::
    "conn \<Rightarrow> string \<Rightarrow> (job_registry \<times> job_registry) list \<Rightarrow> nat \<Rightarrow> bool \<Rightarrow> response list \<Rightarrow> watch_result" where
  "watch_loop C jid [] since sent out = WR_Polling out"
| "watch_loop C jid (v # views) since sent out =
     (case poll_job C jid v since sent out of
        WP_Stop res \<Rightarrow> res
      | WP_Next since' sent' out' \<Rightarrow> watch_loop C jid views since' sent' out')"

definition stream_job_watch ::
    "conn \<Rightarrow> params option \<Rightarrow> job_registry \<Rightarrow> (job_registry \<times> job_registry) list \<Rightarrow> watch_result" where
  "stream_job_watch C ps r0 views =
     (case ps of
        Some (P_Job p) \<Rightarrow>
          if jobs_snapshot (jp_job_id p) r0 = None
          then close_after C (no_such_job K_JobWatch) []
          else watch_loop C (jp_job_id p) views 0 False []
      | _ \<Rightarrow> close_after C (missing_params K_JobWatch) [])"

section \<open>Commands\<close>

text \<open>\<open>wp_router\<close>: the names of the commands; every one but \<open>job.watch\<close> replies once.\<close>

definition wp_router :: "(string \<times> request_kind) list" where
  "wp_router =
     [(''hello'', K_Hello), (''scan'', K_Scan), (''probe'', K_Probe), (''program'', K_Program),
      (''job.get'', K_JobGet), (''job.watch'', K_JobWatch), (''job.cancel'', K_JobCancel),
      (''identify'', K_Identify), (''link.status'', K_LinkStatus), (''updateFirmware'', K_UpdateFirmware)]"

datatype ipc_end = IE_Ok | IE_Other string | IE_Hangup | IE_Reply | IE_Running

text \<open>
  One command: what it sends, how it ends, and the runtime after it. The body is the message
  after \<open>serde_json::from_value\<close>; the views are what a watcher polls.
\<close>

definition execute_once ::
    "'j ipc_env \<Rightarrow> conn \<Rightarrow> string + request \<Rightarrow> runtime \<Rightarrow> response list \<times> ipc_end \<times> runtime" where
  "execute_once I C body rt =
     (case body of
        Inl e \<Rightarrow> ([], IE_Other e, rt)
      | Inr req \<Rightarrow>
          (case dispatch I req rt of
             (resp, rt1) \<Rightarrow> if C [] resp then ([resp], IE_Ok, rt1) else ([], IE_Reply, rt1)))"

definition execute_watch ::
    "conn \<Rightarrow> string + request \<Rightarrow> job_registry \<Rightarrow> (job_registry \<times> job_registry) list
       \<Rightarrow> response list \<times> ipc_end" where
  "execute_watch C body r0 views =
     (case body of
        Inl e \<Rightarrow> ([], IE_Other e)
      | Inr req \<Rightarrow>
          (case stream_job_watch C (rq_params req) r0 views of
             WR_Broken out \<Rightarrow> (out, IE_Reply)
           | WR_Closed out \<Rightarrow> (out, IE_Hangup)
           | WR_Polling out \<Rightarrow> (out, IE_Running)))"

definition hook_unknown :: "string \<Rightarrow> response" where
  "hook_unknown name = err_response K_Hello ''unknown_type'' (''unknown type `'' @ name @ ''`'')"

definition hook_error :: "string \<Rightarrow> response" where
  "hook_error text = err_response K_Hello ''internal'' text"

definition hook_reject :: "bool \<Rightarrow> response option" where
  "hook_reject auth =
     (if auth then Some (err_response K_Hello ''forbidden'' ''peer not allowed'') else None)"

section \<open>The socket\<close>

datatype auth = AU_None | AU_PeerUser "string list" bool bool

definition accept_auth :: "config \<Rightarrow> auth" where
  "accept_auth c = (if cf_require_auth c then AU_PeerUser (cf_allow_users c) False True else AU_None)"

record passwd_entry =
  pe_name :: string
  pe_uid :: u32
  pe_gid :: u32

definition parse_passwd_line :: "string \<Rightarrow> passwd_entry option" where
  "parse_passwd_line line =
     (case split_char (CHR '':'') line of
        name # pw # uid # gid # _ \<Rightarrow>
          opt_bind (parse_u32 uid) (\<lambda>u. opt_bind (parse_u32 gid) (\<lambda>g.
            Some \<lparr>pe_name = name, pe_uid = u, pe_gid = g\<rparr>))
      | _ \<Rightarrow> None)"

definition parse_passwd :: "string \<Rightarrow> passwd_entry list" where
  "parse_passwd content = List.map_filter parse_passwd_line (lines content)"

definition primary_gid_for_user :: "string option \<Rightarrow> string \<Rightarrow> u32 option" where
  "primary_gid_for_user passwd name =
     opt_bind passwd (\<lambda>content. map_option pe_gid (find (\<lambda>e. pe_name e = name) (parse_passwd content)))"

text \<open>The group that \<open>set_socket_group\<close> gives the socket to, if any.\<close>

definition set_socket_group :: "string option \<Rightarrow> config \<Rightarrow> u32 option" where
  "set_socket_group passwd c = opt_bind (socket_group_owner c) (primary_gid_for_user passwd)"

end
