(* ===== verification/Wp_Startup.thy ===== *)
theory Wp_Startup
  imports Wp_FakeDevices Wp_Radio Wp_Ipc
begin

text \<open>
  The start of the daemon (\<open>cli/daemon.rs\<close>, \<open>Runtime::new\<close>, \<open>Server::run\<close>) and of the standalone mock
  (\<open>cli/fake.rs\<close>): what is opened, in which order, and the exit code. The host answers each call;
  the serving loops themselves are the theories of the worker, the IPC server and the mocks.
\<close>

section \<open>The host\<close>

text \<open>
  \<open>Some\<close> text is the error of a call. \<open>dh_listener\<close> hands the mock's listener to the asynchronous
  runtime; \<open>dh_duplicate\<close> is the text of the error for a command that is registered twice.
\<close>

record daemon_host =
  dh_sys :: sys_fs
  dh_int_error :: "string \<Rightarrow> string"
  dh_bind_port :: "u16 \<Rightarrow> string + u16"
  dh_tokio :: "string option"
  dh_listener :: "string option"
  dh_ipc_bind :: "string \<Rightarrow> nat \<Rightarrow> string option"
  dh_passwd :: "string option"
  dh_duplicate :: string
  dh_max_frame :: nat

datatype daemon_radio = DR_Fake fake_radio | DR_Kernel nl_radio

fun radio_device :: "daemon_radio \<Rightarrow> string option" where
  "radio_device (DR_Fake r) = None"
| "radio_device (DR_Kernel r) = Some (rd_iface r)"

record accept_policy =
  ac_auth :: auth
  ac_persistent :: bool
  ac_max_clients :: "nat option"
  ac_max_frame :: nat

text \<open>What the start does: the runtime with its worker on a radio, the mock's server, the socket of the
  requests with its mode, its group, and the requests served under a policy.\<close>

datatype startup_act =
    SU_Runtime daemon_radio runtime
  | SU_FakeServe
  | SU_Bind string nat
  | SU_Chown string u32
  | SU_Serve accept_policy

section \<open>The steps\<close>

definition runtime_new :: runtime where
  "runtime_new = \<lparr>rt_jobs = jobs_new, rt_queue = [], rt_cache = [], rt_radio_held = False, rt_radio = [],
     rt_pending = []\<rparr>"

definition open_radio :: "daemon_host \<Rightarrow> bool \<Rightarrow> config \<Rightarrow> string + daemon_radio" where
  "open_radio H fake c =
     (if fake then Inr (DR_Fake one_per_driver)
      else case radio_with_interface_opt (dh_int_error H) (dh_sys H) (cf_interface c) of
        Inl e \<Rightarrow> Inl (''radio open: '' @ driver_error_text e)
      | Inr r \<Rightarrow> Inr (DR_Kernel r))"

definition start_runtime :: "daemon_host \<Rightarrow> daemon_radio \<Rightarrow> driver_error + startup_act" where
  "start_runtime H radio =
     (case dh_tokio H of
        Some e \<Rightarrow> Inl (DE_Other (''tokio runtime: '' @ e))
      | None \<Rightarrow> Inr (SU_Runtime radio runtime_new))"

text \<open>\<open>spawn_fake_from_std_listener\<close>\<close>

definition spawn_fake :: "daemon_host \<Rightarrow> string + startup_act" where
  "spawn_fake H = (case dh_listener H of Some e \<Rightarrow> Inl e | None \<Rightarrow> Inr SU_FakeServe)"

definition serve_policy :: "daemon_host \<Rightarrow> config \<Rightarrow> accept_policy" where
  "serve_policy H c =
     \<lparr>ac_auth = accept_auth c, ac_persistent = True, ac_max_clients = None, ac_max_frame = dh_max_frame H\<rparr>"

text \<open>\<open>Server::run\<close>: the error and what was done.\<close>

definition server_run :: "daemon_host \<Rightarrow> config \<Rightarrow> string option \<times> startup_act list" where
  "server_run H c =
     (case dh_ipc_bind H (cf_socket c) (cf_socket_mode c) of
        Some e \<Rightarrow> (Some e, [])
      | None \<Rightarrow>
          let opened = SU_Bind (cf_socket c) (cf_socket_mode c)
                # (case set_socket_group (dh_passwd H) c of
                     Some gid \<Rightarrow> [SU_Chown (cf_socket c) gid]
                   | None \<Rightarrow> [])
          in if distinct (map fst wp_router) then (None, opened @ [SU_Serve (serve_policy H c)])
             else (Some (dh_duplicate H), opened))"

text \<open>\<open>run_daemon\<close>: the error that is logged before the failure exit, \<open>None\<close> for success, and what was done.\<close>

definition run_daemon ::
    "daemon_host \<Rightarrow> daemon_args \<Rightarrow> string option \<Rightarrow> config \<Rightarrow> string option \<times> startup_act list" where
  "run_daemon H args socket_override cfg =
     (case daemon_config (dh_sys H) (dh_bind_port H) args socket_override cfg of
        Inl e \<Rightarrow> (Some e, [])
      | Inr (fake, c) \<Rightarrow>
          (case open_radio H fake c of
             Inl e \<Rightarrow> (Some e, [])
           | Inr radio \<Rightarrow>
               (case start_runtime H radio of
                  Inl e \<Rightarrow> (Some (''runtime: '' @ driver_error_text e), [])
                | Inr started \<Rightarrow>
                    (case if fake then ok_map (\<lambda>a. [a]) (spawn_fake H) else Inr [] of
                       Inl e \<Rightarrow> (Some (''fake webserver: '' @ e), [started])
                     | Inr mock \<Rightarrow>
                         let (r, acts) = server_run H c
                         in (map_option (\<lambda>e. ''fatal: '' @ e) r, [started] @ mock @ acts)))))"

definition daemon_exit :: "string option \<times> startup_act list \<Rightarrow> nat" where
  "daemon_exit out = (case fst out of None \<Rightarrow> 0 | Some e \<Rightarrow> 1)"

text \<open>
  \<open>run_fake\<close>: the exit code, and the mock with the address that it is served on until the interrupt,
  if it comes that far.
\<close>

definition run_fake ::
    "'j json_lib \<Rightarrow> string option \<Rightarrow> (string \<Rightarrow> string + string) \<Rightarrow> string option \<Rightarrow> string \<Rightarrow> string
       \<Rightarrow> nat \<times> ('j fake_dev \<times> string) option" where
  "run_fake J tokio bind_addr interrupt driver addr =
     (case fake_of_driver J driver of
        None \<Rightarrow> (1, None)
      | Some device \<Rightarrow>
          (case tokio of
             Some e \<Rightarrow> (1, None)
           | None \<Rightarrow>
               (case bind_addr addr of
                  Inl e \<Rightarrow> (1, None)
                | Inr bound \<Rightarrow> (case interrupt of None \<Rightarrow> 0 | Some e \<Rightarrow> 1, Some (device, bound)))))"

section \<open>Properties\<close>

lemma router_distinct: "distinct (map fst wp_router)"
  by (simp add: wp_router_def)

lemma server_run_cases:
  "server_run H c =
     (case dh_ipc_bind H (cf_socket c) (cf_socket_mode c) of
        Some e \<Rightarrow> (Some e, [])
      | None \<Rightarrow>
          (None, SU_Bind (cf_socket c) (cf_socket_mode c)
                # (case set_socket_group (dh_passwd H) c of Some gid \<Rightarrow> [SU_Chown (cf_socket c) gid] | None \<Rightarrow> [])
                @ [SU_Serve (serve_policy H c)]))"
  by (simp add: server_run_def router_distinct Let_def split: option.split)

lemma started_mock:
  "(if fake then ok_map (\<lambda>a. [a]) (spawn_fake H) else Inr []) =
     (case if fake then dh_listener H else None of
        Some e \<Rightarrow> Inl e | None \<Rightarrow> Inr (if fake then [SU_FakeServe] else []))"
  by (simp add: spawn_fake_def split: option.split)

text \<open>The start as one list of actions, or a failure that serves nothing.\<close>

lemma run_daemon_cases:
  assumes "run_daemon H args sock cfg = (r, acts)"
  shows "r \<noteq> None \<and> (\<forall>p. SU_Serve p \<notin> set acts)
       \<or> (\<exists>fake c radio. daemon_config (dh_sys H) (dh_bind_port H) args sock cfg = Inr (fake, c)
            \<and> open_radio H fake c = Inr radio \<and> r = None
            \<and> acts = SU_Runtime radio runtime_new # (if fake then [SU_FakeServe] else [])
                @ SU_Bind (cf_socket c) (cf_socket_mode c)
                # (case set_socket_group (dh_passwd H) c of Some gid \<Rightarrow> [SU_Chown (cf_socket c) gid] | None \<Rightarrow> [])
                @ [SU_Serve (serve_policy H c)])"
proof (cases "daemon_config (dh_sys H) (dh_bind_port H) args sock cfg")
  case (Inl e)
  with assms show ?thesis by (auto simp: run_daemon_def)
next
  case (Inr fc)
  obtain fake c where fc: "fc = (fake, c)" by (cases fc)
  show ?thesis
  proof (cases "open_radio H fake c")
    case (Inl e)
    with Inr fc assms show ?thesis by (auto simp: run_daemon_def)
  next
    case radio: (Inr radio)
    show ?thesis
      using assms
      by (cases "dh_tokio H"; cases "if fake then dh_listener H else None";
          cases "dh_ipc_bind H (cf_socket c) (cf_socket_mode c)")
        (auto simp: run_daemon_def start_runtime_def started_mock server_run_cases Inr fc radio)
  qed
qed

lemma daemon_exit_iff_serves: "daemon_exit (run_daemon H args sock cfg) = 0 \<longleftrightarrow> (\<exists>p. SU_Serve p \<in> set (snd (run_daemon H args sock cfg)))"
  using run_daemon_cases [OF prod.collapse [symmetric], of H args sock cfg]
  by (auto simp: daemon_exit_def split: option.split)

lemma open_radio_device: "open_radio H fake c = Inr radio \<Longrightarrow> radio_device radio = None \<longleftrightarrow> fake"
  by (auto simp: open_radio_def split: if_splits sum.splits)

text \<open>The runtime of a started daemon is one that the invariants of the registry and the queue hold of.\<close>

lemma runtime_new_reach: "runtime_reach E runtime_new"
  by (rule rr_start) (simp_all add: runtime_new_def)

text \<open>C15: the daemon serves as it was configured, for every environment, every flags and every answer
  of the host. A start that serves requests at all has started the worker on an idle runtime first,
  with a kernel radio exactly when it is not the fake mode, then the mock in fake mode,
  then bound the socket and given it its group. Peers are authenticated
  exactly when the variable, the flag or a non-empty list of users asks for it and the radio is a real
  one: then the socket has the mode 0660 and the allowlist is the users of the flag, else of the
  variable, else the two default users, never empty and without a bypass for root; otherwise the
  socket is open to all (0666).\<close>

theorem daemon_serves_as_configured:
  assumes "run_daemon H args sock (config_default env dd vi pv) = (r, acts)" and "SU_Serve p \<in> set acts"
  shows "\<exists>fake c radio group.
       daemon_config (dh_sys H) (dh_bind_port H) args sock (config_default env dd vi pv) = Inr (fake, c)
     \<and> r = None \<and> (radio_device radio = None \<longleftrightarrow> fake)
     \<and> group = (case set_socket_group (dh_passwd H) c of Some gid \<Rightarrow> [SU_Chown (cf_socket c) gid] | None \<Rightarrow> [])
     \<and> acts = SU_Runtime radio runtime_new # (if fake then [SU_FakeServe] else [])
         @ SU_Bind (cf_socket c) (if ac_auth p = AU_None then SHARED_MODE else GROUP_MODE) # group @ [SU_Serve p]
     \<and> ac_auth p =
         (if \<not> fake \<and> (resolve_require_auth env \<or> da_require_auth args
                \<or> (\<exists>v. da_allow_users args = Some v \<and> split_users v \<noteq> []))
          then AU_PeerUser (effective_users env (da_allow_users args)) False True
          else AU_None)
     \<and> effective_users env (da_allow_users args) \<noteq> []"
proof -
  obtain fake c radio where c: "daemon_config (dh_sys H) (dh_bind_port H) args sock (config_default env dd vi pv) = Inr (fake, c)"
      and radio: "open_radio H fake c = Inr radio" and r: "r = None"
      and acts: "acts = SU_Runtime radio runtime_new # (if fake then [SU_FakeServe] else [])
                @ SU_Bind (cf_socket c) (cf_socket_mode c)
                # (case set_socket_group (dh_passwd H) c of Some gid \<Rightarrow> [SU_Chown (cf_socket c) gid] | None \<Rightarrow> [])
                @ [SU_Serve (serve_policy H c)]"
    using run_daemon_cases [OF assms(1)] assms(2) by metis
  have p: "p = serve_policy H c"
    using assms(2) by (auto simp: acts split: option.splits if_splits)
  note auth = daemon_auth_settings [OF c]
  have policy: "ac_auth p =
         (if \<not> fake \<and> (resolve_require_auth env \<or> da_require_auth args
                \<or> (\<exists>v. da_allow_users args = Some v \<and> split_users v \<noteq> []))
          then AU_PeerUser (effective_users env (da_allow_users args)) False True
          else AU_None)"
    using auth by (simp add: p serve_policy_def accept_auth_def)
  have "ac_auth p = AU_None \<longleftrightarrow> \<not> cf_require_auth c" by (simp add: p serve_policy_def accept_auth_def)
  moreover from auth have "cf_socket_mode c = (if cf_require_auth c then GROUP_MODE else SHARED_MODE)" by blast
  ultimately have mode: "cf_socket_mode c = (if ac_auth p = AU_None then SHARED_MODE else GROUP_MODE)"
    by (cases "cf_require_auth c") simp_all
  show ?thesis
    using c r acts [unfolded mode p [symmetric]] policy effective_users_nonempty open_radio_device [OF radio]
    by (intro exI [of _ fake] exI [of _ c] exI [of _ radio] exI conjI) (assumption | rule refl)+
qed

text \<open>A hub with one wireless interface, started with \<open>--require-auth\<close>.\<close>

definition demo_host :: daemon_host where
  "demo_host =
     \<lparr>dh_sys = \<lparr>sf_dir = (\<lambda>p. Inr [Inr ''wlan0'']), sf_exists = (\<lambda>p. True), sf_read = (\<lambda>p. Inr ''3'')\<rparr>,
      dh_int_error = id, dh_bind_port = (\<lambda>p. Inl ''address in use''), dh_tokio = None, dh_listener = None,
      dh_ipc_bind = (\<lambda>path mode. None), dh_passwd = Some ''bigfred:x:1:2::/home/bigfred:/bin/sh'',
      dh_duplicate = ''duplicate'', dh_max_frame = 1048576\<rparr>"

lemma demo_answers: "dh_tokio demo_host = None" "dh_ipc_bind demo_host path mode = None"
  by (simp_all add: demo_host_def)

lemma demo_radio: "\<exists>radio. open_radio demo_host False auth_config = Inr radio"
proof -
  have "trim ''3'' = ''3''" "digit_val 10 (CHR ''3'') = Some 3" by code_simp+
  then have "parse_u32 (trim ''3'') = Some 3"
    by (simp add: parse_u32_def parse_uint_def)
  then show ?thesis
    by (simp add: open_radio_def radio_with_interface_opt_def demo_host_def auth_config_def config_default_def Let_def
        resolve_interface_env_def nonempty_var_def bare_env_def resolve_wireless_interface_def
        first_wireless_interface_def interface_index_def)
qed

lemma demo_group: "set_socket_group (dh_passwd demo_host) auth_config = Some 2"
proof -
  let ?line = "''bigfred:x:1:2::/home/bigfred:/bin/sh''"
  have line: "lines ?line = [?line]" by code_simp
  have fields: "split_char (CHR '':'') ?line = [''bigfred'', ''x'', ''1'', ''2'', [], ''/home/bigfred'', ''/bin/sh'']"
    by code_simp
  have "digit_val 10 (CHR ''1'') = Some 1" "digit_val 10 (CHR ''2'') = Some 2" by code_simp+
  then have "parse_u32 ''1'' = Some 1" "parse_u32 ''2'' = Some 2"
    by (simp_all add: parse_u32_def parse_uint_def)
  then have entry: "parse_passwd_line ?line = Some \<lparr>pe_name = ''bigfred'', pe_uid = 1, pe_gid = 2\<rparr>"
    by (simp only: parse_passwd_line_def fields) (simp add: opt_bind_def)
  have owner: "socket_group_owner auth_config = Some ''bigfred''"
    by (simp add: socket_group_owner_def auth_config_def config_default_def Let_def default_allow_users_def
        nonempty_var_def bare_env_def)
  show ?thesis
    by (simp only: set_socket_group_def owner opt_bind_def option.case primary_gid_for_user_def demo_host_def daemon_host.select_convs)
      (simp only: parse_passwd_def line; simp add: List.map_filter_def entry)
qed

theorem daemon_serves_as_configured_witness:
  "\<exists>radio p. run_daemon demo_host auth_args None (config_default bare_env ''/data'' dev_version ''0.1.0'')
       = (None, [SU_Runtime radio runtime_new, SU_Bind (cf_socket auth_config) GROUP_MODE,
                 SU_Chown (cf_socket auth_config) 2, SU_Serve p])
     \<and> ac_auth p = AU_PeerUser default_allow_users False True"
proof -
  let ?run = "run_daemon demo_host auth_args None (config_default bare_env ''/data'' dev_version ''0.1.0'')"
  obtain radio where radio: "open_radio demo_host False auth_config = Inr radio" using demo_radio by blast
  have "SU_Serve (serve_policy demo_host auth_config) \<in> set (snd ?run)"
    by (simp add: run_daemon_def auth_config_run radio start_runtime_def server_run_cases demo_answers)
  from daemon_serves_as_configured [OF prod.collapse [symmetric] this]
  obtain fake c radio group where c: "Inr (False, auth_config) = Inr (fake, c)" and r: "fst ?run = None"
    and group: "group = (case set_socket_group (dh_passwd demo_host) c of
        Some gid \<Rightarrow> [SU_Chown (cf_socket c) gid] | None \<Rightarrow> [])"
    and acts: "snd ?run = SU_Runtime radio runtime_new # (if fake then [SU_FakeServe] else []) @ SU_Bind (cf_socket c)
        (if ac_auth (serve_policy demo_host auth_config) = AU_None then SHARED_MODE else GROUP_MODE)
        # group @ [SU_Serve (serve_policy demo_host auth_config)]"
    and policy: "ac_auth (serve_policy demo_host auth_config)
        = (if \<not> fake \<and> (resolve_require_auth bare_env \<or> da_require_auth auth_args
              \<or> (\<exists>v. da_allow_users auth_args = Some v \<and> split_users v \<noteq> []))
           then AU_PeerUser (effective_users bare_env (da_allow_users auth_args)) False True else AU_None)"
    unfolding auth_config_run by blast
  from c policy have p: "ac_auth (serve_policy demo_host auth_config) = AU_PeerUser default_allow_users False True"
    by (simp add: auth_args_def effective_users_def bare_env_def)
  with c r acts group demo_group show ?thesis by (auto simp: prod_eq_iff)
qed

end
