(* ===== verification/Wp_WorkerSteps.thy ===== *)
theory Wp_WorkerSteps
  imports Wp_WorkerProps
begin

text \<open>
  The states a programming job goes through. Each driver reports its steps in an order that only
  moves forward (\<open>advances\<close>, the locale \<open>staged_program\<close>), and the worker turns them into frames of the
  job; whatever clients do in between, the frames follow the state machine queued, joining,
  probing, writing, verifying, restarting, finished without a step back. Firmware jobs are not
  included: over a device network they are put to writing before they join.
\<close>

section \<open>The order of the states\<close>

fun job_rank :: "job_state \<Rightarrow> nat" where
  "job_rank JS_Queued = 0"
| "job_rank JS_Joining = 1"
| "job_rank JS_Probing = 2"
| "job_rank JS_Writing = 3"
| "job_rank JS_Verifying = 4"
| "job_rank JS_Restarting = 5"
| "job_rank JS_Done = 6"
| "job_rank JS_Failed = 6"
| "job_rank JS_Cancelled = 6"

lemma job_rank_terminal: "js_is_terminal st \<Longrightarrow> job_rank st = 6"
  by (cases st) simp_all

lemma job_rank_le: "job_rank st \<le> 6"
  by (cases st) simp_all

lemma job_rank_live: "\<not> js_is_terminal st \<Longrightarrow> job_rank st \<le> 5"
  by (cases st) simp_all

section \<open>The steps of a driver\<close>

fun step_ranks :: "dev_event list \<Rightarrow> nat list" where
  "step_ranks [] = []"
| "step_ranks (Ev_Step s # es) = job_rank (step_state s) # step_ranks es"
| "step_ranks (_ # es) = step_ranks es"

lemma step_ranks_append [simp]: "step_ranks (a @ b) = step_ranks a @ step_ranks b"
  by (induction a rule: step_ranks.induct) auto

text \<open>\<open>advances m a b\<close>: the steps \<open>m\<close> reports are in order and lie between the ranks \<open>a\<close> and \<open>b\<close>.\<close>

definition advances :: "'a dev_io \<Rightarrow> nat \<Rightarrow> nat \<Rightarrow> bool" where
  "advances m a b \<longleftrightarrow>
     (\<forall>tr. \<exists>es. snd (m tr) = tr @ es \<and> sorted (step_ranks es) \<and> (\<forall>n \<in> set (step_ranks es). a \<le> n \<and> n \<le> b))"

named_theorems advances_intro "steps in order"

lemma advances_quiet [advances_intro]:
  "advances (dev_return x) a b" "advances (dev_fail e) a b" "advances (dev_lift r) a b"
  "advances (dev_request_err f d q) a b" "advances (dev_request d q) a b"
  by (auto simp: advances_def dev_io_defs)

lemma advances_step: "a \<le> job_rank (step_state s) \<Longrightarrow> job_rank (step_state s) \<le> b \<Longrightarrow> advances (ev_step s) a b"
  by (simp add: advances_def ev_step_def)

lemma advances_bind:
  assumes m: "advances m a b" and f: "\<And>x. advances (f x) b c" and "a \<le> b" "b \<le> c"
  shows "advances (dev_bind m f) a c"
  unfolding advances_def
proof
  fix tr
  obtain r tr1 where mt: "m tr = (r, tr1)" by (cases "m tr")
  with m obtain e1 where e1: "tr1 = tr @ e1" "sorted (step_ranks e1)" "\<forall>n \<in> set (step_ranks e1). a \<le> n \<and> n \<le> b"
    unfolding advances_def by (metis snd_conv)
  show "\<exists>es. snd (dev_bind m f tr) = tr @ es \<and> sorted (step_ranks es) \<and> (\<forall>n \<in> set (step_ranks es). a \<le> n \<and> n \<le> c)"
  proof (cases r)
    case (Inl e)
    with mt e1 assms(4) show ?thesis by (intro exI [of _ e1]) (auto simp: dev_bind_def)
  next
    case (Inr x)
    from f [of x] obtain e2 where e2: "snd (f x tr1) = tr1 @ e2" "sorted (step_ranks e2)"
        "\<forall>n \<in> set (step_ranks e2). b \<le> n \<and> n \<le> c"
      unfolding advances_def by metis
    have "sorted (step_ranks e1 @ step_ranks e2)"
      using e1(2,3) e2(2,3) by (fastforce simp: sorted_append)
    with mt Inr e1 e2 assms(3,4) show ?thesis
      by (intro exI [of _ "e1 @ e2"]) (fastforce simp: dev_bind_def)
  qed
qed

lemma advances_then: "advances m a b \<Longrightarrow> advances k b c \<Longrightarrow> a \<le> b \<Longrightarrow> b \<le> c \<Longrightarrow> advances (dev_then m k) a c"
  unfolding dev_then_def by (rule advances_bind)

lemma advances_bind_same [advances_intro]:
  "advances m a a \<Longrightarrow> (\<And>x. advances (f x) a a) \<Longrightarrow> advances (dev_bind m f) a a"
  by (rule advances_bind) auto

lemma advances_then_same [advances_intro]:
  "advances m a a \<Longrightarrow> advances k a a \<Longrightarrow> advances (dev_then m k) a a"
  unfolding dev_then_def by (rule advances_bind_same)

lemma advances_if [advances_intro]: "advances m a b \<Longrightarrow> advances k a b \<Longrightarrow> advances (if c then m else k) a b"
  by simp

lemma advances_for_each [advances_intro]: "(\<And>x. advances (f x) a a) \<Longrightarrow> advances (for_each f xs) a a"
  by (induction xs) (auto intro: advances_intro)

lemma wifred_write_advances: "advances (wifred_write xl d req) 2 3"
proof -
  have step: "advances (ev_step s) 3 3" if "s \<in> {''identity'', ''locos'', ''functions'', ''server'', ''wifi''}" for s
    by (rule advances_step) (use that in \<open>auto simp: step_state_def\<close>)
  have read: "advances (ev_step ''read'') 2 2" by (rule advances_step) (simp_all add: step_state_def)
  have get: "advances (wifred_get d p) a a" for p a
    unfolding wifred_get_def by (intro advances_intro)
  have config: "advances (dev_bind (wifred_read_config xl d) (\<lambda>cfg. dev_lift (g cfg))) a a" for g a
    unfolding wifred_read_config_def by (intro advances_intro)
  show ?thesis
    unfolding wifred_write_def
    by (rule advances_then [where b = 2], rule read, rule advances_then [where b = 2], rule config,
        rule advances_then [where b = 3], rule advances_step, simp_all add: step_state_def)
      (intro advances_intro step get; simp)
qed

lemma wifred_program_advances: "advances (wifred_program xl t req) 2 5"
proof (cases t)
  case (T_Http d)
  have verify: "advances (wifred_readback xl d req) 3 4"
    unfolding wifred_readback_def wifred_read_config_def Let_def
    by (rule advances_then [where b = 4], rule advances_step) (simp_all add: step_state_def, intro advances_intro)
  have restart: "advances (dev_then (ev_step ''restart'') (dev_then (wifred_get d ''/restart.html'')
      (dev_return \<lparr>oc_restarted = True, oc_mismatches = []\<rparr>))) 4 5"
    unfolding wifred_get_def
    by (rule advances_then [where b = 5], rule advances_step) (simp_all add: step_state_def, intro advances_intro)
  show ?thesis
    unfolding wifred_program_def T_Http
    by (simp, rule advances_then [where b = 3], rule wifred_write_advances, rule advances_then [where b = 4],
        rule verify, rule restart) simp_all
qed (simp add: wifred_program_def advances_quiet)

lemma longfred_program_advances: "advances (longfred_program J t req) 2 5"
proof (cases t)
  case (T_Http d)
  have verify: "advances (longfred_readback J d req) 3 4"
    unfolding longfred_readback_def Let_def
    by (rule advances_then [where b = 4], rule advances_step) (simp_all add: step_state_def, intro advances_intro)
  have exit: "advances (dev_then (ev_step ''exit'') (dev_bind (dev_request d off_request) (\<lambda>_.
      dev_return \<lparr>oc_restarted = True, oc_mismatches = []\<rparr>))) 4 5"
    by (rule advances_then [where b = 5], rule advances_step) (simp_all add: step_state_def, intro advances_intro)
  show ?thesis
    unfolding longfred_program_def T_Http
    by (simp, rule advances_then [where b = 3], rule advances_step, simp_all add: step_state_def,
        rule advances_bind [where b = 3], rule advances_quiet, rule advances_bind [where b = 3], rule advances_quiet,
        rule advances_then [where b = 4], rule verify, rule exit) simp_all
qed (simp add: longfred_program_def advances_quiet)

text \<open>What the progress sink relies on, whatever the driver.\<close>

locale staged_program =
  fixes prog :: "transport \<Rightarrow> program_request \<Rightarrow> 'a dev_io"
  assumes advances_prog: "advances (prog t req) 2 5"
begin

lemma steps_in_order:
  assumes "prog t req [] = (r, es)"
  shows "sorted (step_ranks es) \<and> (\<forall>n \<in> set (step_ranks es). 2 \<le> n \<and> n \<le> 5)"
proof -
  obtain es' where "snd (prog t req []) = [] @ es'" "sorted (step_ranks es')"
      "\<forall>n \<in> set (step_ranks es'). 2 \<le> n \<and> n \<le> 5"
    using advances_prog [of t req] unfolding advances_def by blast
  with assms show ?thesis by simp
qed

end

interpretation wifred_stages: staged_program "wifred_program xl" for xl
  by unfold_locales (rule wifred_program_advances)

interpretation longfred_stages: staged_program "longfred_program J" for J
  by unfold_locales (rule longfred_program_advances)

interpretation fred_stages: staged_program fred_program
  by unfold_locales (simp add: fred_program_def advances_quiet)

interpretation rb23xx_stages: staged_program rb23xx_program
  by unfold_locales (simp add: rb23xx_program_def advances_quiet)

lemma registry_program_advances: "advances (registry_program L d t req) 2 5"
  by (cases d) (simp_all add: wifred_stages.advances_prog longfred_stages.advances_prog
      fred_stages.advances_prog rb23xx_stages.advances_prog)

interpretation registry_stages: staged_program "registry_program L d" for L d
  by unfold_locales (rule registry_program_advances)

section \<open>The frames of the job\<close>

definition frames_forward :: "job_record \<Rightarrow> bool" where
  "frames_forward rec \<longleftrightarrow> sorted (map (\<lambda>f. job_rank (jfr_state f)) (jr_frames rec))"

lemma frames_forward_push:
  assumes "frames_forward rec" "record_ok jid rec" "job_rank (jsn_state (jr_snapshot rec)) \<le> job_rank st"
  shows "frames_forward (push_frame jid st stp pr dt rec)"
proof (cases "jr_frames rec = []")
  case False
  have "job_rank (jfr_state f) \<le> job_rank st" if f: "f \<in> set (jr_frames rec)" for f
  proof -
    from False have fs: "jr_frames rec = butlast (jr_frames rec) @ [last (jr_frames rec)]" by simp
    with assms(1) have "sorted (map (\<lambda>f. job_rank (jfr_state f)) (butlast (jr_frames rec)) @ [job_rank (jfr_state (last (jr_frames rec)))])"
      unfolding frames_forward_def by (metis list.simps(8,9) map_append)
    with f fs have "job_rank (jfr_state f) \<le> job_rank (jfr_state (last (jr_frames rec)))"
      by (auto simp: sorted_append) (metis Un_iff empty_iff image_eqI insert_iff list.set(1,2) order_refl set_append set_map)
    with False assms(2,3) show ?thesis by (simp add: record_ok_def)
  qed
  with assms(1) show ?thesis by (auto simp: frames_forward_def push_frame_frames sorted_append)
qed (simp add: frames_forward_def push_frame_frames)

text \<open>The job is remembered, its frames move forward, and it has come at most to stage \<open>n\<close>.\<close>

definition in_stage :: "string \<Rightarrow> nat \<Rightarrow> job_registry \<Rightarrow> bool" where
  "in_stage jid n reg \<longleftrightarrow>
     (\<exists>rec. hm_get (rg_jobs reg) jid = Some rec \<and> frames_forward rec
        \<and> job_rank (jsn_state (jr_snapshot rec)) \<le> n)"

definition staged :: "string \<Rightarrow> string \<Rightarrow> string \<Rightarrow> nat \<Rightarrow> runtime \<Rightarrow> bool" where
  "staged jid drv key n rt \<longleftrightarrow> held_by jid drv key (rt_jobs rt) \<and> in_stage jid n (rt_jobs rt)"

definition forward :: "string \<Rightarrow> runtime \<Rightarrow> bool" where
  "forward jid rt \<longleftrightarrow> (\<forall>rec. hm_get (rg_jobs (rt_jobs rt)) jid = Some rec \<longrightarrow> frames_forward rec)"

lemma staged_forward: "staged jid drv key n rt \<Longrightarrow> forward jid rt"
  by (auto simp: staged_def in_stage_def forward_def)

lemma staged_mono: "staged jid drv key m rt \<Longrightarrow> m \<le> n \<Longrightarrow> staged jid drv key n rt"
  by (auto simp: staged_def in_stage_def intro: order_trans)

lemma held_record_ok: "held_by jid drv key reg \<Longrightarrow> hm_get (rg_jobs reg) i = Some rec \<Longrightarrow> record_ok i rec"
  using reg_okD(2) [OF reg_reach_ok] by (auto simp: held_by_def)

lemma in_stage_client_step:
  assumes "held_by jid drv key reg" "in_stage jid n reg"
  shows "in_stage jid n (slot.client_step op reg)"
proof (cases op)
  case (CO_Submit a)
  with assms show ?thesis by (simp add: held_by_def slot_submit_def jobs_submit_def)
next
  case (CO_Cancel i)
  from assms(2) obtain rec where rec: "hm_get (rg_jobs reg) jid = Some rec" "frames_forward rec"
      "job_rank (jsn_state (jr_snapshot rec)) \<le> n"
    by (auto simp: in_stage_def)
  show ?thesis
  proof (cases "i = jid")
    case True
    let ?rec = "rec\<lparr>jr_cancel := True\<rparr>"
    have "frames_forward ?rec" "record_ok jid ?rec" "job_rank (jsn_state (jr_snapshot ?rec)) \<le> n"
      using rec held_record_ok [OF assms(1) rec(1)] by (simp_all add: frames_forward_def record_ok_def)
    with CO_Cancel True rec(1) frames_forward_push [of ?rec jid "jsn_state (jr_snapshot rec)"] show ?thesis
      by (auto simp: in_stage_def jobs_cancel_def Let_def hm.get_insert)
  next
    case False
    with CO_Cancel rec show ?thesis
      by (auto simp: in_stage_def jobs_cancel_def Let_def hm.get_insert split: option.split)
  qed
qed

lemma staged_preempt: "staged jid drv key n rt \<Longrightarrow> staged jid drv key n (preempt rt)"
proof -
  have act: "staged jid drv key n rt \<Longrightarrow> staged jid drv key n (client_act act rt)" for act rt
    using held_client_step in_stage_client_step
    by (cases act) (auto simp: staged_def)
  have "staged jid drv key n rt \<Longrightarrow> staged jid drv key n (fold client_act acts rt)" for acts rt
    by (induction acts arbitrary: rt) (auto simp: act)
  moreover assume "staged jid drv key n rt"
  ultimately show ?thesis by (auto simp: preempt_def staged_def split: list.splits)
qed

lemma staged_transition:
  assumes "staged jid drv key n rt" "n \<le> job_rank st" "\<not> js_is_terminal st"
  shows "staged jid drv key (job_rank st) (rt\<lparr>rt_jobs := jobs_transition jid st stp pr dt (rt_jobs rt)\<rparr>)"
proof -
  from assms(1) obtain rec where rec: "hm_get (rg_jobs (rt_jobs rt)) jid = Some rec" "frames_forward rec"
      "job_rank (jsn_state (jr_snapshot rec)) \<le> n" and held: "held_by jid drv key (rt_jobs rt)"
    by (auto simp: staged_def in_stage_def)
  have "frames_forward (push_frame jid st stp pr dt rec)"
    by (rule frames_forward_push [OF rec(2) held_record_ok [OF held rec(1)]]) (use rec(3) assms(2) in simp)
  with rec(1) assms(3) held_transition [OF held assms(3)] show ?thesis
    by (simp add: staged_def in_stage_def jobs_transition_def hm.get_insert)
qed

lemma forward_end:
  assumes "staged jid drv key n rt" "js_is_terminal st"
  shows "forward jid (rt\<lparr>rt_jobs := jobs_transition jid st stp pr dt (rt_jobs rt)\<rparr>)"
proof -
  from assms(1) obtain rec where rec: "hm_get (rg_jobs (rt_jobs rt)) jid = Some rec" "frames_forward rec"
      and held: "held_by jid drv key (rt_jobs rt)"
    by (auto simp: staged_def in_stage_def)
  have h: "hm_ok (hm_insert jid x (rg_jobs (rt_jobs rt)))" for x
    using reg_okD(1) [OF reg_reach_ok] held by (auto simp: held_by_def intro: hm.ok_insert)
  have "frames_forward (push_frame jid st stp pr dt rec)"
    by (rule frames_forward_push [OF rec(2) held_record_ok [OF held rec(1)]])
      (simp add: job_rank_le job_rank_terminal [OF assms(2)])
  with rec(1) assms(2) show ?thesis
    by (auto simp: forward_def jobs_transition_def Let_def evict_get h hm.get_insert split: if_splits)
qed

section \<open>Rules\<close>

lemma stg_is_cancelled: "sat (staged jid drv key n) (w_is_cancelled i) (\<lambda>_. staged jid drv key n) E B"
  unfolding w_is_cancelled_def by (rule sat_call) (auto simp: Let_def staged_preempt)

lemma stg_cached: "sat (staged jid drv key n) (w_cached a b) (\<lambda>_. staged jid drv key n) E B"
  unfolding w_cached_def by (rule sat_call) (auto simp: Let_def staged_preempt)

text \<open>A snapshot tells the stage exactly, and clients do not change it.\<close>

lemma stg_snapshot:
  assumes "\<And>t m. jsn_driver t = drv \<Longrightarrow> \<not> js_is_terminal (jsn_state t) \<Longrightarrow> m \<le> n \<Longrightarrow> m = job_rank (jsn_state t) \<Longrightarrow>
      sat (staged jid drv key m) (k (Some t)) Q E B"
  shows "sat (staged jid drv key n) (fl_bind (w_snapshot jid) k) Q E B"
proof (rule satI)
  fix rt f rt'
  assume P: "staged jid drv key n rt" and run: "fl_bind (w_snapshot jid) k rt = (f, rt')"
  let ?rt = "preempt rt"
  have "staged jid drv key n ?rt" by (rule staged_preempt [OF P])
  then obtain rec where rec: "hm_get (rg_jobs (rt_jobs ?rt)) jid = Some rec" "frames_forward rec"
      "job_rank (jsn_state (jr_snapshot rec)) \<le> n" and held: "held_by jid drv key (rt_jobs ?rt)"
    by (auto simp: staged_def in_stage_def)
  let ?t = "jr_snapshot rec"
  have "jsn_driver ?t = drv" using held rec(1) by (auto simp: held_by_def job_at_def)
  moreover have "\<not> js_is_terminal (jsn_state ?t)"
    using held_live [OF held] rec(1) by (simp add: live_def snapshot_state_def jobs_snapshot_def)
  ultimately have body: "sat (staged jid drv key (job_rank (jsn_state ?t))) (k (Some ?t)) Q E B"
    using assms rec(3) by blast
  have "staged jid drv key (job_rank (jsn_state ?t)) ?rt"
    using rec held by (simp add: staged_def in_stage_def)
  moreover have "k (Some ?t) ?rt = (f, rt')"
    using run rec(1) by (simp add: fl_bind_def w_snapshot_def fl_call_def Let_def jobs_snapshot_def)
  ultimately show "case f of Go x \<Rightarrow> Q x rt' | Exit \<Rightarrow> E rt' | Blocked \<Rightarrow> B rt'" by (rule satD [OF body])
qed

lemma stg_transition:
  assumes "n \<le> job_rank st" "\<not> js_is_terminal st" "job_rank st \<le> m"
  shows "sat (staged jid drv key n) (w_transition jid st stp pr dt) (\<lambda>_. staged jid drv key m) E B"
  unfolding w_transition_def Let_def
  by (rule sat_update, rule staged_mono [OF staged_transition [OF staged_preempt assms(1,2)] assms(3)])

lemma stg_end: "js_is_terminal st \<Longrightarrow> sat (staged jid drv key n) (w_transition jid st stp pr dt) (\<lambda>_. forward jid) E B"
  unfolding w_transition_def Let_def by (rule sat_update, rule forward_end [OF staged_preempt])

lemma stg_ends:
  "sat (staged jid drv key n) (w_failed jid stp msg) (\<lambda>_. forward jid) E B"
  "sat (staged jid drv key n) (w_cancelled jid) (\<lambda>_. forward jid) E B"
  by (simp_all add: w_failed_def w_cancelled_def stg_end)

lemma stg_fail_exit: "sat (staged jid drv key n) (w_fail_exit jid stp msg) Q (forward jid) B"
  unfolding w_fail_exit_def by (rule sat_then [OF stg_ends(1) sat_exit])

lemma staged_release [simp]:
  "staged jid drv key n (radio_release E rt) = staged jid drv key n rt" "forward jid (radio_release E rt) = forward jid rt"
  "staged jid drv key n (hold rt) = staged jid drv key n rt" "forward jid (unhold rt) = forward jid rt"
  by (simp_all add: staged_def forward_def)

lemma stg_release:
  "sat (staged jid drv key n) (w_release E) (\<lambda>_. staged jid drv key n) X B"
  "sat (forward jid) (w_release E) (\<lambda>_. forward jid) X B"
  by (rule sat_release; simp)+

lemma stg_radio_call: "sat (staged jid drv key n) (w_radio_call E c) (\<lambda>_. staged jid drv key n) X B"
  unfolding w_radio_call_def by (rule sat_call) (auto simp: w_radio_def staged_def)

lemma stg_with_hold:
  assumes "sat (staged jid drv key n) m (\<lambda>_. forward jid) (forward jid) (forward jid)"
  shows "sat (staged jid drv key n) (with_hold m) (\<lambda>_. forward jid) (forward jid) (forward jid)"
proof (rule satI)
  fix rt f rt'
  assume P: "staged jid drv key n rt" and run: "with_hold m rt = (f, rt')"
  obtain g rt1 where m: "m (hold rt) = (g, rt1)" by (cases "m (hold rt)")
  have "staged jid drv key n (hold rt)" using P by simp
  from satD [OF assms this m] run m
  show "case f of Go x \<Rightarrow> forward jid rt' | Exit \<Rightarrow> forward jid rt' | Blocked \<Rightarrow> forward jid rt'"
    by (cases g) (auto simp: with_hold_def)
qed

lemma stg_weaken: "m \<le> n \<Longrightarrow> sat (staged jid drv key n) s Q E B \<Longrightarrow> sat (staged jid drv key m) s Q E B"
  by (rule sat_conseq [where P = "staged jid drv key n"]) (auto intro: staged_mono)

lemma stg_sink_step:
  "n \<le> job_rank (step_state s) \<Longrightarrow> sat (staged jid drv key n) (sink_step jid s) (\<lambda>_. staged jid drv key (job_rank (step_state s))) E B"
  unfolding sink_step_def by (rule stg_transition) simp_all

lemma stg_sink_quiet:
  "sat (staged jid drv key n) (sink_detail jid d) (\<lambda>_. staged jid drv key n) E B"
  "sat (staged jid drv key n) (sink_progress jid p) (\<lambda>_. staged jid drv key n) E B"
  unfolding sink_detail_def sink_progress_def
  by (rule stg_snapshot, simp add: snapshot_state_def, rule stg_transition, simp_all)+

lemma stg_sink_events:
  "sorted (n # step_ranks es) \<Longrightarrow> n \<le> 6 \<Longrightarrow>
     sat (staged jid drv key n) (fl_each (sink_event jid) es) (\<lambda>_. staged jid drv key 6) E B"
proof (induction es arbitrary: n)
  case Nil
  then show ?case by (auto intro!: sat_return elim!: staged_mono)
next
  case (Cons e es)
  show ?case
  proof (cases e)
    case (Ev_Step s)
    with Cons.prems have "n \<le> job_rank (step_state s)" "sorted (job_rank (step_state s) # step_ranks es)" by auto
    note Cons.IH [OF this(2) job_rank_le] this(1)
    with Ev_Step show ?thesis by (auto intro: sat_then stg_sink_step)
  next
    case (Ev_Progress p)
    with Cons show ?thesis by (auto intro: sat_then stg_sink_quiet)
  next
    case (Ev_Detail d)
    with Cons show ?thesis by (auto intro: sat_then stg_sink_quiet)
  next
    case (Ev_Req q)
    with Cons show ?thesis by (auto intro: sat_then sat_return)
  qed
qed

section \<open>Programming jobs\<close>

lemma stg_report_dispatch: "sat (staged jid drv key n) (report_dispatch jid r) (\<lambda>_. forward jid) E B"
proof (cases r)
  case (Inl e)
  then show ?thesis by (cases e) (simp_all add: report_dispatch_def stg_ends)
next
  case (Inr oc)
  then show ?thesis by (cases oc) (simp_all add: report_dispatch_def stg_end)
qed

lemma stg_fred_job:
  assumes "n \<le> 3"
  shows "sat (staged jid drv key n) (run_fred_program_job E jid w k) (\<lambda>_. forward jid) (forward jid) (forward jid)"
proof -
  have dispatch: "sat (staged jid drv key m) (fred_dispatch E jid target loco) (\<lambda>_. forward jid) (forward jid) B"
    for m target loco B
    unfolding fred_dispatch_def
    by (rule sat_option, rule sat_let, rule sat_bind, rule stg_is_cancelled, rule sat_if, rule sat_then,
        rule stg_ends, rule sat_exit, assumption, rule stg_report_dispatch, rule stg_fail_exit)
  have main: "sat (staged jid drv key n) (fl_bind (w_is_cancelled jid) (\<lambda>c.
      if c then fl_then (w_cancelled jid) fl_exit
      else fl_then (w_transition jid JS_Writing (Some ''write'') (Some 10) None)
             (fred_dispatch E jid target loco))) (\<lambda>_. forward jid) (forward jid) B" for target loco B
    by (rule sat_bind, rule stg_is_cancelled, rule sat_if, rule sat_then, rule stg_ends, rule sat_exit,
        assumption, rule sat_then, rule stg_transition [where m = 3]) (simp_all add: assms dispatch)
  show ?thesis
    unfolding run_fred_program_job_def
    by (intro sat_function) (auto intro: stg_fail_exit main split: sum.splits list.splits option.splits)
qed

lemma stg_program_finish: "sat (staged jid drv key n) (program_finish jid outcome) (\<lambda>_. forward jid) E B"
proof -
  have quiet: "sat (staged jid drv key m) (fl_return ()) (\<lambda>_. forward jid) E B" for m
    by (rule sat_return) (rule staged_forward)
  show ?thesis
    unfolding program_finish_def
    by (rule sat_bind, rule stg_is_cancelled, rule sat_if, rule stg_snapshot, rule sat_when)
      (auto intro: stg_ends stg_end quiet split: sum.split)
qed

lemma stg_softap_session:
  assumes "n \<le> 2"
  shows "sat (staged jid drv key n) (softap_session E jid d c w) (\<lambda>_. forward jid) (forward jid) (forward jid)"
proof -
  have call: "sat (staged jid drv key n) (softap_call E jid rc) (\<lambda>_. staged jid drv key n) (forward jid) B" for rc B
    unfolding softap_call_def
    by (rule sat_bind, rule stg_radio_call, rule sat_option, rule sat_return, assumption,
        rule sat_then, rule stg_ends, rule sat_then, rule stg_release, rule sat_exit)
  have calls: "sat (staged jid drv key n) (fl_each (softap_call E jid) cs) (\<lambda>_. staged jid drv key n) (forward jid) B" for cs B
    by (rule sat_each) (rule call)
  have run: "sat (staged jid drv key n) (fl_then (fl_each (sink_event jid) events)
      (fl_then (w_release E) (program_finish jid outcome))) (\<lambda>_. forward jid) (forward jid) (forward jid)"
    if "driver_run E d w = (outcome, events)" for outcome events
  proof -
    have "sorted (step_ranks events) \<and> (\<forall>m \<in> set (step_ranks events). 2 \<le> m \<and> m \<le> 5)"
      using that registry_stages.steps_in_order by (simp add: driver_run_def)
    with assms have "sorted (n # step_ranks events)" "n \<le> 6" by (auto intro: order_trans)
    then show ?thesis
      by (intro sat_then [OF stg_sink_events] sat_then [OF stg_release(1)] stg_program_finish)
  qed
  have cancelled: "sat (staged jid drv key n) (fl_then (w_release E) (fl_then (w_cancelled jid) fl_exit))
      (\<lambda>_. forward jid) (forward jid) B" for B
    by (rule sat_then, rule stg_release, rule sat_then, rule stg_ends, rule sat_exit)
  show ?thesis
    unfolding softap_session_def
    by (rule sat_then, rule calls, rule sat_bind, rule stg_is_cancelled, rule sat_if, rule cancelled)
      (simp add: run Let_def split: prod.split)
qed

lemma stg_program_job:
  assumes "n \<le> 1"
  shows "sat (staged jid drv key n) (run_program_job E jid w) (\<lambda>_. forward jid) X (forward jid)"
proof -
  have softap: "sat (staged jid drv key m)
      (fl_then (w_transition jid JS_Joining (Some ''join'') None None)
         (fl_bind (w_is_cancelled jid) (\<lambda>cancelled.
            if cancelled then fl_then (w_cancelled jid) fl_exit
            else with_hold (softap_session E jid d c w)))) (\<lambda>_. forward jid) (forward jid) (forward jid)"
    if "m \<le> 1" for d c m
    by (rule sat_then, rule stg_transition [where m = 1], use that in simp, simp, simp, rule sat_bind, rule stg_is_cancelled,
        rule sat_if, rule sat_then, rule stg_ends, rule sat_exit, assumption, rule stg_with_hold, rule stg_softap_session)
      simp
  have body: "sat (staged jid drv key m)
      (case driver_from_id dr of
         None \<Rightarrow> w_fail_exit jid None ''unknown driver''
       | Some d \<Rightarrow>
           fl_bind (w_cached dr ky) (\<lambda>c. case c of
              None \<Rightarrow> w_fail_exit jid None ''candidate not in scan cache; run scan first''
            | Some c \<Rightarrow>
                if d = D_Fred then run_fred_program_job E jid w (cc_key c)
                else fl_then (w_transition jid JS_Joining (Some ''join'') None None)
                  (fl_bind (w_is_cancelled jid) (\<lambda>cancelled.
                     if cancelled then fl_then (w_cancelled jid) fl_exit
                     else with_hold (softap_session E jid d c w)))))
      (\<lambda>_. forward jid) (forward jid) (forward jid)" if "m \<le> 1" for dr ky m
    by (rule sat_option, rule stg_fail_exit, rule sat_bind, rule stg_cached, rule sat_option, rule stg_fail_exit,
        rule sat_if) (use that in \<open>auto intro: stg_fred_job softap\<close>)
  show ?thesis
    unfolding run_program_job_def
    by (rule sat_function, rule stg_snapshot, simp only: option.case, rule body) (use assms in linarith)
qed

text \<open>C5: the frames a watcher of a programming job sees follow the state machine of the protocol:
  whichever driver runs the job, whatever the device answers and whatever clients submit or cancel in
  between, a job the worker takes with no frame yet leaves a list of frames whose states only
  move forward, from joining through probing, writing, verifying and restarting to the end, and
  no working state follows a final one.\<close>

theorem program_job_moves_forward:
  assumes "held_by jid drv key (rt_jobs rt)"
    and "hm_get (rg_jobs (rt_jobs rt)) jid = Some rec0" "jr_frames rec0 = []"
    and "run_program_job E jid w rt = (f, rt')" "hm_get (rg_jobs (rt_jobs rt')) jid = Some rec"
  shows "sorted (map (\<lambda>fr. job_rank (jfr_state fr)) (jr_frames rec))"
proof -
  have "record_ok jid rec0" by (rule held_record_ok [OF assms(1,2)])
  then have "staged jid drv key 1 rt"
    using assms(1-3) by (simp add: staged_def in_stage_def frames_forward_def record_ok_def)
  from satD [OF stg_program_job [where X = "\<lambda>_. False"] this assms(4)] have "forward jid rt'"
    by (cases f) simp_all
  with assms(5) show ?thesis by (simp add: forward_def frames_forward_def)
qed

theorem program_job_moves_forward_witness:
  "\<exists>rec. hm_get (rg_jobs (rt_jobs (snd (run_program_job fred_env ''job-1'' fred_wire fred_runtime)))) ''job-1'' = Some rec
     \<and> jsn_state (jr_snapshot rec) = JS_Done \<and> sorted (map (\<lambda>fr. job_rank (jfr_state fr)) (jr_frames rec))"
proof -
  let ?rt = "snd (run_program_job fred_env ''job-1'' fred_wire fred_runtime)"
  obtain rec0 where rec0: "hm_get (rg_jobs (rt_jobs fred_runtime)) ''job-1'' = Some rec0" "jr_frames rec0 = []"
    by (simp add: fred_runtime_def jobs_submit_def jobs_new_def Let_def job_name_1 hm.get_insert)
  obtain rec where rec: "hm_get (rg_jobs (rt_jobs ?rt)) ''job-1'' = Some rec" "jsn_state (jr_snapshot rec) = JS_Done"
    using fred_run by (auto simp: job_done_def jobs_snapshot_def)
  with program_job_moves_forward [OF fred_held rec0 prod.collapse [symmetric] rec(1)] show ?thesis by blast
qed

end
