(* ===== verification/Wp_IpcProps.thy ===== *)
theory Wp_IpcProps
  imports Wp_Ipc
begin

text \<open>
  What the socket server promises: every request is answered in its own kind with a result or
  an error; a request changes the runtime only by the steps of the runtime's state machine;
  the outcome of a programming request; and what a watcher of a job is sent.
\<close>

section \<open>Responses\<close>

definition answers :: "request_kind \<Rightarrow> response \<Rightarrow> bool" where
  "answers k r \<longleftrightarrow>
     rs_kind r = k
   \<and> (case (rs_result r, rs_error r) of
        (Some b, None) \<Rightarrow> result_for k b
      | (None, Some e) \<Rightarrow> eb_code e \<noteq> []
      | _ \<Rightarrow> False)"

lemma answers_err: "code \<noteq> [] \<Longrightarrow> answers k (err_response k code m)"
  by (simp add: answers_def err_response_def)

lemma answers_ok: "result_for k b \<Longrightarrow> answers k (ok_response k b)"
  by (simp add: answers_def ok_response_def)

lemma answers_fixed:
  "answers k (busy_response k)" "answers k (missing_params k)" "answers k (unknown_driver k)"
  "answers k (no_such_job k)"
  by (simp_all add: busy_response_def missing_params_def unknown_driver_def no_such_job_def answers_err)

lemmas answers_rules = answers_fixed answers_err answers_ok

lemma answers_job: "(\<And>s. result_for k (f s)) \<Longrightarrow> answers k (job_answer k f jid rt)"
  by (simp add: job_answer_def answers_rules split: option.split)

lemma answers_usb: "only_usb_port E rt = (Inl r, rt') \<Longrightarrow> answers K_UpdateFirmware r"
  by (auto simp: only_usb_port_def answers_rules split: prod.splits sum.splits list.splits)

lemma answers_submit_firmware: "answers K_UpdateFirmware (fst (submit_firmware_request I p key rt))"
  by (simp add: submit_firmware_request_def answers_rules firmware_error_code_def
      split: option.split prod.split sum.split job_error.split)

lemma answers_update_firmware: "answers K_UpdateFirmware (fst (dispatch_update_firmware I ps rt))"
  by (auto simp: dispatch_update_firmware_def answers_rules answers_submit_firmware answers_usb
      split: option.split params.split prod.splits sum.splits if_splits)

lemma dispatch_answers:
  "answers (rq_kind req) (fst (dispatch I req rt))"
proof (cases "rq_kind req")
  case K_Program
  then show ?thesis
    by (simp add: dispatch_def dispatch_program_def answers_rules program_error_code_def
        split: option.split params.split prod.split sum.split job_error.split)
qed (simp_all add: dispatch_def dispatch_hello_def dispatch_scan_def dispatch_probe_def
    dispatch_job_get_def dispatch_job_cancel_def dispatch_identify_def dispatch_link_status_def
    answers_update_firmware answers_rules answers_job Let_def
    split: option.split params.split prod.split sum.split)

text \<open>C12: every request is answered in its own kind, by exactly one of a result that belongs to
  that kind and an error with a code; no request leaves a client without either.\<close>

theorem dispatch_answers_in_kind:
  "answers (rq_kind req) (fst (dispatch I req rt))"
  by (rule dispatch_answers)

section \<open>Refinement of the runtime's steps\<close>

text \<open>\<open>runs E f\<close>: whatever \<open>f\<close> does to a runtime is a sequence of its steps.\<close>

definition runs :: "'j env \<Rightarrow> (runtime \<Rightarrow> runtime) \<Rightarrow> bool" where
  "runs E f \<longleftrightarrow> (\<forall>rt. (runtime_step E)\<^sup>*\<^sup>* rt (f rt))"

lemma runsD: "runs E f \<Longrightarrow> (runtime_step E)\<^sup>*\<^sup>* rt (f rt)"
  by (simp add: runs_def)

lemma steps_then: "runs E f \<Longrightarrow> (runtime_step E)\<^sup>*\<^sup>* rt rt' \<Longrightarrow> (runtime_step E)\<^sup>*\<^sup>* rt (f rt')"
  by (meson runsD rtranclp_trans)

lemma runs_result: "runs E (snd \<circ> f) \<Longrightarrow> f rt = (x, rt') \<Longrightarrow> (runtime_step E)\<^sup>*\<^sup>* rt rt'"
  by (metis comp_apply runsD snd_conv)

lemma cache_step: "rt' = rt\<lparr>rt_cache := c\<rparr> \<Longrightarrow> (runtime_step E)\<^sup>*\<^sup>* rt rt'"
  by (auto intro: rs_cache)

lemma steps_cache_ops:
  "runs E (snd \<circ> scan_lan E)" "runs E (snd \<circ> scan_usb E)" "runs E (snd \<circ> scan_z21 E)"
  "runs E (cache_usb_port k l)" "runs E (cache_lan_host k l)"
  unfolding runs_def
  by (auto simp: scan_lan_def scan_usb_def scan_z21_def cache_add_all_def cache_retain_def
      cache_usb_port_def cache_lan_host_def cache_add_def Let_def intro!: cache_step split: sum.split)

lemma runs_steps:
  "runs E (snd \<circ> scan_ap E)" "runs E (snd \<circ> probe E d key)" "runs E (snd \<circ> blink E d key count)"
  "runs E (snd \<circ> submit_program E now d key w)" "runs E (snd \<circ> submit_firmware E now d key job)"
  by (auto simp: runs_def intro: rs_scan rs_probe rs_blink rs_program rs_firmware)

lemma runs_scan: "runs E (snd \<circ> run_scan E mode)"
  using steps_cache_ops [of E] runs_steps(1) [of E] by (cases mode) (simp_all add: runs_def run_scan_def)

lemma runs_firmware_request:
  "runs (ie_env I) (\<lambda>rt. snd (submit_firmware_request I p key rt))"
proof -
  have "runs (ie_env I) (snd \<circ> submit_firmware (ie_env I) (ie_now I) d key (firmware_job_of p key))" for d
    by (rule runs_steps)
  then show ?thesis
    by (auto simp: runs_def submit_firmware_request_def split: option.split prod.split sum.split)
      (metis snd_conv)+
qed

lemma steps_host: "(runtime_step E)\<^sup>*\<^sup>* rt (cache_firmware_host p rt)"
  using steps_cache_ops(5) [of E]
  by (auto simp: cache_firmware_host_def runs_def split: option.split)

lemma steps_only_usb_port: "(runtime_step E)\<^sup>*\<^sup>* rt (snd (only_usb_port E rt))"
proof -
  have "snd (only_usb_port E rt) = snd (scan_usb E rt)"
    by (auto simp: only_usb_port_def split: prod.split sum.split list.split)
  with steps_cache_ops(2) [of E] show ?thesis by (simp add: runs_def)
qed

lemma steps_update_firmware:
  assumes gap: "runs (ie_env I) (ie_gap I)"
  shows "(runtime_step (ie_env I))\<^sup>*\<^sup>* rt (snd (dispatch_update_firmware I (Some (P_UpdateFirmware p)) rt))"
proof (cases "firmware_key p = [] \<and> uf_mode p \<noteq> RM_Usb")
  case True
  then show ?thesis by (simp add: dispatch_update_firmware_def)
next
  case False
  define picked where "picked = (if firmware_key p = [] then only_usb_port (ie_env I) (cache_firmware_host p rt)
                      else (Inr (firmware_key p), cache_firmware_host p rt))"
  have pick: "(runtime_step (ie_env I))\<^sup>*\<^sup>* rt (snd picked)"
    using rtranclp_trans [OF steps_host steps_only_usb_port] steps_host by (auto simp: picked_def)
  obtain k rt1 where picked: "picked = (k, rt1)" by (cases picked)
  show ?thesis
  proof (cases k)
    case (Inl r)
    with False pick picked show ?thesis by (simp add: dispatch_update_firmware_def picked_def)
  next
    case (Inr key)
    let ?rt2 = "if uf_mode p = RM_Usb then cache_usb_port key None rt1 else rt1"
    have "(runtime_step (ie_env I))\<^sup>*\<^sup>* rt ?rt2"
      using pick picked by (auto intro: steps_then [OF steps_cache_ops(4)])
    then have "(runtime_step (ie_env I))\<^sup>*\<^sup>* rt (snd (submit_firmware_request I p key (ie_gap I ?rt2)))"
      by (rule steps_then [OF runs_firmware_request steps_then [OF gap]])
    with False Inr picked show ?thesis by (simp add: dispatch_update_firmware_def picked_def)
  qed
qed

text \<open>C11: the socket server refines the runtime's state machine: whatever request arrives, and
  whatever steps other threads take between two accesses of it, the runtime afterwards is one
  that the steps of that machine reach. So every invariant of the machine (the queue holds
  exactly the job in the slot, one job at a time) holds between any two requests.\<close>

theorem dispatch_refines_runtime:
  assumes "\<And>rt. (runtime_step (ie_env I))\<^sup>*\<^sup>* rt (ie_gap I rt)"
  shows "(runtime_step (ie_env I))\<^sup>*\<^sup>* rt (snd (dispatch I req rt))"
proof -
  have gap: "runs (ie_env I) (ie_gap I)" using assms by (simp add: runs_def)
  have after_gap: "(runtime_step (ie_env I))\<^sup>*\<^sup>* rt rt'"
    if "runs (ie_env I) (snd \<circ> f)" and "f (ie_gap I rt) = (x, rt')"
    for f :: "runtime \<Rightarrow> 'b \<times> runtime" and x rt'
    using runsD [OF gap] runs_result [OF that] by (rule rtranclp_trans)
  show ?thesis
  proof (cases "rq_kind req")
    case K_Scan
    then show ?thesis
      by (auto simp: dispatch_def dispatch_scan_def dest: after_gap [OF runs_scan] split: prod.split sum.split)
  next
    case K_Probe
    then show ?thesis
      by (auto simp: dispatch_def dispatch_probe_def dest: after_gap [OF runs_steps(2)]
          split: option.split params.split prod.split sum.split)
  next
    case K_Program
    then show ?thesis
      by (auto simp: dispatch_def dispatch_program_def dest: runs_result [OF runs_steps(4)]
          split: option.split params.split prod.split sum.split)
  next
    case K_JobCancel
    have "(runtime_step (ie_env I))\<^sup>*\<^sup>* rt (ie_gap I (rt\<lparr>rt_jobs := jobs_cancel jid (rt_jobs rt)\<rparr>))" for jid
      by (rule steps_then [OF gap]) (auto intro: rs_cancel_job)
    with K_JobCancel show ?thesis
      by (simp add: dispatch_def dispatch_job_cancel_def Let_def split: option.split params.split)
  next
    case K_Identify
    then show ?thesis
      by (auto simp: dispatch_def dispatch_identify_def dest: after_gap [OF runs_steps(3)]
          split: option.split params.split prod.split sum.split)
  next
    case K_UpdateFirmware
    with steps_update_firmware [OF gap] show ?thesis
      by (cases "rq_params req") (auto simp: dispatch_def dispatch_update_firmware_def split: params.split)
  qed (simp_all add: dispatch_def dispatch_hello_def dispatch_job_get_def dispatch_link_status_def
      split: option.split params.split)
qed

section \<open>The outcome of a programming request\<close>

text \<open>What a successful submission leaves behind.\<close>

definition queued_program :: "string \<Rightarrow> driver \<Rightarrow> string \<Rightarrow> nat \<Rightarrow> program_request_wire \<Rightarrow> runtime \<Rightarrow> bool" where
  "queued_program jid d key now w rt \<longleftrightarrow>
     rg_active (rt_jobs rt) = Some jid
   \<and> rt_queue rt = [jid]
   \<and> jobs_snapshot jid (rt_jobs rt) = Some \<lparr>jsn_id = jid, jsn_state = JS_Queued,
        jsn_driver = driver_id_str d, jsn_key = key, jsn_detail = None, jsn_created_at = now\<rparr>
   \<and> jobs_frames_since jid 0 (rt_jobs rt) = Some []
   \<and> \<not> jobs_is_cancelled jid (rt_jobs rt)
   \<and> fst (jobs_take_request jid (rt_jobs rt)) = Some w"

lemma submit_and_enqueue_busy:
  "rg_active (rt_jobs rt) = Some j \<Longrightarrow> submit_and_enqueue E now d key p rt = (Inl (JE_Busy j), rt)"
  by (simp add: submit_and_enqueue_def jobs_submit_def)

lemma submit_and_enqueue_gone:
  assumes "rg_active (rt_jobs rt) = None" and "en_worker_gone E = Some e"
    and "submit_and_enqueue E now d key p rt = (r, rt')"
  shows "r = Inl (JE_Driver (DE_Other ''worker channel closed''))
       \<and> rg_active (rt_jobs rt') = None \<and> rt_queue rt' = rt_queue rt"
  using assms by (auto simp: submit_and_enqueue_def jobs_submit_def enqueue_def Let_def
      jobs_transition_def hm.get_insert)

lemma submit_and_enqueue_queued:
  assumes ok: "queue_ok rt" and free: "rg_active (rt_jobs rt) = None" and worker: "en_worker_gone E = None"
  shows "\<exists>jid rt'. submit_and_enqueue E now d key (JP_Program w) rt = (Inr jid, rt')
       \<and> queued_program jid d key now w rt' \<and> hm_get (rg_jobs (rt_jobs rt)) jid = None
       \<and> (\<forall>j. j \<noteq> jid \<longrightarrow> hm_get (rg_jobs (rt_jobs rt')) j = hm_get (rg_jobs (rt_jobs rt)) j)"
proof -
  let ?jid = "job_name (rg_seq (rt_jobs rt) + 1)"
  have "reg_ok (rt_jobs rt)" using ok by (simp add: queue_ok_def reg_reach_ok)
  then have "hm_get (rg_jobs (rt_jobs rt)) ?jid = None"
    using reg_okD(3) [of "rt_jobs rt" ?jid]
    by (cases "hm_get (rg_jobs (rt_jobs rt)) ?jid") (auto simp: job_name_inj)
  with ok free worker show ?thesis
    by (simp add: submit_and_enqueue_def jobs_submit_def enqueue_def Let_def queued_program_def queue_ok_def
        jobs_snapshot_def jobs_frames_since_def jobs_is_cancelled_def jobs_take_request_def
        jobs_take_payload_def hm.get_insert)
qed

lemma submit_program_valid:
  assumes "registry_validate d (owned_borrow (owned_from_wire w)) = Inr u"
  obtains rt1 where "submit_program E now d key w rt = submit_and_enqueue E now d key (JP_Program w) rt1"
    and "rt_jobs rt1 = rt_jobs rt" and "rt_queue rt1 = rt_queue rt"
  using assms by (simp add: submit_program_def cache_z21_host_def cache_add_def Let_def split: if_splits)

text \<open>The outcome of a programming request for a known driver, in every case. An invalid
  request is refused and changes nothing; a valid one is refused as busy, naming the job that
  holds the slot, while there is one; otherwise it becomes a new job, which holds the slot, is
  the only entry of the queue, and hands its request to the worker, every other job being as
  before; and when the worker is gone the request fails and the slot is free again.\<close>

lemma program_request_outcome:
  assumes "queue_ok rt" and "driver_for (pp_candidate p) = Some d"
    and "dispatch I \<lparr>rq_kind = K_Program, rq_params = Some (P_Program p)\<rparr> rt = (resp, rt')"
  shows "case registry_validate d (owned_borrow (owned_from_wire (pp_request p))) of
      Inl v \<Rightarrow> resp = err_response K_Program ''validation'' (''validation: '' @ validation_error_text v) \<and> rt' = rt
    | Inr _ \<Rightarrow>
        (case (rg_active (rt_jobs rt), en_worker_gone (ie_env I)) of
           (Some j, _) \<Rightarrow>
             resp = err_response K_Program ''busy'' (''radio busy with job '' @ j)
           \<and> rt_jobs rt' = rt_jobs rt \<and> rt_queue rt' = rt_queue rt
         | (None, Some e) \<Rightarrow>
             resp = err_response K_Program ''program_failed'' ''driver: worker channel closed''
           \<and> rg_active (rt_jobs rt') = None \<and> rt_queue rt' = []
         | (None, None) \<Rightarrow>
             \<exists>jid. resp = ok_response K_Program (R_Program \<lparr>pr_job_id = jid\<rparr>)
                 \<and> queued_program jid d (cr_key (pp_candidate p)) (ie_now I) (pp_request p) rt'
                 \<and> hm_get (rg_jobs (rt_jobs rt)) jid = None
                 \<and> (\<forall>j. j \<noteq> jid \<longrightarrow> hm_get (rg_jobs (rt_jobs rt')) j = hm_get (rg_jobs (rt_jobs rt)) j))"
proof (cases "registry_validate d (owned_borrow (owned_from_wire (pp_request p)))")
  case (Inl v)
  with assms(2,3) show ?thesis
    by (auto simp: dispatch_def dispatch_program_def submit_program_def program_error_code_def)
next
  case (Inr u)
  let ?w = "pp_request p" and ?key = "cr_key (pp_candidate p)"
  obtain rt1 where sub: "submit_program (ie_env I) (ie_now I) d ?key ?w rt
      = submit_and_enqueue (ie_env I) (ie_now I) d ?key (JP_Program ?w) rt1"
    and same: "rt_jobs rt1 = rt_jobs rt" "rt_queue rt1 = rt_queue rt"
    using submit_program_valid [OF Inr] by blast
  have ok: "queue_ok rt1" using assms(1) same by (simp add: queue_ok_def)
  note run = assms(3) [unfolded dispatch_def dispatch_program_def, simplified, unfolded assms(2), simplified, unfolded sub]
  show ?thesis
  proof (cases "rg_active (rt_jobs rt)")
    case (Some j)
    with run same Inr show ?thesis
      by (auto simp: submit_and_enqueue_busy program_error_code_def)
  next
    case free: None
    show ?thesis
    proof (cases "en_worker_gone (ie_env I)")
      case None
      from submit_and_enqueue_queued [OF ok _ None, of "ie_now I" d ?key ?w] free same run Inr None
      show ?thesis by auto
    next
      case (Some e)
      have "rt_queue rt = []" using assms(1) free by (simp add: queue_ok_def)
      moreover obtain r rt2 where r: "submit_and_enqueue (ie_env I) (ie_now I) d ?key (JP_Program ?w) rt1 = (r, rt2)"
        by (cases "submit_and_enqueue (ie_env I) (ie_now I) d ?key (JP_Program ?w) rt1")
      ultimately show ?thesis
        using submit_and_enqueue_gone [OF _ Some r] free same run Inr Some
        by (auto simp: program_error_code_def)
    qed
  qed
qed

section \<open>Witnesses\<close>

text \<open>A server beside which another client keeps asking to cancel the first job.\<close>

definition demo_ipc :: "demo_json ipc_env" where
  "demo_ipc =
     \<lparr>ie_env = demo_env, ie_config = config_default bare_env ''/data'' dev_version ''0.1.0'',
      ie_sys = empty_sys, ie_as_u64 = (\<lambda>v. None), ie_now = 1,
      ie_gap = (\<lambda>rt. rt\<lparr>rt_jobs := jobs_cancel ''job-1'' (rt_jobs rt)\<rparr>)\<rparr>"

theorem dispatch_refines_runtime_witness:
  "(runtime_step demo_env)\<^sup>*\<^sup>* demo_runtime
     (snd (dispatch demo_ipc \<lparr>rq_kind = K_Scan, rq_params = Some (P_Scan \<lparr>sp_mode = RM_Z21\<rparr>)\<rparr> demo_runtime))"
proof -
  have "(runtime_step (ie_env demo_ipc))\<^sup>*\<^sup>* rt (ie_gap demo_ipc rt)" for rt
    by (auto simp: demo_ipc_def intro: rs_cancel_job)
  from dispatch_refines_runtime [OF this] show ?thesis by (simp add: demo_ipc_def)
qed

end
