(* ===== verification/Wp_IpcWatch.thy ===== *)
theory Wp_IpcWatch
  imports Wp_Ipc
begin

text \<open>
  What a watcher of a job is sent. The registry moves on between the accesses of the watcher
  by the steps of clients and worker (\<open>reg_step\<close>); frames are only appended while a job is
  remembered, so the frames of each poll continue those already sent.
\<close>

section \<open>The registry between two polls\<close>

abbreviation reg_steps :: "job_registry \<Rightarrow> job_registry \<Rightarrow> bool" where
  "reg_steps \<equiv> reg_step\<^sup>*\<^sup>*"

lemma reg_reach_steps: "reg_steps r r' \<Longrightarrow> reg_reach r \<Longrightarrow> reg_reach r'"
  by (induction rule: rtranclp_induct) (auto intro: rr_step)

lemma seq_mono: "reg_step r r' \<Longrightarrow> rg_seq r \<le> rg_seq r'"
  by (erule reg_stepE)
    (auto simp: jobs_submit_def jobs_cancel_def jobs_take_payload_def jobs_transition_def Let_def
      split: option.splits)

text \<open>A job that was handed out and forgotten does not come back.\<close>

lemma gone_stays_gone:
  assumes step: "reg_step r r'" and ok: "reg_ok r" and gone: "hm_get (rg_jobs r) (job_name n) = None"
    and old: "n \<le> rg_seq r"
  shows "hm_get (rg_jobs r') (job_name n) = None"
  using step
proof cases
  case (rs_submit now d k p)
  have "job_name n \<noteq> job_name (rg_seq r + 1)" using old by (simp add: job_name_inj)
  with rs_submit gone show ?thesis
    by (auto simp: jobs_submit_def Let_def hm.get_insert split: option.splits)
next
  case (rs_cancel j)
  with gone show ?thesis by (auto simp: jobs_cancel_def Let_def hm.get_insert split: option.splits)
next
  case (rs_take j)
  with gone show ?thesis by (auto simp: jobs_take_payload_def hm.get_insert split: option.splits)
next
  case (rs_transition j st stp pr dt)
  have h: "hm_ok (hm_insert j x (rg_jobs r))" for x using reg_okD(1) [OF ok] by (rule hm.ok_insert)
  from rs_transition gone show ?thesis
    by (auto simp: jobs_transition_def Let_def hm.get_insert evict_get h split: option.splits if_splits)
qed

lemma frames_continue:
  assumes "reg_steps r r'" and "reg_reach r" and "hm_get (rg_jobs r) jid = Some rec"
  shows "rg_seq r \<le> rg_seq r'
    \<and> (\<forall>rec'. hm_get (rg_jobs r') jid = Some rec' \<longrightarrow> (\<exists>fs. jr_frames rec' = jr_frames rec @ fs))"
  using assms(1)
proof (induction rule: rtranclp_induct)
  case base
  with assms(3) show ?case by simp
next
  case (step y z)
  have ok: "reg_ok y" using reg_reach_steps [OF step.hyps(1) assms(2)] by (rule reg_reach_ok)
  obtain n where n: "jid = job_name n" "n \<le> rg_seq r"
    using reg_okD(3) [OF reg_reach_ok [OF assms(2)] assms(3)] by blast
  show ?case
  proof (cases "hm_get (rg_jobs y) jid")
    case None
    with gone_stays_gone [OF step.hyps(2) ok] n step.IH have "hm_get (rg_jobs z) jid = None" by auto
    with step.IH seq_mono [OF step.hyps(2)] show ?thesis by simp
  next
    case (Some recy)
    with step.IH reg_step_frames [OF step.hyps(2) ok Some] seq_mono [OF step.hyps(2)]
    show ?thesis by fastforce
  qed
qed

section \<open>The watch loop\<close>

fun view_chain :: "job_registry \<Rightarrow> (job_registry \<times> job_registry) list \<Rightarrow> bool" where
  "view_chain r [] = True"
| "view_chain r ((r1, r2) # views) = (reg_steps r r1 \<and> reg_steps r1 r2 \<and> view_chain r2 views)"

lemma view_chain_earlier: "reg_steps r r' \<Longrightarrow> view_chain r' views \<Longrightarrow> view_chain r views"
  by (cases views) (auto intro: rtranclp_trans)

lemma view_reach: "reg_reach r \<Longrightarrow> view_chain r views \<Longrightarrow> v \<in> set views \<Longrightarrow> reg_reach (fst v)"
proof (induction views arbitrary: r)
  case (Cons w views)
  then have "reg_reach (fst w)" "reg_reach (snd w)" by (cases w; auto dest: reg_reach_steps)+
  with Cons show ?case by (cases w) auto
qed simp

lemma state_to_wire_terminal [simp]: "jw_is_terminal (state_to_wire s) = js_is_terminal s"
  by (cases s) simp_all

lemma wire_states [simp]:
  "jfw_state (job_frame_to_wire f) = state_to_wire (jfr_state f)"
  "jfw_state (snapshot_to_frame s) = state_to_wire (jsn_state s)"
  by (simp_all add: job_frame_to_wire_def snapshot_to_frame_def)

lemma reply_all_Inr: "reply_all C rs out = Inr out' \<Longrightarrow> out' = out @ rs"
  by (induction rs arbitrary: out) (fastforce split: if_splits)+

definition sent_frames :: "job_frame_wire list \<Rightarrow> response list" where
  "sent_frames fs = map frame_response fs"

text \<open>The one frame a watcher may be sent before those of the job: a snapshot of it, unfinished.\<close>

definition preamble :: "string \<Rightarrow> job_frame_wire list \<Rightarrow> bool" where
  "preamble jid pre \<longleftrightarrow>
     pre = [] \<or> (\<exists>s. pre = [snapshot_to_frame s] \<and> jsn_id s = jid \<and> \<not> js_is_terminal (jsn_state s))"

text \<open>How a stream that was closed by the server ended, in the view of its last pass.\<close>

definition ends_with_job :: "string \<Rightarrow> job_registry \<times> job_registry \<Rightarrow> response list \<Rightarrow> bool" where
  "ends_with_job jid v out \<longleftrightarrow>
     (\<exists>rec pre. hm_get (rg_jobs (fst v)) jid = Some rec \<and> js_is_terminal (jsn_state (jr_snapshot rec))
        \<and> preamble jid pre \<and> out = sent_frames (pre @ map job_frame_to_wire (jr_frames rec)))"

definition ends_with_snapshot :: "string \<Rightarrow> job_registry \<times> job_registry \<Rightarrow> response list \<Rightarrow> bool" where
  "ends_with_snapshot jid v out \<longleftrightarrow>
     (\<exists>s. jobs_snapshot jid (snd v) = Some s \<and> js_is_terminal (jsn_state s)
        \<and> out = sent_frames [snapshot_to_frame s])"

definition ends_forgotten :: "string \<Rightarrow> job_registry \<times> job_registry \<Rightarrow> response list \<Rightarrow> bool" where
  "ends_forgotten jid v out \<longleftrightarrow>
     hm_get (rg_jobs (fst v)) jid = None
   \<and> (\<exists>fs. list_all (\<lambda>f. \<not> jw_is_terminal (jfw_state f)) fs
        \<and> out = sent_frames fs @ [no_such_job K_JobWatch])"

definition watch_ok ::
    "string \<Rightarrow> (job_registry \<times> job_registry) list \<Rightarrow> watch_result \<Rightarrow> bool" where
  "watch_ok jid views res \<longleftrightarrow>
     (case res of
        WR_Closed out \<Rightarrow>
          \<exists>v \<in> set views. ends_with_job jid v out \<or> ends_with_snapshot jid v out \<or> ends_forgotten jid v out
      | WR_Broken out \<Rightarrow> True
      | WR_Polling out \<Rightarrow>
          \<forall>v \<in> set views. \<exists>rec. hm_get (rg_jobs (fst v)) jid = Some rec
             \<and> \<not> js_is_terminal (jsn_state (jr_snapshot rec)))"

lemma watch_ok_more: "watch_ok jid views res \<Longrightarrow>
    hm_get (rg_jobs (fst v)) jid = Some rec \<Longrightarrow> \<not> js_is_terminal (jsn_state (jr_snapshot rec)) \<Longrightarrow>
    watch_ok jid (v # views) res"
  by (cases res) (auto simp: watch_ok_def)

text \<open>In a well-formed record the frames tell whether the job is finished.\<close>

lemma record_terminal:
  assumes "record_ok jid rec"
  shows "js_is_terminal (jsn_state (jr_snapshot rec)) \<longleftrightarrow>
           (jr_frames rec \<noteq> [] \<and> js_is_terminal (jfr_state (last (jr_frames rec))))"
  using assms by (auto simp: record_ok_def)

lemma record_unfinished:
  assumes "record_ok jid rec" and "\<not> js_is_terminal (jsn_state (jr_snapshot rec))"
  shows "list_all (\<lambda>f. \<not> js_is_terminal (jfr_state f)) (jr_frames rec)"
proof (cases "jr_frames rec = []")
  case False
  with assms have "list_all (\<lambda>f. \<not> js_is_terminal (jfr_state f))
      (butlast (jr_frames rec) @ [last (jr_frames rec)])"
    by (simp add: record_ok_def del: append_butlast_last_id)
  with False show ?thesis by simp
qed simp

lemma preamble_unfinished:
  "preamble jid pre \<Longrightarrow> list_all (\<lambda>f. \<not> jw_is_terminal (jfw_state f)) pre"
  by (auto simp: preamble_def)

text \<open>The state of the loop: the frames so far are a prefix of the job's and none is terminal.\<close>

definition watching ::
    "string \<Rightarrow> job_registry \<Rightarrow> nat \<Rightarrow> bool \<Rightarrow> job_frame_wire list \<Rightarrow> response list \<Rightarrow> bool" where
  "watching jid r since sent pre out \<longleftrightarrow>
     (\<exists>rec. hm_get (rg_jobs r) jid = Some rec \<and> since \<le> length (jr_frames rec)
        \<and> list_all (\<lambda>f. \<not> js_is_terminal (jfr_state f)) (take since (jr_frames rec))
        \<and> out = sent_frames (pre @ map job_frame_to_wire (take since (jr_frames rec))))
   \<and> preamble jid pre \<and> (sent \<longleftrightarrow> pre \<noteq> [])"

lemma watching_later:
  assumes "watching jid r since sent pre out" and "reg_reach r" and "reg_steps r r'"
    and "hm_get (rg_jobs r') jid = Some rec'"
  shows "watching jid r' since sent pre out"
proof -
  obtain rec where rec: "hm_get (rg_jobs r) jid = Some rec" "since \<le> length (jr_frames rec)"
    using assms(1) by (auto simp: watching_def)
  obtain fs where "jr_frames rec' = jr_frames rec @ fs"
    using frames_continue [OF assms(3,2) rec(1)] assms(4) by blast
  with assms(1,4) rec show ?thesis by (auto simp: watching_def)
qed

text \<open>After a pass that found no terminal frame.\<close>

lemma watching_pass:
  assumes "watching jid r since sent pre out" and ok: "reg_ok r"
    and fs: "jobs_frames_since jid since r = Some fs"
    and "reply_all C (map (frame_response \<circ> job_frame_to_wire) fs) out = Inr out'"
  shows "\<exists>rec. hm_get (rg_jobs r) jid = Some rec
      \<and> out' = sent_frames (pre @ map job_frame_to_wire (jr_frames rec))
      \<and> (last_terminal fs \<longleftrightarrow> js_is_terminal (jsn_state (jr_snapshot rec)))
      \<and> since + length fs = length (jr_frames rec)"
proof -
  obtain rec where rec: "hm_get (rg_jobs r) jid = Some rec" and since: "since \<le> length (jr_frames rec)"
    and quiet: "list_all (\<lambda>f. \<not> js_is_terminal (jfr_state f)) (take since (jr_frames rec))"
    and out: "out = sent_frames (pre @ map job_frame_to_wire (take since (jr_frames rec)))"
    using assms(1) by (auto simp: watching_def)
  have fs_eq: "fs = drop since (jr_frames rec)" using fs rec by (simp add: jobs_frames_since_def)
  have "out' = out @ map (frame_response \<circ> job_frame_to_wire) fs" by (rule reply_all_Inr [OF assms(4)])
  also have "\<dots> = sent_frames (pre @ map job_frame_to_wire (take since (jr_frames rec) @ fs))"
    by (simp add: out sent_frames_def)
  finally have out': "out' = sent_frames (pre @ map job_frame_to_wire (jr_frames rec))" by (simp add: fs_eq)
  have "last_terminal fs \<longleftrightarrow> js_is_terminal (jsn_state (jr_snapshot rec))"
  proof (cases "fs = []")
    case True
    then have "jr_frames rec = take since (jr_frames rec)" using fs_eq by simp
    with quiet have "list_all (\<lambda>f. \<not> js_is_terminal (jfr_state f)) (jr_frames rec)" by simp
    then have "jr_frames rec \<noteq> [] \<Longrightarrow> \<not> js_is_terminal (jfr_state (last (jr_frames rec)))"
      by (simp add: list_all_iff)
    with True record_terminal [OF reg_okD(2) [OF ok rec]] show ?thesis by (auto simp: last_terminal_def)
  next
    case False
    then have "last fs = last (jr_frames rec)" "jr_frames rec \<noteq> []" using fs_eq by auto
    with False record_terminal [OF reg_okD(2) [OF ok rec]] show ?thesis by (simp add: last_terminal_def)
  qed
  with rec since out' fs_eq show ?thesis by auto
qed

lemma watching_unfinished:
  assumes "hm_get (rg_jobs r) jid = Some rec" and "reg_ok r"
    and "\<not> js_is_terminal (jsn_state (jr_snapshot rec))" and "preamble jid pre" and "sent \<longleftrightarrow> pre \<noteq> []"
  shows "watching jid r (length (jr_frames rec)) sent pre (sent_frames (pre @ map job_frame_to_wire (jr_frames rec)))"
  using assms record_unfinished [OF reg_okD(2) [OF assms(2,1)] assms(3)] by (auto simp: watching_def)

text \<open>One pass: it ends the stream as \<open>watch_ok\<close> says, or the loop's state holds after it.\<close>

definition pass_ok :: "string \<Rightarrow> job_registry \<times> job_registry \<Rightarrow> watch_pass \<Rightarrow> bool" where
  "pass_ok jid v p \<longleftrightarrow>
     (case p of
        WP_Stop res \<Rightarrow> watch_ok jid [v] res \<and> (\<forall>out. res \<noteq> WR_Polling out)
      | WP_Next since sent out \<Rightarrow>
          (\<exists>pre. watching jid (fst v) since sent pre out)
        \<and> (\<exists>rec. hm_get (rg_jobs (fst v)) jid = Some rec \<and> \<not> js_is_terminal (jsn_state (jr_snapshot rec))))"

lemma close_pass_ok:
  assumes "hm_get (rg_jobs (fst v)) jid = None" and "watching jid r since sent pre out"
  shows "pass_ok jid v (WP_Stop (close_after C (no_such_job K_JobWatch) out))"
proof -
  obtain rec :: job_record where out: "out = sent_frames (pre @ map job_frame_to_wire (take since (jr_frames rec)))"
    and quiet: "list_all (\<lambda>f. \<not> js_is_terminal (jfr_state f)) (take since (jr_frames rec))"
    and "preamble jid pre"
    using assms(2) unfolding watching_def by blast
  then have "list_all (\<lambda>f. \<not> jw_is_terminal (jfw_state f))
      (pre @ map job_frame_to_wire (take since (jr_frames rec)))"
    using preamble_unfinished by (auto simp: list_all_iff)
  then obtain fs where "out = sent_frames fs" "list_all (\<lambda>f. \<not> jw_is_terminal (jfw_state f)) fs"
    using out by blast
  with assms(1) show ?thesis
    by (auto simp: pass_ok_def watch_ok_def close_after_def ends_forgotten_def split: sum.split
        dest: reply_all_Inr)
qed

lemma snapshot_pass_ok:
  assumes ok: "reg_ok (fst v)" "reg_ok (snd v)" and rec: "hm_get (rg_jobs (fst v)) jid = Some rec"
    and live: "\<not> js_is_terminal (jsn_state (jr_snapshot rec))" and empty: "jr_frames rec = []"
  shows "pass_ok jid v (send_snapshot C jid (snd v) [])"
proof (cases "jobs_snapshot jid (snd v)")
  case None
  with watching_unfinished [OF rec ok(1) live, of "[]" False] rec live empty show ?thesis
    by (auto simp: send_snapshot_def pass_ok_def preamble_def sent_frames_def)
next
  case (Some s)
  let ?out = "[frame_response (snapshot_to_frame s)]"
  have sid: "jsn_id s = jid"
    using Some reg_okD(2) [OF ok(2)] by (auto simp: jobs_snapshot_def record_ok_def)
  have sent: "sent_frames [snapshot_to_frame s] = ?out" by (simp add: sent_frames_def)
  show ?thesis
  proof (cases "js_is_terminal (jsn_state s)")
    case True
    with Some sent show ?thesis
      by (auto simp: send_snapshot_def pass_ok_def watch_ok_def ends_with_snapshot_def)
  next
    case False
    then have "preamble jid [snapshot_to_frame s]" using sid by (auto simp: preamble_def)
    from watching_unfinished [OF rec ok(1) live this, of True] sent empty
    have "watching jid (fst v) 0 True [snapshot_to_frame s] ?out" by simp
    with Some False rec live show ?thesis
      by (auto simp: send_snapshot_def pass_ok_def watch_ok_def)
  qed
qed

lemma poll_ok:
  assumes reach: "reg_reach r" and steps: "reg_steps r (fst v)" "reg_steps (fst v) (snd v)"
    and w: "watching jid r since sent pre out"
  shows "pass_ok jid v (poll_job C jid v since sent out)"
proof (cases "jobs_frames_since jid since (fst v)")
  case None
  with close_pass_ok [OF _ w, of v] show ?thesis by (simp add: poll_job_def jobs_frames_since_def)
next
  case (Some fs)
  have ok: "reg_ok (fst v)" "reg_ok (snd v)"
    using reg_reach_steps [OF steps(1) reach] reg_reach_steps [OF steps(2)] by (auto intro: reg_reach_ok)
  obtain rec0 where "hm_get (rg_jobs (fst v)) jid = Some rec0" using Some by (auto simp: jobs_frames_since_def)
  from watching_later [OF w reach steps(1) this] have w1: "watching jid (fst v) since sent pre out" .
  then have pre: "preamble jid pre" "sent \<longleftrightarrow> pre \<noteq> []" by (simp_all add: watching_def)
  show ?thesis
  proof (cases "reply_all C (map (frame_response \<circ> job_frame_to_wire) fs) out")
    case (Inl o1)
    with Some show ?thesis by (simp add: poll_job_def pass_ok_def watch_ok_def)
  next
    case (Inr o1)
    obtain rec where rec: "hm_get (rg_jobs (fst v)) jid = Some rec"
      and o1: "o1 = sent_frames (pre @ map job_frame_to_wire (jr_frames rec))"
      and fin: "last_terminal fs \<longleftrightarrow> js_is_terminal (jsn_state (jr_snapshot rec))"
      and len: "since + length fs = length (jr_frames rec)"
      using watching_pass [OF w1 ok(1) Some Inr] by blast
    show ?thesis
    proof (cases "last_terminal fs")
      case True
      then have "ends_with_job jid v o1" using rec o1 fin pre by (auto simp: ends_with_job_def)
      with True Some Inr show ?thesis by (simp add: poll_job_def pass_ok_def watch_ok_def)
    next
      case False
      then have live: "\<not> js_is_terminal (jsn_state (jr_snapshot rec))" using fin by simp
      from watching_unfinished [OF rec ok(1) live pre] snapshot_pass_ok [OF ok rec live] False Some Inr len o1 rec live pre
      show ?thesis by (auto simp: poll_job_def pass_ok_def sent_frames_def)
    qed
  qed
qed

lemma watch_loop_ok:
  assumes "reg_reach r" and "view_chain r views" and "watching jid r since sent pre out"
  shows "watch_ok jid views (watch_loop C jid views since sent out)"
  using assms
proof (induction views arbitrary: r since sent pre out)
  case Nil
  then show ?case by (simp add: watch_ok_def)
next
  case (Cons v views)
  have s1: "reg_steps r (fst v)" and s2: "reg_steps (fst v) (snd v)" and "view_chain (snd v) views"
    using Cons.prems(2) by (cases v; simp)+
  then have chain: "view_chain (fst v) views" by (auto intro: view_chain_earlier)
  note reach = reg_reach_steps [OF s1 Cons.prems(1)]
  note pass = poll_ok [OF Cons.prems(1) s1 s2 Cons.prems(3), of C]
  show ?case
  proof (cases "poll_job C jid v since sent out")
    case (WP_Stop res)
    with pass show ?thesis by (cases res) (auto simp: pass_ok_def watch_ok_def)
  next
    case (WP_Next since' sent' out')
    then obtain pre' rec where "watching jid (fst v) since' sent' pre' out'"
      and "hm_get (rg_jobs (fst v)) jid = Some rec" "\<not> js_is_terminal (jsn_state (jr_snapshot rec))"
      using pass by (auto simp: pass_ok_def)
    with Cons.IH [OF reach chain] watch_ok_more WP_Next show ?thesis by auto
  qed
qed

section \<open>Properties\<close>

lemma watch_start: "jobs_snapshot jid r \<noteq> None \<Longrightarrow> watching jid r 0 False [] []"
  by (auto simp: watching_def jobs_snapshot_def preamble_def sent_frames_def)

lemma stream_ok:
  assumes "reg_reach r0" and "jobs_snapshot jid r0 \<noteq> None" and "view_chain r0 views"
  shows "watch_ok jid views (stream_job_watch C (Some (P_Job \<lparr>jp_job_id = jid\<rparr>)) r0 views)"
  using watch_loop_ok [OF assms(1,3) watch_start [OF assms(2)]] assms(2) by (auto simp: stream_job_watch_def)

lemma watch_stream_complete:
  assumes "reg_reach r0" and "jobs_snapshot jid r0 \<noteq> None" and "view_chain r0 views"
    and "stream_job_watch C (Some (P_Job \<lparr>jp_job_id = jid\<rparr>)) r0 views = WR_Closed out"
  shows "\<exists>v \<in> set views. ends_with_job jid v out \<or> ends_with_snapshot jid v out \<or> ends_forgotten jid v out"
  using stream_ok [OF assms(1,2,3), of C] assms(4) by (simp add: watch_ok_def)

lemma reply_all_accepted: "(\<And>out r. C out r) \<Longrightarrow> reply_all C rs out = Inr (out @ rs)"
  by (induction rs arbitrary: out) auto

lemma watch_loop_unbroken:
  assumes "\<And>out r. C out r" shows "watch_loop C jid views since sent out \<noteq> WR_Broken out'"
  by (induction views arbitrary: since sent out)
    (auto simp: poll_job_def send_snapshot_def close_after_def reply_all_accepted [OF assms]
      split: watch_pass.split option.split if_splits)

text \<open>C13: a watcher is not kept waiting. On a connection that takes every reply, the stream is
  closed as soon as a poll finds the job finished, or forgotten.\<close>

theorem watch_stream_ends:
  assumes "reg_reach r0" and "jobs_snapshot jid r0 \<noteq> None" and "view_chain r0 views"
    and "\<And>out r. C out r" and "v \<in> set views"
    and "\<And>s. jobs_snapshot jid (fst v) = Some s \<Longrightarrow> js_is_terminal (jsn_state s)"
  shows "\<exists>out. stream_job_watch C (Some (P_Job \<lparr>jp_job_id = jid\<rparr>)) r0 views = WR_Closed out"
proof (cases "stream_job_watch C (Some (P_Job \<lparr>jp_job_id = jid\<rparr>)) r0 views")
  case (WR_Polling out)
  with stream_ok [OF assms(1,2,3), of C] assms(5) obtain rec
    where "hm_get (rg_jobs (fst v)) jid = Some rec" "\<not> js_is_terminal (jsn_state (jr_snapshot rec))"
    by (auto simp: watch_ok_def)
  with assms(6) show ?thesis by (simp add: jobs_snapshot_def)
next
  case (WR_Broken out)
  moreover have "watch_loop C jid views 0 False [] \<noteq> WR_Broken out"
    by (rule watch_loop_unbroken) (rule assms(4))
  ultimately show ?thesis using assms(2) by (auto simp: stream_job_watch_def)
qed simp

section \<open>Witnesses\<close>

text \<open>The job of \<open>demo_reg\<close> is polled once, when it is done.\<close>

definition demo_done :: job_registry where
  "demo_done = jobs_transition ''job-1'' JS_Done (Some ''done'') (Some 100) None demo_reg"

lemma demo_record:
  obtains rec where "hm_get (rg_jobs demo_reg) ''job-1'' = Some rec"
    and "jr_frames rec = [\<lparr>jfr_id = ''job-1'', jfr_state = JS_Joining, jfr_step = Some ''join'',
           jfr_progress = None, jfr_detail = None\<rparr>]"
    and "hm_len (rg_jobs demo_reg) = 1"
  by (simp add: demo_reg_def jobs_submit_def jobs_new_def Let_def job_name_1 jobs_transition_def
      hm_get_def hm_insert_def hm_len_def push_frame_def)

lemma demo_done_record:
  obtains rec where "hm_get (rg_jobs demo_done) ''job-1'' = Some rec"
    and "map jfr_state (jr_frames rec) = [JS_Joining, JS_Done]"
    and "jsn_state (jr_snapshot rec) = JS_Done"
proof -
  obtain rec where rec: "hm_get (rg_jobs demo_reg) ''job-1'' = Some rec"
      "jr_frames rec = [\<lparr>jfr_id = ''job-1'', jfr_state = JS_Joining, jfr_step = Some ''join'',
           jfr_progress = None, jfr_detail = None\<rparr>]"
      "hm_len (rg_jobs demo_reg) = 1"
    by (rule demo_record)
  let ?rec = "push_frame ''job-1'' JS_Done (Some ''done'') (Some 100) None rec"
  have "hm_len (hm_insert ''job-1'' ?rec (rg_jobs demo_reg)) \<le> 32"
    using hm.len_insert_le [OF reg_okD(1) [OF reg_reach_ok [OF demo_reg_reach]], of "''job-1''" ?rec] rec(3)
    by simp
  then have "hm_get (rg_jobs demo_done) ''job-1'' = Some ?rec"
    using rec(1) by (simp add: demo_done_def jobs_transition_def Let_def evict_old_jobs_def
        MAX_JOB_HISTORY_def hm.get_insert)
  then show thesis by (rule that) (simp_all add: push_frame_frames rec(2))
qed

lemma demo_chain:
  "jobs_snapshot ''job-1'' demo_reg \<noteq> None" "view_chain demo_reg [(demo_done, demo_done)]"
proof -
  show "jobs_snapshot ''job-1'' demo_reg \<noteq> None"
    by (rule demo_record) (simp add: jobs_snapshot_def)
  have "reg_step demo_reg demo_done"
    unfolding demo_done_def by (rule rs_transition) (rule demo_reg_active)
  then show "view_chain demo_reg [(demo_done, demo_done)]" by auto
qed

lemma demo_stream:
  "\<exists>out. stream_job_watch (\<lambda>sent r. True) (Some (P_Job \<lparr>jp_job_id = ''job-1''\<rparr>)) demo_reg [(demo_done, demo_done)]
     = WR_Closed out \<and> length out = 2"
proof -
  obtain rec where rec: "hm_get (rg_jobs demo_done) ''job-1'' = Some rec"
      "map jfr_state (jr_frames rec) = [JS_Joining, JS_Done]"
    by (rule demo_done_record)
  then obtain a b where "jr_frames rec = [a, b]" "jfr_state b = JS_Done"
    by (cases "jr_frames rec") (auto simp: map_eq_Cons_conv)
  with rec demo_chain(1) show ?thesis
    by (auto simp add: stream_job_watch_def poll_job_def jobs_frames_since_def last_terminal_def)
qed

theorem watch_stream_ends_witness:
  "\<exists>out. stream_job_watch (\<lambda>sent r. True) (Some (P_Job \<lparr>jp_job_id = ''job-1''\<rparr>)) demo_reg [(demo_done, demo_done)]
       = WR_Closed out"
proof (rule watch_stream_ends [OF demo_reg_reach demo_chain, of _ "(demo_done, demo_done)"])
  fix s
  assume "jobs_snapshot ''job-1'' (fst (demo_done, demo_done)) = Some s"
  then show "js_is_terminal (jsn_state s)"
    by - (rule demo_done_record, simp add: jobs_snapshot_def)
qed simp_all

end
