(* ===== verification/Wp_Client.thy ===== *)
theory Wp_Client
  imports Wp_IpcProps Wp_IpcWatch
begin

text \<open>
  The client library \<open>crates/wp-client\<close>: its errors, one round trip per operation, the reader
  of a \<open>job.watch\<close> stream, and its composition with the daemon of \<open>Wp_Ipc\<close> over the envelope
  of \<open>Wp_Proto\<close>. Connecting, writing and reading a frame are parameters (the framing is that
  of the shared daemon crate), as is the derived debug text of a result.
\<close>

section \<open>Errors\<close>

datatype frame_error =
  FE_UnexpectedEof nat nat
| FE_Io io_error
| FE_Other string

text \<open>A duration is a number of nanoseconds.\<close>

type_synonym duration = nat

definition from_secs :: "nat \<Rightarrow> duration" where
  "from_secs n = n * 1000000000"

datatype client_error =
  CE_Connect string io_error
| CE_Frame frame_error
| CE_UnexpectedResponse string
| CE_Server string string
| CE_Busy string
| CE_NotFound string
| CE_NoCandidates string
| CE_WatchIdle duration

definition from_error_body :: "error_body \<Rightarrow> client_error" where
  "from_error_body e =
     (if eb_code e = ''busy'' then CE_Busy (eb_message e)
      else if eb_code e = ''notFound'' \<or> eb_code e = ''candidateNotFound'' then CE_NotFound (eb_message e)
      else if eb_code e = ''noCandidates'' then CE_NoCandidates (eb_message e)
      else CE_Server (eb_code e) (eb_message e))"

fun client_is_busy :: "client_error \<Rightarrow> bool" where
  "client_is_busy (CE_Busy m) = True"
| "client_is_busy _ = False"

fun debug_kind :: "request_kind \<Rightarrow> string" where
  "debug_kind K_Hello = ''Hello''"
| "debug_kind K_Scan = ''Scan''"
| "debug_kind K_Probe = ''Probe''"
| "debug_kind K_Program = ''Program''"
| "debug_kind K_JobGet = ''JobGet''"
| "debug_kind K_JobWatch = ''JobWatch''"
| "debug_kind K_JobCancel = ''JobCancel''"
| "debug_kind K_Identify = ''Identify''"
| "debug_kind K_LinkStatus = ''LinkStatus''"
| "debug_kind K_UpdateFirmware = ''UpdateFirmware''"

section \<open>Round trips\<close>

record client =
  ct_socket :: string
  ct_timeout :: duration

record client_lib =
  cl_connect :: "string \<Rightarrow> io_error option"
  cl_write :: "request \<Rightarrow> frame_error option"
  cl_read :: "request \<Rightarrow> frame_error + response"
  cl_debug_body :: "result_body \<Rightarrow> string"

definition DEFAULT_TIMEOUT :: duration where
  "DEFAULT_TIMEOUT = from_secs 10"

definition client_new :: "string \<Rightarrow> client" where
  "client_new socket = \<lparr>ct_socket = socket, ct_timeout = DEFAULT_TIMEOUT\<rparr>"

definition with_timeout :: "duration \<Rightarrow> client \<Rightarrow> client" where
  "with_timeout t c = c\<lparr>ct_timeout := t\<rparr>"

definition client_connect :: "client_lib \<Rightarrow> client \<Rightarrow> client_error + unit" where
  "client_connect L c =
     (case cl_connect L (ct_socket c) of
        Some e \<Rightarrow> Inl (CE_Connect (ct_socket c) e)
      | None \<Rightarrow> Inr ())"

definition round_trip :: "client_lib \<Rightarrow> client \<Rightarrow> request \<Rightarrow> client_error + response" where
  "round_trip L c req =
     rbind (client_connect L c) (\<lambda>u.
       case cl_write L req of
         Some e \<Rightarrow> Inl (CE_Frame e)
       | None \<Rightarrow> map_err CE_Frame (cl_read L req))"

definition expect_result :: "response \<Rightarrow> request_kind \<Rightarrow> client_error + result_body" where
  "expect_result resp expected =
     (case rs_error resp of
        Some e \<Rightarrow> Inl (from_error_body e)
      | None \<Rightarrow>
          if rs_kind resp \<noteq> expected then Inl (CE_UnexpectedResponse (debug_kind (rs_kind resp)))
          else (case rs_result resp of
                  Some b \<Rightarrow> Inr b
                | None \<Rightarrow> Inl (CE_UnexpectedResponse ''missing result'')))"

definition unexpected_body :: "client_lib \<Rightarrow> result_body \<Rightarrow> client_error" where
  "unexpected_body L b = CE_UnexpectedResponse (cl_debug_body L b)"

definition request_result ::
    "client_lib \<Rightarrow> client \<Rightarrow> request_kind \<Rightarrow> params \<Rightarrow> client_error + result_body" where
  "request_result L c kind ps =
     rbind (round_trip L c \<lparr>rq_kind = kind, rq_params = Some ps\<rparr>) (\<lambda>resp. expect_result resp kind)"

definition client_hello :: "client_lib \<Rightarrow> client \<Rightarrow> client_error + hello_result" where
  "client_hello L c =
     rbind (request_result L c K_Hello P_None)
       (\<lambda>b. case b of R_Hello h \<Rightarrow> Inr h | _ \<Rightarrow> Inl (unexpected_body L b))"

definition client_scan_mode :: "client_lib \<Rightarrow> client \<Rightarrow> reach_mode \<Rightarrow> client_error + candidate_wire list" where
  "client_scan_mode L c mode =
     rbind (request_result L c K_Scan (if mode = RM_Ap then P_None else P_Scan \<lparr>sp_mode = mode\<rparr>))
       (\<lambda>b. case b of R_Scan cs \<Rightarrow> Inr cs | _ \<Rightarrow> Inl (unexpected_body L b))"

definition client_scan :: "client_lib \<Rightarrow> client \<Rightarrow> client_error + candidate_wire list" where
  "client_scan L c = client_scan_mode L c RM_Ap"

definition client_update_firmware ::
    "client_lib \<Rightarrow> client \<Rightarrow> update_firmware_params \<Rightarrow> client_error + program_result" where
  "client_update_firmware L c p =
     rbind (request_result L c K_UpdateFirmware (P_UpdateFirmware p))
       (\<lambda>b. case b of
          R_UpdateFirmware r \<Rightarrow> Inr r
        | R_Program r \<Rightarrow> Inr r
        | _ \<Rightarrow> Inl (unexpected_body L b))"

definition client_probe :: "client_lib \<Rightarrow> client \<Rightarrow> candidate_ref \<Rightarrow> client_error + device_info_wire" where
  "client_probe L c cand =
     rbind (request_result L c K_Probe (P_Probe \<lparr>pb_candidate = cand\<rparr>))
       (\<lambda>b. case b of R_Probe d \<Rightarrow> Inr d | _ \<Rightarrow> Inl (unexpected_body L b))"

definition client_program ::
    "client_lib \<Rightarrow> client \<Rightarrow> candidate_ref \<Rightarrow> program_request_wire \<Rightarrow> client_error + program_result" where
  "client_program L c cand w =
     rbind (request_result L c K_Program (P_Program \<lparr>pp_candidate = cand, pp_request = w\<rparr>))
       (\<lambda>b. case b of R_Program r \<Rightarrow> Inr r | _ \<Rightarrow> Inl (unexpected_body L b))"

definition client_job_get :: "client_lib \<Rightarrow> client \<Rightarrow> string \<Rightarrow> client_error + job_snapshot_wire" where
  "client_job_get L c jid =
     rbind (request_result L c K_JobGet (P_Job \<lparr>jp_job_id = jid\<rparr>))
       (\<lambda>b. case b of R_Job j \<Rightarrow> Inr j | _ \<Rightarrow> Inl (unexpected_body L b))"

definition client_job_cancel :: "client_lib \<Rightarrow> client \<Rightarrow> string \<Rightarrow> client_error + job_snapshot_wire" where
  "client_job_cancel L c jid =
     rbind (request_result L c K_JobCancel (P_Job \<lparr>jp_job_id = jid\<rparr>))
       (\<lambda>b. case b of R_JobCancelled j \<Rightarrow> Inr j | _ \<Rightarrow> Inl (unexpected_body L b))"

definition client_identify ::
    "client_lib \<Rightarrow> client \<Rightarrow> candidate_ref \<Rightarrow> u32 option \<Rightarrow> client_error + unit" where
  "client_identify L c cand count =
     rbind (request_result L c K_Identify (P_Identify \<lparr>ip_candidate = cand, ip_count = count\<rparr>))
       (\<lambda>b. case b of R_Identify \<Rightarrow> Inr () | _ \<Rightarrow> Inl (unexpected_body L b))"

definition client_link_status :: "client_lib \<Rightarrow> client \<Rightarrow> client_error + link_status_wire" where
  "client_link_status L c =
     rbind (request_result L c K_LinkStatus P_None)
       (\<lambda>b. case b of R_LinkStatus s \<Rightarrow> Inr s | _ \<Rightarrow> Inl (unexpected_body L b))"

section \<open>The watch stream\<close>

text \<open>\<open>job_watch\<close> sends its request; each \<open>next_frame\<close> then sets the idle deadline and reads.\<close>

definition client_job_watch :: "client_lib \<Rightarrow> client \<Rightarrow> string \<Rightarrow> client_error + unit" where
  "client_job_watch L c jid =
     rbind (client_connect L c) (\<lambda>u.
       case cl_write L \<lparr>rq_kind = K_JobWatch, rq_params = Some (P_Job \<lparr>jp_job_id = jid\<rparr>)\<rparr> of
         Some e \<Rightarrow> Inl (CE_Frame e)
       | None \<Rightarrow> Inr ())"

datatype read_event = RE_NoDeadline io_error | RE_Read "frame_error + response"

definition next_frame ::
    "client_lib \<Rightarrow> duration \<Rightarrow> read_event \<Rightarrow> client_error + job_frame_wire option" where
  "next_frame L idle ev =
     (case ev of
        RE_NoDeadline e \<Rightarrow> Inl (CE_Frame (FE_Io e))
      | RE_Read (Inl (FE_UnexpectedEof r n)) \<Rightarrow>
          if r = 0 then Inr None else Inl (CE_Frame (FE_UnexpectedEof r n))
      | RE_Read (Inl (FE_Io e)) \<Rightarrow>
          if ioe_kind e = IOK_WouldBlock \<or> ioe_kind e = IOK_TimedOut then Inl (CE_WatchIdle idle)
          else Inl (CE_Frame (FE_Io e))
      | RE_Read (Inl (FE_Other s)) \<Rightarrow> Inl (CE_Frame (FE_Other s))
      | RE_Read (Inr resp) \<Rightarrow>
          (case rs_error resp of
             Some e \<Rightarrow> Inl (from_error_body e)
           | None \<Rightarrow>
               if rs_kind resp \<noteq> K_JobWatch then Inl (CE_UnexpectedResponse (debug_kind (rs_kind resp)))
               else (case rs_result resp of
                       Some (R_JobWatch f) \<Rightarrow> Inr (Some f)
                     | Some other \<Rightarrow> Inl (unexpected_body L other)
                     | None \<Rightarrow> Inl (CE_UnexpectedResponse ''missing result''))))"

text \<open>
  \<open>drain_with\<close>: the frames given to the callback, and the result, or \<open>None\<close> while the reader
  still waits for a read that the list does not hold.
\<close>

fun drain_with ::
    "client_lib \<Rightarrow> duration \<Rightarrow> read_event list \<Rightarrow> job_frame_wire option
       \<Rightarrow> job_frame_wire list \<times> (client_error + job_frame_wire option) option" where
  "drain_with L idle [] seen = ([], None)"
| "drain_with L idle (ev # evs) seen =
     (case next_frame L idle ev of
        Inl e \<Rightarrow> ([], Some (Inl e))
      | Inr None \<Rightarrow> ([], Some (Inr seen))
      | Inr (Some f) \<Rightarrow>
          if jw_is_terminal (jfw_state f) then ([f], Some (Inr (Some f)))
          else (case drain_with L idle evs (Some f) of (fs, r) \<Rightarrow> (f # fs, r)))"

definition drain :: "client_lib \<Rightarrow> duration \<Rightarrow> read_event list \<Rightarrow> (client_error + job_frame_wire option) option" where
  "drain L idle evs = snd (drain_with L idle evs None)"

section \<open>Client and daemon\<close>

text \<open>
  One request over the wire: serialised by the client, read and answered by the daemon, and the
  answer serialised and read back.
\<close>

definition over_wire :: "'v codec \<Rightarrow> 'j ipc_env \<Rightarrow> runtime \<Rightarrow> request \<Rightarrow> string + response" where
  "over_wire C I rt req =
     rbind (request_serialize C req) (\<lambda>sent.
     rbind (request_deserialize C sent) (\<lambda>got.
     rbind (response_serialize C (fst (dispatch I got rt))) (response_deserialize C)))"

text \<open>The library of a client that is connected to a daemon.\<close>

definition wired :: "'v codec \<Rightarrow> 'j ipc_env \<Rightarrow> runtime \<Rightarrow> (result_body \<Rightarrow> string) \<Rightarrow> client_lib" where
  "wired C I rt dbg =
     \<lparr>cl_connect = (\<lambda>s. None), cl_write = (\<lambda>r. None),
      cl_read = (\<lambda>req. map_err FE_Other (over_wire C I rt req)), cl_debug_body = dbg\<rparr>"

end
