(* ===== verification/Wp_ClientProps.thy ===== *)
theory Wp_ClientProps
  imports Wp_Client
begin

text \<open>
  What a caller of the client library gets from the daemon: the answer of \<open>dispatch\<close>, typed;
  the frames of a watched job; and which errors can and cannot arise.
\<close>

section \<open>Requests over the wire\<close>

lemma dispatch_no_params:
  "rq_params req = Some P_None \<Longrightarrow> dispatch I (req\<lparr>rq_params := None\<rparr>) rt = dispatch I req rt"
  by (simp add: dispatch_def dispatch_scan_def scan_mode_def dispatch_probe_def dispatch_program_def
      dispatch_job_get_def dispatch_job_cancel_def dispatch_identify_def dispatch_update_firmware_def
      split: request_kind.split)

lemma answers_result: "answers k r \<Longrightarrow> pred_option (result_for k) (rs_result r)"
  by (auto simp: answers_def split: option.splits)

definition as_delivered :: "response \<Rightarrow> response" where
  "as_delivered r =
     r\<lparr>rs_result := (if rs_kind r = K_Identify then Some R_Identify else rs_result r)\<rparr>"

lemma answers_delivered:
  assumes "codec_ok C" and "answers k r"
  shows "\<exists>dto. response_serialize C r = Inr dto \<and> response_deserialize C dto = Inr (as_delivered r)"
proof -
  have "pred_option (result_for (rs_kind r)) (rs_result r)"
    using answers_result [OF assms(2)] assms(2) by (simp add: answers_def)
  from response_wire [OF assms(1) this] show ?thesis by (auto simp: as_delivered_def)
qed

lemma over_wire_delivers:
  assumes C: "codec_ok C" and ps: "pred_option (params_for (rq_kind req)) (rq_params req)"
  shows "over_wire C I rt req = Inr (as_delivered (fst (dispatch I req rt)))"
proof -
  let ?req = "req\<lparr>rq_params := (if rq_params req = Some P_None then None else rq_params req)\<rparr>"
  obtain dto where dto: "request_serialize C req = Inr dto" "request_deserialize C dto = Inr ?req"
    using request_wire [OF C ps] by blast
  have "dispatch I ?req rt = dispatch I req rt" using dispatch_no_params [of req] by (cases req) auto
  moreover obtain dto' where "response_serialize C (fst (dispatch I req rt)) = Inr dto'"
      "response_deserialize C dto' = Inr (as_delivered (fst (dispatch I req rt)))"
    using answers_delivered [OF C dispatch_answers] by blast
  ultimately show ?thesis using dto by (simp add: over_wire_def)
qed

text \<open>C14: a request over the wire is the same as a call of \<open>dispatch\<close>: with the envelope encoding
  on both sides the client receives exactly the response the daemon computed, except that
  every identify response, an error included, arrives with the result \<open>identify\<close>. The parameters of the
  request, where it has any, are those of its kind, as every operation of the client sends them.\<close>

theorem wire_transparent:
  assumes "codec_ok C" and "pred_option (params_for (rq_kind req)) (rq_params req)"
  shows "over_wire C I rt req = Inr ((fst (dispatch I req rt))
     \<lparr>rs_result := (if rq_kind req = K_Identify then Some R_Identify else rs_result (fst (dispatch I req rt)))\<rparr>)"
proof -
  have "rs_kind (fst (dispatch I req rt)) = rq_kind req"
    using dispatch_answers [of req I rt] by (simp add: answers_def)
  then show ?thesis unfolding over_wire_delivers [OF assms] as_delivered_def by simp
qed

theorem wire_transparent_witness:
  "over_wire demo_codec demo_ipc demo_runtime \<lparr>rq_kind = K_Identify, rq_params = None\<rparr>
     = Inr ((missing_params K_Identify)\<lparr>rs_result := Some R_Identify\<rparr>)"
  using wire_transparent [OF demo_codec_ok, of "\<lparr>rq_kind = K_Identify, rq_params = None\<rparr>" demo_ipc demo_runtime]
  by (simp add: dispatch_def dispatch_identify_def)

section \<open>The client's operations\<close>

text \<open>\<open>agrees x wrap r\<close>: the client's outcome \<open>x\<close> is what the daemon's response \<open>r\<close> says.\<close>

definition agrees :: "client_error + 'a \<Rightarrow> ('a \<Rightarrow> result_body) \<Rightarrow> response \<Rightarrow> bool" where
  "agrees x wrap r \<longleftrightarrow>
     (case rs_error r of
        Some b \<Rightarrow> x = Inl (from_error_body b)
      | None \<Rightarrow> (\<exists>a. x = Inr a \<and> rs_result r = Some (wrap a)))"

lemma identify_body: "result_for K_Identify b \<longleftrightarrow> b = R_Identify"
  by (cases b) simp_all

lemma delivered_success:
  assumes "answers k r" and "rs_error r = None"
  obtains b where "rs_result r = Some b" and "result_for k b" and "as_delivered r = r"
proof (cases "k = K_Identify")
  case True
  with assms show ?thesis
    by (cases r) (auto simp: answers_def as_delivered_def identify_body split: option.splits intro: that)
next
  case False
  with assms show ?thesis
    by (cases r) (auto simp: answers_def as_delivered_def split: option.splits intro: that)
qed

lemma wired_result:
  assumes "codec_ok C" and "params_for k ps" and "fst (dispatch I \<lparr>rq_kind = k, rq_params = Some ps\<rparr> rt) = r"
  shows "case rs_error r of
      Some b \<Rightarrow> request_result (wired C I rt dbg) c k ps = Inl (from_error_body b)
    | None \<Rightarrow> \<exists>b. request_result (wired C I rt dbg) c k ps = Inr b \<and> rs_result r = Some b \<and> result_for k b"
proof -
  let ?req = "\<lparr>rq_kind = k, rq_params = Some ps\<rparr>"
  have r: "answers k r" using dispatch_answers [of ?req I rt] assms(3) by simp
  have "over_wire C I rt ?req = Inr (as_delivered r)"
    using over_wire_delivers [OF assms(1), of ?req I rt] assms(2,3) by simp
  then have run: "request_result (wired C I rt dbg) c k ps = expect_result (as_delivered r) k"
    by (simp add: request_result_def round_trip_def client_connect_def wired_def)
  show ?thesis
  proof (cases "rs_error r")
    case None
    obtain b where "rs_result r = Some b" "result_for k b" "as_delivered r = r"
      using delivered_success [OF r None] by blast
    with run None r show ?thesis by (simp add: expect_result_def answers_def)
  next
    case (Some e)
    with run show ?thesis by (simp add: expect_result_def as_delivered_def)
  qed
qed

lemma agrees_op:
  assumes "case rs_error r of
      Some b \<Rightarrow> x = Inl (from_error_body b)
    | None \<Rightarrow> \<exists>b. x = Inr b \<and> rs_result r = Some b \<and> result_for k b"
    and "\<And>b. result_for k b \<Longrightarrow> \<exists>a. b = wrap a \<and> f b = Inr a"
  shows "agrees (rbind x f) wrap r"
  using assms by (auto simp: agrees_def split: option.splits) metis

lemma result_for_iff:
  "result_for K_Hello b \<longleftrightarrow> (\<exists>a. b = R_Hello a)"
  "result_for K_Scan b \<longleftrightarrow> (\<exists>a. b = R_Scan a)"
  "result_for K_Probe b \<longleftrightarrow> (\<exists>a. b = R_Probe a)"
  "result_for K_Program b \<longleftrightarrow> (\<exists>a. b = R_Program a)"
  "result_for K_UpdateFirmware b \<longleftrightarrow> (\<exists>a. b = R_UpdateFirmware a)"
  "result_for K_JobGet b \<longleftrightarrow> (\<exists>a. b = R_Job a)"
  "result_for K_JobCancel b \<longleftrightarrow> (\<exists>a. b = R_JobCancelled a)"
  "result_for K_Identify b \<longleftrightarrow> b = R_Identify"
  "result_for K_LinkStatus b \<longleftrightarrow> (\<exists>a. b = R_LinkStatus a)"
  by (cases b; simp)+

text \<open>The response that \<open>dispatch\<close> gives to a request with these params.\<close>

definition answer :: "'j ipc_env \<Rightarrow> runtime \<Rightarrow> request_kind \<Rightarrow> params \<Rightarrow> response" where
  "answer I rt k ps = fst (dispatch I \<lparr>rq_kind = k, rq_params = Some ps\<rparr> rt)"

text \<open>Every operation of a client connected to the daemon returns exactly what the daemon
  answered: the typed result when the request succeeded, and otherwise the client error that
  belongs to the daemon's error; never an unexpected response.\<close>

lemma client_operations_agree:
  assumes "codec_ok C" and "L = wired C I rt dbg"
  shows "agrees (client_hello L c) R_Hello (answer I rt K_Hello P_None)
   \<and> agrees (client_scan_mode L c mode) R_Scan
       (answer I rt K_Scan (if mode = RM_Ap then P_None else P_Scan \<lparr>sp_mode = mode\<rparr>))
   \<and> agrees (client_probe L c cand) R_Probe (answer I rt K_Probe (P_Probe \<lparr>pb_candidate = cand\<rparr>))
   \<and> agrees (client_program L c cand w) R_Program
       (answer I rt K_Program (P_Program \<lparr>pp_candidate = cand, pp_request = w\<rparr>))
   \<and> agrees (client_update_firmware L c p) R_UpdateFirmware (answer I rt K_UpdateFirmware (P_UpdateFirmware p))
   \<and> agrees (client_job_get L c jid) R_Job (answer I rt K_JobGet (P_Job \<lparr>jp_job_id = jid\<rparr>))
   \<and> agrees (client_job_cancel L c jid) R_JobCancelled (answer I rt K_JobCancel (P_Job \<lparr>jp_job_id = jid\<rparr>))
   \<and> agrees (client_identify L c cand count) (\<lambda>u. R_Identify)
       (answer I rt K_Identify (P_Identify \<lparr>ip_candidate = cand, ip_count = count\<rparr>))
   \<and> agrees (client_link_status L c) R_LinkStatus (answer I rt K_LinkStatus P_None)"
  unfolding client_hello_def client_scan_mode_def client_probe_def client_program_def
    client_update_firmware_def client_job_get_def client_job_cancel_def client_identify_def
    client_link_status_def assms(2)
  by (intro conjI; rule agrees_op [OF wired_result [OF assms(1) _ answer_def [symmetric]]];
      auto simp: result_for_iff)

section \<open>Errors\<close>

text \<open>The error codes that \<open>dispatch\<close> sends.\<close>

definition daemon_codes :: "string list" where
  "daemon_codes =
     [''busy'', ''scan_failed'', ''probe_failed'', ''bad_params'', ''unknown_driver'', ''validation'',
      ''program_failed'', ''not_found'', ''driverError'', ''noCandidates'', ''firmware_failed'', ''internal'']"

definition coded :: "response \<Rightarrow> bool" where
  "coded r \<longleftrightarrow> (case rs_error r of None \<Rightarrow> True | Some e \<Rightarrow> eb_code e \<in> set daemon_codes)"

lemma coded_err: "code \<in> set daemon_codes \<Longrightarrow> coded (err_response k code m)"
  by (simp add: coded_def err_response_def)

lemma coded_ok: "coded (ok_response k b)"
  by (simp add: coded_def ok_response_def)

lemma coded_fixed:
  "coded (busy_response k)" "coded (missing_params k)" "coded (unknown_driver k)" "coded (no_such_job k)"
  by (simp_all add: busy_response_def missing_params_def unknown_driver_def no_such_job_def coded_err
      daemon_codes_def)

lemma in_daemon_codes:
  "program_error_code e \<in> set daemon_codes" "firmware_error_code e \<in> set daemon_codes"
  by (cases e; simp add: program_error_code_def firmware_error_code_def daemon_codes_def)+

lemmas coded_rules = coded_fixed coded_ok coded_err in_daemon_codes

lemma coded_usb: "only_usb_port E rt = (Inl r, rt') \<Longrightarrow> coded r"
  by (auto simp: only_usb_port_def daemon_codes_def intro!: coded_err
      split: prod.splits sum.splits list.splits)

lemma coded_submit_firmware: "coded (fst (submit_firmware_request I p key rt))"
  by (simp add: submit_firmware_request_def coded_rules split: option.split prod.split sum.split)

lemma coded_update_firmware: "coded (fst (dispatch_update_firmware I ps rt))"
  by (auto simp: dispatch_update_firmware_def coded_rules coded_submit_firmware coded_usb daemon_codes_def
      split: option.split params.split prod.splits sum.splits if_splits)

lemma coded_job: "coded (job_answer k f jid rt)"
  by (simp add: job_answer_def coded_rules split: option.split)

lemma coded_codes: "coded (err_response k ''scan_failed'' m)" "coded (err_response k ''probe_failed'' m)"
  "coded (err_response k ''driverError'' m)" "coded (err_response k ''internal'' m)"
  by (simp_all add: coded_err daemon_codes_def)

lemma dispatch_coded: "coded (fst (dispatch I req rt))"
  by (cases "rq_kind req")
    (simp_all add: dispatch_def dispatch_hello_def dispatch_scan_def dispatch_probe_def dispatch_program_def
      dispatch_job_get_def dispatch_job_cancel_def dispatch_identify_def dispatch_link_status_def
      coded_update_firmware coded_rules coded_job coded_codes Let_def
      split: option.split params.split prod.split sum.split)

text \<open>No operation of a client ever reports that a job or a candidate was not found. The
  daemon's code for it is \<open>not_found\<close>, the client maps only \<open>notFound\<close> and
  \<open>candidateNotFound\<close>, so whatever is asked, a missing job arrives as the untyped server error,
  and the typed error \<open>NotFound\<close> cannot arise.\<close>

lemma client_never_not_found:
  assumes "codec_ok C" and "params_for k ps"
  shows "request_result (wired C I rt dbg) c k ps \<noteq> Inl (CE_NotFound m)
   \<and> client_job_get (wired C I rt dbg) c jid =
       (case jobs_snapshot jid (rt_jobs rt) of
          None \<Rightarrow> Inl (CE_Server ''not_found'' ''no such job'')
        | Some s \<Rightarrow> Inr (snapshot_to_wire s))"
proof
  let ?r = "fst (dispatch I \<lparr>rq_kind = k, rq_params = Some ps\<rparr> rt)"
  have "coded ?r" by (rule dispatch_coded)
  then have "rs_error ?r = Some b \<Longrightarrow> from_error_body b \<noteq> CE_NotFound m" for b
    by (auto simp: coded_def daemon_codes_def from_error_body_def)
  with wired_result [OF assms refl, of I rt dbg c]
  show "request_result (wired C I rt dbg) c k ps \<noteq> Inl (CE_NotFound m)"
    by (auto split: option.splits)
next
  have "answer I rt K_JobGet (P_Job \<lparr>jp_job_id = jid\<rparr>) = job_answer K_JobGet R_Job jid rt"
    by (simp add: answer_def dispatch_def dispatch_job_get_def)
  with wired_result [OF assms(1) _ answer_def [symmetric], of K_JobGet "P_Job \<lparr>jp_job_id = jid\<rparr>" I rt dbg c]
  show "client_job_get (wired C I rt dbg) c jid =
       (case jobs_snapshot jid (rt_jobs rt) of
          None \<Rightarrow> Inl (CE_Server ''not_found'' ''no such job'')
        | Some s \<Rightarrow> Inr (snapshot_to_wire s))"
    by (auto simp: client_job_get_def job_answer_def no_such_job_def err_response_def ok_response_def
        from_error_body_def split: option.splits)
qed

section \<open>Watching through the client\<close>

text \<open>What the client reads when the server sent \<open>out\<close> and closed the connection.\<close>

definition received :: "'v codec \<Rightarrow> response list \<Rightarrow> read_event list" where
  "received C out =
     map (\<lambda>r. RE_Read (map_err FE_Other (rbind (response_serialize C r) (response_deserialize C)))) out
       @ [RE_Read (Inl (FE_UnexpectedEof 0 4))]"

lemma next_frame_received:
  assumes "codec_ok C"
  shows "next_frame L idle (RE_Read (map_err FE_Other (rbind (response_serialize C (frame_response f))
           (response_deserialize C)))) = Inr (Some f)"
proof -
  have "answers K_JobWatch (frame_response f)" by (simp add: frame_response_def answers_ok)
  from answers_delivered [OF assms this] show ?thesis
    by (auto simp: next_frame_def as_delivered_def frame_response_def ok_response_def)
qed

lemma next_frame_error:
  assumes "codec_ok C"
  shows "next_frame L idle (RE_Read (map_err FE_Other (rbind (response_serialize C (no_such_job K_JobWatch))
           (response_deserialize C)))) = Inl (CE_Server ''not_found'' ''no such job'')"
proof -
  have "answers K_JobWatch (no_such_job K_JobWatch)" by (rule answers_fixed)
  from answers_delivered [OF assms this] show ?thesis
    by (auto simp: next_frame_def as_delivered_def no_such_job_def err_response_def from_error_body_def)
qed

lemma drain_frames:
  assumes C: "codec_ok C"
  shows "list_all (\<lambda>f. \<not> jw_is_terminal (jfw_state f)) fs \<Longrightarrow>
     drain_with L idle (received C (sent_frames fs @ rest)) seen =
       (case drain_with L idle (received C rest) (if fs = [] then seen else Some (last fs)) of
          (gs, r) \<Rightarrow> (fs @ gs, r))"
proof (induction fs arbitrary: seen)
  case Nil
  then show ?case by (simp add: sent_frames_def split: prod.split)
next
  case (Cons f fs)
  from Cons.prems Cons.IH [of "Some f"] next_frame_received [OF C] show ?case
    by (auto simp: received_def sent_frames_def split: prod.splits)
qed

lemma drain_terminal:
  assumes "codec_ok C" and "jw_is_terminal (jfw_state f)"
  shows "drain_with L idle (received C (sent_frames [f])) seen = ([f], Some (Inr (Some f)))"
  using next_frame_received [OF assms(1)] assms(2) by (simp add: received_def sent_frames_def)

lemma drain_not_found:
  assumes "codec_ok C"
  shows "drain_with L idle (received C [no_such_job K_JobWatch]) seen
       = ([], Some (Inl (CE_Server ''not_found'' ''no such job'')))"
  using next_frame_error [OF assms] by (simp add: received_def)

lemma drain_finished:
  assumes "codec_ok C" and "fs \<noteq> []" and "list_all (\<lambda>f. \<not> jw_is_terminal (jfw_state f)) (butlast fs)"
    and "jw_is_terminal (jfw_state (last fs))"
  shows "drain_with L idle (received C (sent_frames fs)) seen = (fs, Some (Inr (Some (last fs))))"
proof -
  have "sent_frames fs = sent_frames (butlast fs) @ sent_frames [last fs]"
    using assms(2) by (metis append_butlast_last_id map_append sent_frames_def)
  then show ?thesis
    using drain_frames [OF assms(1,3), of L idle "sent_frames [last fs]"] drain_terminal [OF assms(1,4)] assms(2)
    by simp
qed

text \<open>The frames of a finished job, after a preamble, are what \<open>drain_finished\<close> asks for.\<close>

lemma job_frames_finished:
  assumes "record_ok jid rec" and "js_is_terminal (jsn_state (jr_snapshot rec))" and "preamble jid pre"
  defines "fs \<equiv> pre @ map job_frame_to_wire (jr_frames rec)"
  shows "fs \<noteq> []" and "list_all (\<lambda>f. \<not> jw_is_terminal (jfw_state f)) (butlast fs)"
    and "jw_is_terminal (jfw_state (last fs))"
    and "last fs = job_frame_to_wire (last (jr_frames rec))"
proof -
  have ne: "jr_frames rec \<noteq> []" "js_is_terminal (jfr_state (last (jr_frames rec)))"
    using record_terminal [OF assms(1)] assms(2) by simp_all
  then show "fs \<noteq> []" "jw_is_terminal (jfw_state (last fs))"
      "last fs = job_frame_to_wire (last (jr_frames rec))"
    by (simp_all add: fs_def last_map)
  have "list_all (\<lambda>f. \<not> js_is_terminal (jfr_state f)) (butlast (jr_frames rec))"
    using assms(1) by (simp add: record_ok_def)
  with ne preamble_unfinished [OF assms(3)] show "list_all (\<lambda>f. \<not> jw_is_terminal (jfw_state f)) (butlast fs)"
    by (auto simp: fs_def butlast_append list_all_iff simp flip: map_butlast)
qed

lemma client_watch:
  assumes K: "codec_ok K" and reach: "reg_reach r0" and known: "jobs_snapshot jid r0 \<noteq> None"
    and chain: "view_chain r0 views"
    and closed: "stream_job_watch A (Some (P_Job \<lparr>jp_job_id = jid\<rparr>)) r0 views = WR_Closed out"
  shows "\<exists>v \<in> set views.
     (\<exists>rec pre. hm_get (rg_jobs (fst v)) jid = Some rec \<and> preamble jid pre
        \<and> js_is_terminal (jsn_state (jr_snapshot rec))
        \<and> jfr_state (last (jr_frames rec)) = jsn_state (jr_snapshot rec)
        \<and> drain_with L idle (received K out) None
            = (pre @ map job_frame_to_wire (jr_frames rec),
               Some (Inr (Some (job_frame_to_wire (last (jr_frames rec)))))))
   \<or> (\<exists>s. jobs_snapshot jid (snd v) = Some s \<and> js_is_terminal (jsn_state s)
        \<and> drain_with L idle (received K out) None = ([snapshot_to_frame s], Some (Inr (Some (snapshot_to_frame s)))))
   \<or> (hm_get (rg_jobs (fst v)) jid = None
        \<and> (\<exists>fs. drain_with L idle (received K out) None
                  = (fs, Some (Inl (CE_Server ''not_found'' ''no such job'')))))"
proof -
  obtain v where v: "v \<in> set views"
    and how: "ends_with_job jid v out \<or> ends_with_snapshot jid v out \<or> ends_forgotten jid v out"
    using stream_ok [OF reach known chain, of A] closed by (auto simp: watch_ok_def)
  have ok: "reg_ok (fst v)" using view_reach [OF reach chain v] by (simp add: reg_reach_ok)
  from how show ?thesis
  proof (elim disjE)
    assume "ends_with_job jid v out"
    then obtain rec pre where rec: "hm_get (rg_jobs (fst v)) jid = Some rec"
        "js_is_terminal (jsn_state (jr_snapshot rec))" "preamble jid pre"
        "out = sent_frames (pre @ map job_frame_to_wire (jr_frames rec))"
      unfolding ends_with_job_def by blast
    note fin = job_frames_finished [OF reg_okD(2) [OF ok rec(1)] rec(2,3)]
    have "jfr_state (last (jr_frames rec)) = jsn_state (jr_snapshot rec)"
      using record_terminal [OF reg_okD(2) [OF ok rec(1)]] reg_okD(2) [OF ok rec(1)] rec(2)
      by (simp add: record_ok_def)
    with drain_finished [OF K fin(1,2,3), of L idle None] rec fin(4) v show ?thesis by auto
  next
    assume "ends_with_snapshot jid v out"
    then obtain s where s: "jobs_snapshot jid (snd v) = Some s" "js_is_terminal (jsn_state s)"
        "out = sent_frames [snapshot_to_frame s]"
      by (auto simp: ends_with_snapshot_def)
    with drain_terminal [OF K, of "snapshot_to_frame s" L idle None] v show ?thesis by auto
  next
    assume "ends_forgotten jid v out"
    then show ?thesis
      using v drain_frames [OF K] drain_not_found [OF K] by (fastforce simp: ends_forgotten_def)
  qed
qed

text \<open>C9: watching a job through the client. However the registry moves between the polls, when
  the server has closed the stream the client's callback has seen every frame of the job once
  and in order (after at most one snapshot) and the result is the terminal frame; or only the
  terminal snapshot, when the job was over within one poll; or, for a job forgotten meanwhile,
  the error that there is no such job after unfinished frames.\<close>

theorem client_watch_complete:
  assumes K: "codec_ok K" and reach: "reg_reach r0" and known: "jobs_snapshot jid r0 \<noteq> None"
    and chain: "view_chain r0 views"
    and closed: "stream_job_watch A (Some (P_Job \<lparr>jp_job_id = jid\<rparr>)) r0 views = WR_Closed out"
  shows "\<exists>v \<in> set views.
     (\<exists>rec pre. hm_get (rg_jobs (fst v)) jid = Some rec \<and> preamble jid pre
        \<and> js_is_terminal (jsn_state (jr_snapshot rec))
        \<and> jfr_state (last (jr_frames rec)) = jsn_state (jr_snapshot rec)
        \<and> drain_with L idle (received K out) None
            = (pre @ map job_frame_to_wire (jr_frames rec),
               Some (Inr (Some (job_frame_to_wire (last (jr_frames rec)))))))
   \<or> (\<exists>s. jobs_snapshot jid (snd v) = Some s \<and> js_is_terminal (jsn_state s)
        \<and> drain_with L idle (received K out) None = ([snapshot_to_frame s], Some (Inr (Some (snapshot_to_frame s)))))
   \<or> (hm_get (rg_jobs (fst v)) jid = None
        \<and> (\<exists>fs. drain_with L idle (received K out) None
                  = (fs, Some (Inl (CE_Server ''not_found'' ''no such job'')))))"
  using assms by (rule client_watch)

theorem client_watch_complete_witness:
  "\<exists>fs f. drain_with (wired demo_codec demo_ipc demo_runtime (\<lambda>b. [])) 10
      (received demo_codec (wr_sent (stream_job_watch (\<lambda>sent r. True) (Some (P_Job \<lparr>jp_job_id = ''job-1''\<rparr>))
         demo_reg [(demo_done, demo_done)]))) None
     = (fs, Some (Inr (Some f))) \<and> jfw_state f = JW_Done"
proof -
  obtain out where out: "stream_job_watch (\<lambda>sent r. True) (Some (P_Job \<lparr>jp_job_id = ''job-1''\<rparr>))
      demo_reg [(demo_done, demo_done)] = WR_Closed out"
    using demo_stream by blast
  obtain rec where rec: "hm_get (rg_jobs demo_done) ''job-1'' = Some rec"
      "map jfr_state (jr_frames rec) = [JS_Joining, JS_Done]" "jsn_state (jr_snapshot rec) = JS_Done"
    by (rule demo_done_record)
  then have "jfr_state (last (jr_frames rec)) = JS_Done"
    by (cases "jr_frames rec") (auto simp: map_eq_Cons_conv)
  with client_watch_complete [OF demo_codec_ok demo_reg_reach demo_chain out,
      of "wired demo_codec demo_ipc demo_runtime (\<lambda>b. [])" 10] out rec show ?thesis
    by (auto simp: jobs_snapshot_def)
qed

end
