(* ===== verification/Wp_Cli.thy ===== *)
theory Wp_Cli
  imports Wp_ClientProps
begin

text \<open>
  The client subcommands of the command line: \<open>cli/client.rs\<close>, \<open>cli/program.rs\<close> and the errors
  of \<open>cli/mod.rs\<close> under \<open>crates/wireless-programmer/src\<close>. Modelled is what decides requests
  and exit codes; what is printed is left out. Files, standard input and the JSON reader are
  the parameter \<open>cli_files\<close>; what a watch reads is a list of read events.
\<close>

section \<open>Outcomes\<close>

datatype cli_error =
  CL_Usage string
| CL_File string string
| CL_Job string string
| CL_Truncated
| CL_Client client_error

definition cli_outcome :: "job_frame_wire option \<Rightarrow> cli_error + unit" where
  "cli_outcome seen =
     (case seen of
        None \<Rightarrow> Inl CL_Truncated
      | Some f \<Rightarrow>
          (case jfw_state f of
             JW_Done \<Rightarrow> Inr ()
           | JW_Failed \<Rightarrow> Inl (CL_Job (jw_as_str (jfw_state f)) (case jfw_detail f of None \<Rightarrow> [] | Some d \<Rightarrow> '': '' @ d))
           | JW_Cancelled \<Rightarrow> Inl (CL_Job (jw_as_str (jfw_state f)) (case jfw_detail f of None \<Rightarrow> [] | Some d \<Rightarrow> '': '' @ d))
           | _ \<Rightarrow> Inl CL_Truncated))"

text \<open>Watch a job and turn its last frame into the outcome; \<open>None\<close>: still waiting for frames.\<close>

definition watch_outcome ::
    "client_lib \<Rightarrow> client \<Rightarrow> string \<Rightarrow> read_event list \<Rightarrow> (cli_error + unit) option" where
  "watch_outcome L c jid evs =
     (case client_job_watch L c jid of
        Inl e \<Rightarrow> Some (Inl (CL_Client e))
      | Inr u \<Rightarrow>
          (case snd (drain_with L (ct_timeout c) evs None) of
             None \<Rightarrow> None
           | Some (Inl e) \<Rightarrow> Some (Inl (CL_Client e))
           | Some (Inr seen) \<Rightarrow> Some (cli_outcome seen)))"

definition build_client :: "string \<Rightarrow> duration option \<Rightarrow> client" where
  "build_client socket timeout =
     (case timeout of
        None \<Rightarrow> client_new socket
      | Some t \<Rightarrow> with_timeout t (client_new socket))"

definition resolve_socket :: "string option \<Rightarrow> string \<Rightarrow> string" where
  "resolve_socket flag env_socket = (case flag of Some s \<Rightarrow> s | None \<Rightarrow> env_socket)"

definition parse_reach_mode :: "string \<Rightarrow> reach_mode" where
  "parse_reach_mode mode =
     (if mode = ''lan'' then RM_Lan
      else if mode = ''usb'' then RM_Usb
      else if mode = ''z21'' then RM_Z21
      else RM_Ap)"

section \<open>Firmware update\<close>

record firmware_args =
  fa_timeout :: "duration option"
  fa_mode :: string
  fa_driver :: string
  fa_key :: "string option"
  fa_host :: "string option"
  fa_port :: "string option"
  fa_table :: "string option"
  fa_file :: string
  fa_no_watch :: bool

definition firmware_watch_timeout :: "duration option \<Rightarrow> reach_mode \<Rightarrow> duration option" where
  "firmware_watch_timeout explicit mode =
     (case explicit of
        Some t \<Rightarrow> Some t
      | None \<Rightarrow> Some (from_secs (if mode = RM_Usb then USB_FLASH_DEADLINE_SECS else FIRMWARE_DEADLINE_SECS)))"

definition firmware_mode :: "firmware_args \<Rightarrow> reach_mode" where
  "firmware_mode a =
     (if fa_port a \<noteq> None \<or> fa_mode a = ''usb'' then RM_Usb
      else if fa_mode a = ''lan'' \<or> fa_host a \<noteq> None then RM_Lan
      else RM_Ap)"

definition firmware_params :: "(string \<Rightarrow> bool) \<Rightarrow> firmware_args \<Rightarrow> cli_error + update_firmware_params" where
  "firmware_params is_file a =
     (if \<not> is_file (fa_file a) then Inl (CL_File (fa_file a) ''not a file'')
      else let key = or_else (or_else (fa_key a) (fa_port a)) (fa_host a)
           in if key = None \<and> firmware_mode a \<noteq> RM_Usb then Inl (CL_Usage ''provide --key and/or --host'')
              else Inr \<lparr>uf_mode = firmware_mode a,
                        uf_candidate = map_option (\<lambda>k. \<lparr>cr_driver = fa_driver a, cr_key = k\<rparr>) key,
                        uf_path = fa_file a, uf_host = fa_host a, uf_port = fa_port a,
                        uf_partition_table = fa_table a\<rparr>)"

definition cli_update_firmware ::
    "(string \<Rightarrow> bool) \<Rightarrow> client_lib \<Rightarrow> string \<Rightarrow> firmware_args \<Rightarrow> read_event list \<Rightarrow> (cli_error + unit) option" where
  "cli_update_firmware is_file L socket a evs =
     (case firmware_params is_file a of
        Inl e \<Rightarrow> Some (Inl e)
      | Inr p \<Rightarrow>
          let c = build_client socket (firmware_watch_timeout (fa_timeout a) (firmware_mode a)) in
          (case client_update_firmware L c p of
             Inl e \<Rightarrow> Some (Inl (CL_Client e))
           | Inr started \<Rightarrow>
               if fa_no_watch a then Some (Inr ())
               else watch_outcome L c (pr_job_id started) evs))"

section \<open>Programming\<close>

record program_args =
  pa_timeout :: "duration option"
  pa_driver :: string
  pa_key :: string
  pa_request_file :: "string option"
  pa_identity :: "string option"
  pa_wifi_ssid :: "string option"
  pa_wifi_psk :: "string option"
  pa_wifi_psk_file :: "string option"
  pa_server_host :: "string option"
  pa_server_port :: "u16 option"
  pa_server_automatic :: bool
  pa_roster_file :: "string option"
  pa_no_watch :: bool

record cli_files =
  cf_read_request :: "string \<Rightarrow> string + program_request_wire"
  cf_read_roster :: "string \<Rightarrow> string + roster_entry_wire list"
  cf_read_text :: "string \<Rightarrow> string + string"
  cf_stdin :: "string + string"

definition DEFAULT_WITHROTTLE_PORT :: u16 where
  "DEFAULT_WITHROTTLE_PORT = 12090"

definition trim_newlines :: "string \<Rightarrow> string" where
  "trim_newlines s = rev (dropWhile (\<lambda>c. c = LF \<or> c = CR) (rev s))"

definition wifi_psk :: "cli_files \<Rightarrow> program_args \<Rightarrow> cli_error + string option" where
  "wifi_psk F a =
     (case pa_wifi_psk a of
        Some psk \<Rightarrow> Inr (Some psk)
      | None \<Rightarrow>
          (case pa_wifi_psk_file a of
             None \<Rightarrow> Inr None
           | Some path \<Rightarrow>
               rbind (if path = ''-'' then map_err (CL_File ''<stdin>'') (cf_stdin F)
                      else map_err (CL_File path) (cf_read_text F path)) (\<lambda>raw.
               let psk = trim_newlines raw
               in if psk = []
                  then Inl (CL_Usage ''PSK source is empty; omit --wifi-psk/--wifi-psk-file for an open network'')
                  else Inr (Some psk))))"

definition required :: "'a option \<Rightarrow> string \<Rightarrow> cli_error + 'a" where
  "required v flag =
     (case v of Some x \<Rightarrow> Inr x | None \<Rightarrow> Inl (CL_Usage (flag @ '' is required (or use --request-file)'')))"

definition request_roster :: "cli_files \<Rightarrow> program_args \<Rightarrow> cli_error + roster_entry_wire list" where
  "request_roster F a =
     (case pa_roster_file a of
        Some path \<Rightarrow> map_err (CL_File path) (cf_read_roster F path)
      | None \<Rightarrow> Inr [])"

definition request_wifi :: "cli_files \<Rightarrow> program_args \<Rightarrow> cli_error + wifi_credentials_wire" where
  "request_wifi F a =
     (if pa_driver a = ''fred''
      then Inr \<lparr>ww_ssid = opt_or [] (pa_wifi_ssid a),
                ww_psk = (case wifi_psk F a of Inl e \<Rightarrow> None | Inr p \<Rightarrow> p)\<rparr>
      else rbind (required (pa_wifi_ssid a) ''--wifi-ssid'') (\<lambda>ssid.
           rbind (wifi_psk F a) (\<lambda>psk. Inr \<lparr>ww_ssid = ssid, ww_psk = psk\<rparr>)))"

definition request_server :: "program_args \<Rightarrow> cli_error + throttle_server_wire" where
  "request_server a =
     (if pa_driver a = ''fred''
      then Inr \<lparr>tw_host = opt_or [] (pa_server_host a), tw_port = opt_or 0 (pa_server_port a),
                tw_automatic = None\<rparr>
      else if pa_server_automatic a
      then Inr \<lparr>tw_host = opt_or [] (pa_server_host a),
                tw_port = opt_or DEFAULT_WITHROTTLE_PORT (pa_server_port a), tw_automatic = Some True\<rparr>
      else rbind (required (pa_server_host a) ''--server-host'') (\<lambda>host.
           rbind (required (pa_server_port a) ''--server-port'') (\<lambda>port.
             Inr \<lparr>tw_host = host, tw_port = port, tw_automatic = None\<rparr>)))"

definition build_request :: "cli_files \<Rightarrow> program_args \<Rightarrow> cli_error + program_request_wire" where
  "build_request F a =
     (case pa_request_file a of
        Some path \<Rightarrow> map_err (CL_File path) (cf_read_request F path)
      | None \<Rightarrow>
          rbind (request_roster F a) (\<lambda>roster.
          rbind (request_wifi F a) (\<lambda>wifi.
          rbind (request_server a) (\<lambda>server.
          rbind (if pa_driver a = ''fred'' then Inr (opt_or [] (pa_identity a))
                 else required (pa_identity a) ''--identity'') (\<lambda>ident.
            Inr \<lparr>pw_identity = ident, pw_wifi = wifi, pw_server = server, pw_roster = roster,
                 pw_bigfred = None, pw_roster_mode = None\<rparr>)))))"

definition cli_program ::
    "cli_files \<Rightarrow> client_lib \<Rightarrow> string \<Rightarrow> program_args \<Rightarrow> read_event list \<Rightarrow> (cli_error + unit) option" where
  "cli_program F L socket a evs =
     (let c = build_client socket (pa_timeout a) in
      case build_request F a of
        Inl e \<Rightarrow> Some (Inl e)
      | Inr w \<Rightarrow>
          (case client_program L c \<lparr>cr_driver = pa_driver a, cr_key = pa_key a\<rparr> w of
             Inl e \<Rightarrow> Some (Inl (CL_Client e))
           | Inr started \<Rightarrow>
               if pa_no_watch a then Some (Inr ())
               else watch_outcome L c (pr_job_id started) evs))"

section \<open>Jobs\<close>

datatype job_action = JA_Get string | JA_Watch string | JA_Cancel string

definition cli_job ::
    "client_lib \<Rightarrow> string \<Rightarrow> duration option \<Rightarrow> job_action \<Rightarrow> read_event list \<Rightarrow> (cli_error + unit) option" where
  "cli_job L socket timeout act evs =
     (let c = build_client socket timeout in
      case act of
        JA_Get jid \<Rightarrow> Some (ok_map (\<lambda>s. ()) (map_err CL_Client (client_job_get L c jid)))
      | JA_Watch jid \<Rightarrow> watch_outcome L c jid evs
      | JA_Cancel jid \<Rightarrow> Some (ok_map (\<lambda>s. ()) (map_err CL_Client (client_job_cancel L c jid))))"

section \<open>The other subcommands\<close>

definition cli_done :: "client_error + 'a \<Rightarrow> cli_error + unit" where
  "cli_done r = ok_map (\<lambda>x. ()) (map_err CL_Client r)"

definition cli_scan :: "client_lib \<Rightarrow> string \<Rightarrow> duration option \<Rightarrow> string \<Rightarrow> cli_error + unit" where
  "cli_scan L socket timeout mode =
     cli_done (client_scan_mode L (build_client socket timeout) (parse_reach_mode mode))"

definition cli_probe :: "client_lib \<Rightarrow> string \<Rightarrow> duration option \<Rightarrow> string \<Rightarrow> string \<Rightarrow> cli_error + unit" where
  "cli_probe L socket timeout drv key =
     cli_done (client_probe L (build_client socket timeout) \<lparr>cr_driver = drv, cr_key = key\<rparr>)"

definition cli_identify ::
    "client_lib \<Rightarrow> string \<Rightarrow> duration option \<Rightarrow> string \<Rightarrow> string \<Rightarrow> u32 option \<Rightarrow> cli_error + unit" where
  "cli_identify L socket timeout drv key count =
     cli_done (client_identify L (build_client socket timeout) \<lparr>cr_driver = drv, cr_key = key\<rparr> count)"

definition cli_link_status :: "client_lib \<Rightarrow> string \<Rightarrow> duration option \<Rightarrow> cli_error + unit" where
  "cli_link_status L socket timeout = cli_done (client_link_status L (build_client socket timeout))"

definition cli_hello :: "client_lib \<Rightarrow> string \<Rightarrow> duration option \<Rightarrow> cli_error + unit" where
  "cli_hello L socket timeout = cli_done (client_hello L (build_client socket timeout))"

text \<open>\<open>run\<close>: the process exit code, 0 for success.\<close>

definition exit_code :: "cli_error + unit \<Rightarrow> nat" where
  "exit_code r = (case r of Inr u \<Rightarrow> 0 | Inl e \<Rightarrow> 1)"

section \<open>Exit codes\<close>

text \<open>The outcome that belongs to the final state of a job.\<close>

definition exit_matches :: "cli_error + unit \<Rightarrow> job_state \<Rightarrow> bool" where
  "exit_matches r st \<longleftrightarrow>
     (case st of
        JS_Done \<Rightarrow> r = Inr ()
      | JS_Failed \<Rightarrow> (\<exists>d. r = Inl (CL_Job ''failed'' d))
      | JS_Cancelled \<Rightarrow> (\<exists>d. r = Inl (CL_Job ''cancelled'' d))
      | _ \<Rightarrow> False)"

lemma cli_outcome_matches:
  assumes "jfw_state f = state_to_wire st" and "js_is_terminal st"
  shows "exit_matches (cli_outcome (Some f)) st"
  using assms by (cases st) (simp_all add: exit_matches_def cli_outcome_def)

text \<open>The exit code of a watched command tells how the job ended. For every stream that the
  server has closed, the command succeeds when the job is done and fails naming the state when
  it failed or was cancelled; the one other ending is the server error for a job that was
  forgotten before its end was polled. It is never taken for truncated.\<close>

lemma cli_exit_matches_job:
  assumes "codec_ok K" and "reg_reach r0" and "jobs_snapshot jid r0 \<noteq> None" and "view_chain r0 views"
    and "stream_job_watch A (Some (P_Job \<lparr>jp_job_id = jid\<rparr>)) r0 views = WR_Closed out"
    and "client_job_watch L c jid = Inr ()"
  shows "\<exists>r v. watch_outcome L c jid (received K out) = Some r \<and> v \<in> set views
     \<and> ((\<exists>s. (jobs_snapshot jid (fst v) = Some s \<or> jobs_snapshot jid (snd v) = Some s)
            \<and> exit_matches r (jsn_state s))
       \<or> jobs_snapshot jid (fst v) = None \<and> r = Inl (CL_Client (CE_Server ''not_found'' ''no such job'')))"
proof -
  obtain v where v: "v \<in> set views" and how:
     "(\<exists>rec pre. hm_get (rg_jobs (fst v)) jid = Some rec \<and> preamble jid pre
        \<and> js_is_terminal (jsn_state (jr_snapshot rec))
        \<and> jfr_state (last (jr_frames rec)) = jsn_state (jr_snapshot rec)
        \<and> drain_with L (ct_timeout c) (received K out) None
            = (pre @ map job_frame_to_wire (jr_frames rec),
               Some (Inr (Some (job_frame_to_wire (last (jr_frames rec)))))))
   \<or> (\<exists>s. jobs_snapshot jid (snd v) = Some s \<and> js_is_terminal (jsn_state s)
        \<and> drain_with L (ct_timeout c) (received K out) None
            = ([snapshot_to_frame s], Some (Inr (Some (snapshot_to_frame s)))))
   \<or> (hm_get (rg_jobs (fst v)) jid = None
        \<and> (\<exists>fs. drain_with L (ct_timeout c) (received K out) None
                  = (fs, Some (Inl (CE_Server ''not_found'' ''no such job'')))))"
    using client_watch [OF assms(1-5), of L "ct_timeout c"] by blast
  from how show ?thesis
  proof (elim disjE exE conjE)
    fix rec pre
    assume rec: "hm_get (rg_jobs (fst v)) jid = Some rec" "js_is_terminal (jsn_state (jr_snapshot rec))"
      and state: "jfr_state (last (jr_frames rec)) = jsn_state (jr_snapshot rec)"
      and run: "drain_with L (ct_timeout c) (received K out) None
            = (pre @ map job_frame_to_wire (jr_frames rec),
               Some (Inr (Some (job_frame_to_wire (last (jr_frames rec))))))"
    have "exit_matches (cli_outcome (Some (job_frame_to_wire (last (jr_frames rec))))) (jsn_state (jr_snapshot rec))"
      by (rule cli_outcome_matches [OF _ rec(2)]) (simp add: state)
    moreover have "watch_outcome L c jid (received K out)
        = Some (cli_outcome (Some (job_frame_to_wire (last (jr_frames rec)))))"
      using run assms(6) by (simp add: watch_outcome_def)
    moreover have "jobs_snapshot jid (fst v) = Some (jr_snapshot rec)" using rec(1) by (simp add: jobs_snapshot_def)
    ultimately show ?thesis using v by blast
  next
    fix s
    assume s: "jobs_snapshot jid (snd v) = Some s" "js_is_terminal (jsn_state s)"
      and run: "drain_with L (ct_timeout c) (received K out) None
            = ([snapshot_to_frame s], Some (Inr (Some (snapshot_to_frame s))))"
    have "exit_matches (cli_outcome (Some (snapshot_to_frame s))) (jsn_state s)"
      by (rule cli_outcome_matches [OF _ s(2)]) simp
    moreover have "watch_outcome L c jid (received K out) = Some (cli_outcome (Some (snapshot_to_frame s)))"
      using run assms(6) by (simp add: watch_outcome_def)
    ultimately show ?thesis using v s(1) by blast
  next
    fix fs
    assume gone: "hm_get (rg_jobs (fst v)) jid = None"
      and run: "drain_with L (ct_timeout c) (received K out) None
                  = (fs, Some (Inl (CE_Server ''not_found'' ''no such job'')))"
    have "watch_outcome L c jid (received K out) = Some (Inl (CL_Client (CE_Server ''not_found'' ''no such job'')))"
      using run assms(6) by (simp add: watch_outcome_def)
    moreover have "jobs_snapshot jid (fst v) = None" using gone by (simp add: jobs_snapshot_def)
    ultimately show ?thesis using v by blast
  qed
qed

end
