(* ===== verification/Wp_CliText.thy ===== *)
theory Wp_CliText
  imports Wp_Cli
begin

text \<open>
  What the client subcommands print: the text and JSON forms of \<open>cli/client.rs\<close>, the lines
  of \<open>cli/program.rs\<close>, the error texts of \<open>cli/mod.rs\<close> and \<open>wp-client/src/error.rs\<close>, and \<open>run\<close>,
  which sends each subcommand to its handler and makes the exit code. A line goes to standard
  output or to standard error. The JSON printer is the parameter \<open>json_text\<close>.
\<close>

section \<open>Lines\<close>

datatype out_line = To_Stdout string | To_Stderr string

fun on_stdout :: "out_line list \<Rightarrow> string list" where
  "on_stdout [] = []"
| "on_stdout (To_Stdout l # ls) = l # on_stdout ls"
| "on_stdout (To_Stderr l # ls) = on_stdout ls"

fun on_stderr :: "out_line list \<Rightarrow> string list" where
  "on_stderr [] = []"
| "on_stderr (To_Stdout l # ls) = on_stderr ls"
| "on_stderr (To_Stderr l # ls) = l # on_stderr ls"

text \<open>The printer: \<open>to_string_pretty\<close>, and \<open>to_string\<close> for the frames of a stream.\<close>

record json_text =
  jt_candidates :: "candidate_wire list \<Rightarrow> string"
  jt_probe :: "device_info_wire \<Rightarrow> string"
  jt_link :: "link_status_wire \<Rightarrow> string"
  jt_hello :: "hello_result \<Rightarrow> string"
  jt_started :: "program_result \<Rightarrow> string"
  jt_snapshot :: "job_snapshot_wire \<Rightarrow> string"
  jt_frame :: "job_frame_wire \<Rightarrow> string"

text \<open>\<open>{:<n}\<close> pads with spaces to \<open>n\<close> characters; a text that is longer stays as it is.\<close>

definition char_count :: "string \<Rightarrow> nat" where
  "char_count s = length (filter (\<lambda>c. \<not> is_cont (byte c)) s)"

definition pad_right :: "nat \<Rightarrow> string \<Rightarrow> string" where
  "pad_right n s = s @ replicate (n - char_count s) (CHR '' '')"

text \<open>An em dash between spaces.\<close>

definition em_dash :: string where
  "em_dash = '' '' @ [CHR 0xE2, CHR 0x80, CHR 0x94] @ '' ''"

section \<open>Results\<close>

definition print_frame :: "json_text \<Rightarrow> bool \<Rightarrow> job_frame_wire \<Rightarrow> out_line" where
  "print_frame J json f =
     (if json then To_Stdout (jt_frame J f)
      else To_Stderr (''job '' @ jfw_job_id f @ '': '' @ jw_as_str (jfw_state f)
             @ (case jfw_progress f of None \<Rightarrow> [] | Some p \<Rightarrow> '' '' @ show_nat (unat p) @ ''%'')
             @ (case jfw_detail f of None \<Rightarrow> [] | Some d \<Rightarrow> em_dash @ d)))"

definition scan_row :: "string \<Rightarrow> string \<Rightarrow> string \<Rightarrow> string \<Rightarrow> string" where
  "scan_row drv key rssi label =
     pad_right 10 drv @ '' '' @ pad_right 20 key @ '' '' @ pad_right 8 rssi @ '' '' @ label"

definition print_scan :: "json_text \<Rightarrow> bool \<Rightarrow> candidate_wire list \<Rightarrow> out_line list" where
  "print_scan J json cs =
     map To_Stdout
       (if json then [jt_candidates J cs]
        else if cs = [] then [''no candidates found'']
        else scan_row ''DRIVER'' ''KEY'' ''RSSI'' ''LABEL''
          # map (\<lambda>c. scan_row (cd_driver c) (cd_key c)
                   (case cd_rssi c of None \<Rightarrow> ''-'' | Some r \<Rightarrow> show_int r) (cd_label c)) cs)"

definition optional_line :: "string \<Rightarrow> string option \<Rightarrow> string \<Rightarrow> string list" where
  "optional_line label v suffix = (case v of None \<Rightarrow> [] | Some x \<Rightarrow> [label @ x @ suffix])"

definition roster_line :: "nat \<times> roster_entry_wire \<Rightarrow> string" where
  "roster_line ie =
     ''  ['' @ show_nat (fst ie) @ ''] addr=''
     @ (case rw_address (snd ie) of None \<Rightarrow> ''-'' | Some a \<Rightarrow> show_nat (unat a))"

definition print_probe :: "json_text \<Rightarrow> bool \<Rightarrow> device_info_wire \<Rightarrow> out_line list" where
  "print_probe J json info =
     map To_Stdout
       (if json then [jt_probe J info]
        else [''driver:          '' @ dw_driver info, ''key:             '' @ dw_key info]
          @ optional_line ''firmware:        '' (dw_firmware_revision info) []
          @ optional_line ''identity:        '' (dw_identity info) []
          @ optional_line ''battery:         '' (map_option (\<lambda>b. show_nat (unat b)) (dw_battery_mv info)) '' mV''
          @ (if dw_roster info = [] then []
             else ''roster:'' # map roster_line (enumerate 0 (dw_roster info))))"

definition show_bool :: "bool \<Rightarrow> string" where
  "show_bool b = (if b then ''true'' else ''false'')"

definition print_link_status :: "json_text \<Rightarrow> bool \<Rightarrow> link_status_wire \<Rightarrow> out_line list" where
  "print_link_status J json s =
     map To_Stdout
       (if json then [jt_link J s]
        else [''busy:            '' @ show_bool (lw_busy s),
              ''interface:       '' @ opt_or ''-'' (lw_interface s),
              ''rfkill blocked:  '' @ show_bool (lw_rfkill_blocked s)])"

definition driver_lines :: "driver_info_wire \<Rightarrow> string list" where
  "driver_lines d =
     [''  '' @ di_id d @ em_dash @ di_name d,
      ''    firmware update: '' @ (if cw_supports_firmware_update (di_capabilities d) then ''yes'' else ''no'')]"

definition print_hello :: "json_text \<Rightarrow> bool \<Rightarrow> hello_result \<Rightarrow> out_line list" where
  "print_hello J json h =
     map To_Stdout
       (if json then [jt_hello J h]
        else [''version:         '' @ hr_version h]
          @ optional_line ''commit:          '' (hr_commit h) []
          @ ''drivers:'' # concat (map driver_lines (hr_drivers h)))"

section \<open>Errors\<close>

text \<open>The debug text of a duration: its largest unit, and the decimals without trailing zeros.\<close>

fun decimals :: "nat \<Rightarrow> nat \<Rightarrow> string" where
  "decimals 0 f = []"
| "decimals (Suc n) f = (if f = 0 then [] else show_nat (f div 10 ^ n) @ decimals n (f mod 10 ^ n))"

definition in_unit :: "nat \<Rightarrow> duration \<Rightarrow> string \<Rightarrow> string" where
  "in_unit n d unit =
     (let f = d mod 10 ^ n
      in show_nat (d div 10 ^ n) @ (if f = 0 then [] else CHR ''.'' # decimals n f) @ unit)"

definition debug_duration :: "duration \<Rightarrow> string" where
  "debug_duration d =
     (if d \<ge> 1000000000 then in_unit 9 d ''s''
      else if d \<ge> 1000000 then in_unit 6 d ''ms''
      else if d \<ge> 1000 then in_unit 3 d [CHR 0xC2, CHR 0xB5, CHR ''s'']
      else show_nat d @ ''ns'')"

lemma debug_duration_secs: "0 < n \<Longrightarrow> debug_duration (from_secs n) = show_nat n @ ''s''"
  by (simp add: debug_duration_def in_unit_def from_secs_def Let_def)

text \<open>The text of a client error; that of a framing error belongs to the shared crate.\<close>

fun client_error_text :: "(frame_error \<Rightarrow> string) \<Rightarrow> client_error \<Rightarrow> string" where
  "client_error_text show_frame (CE_Connect socket e) =
     ''connect '' @ socket @ '': '' @ ioe_text e @ '' (is wireless-programmer running?)''"
| "client_error_text show_frame (CE_Frame e) = show_frame e"
| "client_error_text show_frame (CE_UnexpectedResponse what) = ''unexpected response type: '' @ what"
| "client_error_text show_frame (CE_Server code message) = message"
| "client_error_text show_frame (CE_Busy message) = ''radio busy: '' @ message"
| "client_error_text show_frame (CE_NotFound message) = ''not found: '' @ message"
| "client_error_text show_frame (CE_NoCandidates message) = ''no candidates: '' @ message"
| "client_error_text show_frame (CE_WatchIdle after) =
     ''no job progress frame within '' @ debug_duration after"

fun cli_error_text :: "(frame_error \<Rightarrow> string) \<Rightarrow> cli_error \<Rightarrow> string" where
  "cli_error_text show_frame (CL_Usage message) = message"
| "cli_error_text show_frame (CL_File path message) = path @ '': '' @ message"
| "cli_error_text show_frame (CL_Job st detail) = ''job '' @ st @ detail"
| "cli_error_text show_frame CL_Truncated = ''job stream closed before a terminal state was reached''"
| "cli_error_text show_frame (CL_Client e) = client_error_text show_frame e"

section \<open>Handlers\<close>

text \<open>
  A handler prints lines and then succeeds or fails. The flags \<open>--json\<close> and \<open>--timeout\<close> are shared;
  what a watch reads is the list of read events \<open>evs\<close>, and \<open>None\<close> means that it still waits.
\<close>

type_synonym handled = "out_line list \<times> (cli_error + unit)"

record cli_common =
  cm_json :: bool
  cm_timeout :: "duration option"

datatype cli_command =
  CC_Scan string
| CC_Probe string string
| CC_Program program_args
| CC_UpdateFirmware firmware_args
| CC_Identify string string "u32 option"
| CC_LinkStatus
| CC_Hello
| CC_Job job_action

definition print_result :: "('a \<Rightarrow> out_line list) \<Rightarrow> client_error + 'a \<Rightarrow> handled" where
  "print_result print r =
     (case r of Inl e \<Rightarrow> ([], Inl (CL_Client e)) | Inr x \<Rightarrow> (print x, Inr ()))"

text \<open>Watching: each frame is printed as it comes, then the last one makes the outcome.\<close>

definition watch_printing ::
    "json_text \<Rightarrow> bool \<Rightarrow> client_lib \<Rightarrow> client \<Rightarrow> string \<Rightarrow> read_event list \<Rightarrow> handled option" where
  "watch_printing J json L c jid evs =
     (case client_job_watch L c jid of
        Inl e \<Rightarrow> Some ([], Inl (CL_Client e))
      | Inr u \<Rightarrow>
          (case drain_with L (ct_timeout c) evs None of
             (fs, None) \<Rightarrow> None
           | (fs, Some (Inl e)) \<Rightarrow> Some (map (print_frame J json) fs, Inl (CL_Client e))
           | (fs, Some (Inr seen)) \<Rightarrow> Some (map (print_frame J json) fs, cli_outcome seen)))"

definition program_printing ::
    "json_text \<Rightarrow> bool \<Rightarrow> cli_files \<Rightarrow> client_lib \<Rightarrow> string \<Rightarrow> program_args \<Rightarrow> read_event list \<Rightarrow> handled option" where
  "program_printing J json F L socket a evs =
     (let c = build_client socket (pa_timeout a) in
      case build_request F a of
        Inl e \<Rightarrow> Some ([], Inl e)
      | Inr w \<Rightarrow>
          (case client_program L c \<lparr>cr_driver = pa_driver a, cr_key = pa_key a\<rparr> w of
             Inl e \<Rightarrow> Some ([], Inl (CL_Client e))
           | Inr started \<Rightarrow>
               let note = To_Stderr (''job started: '' @ pr_job_id started) in
               if pa_no_watch a then Some ([note, To_Stdout (pr_job_id started)], Inr ())
               else map_option (\<lambda>(ls, r). (note # ls, r))
                      (watch_printing J json L c (pr_job_id started) evs)))"

definition update_firmware_printing ::
    "json_text \<Rightarrow> bool \<Rightarrow> (string \<Rightarrow> bool) \<Rightarrow> client_lib \<Rightarrow> string \<Rightarrow> firmware_args \<Rightarrow> read_event list
       \<Rightarrow> handled option" where
  "update_firmware_printing J json is_file L socket a evs =
     (case firmware_params is_file a of
        Inl e \<Rightarrow> Some ([], Inl e)
      | Inr p \<Rightarrow>
          let c = build_client socket (firmware_watch_timeout (fa_timeout a) (firmware_mode a)) in
          (case client_update_firmware L c p of
             Inl e \<Rightarrow> Some ([], Inl (CL_Client e))
           | Inr started \<Rightarrow>
               if fa_no_watch a
               then Some ([To_Stdout (if json then jt_started J started else ''job '' @ pr_job_id started)], Inr ())
               else watch_printing J json L c (pr_job_id started) evs))"

definition job_printing ::
    "json_text \<Rightarrow> bool \<Rightarrow> client_lib \<Rightarrow> client \<Rightarrow> job_action \<Rightarrow> read_event list \<Rightarrow> handled option" where
  "job_printing J json L c act evs =
     (case act of
        JA_Get jid \<Rightarrow> Some (print_result (\<lambda>s. [To_Stdout (jt_snapshot J s)]) (client_job_get L c jid))
      | JA_Watch jid \<Rightarrow> watch_printing J json L c jid evs
      | JA_Cancel jid \<Rightarrow> Some (print_result (\<lambda>s. [To_Stdout (jt_snapshot J s)]) (client_job_cancel L c jid)))"

record cli_world =
  wl_json :: json_text
  wl_files :: cli_files
  wl_is_file :: "string \<Rightarrow> bool"
  wl_lib :: client_lib
  wl_show_frame :: "frame_error \<Rightarrow> string"

definition handle_command ::
    "cli_world \<Rightarrow> string \<Rightarrow> cli_common \<Rightarrow> cli_command \<Rightarrow> read_event list \<Rightarrow> handled option" where
  "handle_command W socket m cmd evs =
     (let J = wl_json W; L = wl_lib W; json = cm_json m; c = build_client socket (cm_timeout m) in
      case cmd of
        CC_Scan mode \<Rightarrow> Some (print_result (print_scan J json) (client_scan_mode L c (parse_reach_mode mode)))
      | CC_Probe drv key \<Rightarrow>
          Some (print_result (print_probe J json) (client_probe L c \<lparr>cr_driver = drv, cr_key = key\<rparr>))
      | CC_Program a \<Rightarrow> program_printing J json (wl_files W) L socket (a\<lparr>pa_timeout := cm_timeout m\<rparr>) evs
      | CC_UpdateFirmware a \<Rightarrow>
          update_firmware_printing J json (wl_is_file W) L socket (a\<lparr>fa_timeout := cm_timeout m\<rparr>) evs
      | CC_Identify drv key count \<Rightarrow>
          Some (print_result (\<lambda>u. [To_Stdout ''identify: ok''])
                  (client_identify L c \<lparr>cr_driver = drv, cr_key = key\<rparr> count))
      | CC_LinkStatus \<Rightarrow> Some (print_result (print_link_status J json) (client_link_status L c))
      | CC_Hello \<Rightarrow> Some (print_result (print_hello J json) (client_hello L c))
      | CC_Job act \<Rightarrow> job_printing J json L c act evs)"

text \<open>\<open>run\<close>: the error goes to standard error, and makes the exit code 1.\<close>

definition cli_run ::
    "cli_world \<Rightarrow> string option \<Rightarrow> string \<Rightarrow> cli_common \<Rightarrow> cli_command \<Rightarrow> read_event list
       \<Rightarrow> (out_line list \<times> nat) option" where
  "cli_run W socket_override env_socket m cmd evs =
     map_option (\<lambda>(ls, r).
         case r of
           Inr u \<Rightarrow> (ls, exit_code r)
         | Inl e \<Rightarrow> (ls @ [To_Stderr (''error: '' @ cli_error_text (wl_show_frame W) e)], exit_code r))
       (handle_command W (resolve_socket socket_override env_socket) m cmd evs)"

section \<open>Where the lines go\<close>

lemma on_append [simp]:
  "on_stdout (ls @ ms) = on_stdout ls @ on_stdout ms" "on_stderr (ls @ ms) = on_stderr ls @ on_stderr ms"
  by (induction ls rule: on_stdout.induct) simp_all

lemma on_stdout_map [simp]: "on_stdout (map To_Stdout ls) = ls" "on_stderr (map To_Stdout ls) = []"
  by (induction ls) simp_all

lemma on_frames:
  "on_stdout (map (print_frame J json) fs) = (if json then map (jt_frame J) fs else [])"
  "json \<Longrightarrow> on_stderr (map (print_frame J json) fs) = []"
  by (cases json; induction fs; simp add: print_frame_def)+

text \<open>Printing does not change the outcomes of \<open>Wp_Cli\<close>.\<close>

lemma watch_printing_outcome:
  "map_option snd (watch_printing J json L c jid evs) = watch_outcome L c jid evs"
  by (auto simp: watch_printing_def watch_outcome_def split: sum.splits prod.splits option.splits)

lemma watch_printing_lines:
  assumes "client_job_watch L c jid = Inr ()" and "drain_with L (ct_timeout c) evs None = (fs, Some r)"
  shows "map_option fst (watch_printing J json L c jid evs) = Some (map (print_frame J json) fs)"
  using assms by (auto simp: watch_printing_def split: sum.splits)

lemma program_printing_outcome:
  "map_option snd (program_printing J json F L socket a evs) = cli_program F L socket a evs"
  unfolding program_printing_def cli_program_def Let_def
  by (auto simp: watch_printing_outcome [symmetric, of L _ _ evs J json] option.map_comp comp_def case_prod_beta
        split: sum.splits)

lemma update_firmware_printing_outcome:
  "map_option snd (update_firmware_printing J json is_file L socket a evs) = cli_update_firmware is_file L socket a evs"
  unfolding update_firmware_printing_def cli_update_firmware_def Let_def
  by (auto simp: watch_printing_outcome split: sum.splits)

lemma print_result_outcome: "snd (print_result print r) = cli_done r"
  by (simp add: print_result_def cli_done_def split: sum.split)

lemma job_printing_outcome:
  "map_option snd (job_printing J json L (build_client socket timeout) act evs) = cli_job L socket timeout act evs"
  by (cases act) (simp_all add: job_printing_def cli_job_def print_result_outcome cli_done_def watch_printing_outcome Let_def)

text \<open>C10: watching a job from the command line, from the daemon's stream to the terminal. For every
  stream that the server has closed the command ends: with exit code 0 exactly if its outcome is success,
  which matches the state in which the job ended (or tells that it was forgotten). With \<open>--json\<close>
  standard output is exactly the printed frames of the stream, in order, and standard error is empty or the
  error; without it nothing is on standard output.\<close>

theorem watch_command_reports_job:
  assumes "codec_ok K" and "reg_reach r0" and "jobs_snapshot jid r0 \<noteq> None" and "view_chain r0 views"
    and "stream_job_watch A (Some (P_Job \<lparr>jp_job_id = jid\<rparr>)) r0 views = WR_Closed out"
    and "c = build_client (resolve_socket so es) (cm_timeout m)" and "client_job_watch (wl_lib W) c jid = Inr ()"
  shows "\<exists>ls code r v fs. cli_run W so es m (CC_Job (JA_Watch jid)) (received K out) = Some (ls, code)
     \<and> v \<in> set views
     \<and> ((\<exists>s. (jobs_snapshot jid (fst v) = Some s \<or> jobs_snapshot jid (snd v) = Some s)
            \<and> exit_matches r (jsn_state s))
       \<or> jobs_snapshot jid (fst v) = None \<and> r = Inl (CL_Client (CE_Server ''not_found'' ''no such job'')))
     \<and> fs = fst (drain_with (wl_lib W) (ct_timeout c) (received K out) None)
     \<and> on_stdout ls = (if cm_json m then map (jt_frame (wl_json W)) fs else [])
     \<and> (case r of
          Inr u \<Rightarrow> code = 0 \<and> (cm_json m \<longrightarrow> on_stderr ls = [])
        | Inl e \<Rightarrow> code = 1 \<and> (cm_json m \<longrightarrow> on_stderr ls = [''error: '' @ cli_error_text (wl_show_frame W) e]))"
proof -
  let ?L = "wl_lib W" and ?J = "wl_json W" and ?evs = "received K out"
  obtain r v where r: "watch_outcome ?L c jid ?evs = Some r" and v: "v \<in> set views"
    and how: "(\<exists>s. (jobs_snapshot jid (fst v) = Some s \<or> jobs_snapshot jid (snd v) = Some s)
            \<and> exit_matches r (jsn_state s))
       \<or> jobs_snapshot jid (fst v) = None \<and> r = Inl (CL_Client (CE_Server ''not_found'' ''no such job''))"
    using cli_exit_matches_job [OF assms(1-5,7)] by blast
  obtain fs x where d: "drain_with ?L (ct_timeout c) ?evs None = (fs, Some x)"
    using r assms(7) by (cases "drain_with ?L (ct_timeout c) ?evs None") (auto simp: watch_outcome_def split: option.splits)
  obtain ls where w: "watch_printing ?J (cm_json m) ?L c jid ?evs = Some (ls, r)"
    using watch_printing_outcome [of ?J "cm_json m" ?L c jid ?evs] r by auto
  with watch_printing_lines [OF assms(7) d, of ?J "cm_json m"]
  have ls: "ls = map (print_frame ?J (cm_json m)) fs" by simp
  have "handle_command W (resolve_socket so es) m (CC_Job (JA_Watch jid)) ?evs = Some (ls, r)"
    using w assms(6) by (simp add: handle_command_def job_printing_def)
  then have run: "cli_run W so es m (CC_Job (JA_Watch jid)) ?evs =
      Some (case r of Inr u \<Rightarrow> (ls, 0)
        | Inl e \<Rightarrow> (ls @ [To_Stderr (''error: '' @ cli_error_text (wl_show_frame W) e)], 1))"
    by (simp add: cli_run_def exit_code_def split: sum.split)
  show ?thesis
  proof (cases r)
    case (Inl e)
    with run show ?thesis using v how d ls by (intro exI conjI) (auto simp: on_frames)
  next
    case (Inr u)
    with run show ?thesis using v how d ls by (intro exI conjI) (auto simp: on_frames)
  qed
qed

definition demo_world :: cli_world where
  "demo_world =
     \<lparr>wl_json = \<lparr>jt_candidates = (\<lambda>x. ''[]''), jt_probe = (\<lambda>x. ''{}''), jt_link = (\<lambda>x. ''{}''),
        jt_hello = (\<lambda>x. ''{}''), jt_started = (\<lambda>x. ''{}''), jt_snapshot = (\<lambda>x. ''{}''),
        jt_frame = (\<lambda>f. jfw_job_id f)\<rparr>,
      wl_files = \<lparr>cf_read_request = (\<lambda>p. Inl ''no file''), cf_read_roster = (\<lambda>p. Inl ''no file''),
        cf_read_text = (\<lambda>p. Inl ''no file''), cf_stdin = Inr []\<rparr>,
      wl_is_file = (\<lambda>p. False), wl_lib = wired demo_codec demo_ipc demo_runtime (\<lambda>b. []),
      wl_show_frame = (\<lambda>e. ''frame error'')\<rparr>"

theorem watch_command_reports_job_witness:
  "\<exists>ls. cli_run demo_world (Some ''s'') ''env'' \<lparr>cm_json = False, cm_timeout = None\<rparr> (CC_Job (JA_Watch ''job-1''))
     (received demo_codec (wr_sent (stream_job_watch (\<lambda>sent r. True) (Some (P_Job \<lparr>jp_job_id = ''job-1''\<rparr>))
         demo_reg [(demo_done, demo_done)]))) = Some (ls, 0) \<and> on_stdout ls = []"
proof -
  let ?m = "\<lparr>cm_json = False, cm_timeout = None\<rparr>"
  obtain out where out: "stream_job_watch (\<lambda>sent r. True) (Some (P_Job \<lparr>jp_job_id = ''job-1''\<rparr>))
      demo_reg [(demo_done, demo_done)] = WR_Closed out"
    using demo_stream by blast
  have watch: "client_job_watch (wl_lib demo_world)
      (build_client (resolve_socket (Some ''s'') ''env'') (cm_timeout ?m)) ''job-1'' = Inr ()"
    by (simp add: client_job_watch_def client_connect_def wired_def demo_world_def)
  obtain rec where rec: "hm_get (rg_jobs demo_done) ''job-1'' = Some rec" "jsn_state (jr_snapshot rec) = JS_Done"
    by (rule demo_done_record)
  then have done_snapshot: "jobs_snapshot ''job-1'' demo_done = Some (jr_snapshot rec)" by (simp add: jobs_snapshot_def)
  obtain ls code r v fs where run: "cli_run demo_world (Some ''s'') ''env'' ?m (CC_Job (JA_Watch ''job-1''))
        (received demo_codec out) = Some (ls, code)"
    and v: "v \<in> set [(demo_done, demo_done)]"
    and how: "(\<exists>s. (jobs_snapshot ''job-1'' (fst v) = Some s \<or> jobs_snapshot ''job-1'' (snd v) = Some s)
            \<and> exit_matches r (jsn_state s))
       \<or> jobs_snapshot ''job-1'' (fst v) = None \<and> r = Inl (CL_Client (CE_Server ''not_found'' ''no such job''))"
    and lines_out: "on_stdout ls = (if cm_json ?m then map (jt_frame (wl_json demo_world)) fs else [])"
    and code: "case r of Inr u \<Rightarrow> code = 0 \<and> (cm_json ?m \<longrightarrow> on_stderr ls = [])
        | Inl e \<Rightarrow> code = 1 \<and> (cm_json ?m \<longrightarrow> on_stderr ls = [''error: '' @ cli_error_text (wl_show_frame demo_world) e])"
    using watch_command_reports_job [OF demo_codec_ok demo_reg_reach demo_chain out refl watch]
    by blast
  have "r = Inr ()" using how v done_snapshot rec(2) by (auto simp: exit_matches_def)
  with run lines_out code out show ?thesis by simp
qed

end
