(* ===== verification/Wp_CancelWatch.thy ===== *)
theory Wp_CancelWatch
  imports Wp_IpcWatch
begin

text \<open>
  The task behind the cancel flag of an HTTP client: \<open>spawn_cancel_watch\<close> of
  \<open>crates/wireless-programmer/src/runtime.rs\<close>. Each pass of its loop sees the registry twice, once
  for the cancel mark and once for the state of the job; the registry moves between the two and
  between passes (\<open>view_chain\<close>).
\<close>

definition job_is_over :: "string \<Rightarrow> job_registry \<Rightarrow> bool" where
  "job_is_over jid r =
     (case jobs_snapshot jid r of None \<Rightarrow> True | Some s \<Rightarrow> js_is_terminal (jsn_state s))"

text \<open>The flag after the passes, and whether the task still runs.\<close>

fun cancel_loop :: "string \<Rightarrow> bool \<Rightarrow> (job_registry \<times> job_registry) list \<Rightarrow> bool \<times> bool" where
  "cancel_loop jid flag [] = (flag, True)"
| "cancel_loop jid flag ((r1, r2) # views) =
     (if jobs_is_cancelled jid r1 then (True, False)
      else if job_is_over jid r2 then (flag, False)
      else cancel_loop jid flag views)"

definition spawn_cancel_watch ::
    "string \<Rightarrow> job_registry \<Rightarrow> (job_registry \<times> job_registry) list \<Rightarrow> bool \<times> bool" where
  "spawn_cancel_watch jid r0 views = cancel_loop jid (jobs_is_cancelled jid r0) views"

section \<open>The flag follows the registry\<close>

lemma flag_only_if_cancelled:
  "fst (spawn_cancel_watch jid r0 views) \<Longrightarrow>
     jobs_is_cancelled jid r0 \<or> (\<exists>v \<in> set views. jobs_is_cancelled jid (fst v))"
proof -
  have "fst (cancel_loop jid flag views) \<Longrightarrow> flag \<or> (\<exists>v \<in> set views. jobs_is_cancelled jid (fst v))" for flag
    by (induction jid flag views rule: cancel_loop.induct) (auto split: if_splits)
  then show "fst (spawn_cancel_watch jid r0 views) \<Longrightarrow> ?thesis" unfolding spawn_cancel_watch_def by blast
qed

text \<open>A cancel request is seen by the pass that follows it, unless a pass before it saw the job's end.\<close>

lemma flag_after_cancel:
  assumes "v \<in> set views" "jobs_is_cancelled jid (fst v)"
  shows "fst (spawn_cancel_watch jid r0 views) \<or> (\<exists>w \<in> set views. job_is_over jid (snd w))"
proof -
  have "fst (cancel_loop jid flag views) \<or> (\<exists>w \<in> set views. job_is_over jid (snd w))" for flag
    using assms by (induction jid flag views rule: cancel_loop.induct) auto
  then show ?thesis unfolding spawn_cancel_watch_def by blast
qed

text \<open>The task does not outlive the job: the pass that finds it over is the last.\<close>

lemma watch_stops:
  "v \<in> set views \<Longrightarrow> job_is_over jid (snd v) \<Longrightarrow> \<not> snd (spawn_cancel_watch jid r0 views)"
proof -
  have "v \<in> set views \<Longrightarrow> job_is_over jid (snd v) \<Longrightarrow> \<not> snd (cancel_loop jid flag views)" for flag
    by (induction jid flag views rule: cancel_loop.induct) auto
  then show "v \<in> set views \<Longrightarrow> job_is_over jid (snd v) \<Longrightarrow> ?thesis" unfolding spawn_cancel_watch_def by blast
qed

text \<open>What a cancel request of a client does to the flag, in one step of the registry.\<close>

lemma cancel_request_raises_flag:
  assumes "jobs_snapshot jid r0 \<noteq> None"
  shows "spawn_cancel_watch jid r0 [(jobs_cancel jid r0, r2)] = (True, False)"
  using assms
  by (cases "hm_get (rg_jobs r0) jid")
    (auto simp: spawn_cancel_watch_def jobs_snapshot_def jobs_is_cancelled_def jobs_cancel_def Let_def hm.get_insert)

end
