(* ===== verification/Wp_Connect.thy ===== *)
theory Wp_Connect
  imports Wp_Netcfg Wp_Runtime
begin

text \<open>
  The part of \<open>crates/wp-link/src/http.rs\<close> around one request: the builder methods of
  \<open>BoundedHttpClient\<close>, the socket calls by which \<open>request_once\<close> connects, the ICMP and ARP
  probe before the first attempt, the hints after the last one, and \<open>request\<close> put together from
  them and the request of \<open>Wp_Http\<close>.

  The host is the parameter \<open>host_os\<close> over an abstract state: the system calls on a socket, the
  \<open>ip\<close> program, the neighbour table and the clock (in milliseconds). A host name that is not an
  IPv4 literal is an error of the address parser; the IPv6 literals that it accepts in brackets
  are left out, since every client is built for an IPv4 address.
\<close>

section \<open>Building a client\<close>

definition with_source :: "ipv4 \<Rightarrow> bounded_http_client \<Rightarrow> bounded_http_client" where
  "with_source src c = c\<lparr>hc_source := Some src\<rparr>"

definition with_device :: "string \<Rightarrow> bounded_http_client \<Rightarrow> bounded_http_client" where
  "with_device dev c = c\<lparr>hc_device := Some dev\<rparr>"

definition with_deadline :: "nat \<Rightarrow> bounded_http_client \<Rightarrow> bounded_http_client" where
  "with_deadline d c = c\<lparr>hc_deadline_ms := d\<rparr>"

definition with_retries :: "u32 \<Rightarrow> bounded_http_client \<Rightarrow> bounded_http_client" where
  "with_retries n c = c\<lparr>hc_retries := n\<rparr>"

definition with_connect_deadline :: "nat \<Rightarrow> bounded_http_client \<Rightarrow> bounded_http_client" where
  "with_connect_deadline d c = c\<lparr>hc_connect_deadline_ms := d\<rparr>"

definition with_retry_delay :: "nat \<Rightarrow> bounded_http_client \<Rightarrow> bounded_http_client" where
  "with_retry_delay d c = c\<lparr>hc_retry_delay_ms := d\<rparr>"

definition with_cancel :: "bounded_http_client \<Rightarrow> bounded_http_client" where
  "with_cancel c = c\<lparr>hc_cancel := True\<rparr>"

definition with_success_on_reset_after_write :: "bool \<Rightarrow> bounded_http_client \<Rightarrow> bounded_http_client" where
  "with_success_on_reset_after_write enable c = c\<lparr>hc_success_on_reset_after_write := enable\<rparr>"

section \<open>The host\<close>

datatype sock_kind = Sk_Tcp | Sk_Icmp

text \<open>The calls on a socket, in the order they are made; a bind is to an address with port 0.\<close>

datatype sock_call =
  SC_New sock_kind
| SC_BindDevice string
| SC_Bind ipv4
| SC_Connect ipv4 u16 nat
| SC_ReadTimeout nat
| SC_WriteTimeout nat
| SC_NoDelay
| SC_SendTo ipv4 "u8 list"

record 'k host_os =
  ho_is_local :: "ipv4 \<Rightarrow> 'k \<Rightarrow> bool"
  ho_ip :: "'k ip_lib"
  ho_arp :: "'k \<Rightarrow> string option"
  ho_now :: "'k \<Rightarrow> nat"
  ho_sleep :: "nat \<Rightarrow> 'k \<Rightarrow> 'k"
  ho_sock :: "sock_call \<Rightarrow> 'k \<Rightarrow> io_error option \<times> 'k"
  ho_recv :: "'k \<Rightarrow> (io_error + unit) \<times> 'k"

text \<open>
  A chain of calls with \<open>?\<close>: each one with what its error is wrapped in. The result carries the
  calls that were made.
\<close>

type_synonym sock_plan = "(sock_call \<times> (io_error \<Rightarrow> io_error)) list"

fun run_plan :: "'k host_os \<Rightarrow> sock_plan \<Rightarrow> 'k \<Rightarrow> (io_error + unit) \<times> sock_call list \<times> 'k" where
  "run_plan os [] k = (Inr (), [], k)"
| "run_plan os ((call, wrap) # plan) k =
     (case ho_sock os call k of
        (Some e, k') \<Rightarrow> (Inl (wrap e), [call], k')
      | (None, k') \<Rightarrow> (case run_plan os plan k' of (r, calls, k'') \<Rightarrow> (r, call # calls, k'')))"

section \<open>Connecting\<close>

definition show_addr :: "ipv4 \<Rightarrow> u16 \<Rightarrow> string" where
  "show_addr ip port = show_ipv4 ip @ '':'' @ show_nat (unat port)"

text \<open>The calls of \<open>request_once\<close> for an address, which may be one of the host's own.\<close>

definition device_call :: "bool \<Rightarrow> string option \<Rightarrow> sock_plan" where
  "device_call dest_is_local device =
     (case device of
        None \<Rightarrow> []
      | Some dev \<Rightarrow> if dest_is_local then [] else [(SC_BindDevice dev, \<lambda>e. e)])"

definition source_call :: "ipv4 option \<Rightarrow> sock_plan" where
  "source_call source =
     (case source of
        None \<Rightarrow> []
      | Some src \<Rightarrow> [(SC_Bind src, wrap_err (''bind '' @ show_addr src 0))])"

definition connect_plan :: "bounded_http_client \<Rightarrow> bool \<Rightarrow> ipv4 \<Rightarrow> sock_plan" where
  "connect_plan c dest_is_local ip =
     [(SC_New Sk_Tcp, \<lambda>e. e)]
     @ device_call dest_is_local (hc_device c)
     @ source_call (hc_source c)
     @ [(SC_Connect ip (hc_port c) (hc_connect_deadline_ms c), wrap_err (''connect '' @ show_addr ip (hc_port c))),
        (SC_ReadTimeout (hc_deadline_ms c), \<lambda>e. e),
        (SC_WriteTimeout (hc_deadline_ms c), \<lambda>e. e)]"

definition connect_socket ::
    "'k host_os \<Rightarrow> bounded_http_client \<Rightarrow> 'k \<Rightarrow> (io_error + unit) \<times> sock_call list \<times> 'k" where
  "connect_socket os c k =
     (case parse_ipv4 (hc_host c) of
        None \<Rightarrow> (Inl (io_err IOK_InvalidInput ''invalid socket address syntax''), [], k)
      | Some ip \<Rightarrow>
          (case run_plan os (connect_plan c (ho_is_local os ip k) ip) k of
             (Inl e, calls, k') \<Rightarrow> (Inl e, calls, k')
           | (Inr _, calls, k') \<Rightarrow> (Inr (), calls @ [SC_NoDelay], snd (ho_sock os SC_NoDelay k'))))"

section \<open>The neighbour table\<close>

fun arp_find :: "string \<Rightarrow> string option \<Rightarrow> string list \<Rightarrow> (string \<times> string \<times> string) option" where
  "arp_find want dev [] = None"
| "arp_find want dev (l # ls) =
     (let cols = split_whitespace l in
      if length cols < 6 \<or> cols ! 0 \<noteq> want then arp_find want dev ls
      else if (case dev of None \<Rightarrow> False | Some d \<Rightarrow> cols ! 5 \<noteq> d) then arp_find want dev ls
      else Some (cols ! 2, cols ! 3, cols ! 5))"

definition arp_row :: "string option \<Rightarrow> ipv4 \<Rightarrow> string option \<Rightarrow> (string \<times> string \<times> string) option" where
  "arp_row table dst dev =
     (case table of None \<Rightarrow> None | Some t \<Rightarrow> arp_find (show_ipv4 dst) dev (drop 1 (lines t)))"

definition arp_complete :: "string option \<Rightarrow> ipv4 \<Rightarrow> string option \<Rightarrow> bool" where
  "arp_complete table dst dev =
     (case arp_row table dst dev of
        None \<Rightarrow> False
      | Some (flags, mac, _) \<Rightarrow> CHR ''2'' \<in> set flags \<and> mac \<noteq> ''00:00:00:00:00:00'')"

section \<open>ICMP echo\<close>

definition echo_request :: "u8 list" where
  "echo_request = [8, 0, 0, 0, 0, 1, 0, 1, 0, 0, 0, 0, 0, 0, 0, 0]"

text \<open>Writing the checksum into bytes 2 and 3, high byte first.\<close>

definition with_checksum :: "u8 list \<Rightarrow> u8 list" where
  "with_checksum packet =
     (let cksum = icmp_checksum packet
      in packet[2 := of_nat (unat cksum div 256), 3 := of_nat (unat cksum mod 256)])"

definition icmp_plan :: "ipv4 \<Rightarrow> ipv4 option \<Rightarrow> string option \<Rightarrow> nat \<Rightarrow> sock_plan" where
  "icmp_plan dst source device deadline =
     map (\<lambda>call. (call, \<lambda>e. e))
       ([SC_New Sk_Icmp]
        @ (case device of None \<Rightarrow> [] | Some dev \<Rightarrow> [SC_BindDevice dev])
        @ (case source of None \<Rightarrow> [] | Some src \<Rightarrow> [SC_Bind src])
        @ [SC_ReadTimeout deadline, SC_SendTo dst (with_checksum echo_request)])"

text \<open>
  Waiting for a reply. \<open>None\<close>: the fuel ran out; one turn for each millisecond and two more are
  enough on a clock that advances with each interrupted receive.
\<close>

fun icmp_wait :: "'k host_os \<Rightarrow> nat \<Rightarrow> nat \<Rightarrow> nat \<Rightarrow> 'k \<Rightarrow> ((io_error + unit) \<times> 'k) option" where
  "icmp_wait os start deadline 0 k = None"
| "icmp_wait os start deadline (Suc fuel) k =
     (let elapsed = ho_now os k - start in
      if elapsed \<ge> deadline then Some (Inl (io_err IOK_TimedOut ''icmp probe: no reply''), k)
      else case ho_sock os (SC_ReadTimeout (deadline - elapsed)) k of
        (Some e, k1) \<Rightarrow> Some (Inl e, k1)
      | (None, k1) \<Rightarrow>
          (case ho_recv os k1 of
             (Inr _, k2) \<Rightarrow> Some (Inr (), k2)
           | (Inl e, k2) \<Rightarrow>
               if ioe_kind e = IOK_Interrupted then icmp_wait os start deadline fuel k2
               else Some (Inl e, k2)))"

definition icmp_probe ::
    "'k host_os \<Rightarrow> ipv4 \<Rightarrow> ipv4 option \<Rightarrow> string option \<Rightarrow> nat \<Rightarrow> 'k \<Rightarrow> ((io_error + unit) \<times> 'k) option" where
  "icmp_probe os dst source device deadline k =
     (case run_plan os (icmp_plan dst source device deadline) k of
        (Inl e, _, k1) \<Rightarrow> Some (Inl e, k1)
      | (Inr _, _, k1) \<Rightarrow> icmp_wait os (ho_now os k1) deadline (deadline + 2) k1)"

section \<open>Before the first attempt\<close>

definition ARP_PAUSE :: nat where
  "ARP_PAUSE = 50"

text \<open>The loop of \<open>wait_arp\<close>; what it waits for is the neighbour, and it only logs its outcome.\<close>

fun wait_arp_loop ::
    "'k host_os \<Rightarrow> ipv4 \<Rightarrow> ipv4 option \<Rightarrow> string option \<Rightarrow> nat \<Rightarrow> nat \<Rightarrow> nat \<Rightarrow> 'k \<Rightarrow> (bool \<times> 'k) option" where
  "wait_arp_loop os dst src dev start deadline 0 k = None"
| "wait_arp_loop os dst src dev start deadline (Suc fuel) k =
     (if arp_complete (ho_arp os k) dst dev then Some (True, k)
      else if ho_now os k - start \<ge> deadline then Some (False, k)
      else case icmp_probe os dst src dev 200 k of
        None \<Rightarrow> None
      | Some (_, k1) \<Rightarrow> wait_arp_loop os dst src dev start deadline fuel (ho_sleep os ARP_PAUSE k1))"

definition wait_arp ::
    "'k host_os \<Rightarrow> ipv4 \<Rightarrow> ipv4 option \<Rightarrow> string option \<Rightarrow> nat \<Rightarrow> 'k \<Rightarrow> (bool \<times> 'k) option" where
  "wait_arp os dst src dev deadline k =
     wait_arp_loop os dst src dev (ho_now os k) deadline (deadline div ARP_PAUSE + 2) k"

text \<open>How the probe ends: no IPv4 host, a route that is still local, or the neighbour (found or not).\<close>

datatype probe_end = PE_NotIpv4 | PE_LocalRoute | PE_Neighbour bool

text \<open>\<open>ip -4 route get\<close> from the source, if there is one and \<open>ip\<close> runs; then the rules are logged.\<close>

definition route_still_local ::
    "'k host_os \<Rightarrow> ipv4 option \<Rightarrow> ipv4 \<Rightarrow> 'k \<Rightarrow> bool \<times> 'k" where
  "route_still_local os src dst k =
     (case src of
        None \<Rightarrow> (False, k)
      | Some s \<Rightarrow>
          (case ho_ip os (route_get_args s dst) k of
             (Inl e, k1) \<Rightarrow> (False, snd (ho_ip os rule_list_args k1))
           | (Inr (ok, out, err), k1) \<Rightarrow>
               if route_is_via_loopback (trim (from_utf8_lossy out)) then (True, k1)
               else (False, snd (ho_ip os rule_list_args k1))))"

definition probe_before_connect ::
    "'k host_os \<Rightarrow> bounded_http_client \<Rightarrow> 'k \<Rightarrow> (probe_end \<times> 'k) option" where
  "probe_before_connect os c k =
     (case parse_ipv4 (hc_host c) of
        None \<Rightarrow> Some (PE_NotIpv4, k)
      | Some dst \<Rightarrow>
          (case route_still_local os (hc_source c) dst k of
             (True, k1) \<Rightarrow> Some (PE_LocalRoute, k1)
           | (False, k1) \<Rightarrow>
               (case icmp_probe os dst (hc_source c) (hc_device c) 400 k1 of
                  None \<Rightarrow> None
                | Some (_, k2) \<Rightarrow>
                    map_option (\<lambda>(found, k3). (PE_Neighbour found, k3))
                      (wait_arp os dst (hc_source c) (hc_device c) 5000 k2))))"

section \<open>After the last attempt\<close>

datatype failure_hint =
  FH_Failed string
| FH_Neighbour "(string \<times> string \<times> string) option"
| FH_Collision
| FH_Refused
| FH_Reset
| FH_TimedOut string

definition http_target :: "bounded_http_client \<Rightarrow> string" where
  "http_target c =
     ''http '' @ hc_host c @ '':'' @ show_nat (unat (hc_port c))
     @ '' (source='' @ (case hc_source c of None \<Rightarrow> ''any'' | Some s \<Rightarrow> show_ipv4 s)
     @ '' device='' @ (case hc_device c of None \<Rightarrow> ''any'' | Some d \<Rightarrow> d) @ '')''"

definition collision_hint :: "bounded_http_client \<Rightarrow> io_kind \<Rightarrow> failure_hint list" where
  "collision_hint c kind =
     (case kind of
        IOK_ConnectionRefused \<Rightarrow> [FH_Refused]
      | IOK_ConnectionReset \<Rightarrow> [FH_Reset]
      | IOK_TimedOut \<Rightarrow>
          [FH_TimedOut (case hc_device c of None \<Rightarrow> ''the wireless interface'' | Some d \<Rightarrow> d)]
      | _ \<Rightarrow> [])"

definition failure_hints :: "'k host_os \<Rightarrow> bounded_http_client \<Rightarrow> io_error \<Rightarrow> 'k \<Rightarrow> failure_hint list" where
  "failure_hints os c err k =
     FH_Failed (http_target c @ '' failed after '' @ show_nat (unat (hc_retries c) + 1) @ '' attempts: '' @ ioe_text err)
     # (case parse_ipv4 (hc_host c) of
          None \<Rightarrow> []
        | Some dst \<Rightarrow>
            FH_Neighbour (arp_row (ho_arp os k) dst (hc_device c))
            # (if ho_is_local os dst k then FH_Collision # collision_hint c (ioe_kind err) else []))"

section \<open>The request\<close>

text \<open>
  One attempt: the probe before the first, the delay before the others, then \<open>request_once\<close> on
  the socket that the host hands out. What the I/O loops of attempt \<open>n\<close> observe is the script
  \<open>sks n\<close>. \<open>None\<close>: a call still blocks.
\<close>

definition before_attempt :: "'k host_os \<Rightarrow> bounded_http_client \<Rightarrow> nat \<Rightarrow> 'k \<Rightarrow> 'k option" where
  "before_attempt os c n k =
     (if n = 1 then map_option snd (probe_before_connect os c k)
      else Some (ho_sleep os (hc_retry_delay_ms c) k))"

definition attempt_once ::
    "'k host_os \<Rightarrow> bounded_http_client \<Rightarrow> http_request \<Rightarrow> socket_script \<Rightarrow> 'k \<Rightarrow> (string io_run \<times> 'k) option" where
  "attempt_once os c q sk k =
     (case connect_socket os c k of
        (r, _, k') \<Rightarrow> map_option (\<lambda>(res, _). (res, k')) (request_once c (sk\<lparr>sk_connected := r\<rparr>) q))"

fun request_attempts ::
    "'k host_os \<Rightarrow> bounded_http_client \<Rightarrow> http_request \<Rightarrow> (nat \<Rightarrow> socket_script) \<Rightarrow> nat \<Rightarrow> nat
       \<Rightarrow> io_error \<Rightarrow> 'k \<Rightarrow> (string io_run \<times> nat \<times> failure_hint list \<times> 'k) option" where
  "request_attempts os c q sks n 0 prev k = Some (Ret (Inl prev), n - 1, failure_hints os c prev k, k)"
| "request_attempts os c q sks n (Suc others) prev k =
     Option.bind (before_attempt os c n k) (\<lambda>k1.
     Option.bind (attempt_once os c q (sks n) k1) (\<lambda>(r, k2).
       case r of
         Panic \<Rightarrow> Some (Panic, n, [], k2)
       | Ret (Inr body) \<Rightarrow> Some (Ret (Inr body), n, [], k2)
       | Ret (Inl e) \<Rightarrow>
           if ioe_kind e = IOK_Interrupted then Some (Ret (Inl e), n, [], k2)
           else request_attempts os c q sks (n + 1) others e k2))"

definition http_request_on ::
    "'k host_os \<Rightarrow> bounded_http_client \<Rightarrow> http_request \<Rightarrow> (nat \<Rightarrow> socket_script) \<Rightarrow> 'k
       \<Rightarrow> (string io_run \<times> nat \<times> failure_hint list \<times> 'k) option" where
  "http_request_on os c q sks k =
     (if unat (hc_retries c) + 1 > 4294967295 then Some (Panic, 0, [], k)
      else request_attempts os c q sks 1 (unat (hc_retries c) + 1) (io_err IOK_Other ''no attempt made'') k)"

section \<open>Builders and addresses\<close>

text \<open>The clients the daemon makes, as the code chains them.\<close>

lemmas builder_defs = with_source_def with_device_def with_deadline_def with_retries_def
  with_connect_deadline_def with_retry_delay_def with_cancel_def with_success_on_reset_after_write_def

lemma make_http_client_chain:
  "make_http_client net device =
     (let c = with_source (cn_source net) (http_client_new (show_ipv4 (cn_host net)) (cn_port net))
      in case device of None \<Rightarrow> c | Some dev \<Rightarrow> with_device dev c)"
  by (cases device) (simp_all add: make_http_client_def http_client_new_def builder_defs)

lemma make_firmware_http_client_chain:
  "make_firmware_http_client host port source device reset_ok =
     (let c = with_success_on_reset_after_write reset_ok (with_connect_deadline 5000
                (with_retry_delay 1000 (with_retries 3
                  (with_deadline (FIRMWARE_DEADLINE_SECS * 1000) (http_client_new host port)))));
          c' = (case source of None \<Rightarrow> c | Some src \<Rightarrow> with_source src c);
          c'' = (case device of None \<Rightarrow> c' | Some dev \<Rightarrow> with_device dev c')
      in with_cancel c'')"
  by (cases source; cases device) (simp_all add: make_firmware_http_client_def http_client_new_def builder_defs)

lemma digit_char_0: "0 < d \<Longrightarrow> d < 10 \<Longrightarrow> digit_char d \<noteq> CHR ''0''"
  using byte_digit_char [of d] by auto

lemma show_nat_octet:
  assumes "n < 256"
  shows "1 \<le> length (show_nat n)" "length (show_nat n) \<le> 3"
    and "length (show_nat n) = 1 \<or> hd (show_nat n) \<noteq> CHR ''0''"
proof -
  consider "n < 10" | "10 \<le> n" "n < 100" | "100 \<le> n" by linarith
  then have "1 \<le> length (show_nat n) \<and> length (show_nat n) \<le> 3
      \<and> (length (show_nat n) = 1 \<or> hd (show_nat n) \<noteq> CHR ''0'')"
  proof cases
    case 1
    then show ?thesis by (simp add: show_nat.simps [of n])
  next
    case 2
    then have "show_nat n = [digit_char (n div 10), digit_char (n mod 10)]" "0 < n div 10" "n div 10 < 10"
      by (simp_all add: show_nat.simps [of n] show_nat.simps [of "n div 10"])
    then show ?thesis by (simp add: digit_char_0)
  next
    case 3
    with assms have d: "0 < n div 100" "n div 100 < 10" "\<not> n div 10 < 10"
      by (simp_all add: div_greater_zero_iff div_less_iff_less_mult)
    have "n div 10 div 10 = n div 100" using div_mult2_eq [of n 10 10] by simp
    with d have "show_nat (n div 10) = show_nat (n div 100) @ [digit_char (n div 10 mod 10)]"
      by (subst show_nat.simps) simp
    moreover have "show_nat (n div 100) = [digit_char (n div 100)]"
      using d by (subst show_nat.simps) simp
    moreover have "show_nat n = show_nat (n div 10) @ [digit_char (n mod 10)]"
      using 3 by (subst show_nat.simps) simp
    ultimately have "show_nat n = [digit_char (n div 100), digit_char (n div 10 mod 10), digit_char (n mod 10)]"
      by simp
    with d show ?thesis by (simp add: digit_char_0)
  qed
  then show "1 \<le> length (show_nat n)" "length (show_nat n) \<le> 3"
    and "length (show_nat n) = 1 \<or> hd (show_nat n) \<noteq> CHR ''0''" by simp_all
qed

lemma parse_octet_show: "parse_octet (show_nat (unat (b :: u8))) = Some b"
  using show_nat_octet [of "unat b"] show_nat_digits [of _ "unat b"]
  by (auto simp: parse_octet_def parse_uint_show_nat list_all_iff)

lemma parse_show_ipv4:
  assumes "length ip = 4" shows "parse_ipv4 (show_ipv4 ip) = Some ip"
proof -
  have "list_all (\<lambda>s. CHR ''.'' \<notin> set s) (map (\<lambda>b. show_nat (unat b)) ip)"
    using show_nat_digits by (fastforce simp: list_all_iff)
  then have "split_char (CHR ''.'') (show_ipv4 ip) = map (\<lambda>b. show_nat (unat b)) ip"
    using assms unfolding show_ipv4_def by (intro split_join) auto
  moreover have "those (map parse_octet (map (\<lambda>b. show_nat (unat b)) bs)) = Some bs" for bs :: "u8 list"
    by (induction bs) (simp_all add: parse_octet_show)
  ultimately show ?thesis using assms by (simp add: parse_ipv4_def)
qed

lemma make_http_client_host:
  "length (cn_host net) = 4 \<Longrightarrow> parse_ipv4 (hc_host (make_http_client net device)) = Some (cn_host net)"
  by (simp add: make_http_client_def http_client_new_def parse_show_ipv4)

section \<open>What a connection does\<close>

lemma run_plan_calls:
  assumes "run_plan os plan k = (r, calls, k')"
  shows "\<exists>later. map fst plan = calls @ later \<and> (r = Inr () \<longrightarrow> later = [])"
  using assms
proof (induction os plan k arbitrary: r calls k' rule: run_plan.induct)
  case (2 os call wrap plan k)
  show ?case
  proof (cases "ho_sock os call k")
    case (Pair a k1)
    show ?thesis
    proof (cases a)
      case None
      obtain r1 calls1 k2 where t: "run_plan os plan k1 = (r1, calls1, k2)" by (metis prod_cases3)
      have "calls = call # calls1" "r1 = r" using "2.prems" Pair None t by auto
      with "2.IH" [OF Pair [symmetric] None t] show ?thesis by simp
    qed (use "2.prems" Pair in auto)
  qed
qed simp

text \<open>A call that occurs once in the plan has all of the plan before it behind it when it is made.\<close>

lemma made_after:
  assumes "pre0 @ x # zs = calls @ later" "calls = pre @ w # post" "w \<notin> set pre0" "w \<notin> set zs"
  shows "pre = pre0 \<and> w = x"
proof -
  have *: "pre0 @ x # zs = pre @ w # (post @ later)" using assms(1,2) by simp
  then have "w \<in> set (pre0 @ x # zs)" by simp
  with assms(3,4) have "w = x" by simp
  with * assms(3,4) show ?thesis by (simp add: append_Cons_eq_iff)
qed

lemma connect_socket_calls:
  assumes "parse_ipv4 (hc_host c) = Some ip" "connect_socket os c k = (r, calls, k')"
  shows "\<exists>later. map fst (connect_plan c (ho_is_local os ip k) ip) @ [SC_NoDelay] = calls @ later
           \<and> (is_ok r \<longrightarrow> later = [])"
proof -
  obtain r1 calls1 k1 where run: "run_plan os (connect_plan c (ho_is_local os ip k) ip) k = (r1, calls1, k1)"
    by (metis prod_cases3)
  from run_plan_calls [OF run] assms run show ?thesis
    by (cases r1) (auto simp: connect_socket_def)
qed

definition pinned_calls :: "bounded_http_client \<Rightarrow> bool \<Rightarrow> sock_call list" where
  "pinned_calls c dest_is_local =
     SC_New Sk_Tcp # map fst (device_call dest_is_local (hc_device c)) @ map fst (source_call (hc_source c))"

lemma connect_plan_calls:
  "map fst (connect_plan c dest_is_local ip) @ [SC_NoDelay] =
     pinned_calls c dest_is_local
     @ SC_Connect ip (hc_port c) (hc_connect_deadline_ms c)
     # [SC_ReadTimeout (hc_deadline_ms c), SC_WriteTimeout (hc_deadline_ms c), SC_NoDelay]"
  by (simp add: connect_plan_def pinned_calls_def)

lemma pinned_calls_facts [simp]:
  "SC_Connect a p t \<notin> set (pinned_calls c l)"
  "SC_BindDevice dev \<in> set (pinned_calls c l) \<longleftrightarrow> hc_device c = Some dev \<and> \<not> l"
  "SC_Bind src \<in> set (pinned_calls c l) \<longleftrightarrow> hc_source c = Some src"
  by (auto simp: pinned_calls_def device_call_def source_call_def split: option.splits if_splits)

section \<open>The echo request\<close>

lemma icmp_sum_acc: "icmp_sum i xs acc = acc + icmp_sum i xs 0"
proof (induction xs arbitrary: i acc)
  case (Cons b bs)
  show ?case
    unfolding icmp_sum.simps
    using Cons [of "i + 1" "acc + (if i mod 2 = 0 then unat b * 256 else unat b)"]
      Cons [of "i + 1" "0 + (if i mod 2 = 0 then unat b * 256 else unat b)"] by linarith
qed simp

lemma icmp_sum_head:
  "icmp_sum 0 (a # b # c # d # rest) 0 =
     unat a * 256 + unat b + unat c * 256 + unat d + icmp_sum 4 rest 0"
  using icmp_sum_acc [of 4 rest "unat a * 256 + unat b + unat c * 256 + unat d"]
  by (simp del: One_nat_def)

lemma icmp_fold_facts:
  "icmp_fold n < 65536 \<and> icmp_fold n mod 65535 = n mod 65535 \<and> (icmp_fold n = 0 \<longleftrightarrow> n = 0)"
proof (induction n rule: icmp_fold.induct)
  case (1 n)
  show ?case
  proof (cases "n div 65536 = 0")
    case True
    then show ?thesis by (subst (1 2 3) icmp_fold.simps) (simp add: div_eq_0_iff)
  next
    case False
    let ?m = "n mod 65536 + n div 65536"
    have n: "n = 65535 * (n div 65536) + ?m" using div_mult_mod_eq [of n 65536] by simp
    have "n mod 65535 = (65535 * (n div 65536) + ?m) mod 65535" using n by simp
    then have "n mod 65535 = ?m mod 65535" by (metis mod_mult_self4)
    moreover have "?m = 0 \<longleftrightarrow> n = 0" using False by auto
    ultimately show ?thesis using 1 [OF False] False by (subst (1 2 3) icmp_fold.simps) simp
  qed
qed

lemma icmp_checksum_value: "unat (icmp_checksum xs) = 65535 - icmp_fold (icmp_sum 0 xs 0)"
proof -
  let ?f = "icmp_fold (icmp_sum 0 xs 0)"
  have f: "?f < 65536" using icmp_fold_facts by blast
  have "icmp_checksum xs = NOT (of_nat ?f :: u16)"
    unfolding icmp_checksum_def by (rule bit_word_eqI) (auto simp: bit_simps)
  also have "\<dots> = - 1 - of_nat ?f" by (simp add: not_eq_complement)
  finally have "unat (icmp_checksum xs) = unat (- 1 - (of_nat ?f :: u16))" by simp
  also have "\<dots> = unat (- 1 :: u16) - unat (of_nat ?f :: u16)" by (rule unat_sub) simp
  also have "unat (- 1 :: u16) = 65535" by (simp add: unsigned_minus_1_eq_mask mask_eq_exp_minus_1)
  finally show ?thesis using f by (simp add: unat_of_nat take_bit_eq_mod)
qed

lemma icmp_sum_with_checksum:
  assumes "packet = a # b # 0 # 0 # rest"
  shows "icmp_sum 0 (with_checksum packet) 0 = icmp_sum 0 packet 0 + unat (icmp_checksum packet)"
proof -
  let ?c = "unat (icmp_checksum packet)"
  have "?c < 65536" by simp
  then have "unat (of_nat (?c div 256) :: u8) = ?c div 256" "unat (of_nat (?c mod 256) :: u8) = ?c mod 256"
    by (simp_all add: unat_of_nat take_bit_eq_mod)
  moreover have "?c div 256 * 256 + ?c mod 256 = ?c" by simp
  moreover have "with_checksum packet = a # b # of_nat (?c div 256) # of_nat (?c mod 256) # rest"
    using assms by (simp add: with_checksum_def Let_def numeral_2_eq_2 numeral_3_eq_3)
  ultimately show ?thesis by (simp add: assms icmp_sum_head del: icmp_sum.simps)
qed

text \<open>A receiver that sums a packet with its checksum in place finds no error.\<close>

lemma checksum_verifies:
  assumes "packet = a # b # 0 # 0 # rest"
  shows "icmp_checksum (with_checksum packet) = 0"
proof -
  let ?s = "icmp_sum 0 packet 0"
  let ?s' = "icmp_sum 0 (with_checksum packet) 0"
  have f: "icmp_fold ?s < 65536" "icmp_fold ?s mod 65535 = ?s mod 65535" "icmp_fold ?s = 0 \<longleftrightarrow> ?s = 0"
    using icmp_fold_facts [of ?s] by blast+
  have s': "?s' = ?s + (65535 - icmp_fold ?s)"
    using icmp_sum_with_checksum [OF assms] icmp_checksum_value by simp
  have "?s' mod 65535 = (?s mod 65535 + (65535 - icmp_fold ?s)) mod 65535"
    unfolding s' by (simp add: mod_add_left_eq)
  also have "\<dots> = (icmp_fold ?s mod 65535 + (65535 - icmp_fold ?s)) mod 65535" by (simp only: f(2))
  also have "\<dots> = (icmp_fold ?s + (65535 - icmp_fold ?s)) mod 65535" by (rule mod_add_left_eq)
  also have "\<dots> = 0" using f(1) by simp
  finally have "icmp_fold ?s' mod 65535 = 0" using icmp_fold_facts by metis
  moreover have "?s' \<noteq> 0" using s' f by (cases "?s = 0") auto
  then have "0 < icmp_fold ?s'" using icmp_fold_facts [of ?s'] by simp
  moreover have "icmp_fold ?s' < 65536" using icmp_fold_facts by blast
  moreover from calculation have "65535 \<le> icmp_fold ?s'" by (intro dvd_imp_le) (simp_all add: dvd_eq_mod_eq_0)
  ultimately have "icmp_fold ?s' = 65535" by linarith
  then have "unat (icmp_checksum (with_checksum packet)) = 0" using icmp_checksum_value by simp
  then show ?thesis by (simp add: unat_eq_0)
qed

lemma echo_request_sent: "icmp_checksum (with_checksum echo_request) = 0"
  by (rule checksum_verifies) (simp add: echo_request_def)

section \<open>The attempts\<close>

lemma attempt_loop_cong:
  "(\<And>i. k \<le> i \<Longrightarrow> once i = once' i) \<Longrightarrow> attempt_loop once k left prev = attempt_loop once' k left prev"
proof (induction left arbitrary: k prev)
  case (Suc left)
  then have "attempt_loop once (k + 1) left e = attempt_loop once' (k + 1) left e" for e by simp
  with Suc.prems show ?case by (simp split: io_run.splits sum.splits)
qed simp

text \<open>
  Each run on a host is a run of the retry loop of \<open>Wp_Http\<close> on what the attempts gave; hints
  are logged exactly when the attempts are exhausted.
\<close>

definition gives :: "'k host_os \<Rightarrow> bounded_http_client \<Rightarrow> http_request \<Rightarrow> socket_script \<Rightarrow> string io_run \<Rightarrow> bool" where
  "gives os c q sk r \<longleftrightarrow> (\<exists>k k'. attempt_once os c q sk k = Some (r, k'))"

lemma request_attempts_refine:
  "request_attempts os c q sks n left prev k = Some (r, m, hints, k') \<Longrightarrow> 0 < n \<Longrightarrow>
     ioe_kind prev \<noteq> IOK_Interrupted \<Longrightarrow>
     (\<exists>once. attempt_loop once n left prev = (r, m) \<and> (\<forall>i. n \<le> i \<and> i \<le> m \<longrightarrow> gives os c q (sks i) (once i)))
   \<and> (hints \<noteq> [] \<longleftrightarrow> (\<exists>e. r = Ret (Inl e) \<and> ioe_kind e \<noteq> IOK_Interrupted))"
proof (induction os c q sks n left prev k rule: request_attempts.induct)
  case (2 os c q sks n others prev k)
  from "2.prems"(1) obtain k1 res k2 where b: "before_attempt os c n k = Some k1"
    and a: "attempt_once os c q (sks n) k1 = Some (res, k2)"
    by (auto simp: bind_eq_Some_conv)
  have g: "gives os c q (sks n) res" using a by (auto simp: gives_def)
  show ?case
  proof (cases "\<exists>e. res = Ret (Inl e) \<and> ioe_kind e \<noteq> IOK_Interrupted")
    case True
    then obtain e where e: "res = Ret (Inl e)" "ioe_kind e \<noteq> IOK_Interrupted" by blast
    with "2.prems"(1) a b have "request_attempts os c q sks (n + 1) others e k2 = Some (r, m, hints, k')" by simp
    from "2.IH" [OF b a refl e(1) _ e(2) this] obtain once
      where once: "attempt_loop once (n + 1) others e = (r, m)"
        and gv: "\<forall>i. n + 1 \<le> i \<and> i \<le> m \<longrightarrow> gives os c q (sks i) (once i)"
        and hints: "hints \<noteq> [] \<longleftrightarrow> (\<exists>e. r = Ret (Inl e) \<and> ioe_kind e \<noteq> IOK_Interrupted)"
      using e(2) by auto
    have "attempt_loop (once(n := res)) (n + 1) others e = (r, m)"
      using once attempt_loop_cong [of "n + 1" "once(n := res)" once] by simp
    then have "attempt_loop (once(n := res)) n (Suc others) prev = (r, m)" using e by simp
    moreover have "\<forall>i. n \<le> i \<and> i \<le> m \<longrightarrow> gives os c q (sks i) ((once(n := res)) i)"
      using gv g by auto
    ultimately show ?thesis using hints by blast
  next
    case False
    with "2.prems"(1) a b have "r = res \<and> m = n \<and> hints = []" by (auto split: io_run.splits sum.splits if_splits)
    moreover have "attempt_loop (\<lambda>_. res) n (Suc others) prev = (res, n)"
      using False by (auto split: io_run.splits sum.splits)
    ultimately show ?thesis using g False by (intro conjI exI [of _ "\<lambda>_. res"]) auto
  qed
qed (auto simp: failure_hints_def intro: exI [of _ "\<lambda>_. Panic"])

section \<open>The waits end\<close>

text \<open>
  The clock of a host: sleeping takes at least its time, no call turns the clock back, and a
  receive that a signal interrupts takes at least one tick.
\<close>

definition host_clock :: "'k host_os \<Rightarrow> bool" where
  "host_clock os \<longleftrightarrow>
     (\<forall>d k. ho_now os (ho_sleep os d k) \<ge> ho_now os k + d)
   \<and> (\<forall>call k. ho_now os (snd (ho_sock os call k)) \<ge> ho_now os k)
   \<and> (\<forall>k. ho_now os (snd (ho_recv os k)) \<ge> ho_now os k)
   \<and> (\<forall>k e. fst (ho_recv os k) = Inl e \<and> ioe_kind e = IOK_Interrupted
          \<longrightarrow> ho_now os (snd (ho_recv os k)) > ho_now os k)"

lemma host_clock_facts:
  assumes "host_clock os"
  shows "ho_now os k + d \<le> ho_now os (ho_sleep os d k)"
    and "ho_sock os call k = (r, k') \<Longrightarrow> ho_now os k \<le> ho_now os k'"
    and "ho_recv os k = (x, k') \<Longrightarrow> ho_now os k \<le> ho_now os k'"
    and "ho_recv os k = (Inl e, k') \<Longrightarrow> ioe_kind e = IOK_Interrupted \<Longrightarrow> ho_now os k < ho_now os k'"
proof -
  note all = assms [unfolded host_clock_def]
  show "ho_now os k + d \<le> ho_now os (ho_sleep os d k)" using all by blast
  show "ho_now os k \<le> ho_now os k'" if "ho_sock os call k = (r, k')" using all that by (metis snd_conv)
  show "ho_now os k \<le> ho_now os k'" if "ho_recv os k = (x, k')" using all that by (metis snd_conv)
  show "ho_now os k < ho_now os k'" if "ho_recv os k = (Inl e, k')" "ioe_kind e = IOK_Interrupted"
    using all that by (metis fst_conv snd_conv)
qed

lemma run_plan_clock:
  "host_clock os \<Longrightarrow> run_plan os plan k = (r, calls, k') \<Longrightarrow> ho_now os k \<le> ho_now os k'"
proof (induction os plan k arbitrary: r calls k' rule: run_plan.induct)
  case (2 os call wrap plan k)
  obtain a k1 where s: "ho_sock os call k = (a, k1)" by fastforce
  obtain r1 calls1 k2 where t: "run_plan os plan k1 = (r1, calls1, k2)" by (metis prod_cases3)
  note le = host_clock_facts(2) [OF "2.prems"(1) s]
  show ?case
  proof (cases a)
    case None
    with "2.prems"(2) s t have "k' = k2" by simp
    with le "2.IH" [OF s [symmetric] None "2.prems"(1) t] show ?thesis by simp
  qed (use "2.prems"(2) s le in simp)
qed simp

lemma icmp_wait_ends:
  assumes "host_clock os" "start \<le> ho_now os k" "deadline < (ho_now os k - start) + fuel" "0 < fuel"
  shows "\<exists>r k'. icmp_wait os start deadline fuel k = Some (r, k') \<and> ho_now os k \<le> ho_now os k'"
  using assms(2-)
proof (induction fuel arbitrary: k)
  case (Suc fuel)
  show ?case
  proof (cases "deadline \<le> ho_now os k - start")
    case False
    obtain a k1 where s: "ho_sock os (SC_ReadTimeout (deadline - (ho_now os k - start))) k = (a, k1)" by fastforce
    obtain x k2 where r: "ho_recv os k1 = (x, k2)" by fastforce
    note t = host_clock_facts(2) [OF assms(1) s] host_clock_facts(3) [OF assms(1) r]
    show ?thesis
    proof (cases "a = None \<and> (\<exists>e. x = Inl e \<and> ioe_kind e = IOK_Interrupted)")
      case True
      then obtain e where e: "x = Inl e" "ioe_kind e = IOK_Interrupted" "a = None" by blast
      have "ho_now os k1 < ho_now os k2" using host_clock_facts(4) [OF assms(1)] r e by blast
      with t Suc.prems have "start \<le> ho_now os k2" "deadline < (ho_now os k2 - start) + fuel" "0 < fuel"
        using False by linarith+
      from Suc.IH [OF this] show ?thesis using False s r e t by (force simp: Let_def)
    qed (use False s r t in \<open>auto simp: Let_def split: option.splits sum.splits\<close>)
  qed auto
qed simp

lemma icmp_probe_ends:
  assumes "host_clock os"
  shows "\<exists>r k'. icmp_probe os dst src dev d k = Some (r, k') \<and> ho_now os k \<le> ho_now os k'"
proof -
  obtain r calls k1 where p: "run_plan os (icmp_plan dst src dev d) k = (r, calls, k1)" by (metis prod_cases3)
  note t = run_plan_clock [OF assms p]
  obtain r2 k2 where w: "icmp_wait os (ho_now os k1) d (d + 2) k1 = Some (r2, k2)" "ho_now os k1 \<le> ho_now os k2"
    using icmp_wait_ends [OF assms, of "ho_now os k1" k1 d "d + 2"] by auto
  show ?thesis
  proof (cases r)
    case (Inr u)
    have "ho_now os k \<le> ho_now os k2" using t w(2) by simp
    with p w(1) Inr show ?thesis unfolding icmp_probe_def by simp
  qed (use p t in \<open>simp add: icmp_probe_def\<close>)
qed

lemma wait_arp_loop_ends:
  assumes "host_clock os" "start \<le> ho_now os k" "deadline + ARP_PAUSE \<le> (ho_now os k - start) + ARP_PAUSE * fuel" "0 < fuel"
  shows "wait_arp_loop os dst src dev start deadline fuel k \<noteq> None"
  using assms(2-)
proof (induction fuel arbitrary: k)
  case (Suc fuel)
  obtain r k1 where p: "icmp_probe os dst src dev 200 k = Some (r, k1)" "ho_now os k \<le> ho_now os k1"
    using icmp_probe_ends [OF assms(1)] by blast
  have t: "ho_now os k + ARP_PAUSE \<le> ho_now os (ho_sleep os ARP_PAUSE k1)"
    using p(2) host_clock_facts(1) [OF assms(1), of k1 ARP_PAUSE] by simp
  show ?case
  proof (cases "arp_complete (ho_arp os k) dst dev \<or> deadline \<le> ho_now os k - start")
    case False
    then have "0 < fuel" using Suc.prems(2) by (cases fuel) (auto simp: ARP_PAUSE_def)
    moreover have "start \<le> ho_now os (ho_sleep os ARP_PAUSE k1)"
      "deadline + ARP_PAUSE \<le> (ho_now os (ho_sleep os ARP_PAUSE k1) - start) + ARP_PAUSE * fuel"
      using t Suc.prems by (auto simp: algebra_simps)
    ultimately show ?thesis using Suc.IH [of "ho_sleep os ARP_PAUSE k1"] False p by simp
  qed auto
qed simp

lemma wait_arp_ends: "host_clock os \<Longrightarrow> wait_arp os dst src dev d k \<noteq> None"
  unfolding wait_arp_def
  using dividend_less_times_div [of ARP_PAUSE d]
  by (intro wait_arp_loop_ends) (simp_all add: ARP_PAUSE_def)

lemma probe_before_connect_ends:
  assumes "host_clock os" shows "probe_before_connect os c k \<noteq> None"
proof -
  have "icmp_probe os dst (hc_source c) (hc_device c) 400 k1 \<noteq> None" for dst k1
    using icmp_probe_ends [OF assms] by (metis option.distinct(1))
  with wait_arp_ends [OF assms] show ?thesis
    by (auto simp: probe_before_connect_def simp del: not_None_eq split: option.splits prod.splits bool.splits)
qed

lemma request_attempts_ends:
  assumes "host_clock os" "\<And>n sk'. request_once c ((sks n)\<lparr>sk_connected := sk'\<rparr>) q \<noteq> None"
  shows "request_attempts os c q sks n left prev k \<noteq> None"
proof (induction left arbitrary: n prev k)
  case (Suc left)
  have "before_attempt os c n k \<noteq> None"
    using probe_before_connect_ends [OF assms(1)] by (simp add: before_attempt_def del: not_None_eq)
  then obtain k1 where b: "before_attempt os c n k = Some k1" by blast
  have "attempt_once os c q (sks n) k1 \<noteq> None"
    using assms(2) by (simp add: attempt_once_def del: not_None_eq split: prod.split)
  then obtain r k2 where a: "attempt_once os c q (sks n) k1 = Some (r, k2)" by auto
  show ?case using b a Suc.IH
    by (auto simp del: not_None_eq split: io_run.splits sum.splits)
qed simp

definition script_ends :: "socket_script \<Rightarrow> bool" where
  "script_ends sk \<longleftrightarrow>
     list_ex (\<lambda>t. it_remaining t = 0) (sk_head sk) \<and> list_ex (\<lambda>t. it_remaining t = 0) (sk_body sk)
   \<and> list_ex (\<lambda>t. it_remaining t = 0) (sk_flush sk) \<and> list_ex (\<lambda>t. it_remaining t = 0) (sk_read sk)"

lemma http_request_on_ends:
  assumes "host_clock os" "\<forall>n. script_ends (sks n)"
  shows "\<exists>r n hints k'. http_request_on os c q sks k = Some (r, n, hints, k')"
proof -
  have "request_once c ((sks n)\<lparr>sk_connected := sk'\<rparr>) q \<noteq> None" for n sk'
    using request_once_returns_by_deadline [of "(sks n)\<lparr>sk_connected := sk'\<rparr>" c q] assms(2)
    by (auto simp: script_ends_def)
  then have "request_attempts os c q sks 1 m e k \<noteq> None" for m e
    by (rule request_attempts_ends [OF assms(1)])
  then show ?thesis unfolding http_request_on_def
    by (auto simp del: request_attempts.simps split: if_splits)
qed

section \<open>Properties\<close>

text \<open>C33: where the traffic of a request goes. Every TCP connect is to the address and port of the
  client, with its connect deadline; by then the socket is bound to the source address if there is one, and
  to the device exactly when the destination is not one of the host's own addresses. A socket that is
  handed to the request has its read and write timeouts set.\<close>

theorem connection_leaves_by_the_device:
  assumes "parse_ipv4 (hc_host c) = Some ip" and "connect_socket os c k = (r, calls, k')"
  shows "(\<forall>pre a port deadline post. calls = pre @ SC_Connect a port deadline # post \<longrightarrow>
            a = ip \<and> port = hc_port c \<and> deadline = hc_connect_deadline_ms c
          \<and> (\<forall>src. SC_Bind src \<in> set pre \<longleftrightarrow> hc_source c = Some src)
          \<and> (\<forall>dev. SC_BindDevice dev \<in> set pre \<longleftrightarrow> hc_device c = Some dev \<and> \<not> ho_is_local os ip k))
       \<and> (is_ok r \<longrightarrow> SC_ReadTimeout (hc_deadline_ms c) \<in> set calls \<and> SC_WriteTimeout (hc_deadline_ms c) \<in> set calls)"
proof -
  obtain later where calls: "pinned_calls c (ho_is_local os ip k)
      @ SC_Connect ip (hc_port c) (hc_connect_deadline_ms c)
      # [SC_ReadTimeout (hc_deadline_ms c), SC_WriteTimeout (hc_deadline_ms c), SC_NoDelay] = calls @ later"
    and ok: "is_ok r \<longrightarrow> later = []"
    using connect_socket_calls [OF assms] unfolding connect_plan_calls by blast
  have "pre = pinned_calls c (ho_is_local os ip k)
      \<and> SC_Connect a port d = SC_Connect ip (hc_port c) (hc_connect_deadline_ms c)"
    if "calls = pre @ SC_Connect a port d # post" for pre a port d post
    by (rule made_after [OF calls that]) simp_all
  moreover have "SC_ReadTimeout (hc_deadline_ms c) \<in> set calls \<and> SC_WriteTimeout (hc_deadline_ms c) \<in> set calls"
    if "is_ok r"
    using ok calls that by (auto simp flip: calls)
  ultimately show ?thesis by fastforce
qed

text \<open>A host whose clock is its state: \<open>refuses\<close> tells which connections fail.\<close>

definition demo_host :: "bool \<Rightarrow> nat host_os" where
  "demo_host refuses =
     \<lparr>ho_is_local = (\<lambda>ip k. False), ho_ip = (\<lambda>args k. (Inl ''no ip'', k)), ho_arp = (\<lambda>k. None),
      ho_now = (\<lambda>k. k), ho_sleep = (\<lambda>d k. k + d),
      ho_sock = (\<lambda>call k. case call of
         SC_Connect _ _ _ \<Rightarrow> (if refuses then Some (io_err IOK_ConnectionRefused ''refused'') else None, k)
       | _ \<Rightarrow> (None, k)),
      ho_recv = (\<lambda>k. (Inl (io_err IOK_TimedOut ''timed out''), k))\<rparr>"

lemma demo_host_clock: "host_clock (demo_host refuses)"
  by (auto simp: host_clock_def demo_host_def io_err_def split: sock_call.split)

definition demo_net_client :: bounded_http_client where
  "demo_net_client = (http_client_new (show_ipv4 [192, 168, 4, 1]) 80)
     \<lparr>hc_source := Some [192, 168, 4, 2], hc_device := Some ''wlan0''\<rparr>"

lemma demo_net_client_host: "parse_ipv4 (hc_host demo_net_client) = Some [192, 168, 4, 1]"
  by (simp add: demo_net_client_def http_client_new_def parse_show_ipv4)

lemmas demo_connect_simps = connect_socket_def demo_net_client_host connect_plan_def device_call_def
  source_call_def demo_host_def

theorem connection_leaves_by_the_device_witness:
  "connect_socket (demo_host True) demo_net_client 0 =
     (Inl (wrap_err (''connect '' @ show_addr [192, 168, 4, 1] 80) (io_err IOK_ConnectionRefused ''refused'')),
      [SC_New Sk_Tcp, SC_BindDevice ''wlan0'', SC_Bind [192, 168, 4, 2], SC_Connect [192, 168, 4, 1] 80 3000], 0)
 \<and> SC_BindDevice ''wlan0'' \<in> set [SC_New Sk_Tcp, SC_BindDevice ''wlan0'', SC_Bind [192, 168, 4, 2]]"
proof -
  let ?pre = "[SC_New Sk_Tcp, SC_BindDevice ''wlan0'', SC_Bind [192, 168, 4, 2]]"
  have run: "connect_socket (demo_host True) demo_net_client 0 =
     (Inl (wrap_err (''connect '' @ show_addr [192, 168, 4, 1] 80) (io_err IOK_ConnectionRefused ''refused'')),
      ?pre @ [SC_Connect [192, 168, 4, 1] 80 3000], 0)"
    by (simp add: demo_connect_simps) (simp add: demo_net_client_def http_client_new_def)
  from connection_leaves_by_the_device [OF demo_net_client_host run]
  have "SC_BindDevice ''wlan0'' \<in> set ?pre \<longleftrightarrow>
      hc_device demo_net_client = Some ''wlan0'' \<and> \<not> ho_is_local (demo_host True) [192, 168, 4, 1] 0"
    by blast
  with run show ?thesis by simp
qed

text \<open>C31: a request on a host with a running clock returns: the probe before the first attempt, the
  wait for the neighbour and every attempt end, and with them the call, whatever the device and
  the host answer, if each I/O loop of each attempt gets to a turn at which its deadline has passed.\<close>

theorem http_request_returns:
  assumes "host_clock os"
    and "\<forall>n. list_ex (\<lambda>t. it_remaining t = 0) (sk_head (sks n)) \<and> list_ex (\<lambda>t. it_remaining t = 0) (sk_body (sks n))
           \<and> list_ex (\<lambda>t. it_remaining t = 0) (sk_flush (sks n)) \<and> list_ex (\<lambda>t. it_remaining t = 0) (sk_read (sks n))"
  shows "\<exists>r n hints k'. http_request_on os c q sks k = Some (r, n, hints, k')"
  using http_request_on_ends [OF assms(1)] assms(2) by (simp add: script_ends_def)

definition demo_script :: socket_script where
  "demo_script =
     \<lparr>sk_connected = Inr (), sk_cancelled = False,
      sk_head = [\<lparr>it_cancelled = False, it_remaining = 5, it_result = Inr 9, it_remaining_after = 5\<rparr>,
                 \<lparr>it_cancelled = False, it_remaining = 0, it_result = Inr 0, it_remaining_after = 0\<rparr>],
      sk_body = [\<lparr>it_cancelled = False, it_remaining = 0, it_result = Inr 0, it_remaining_after = 0\<rparr>],
      sk_flush = [\<lparr>it_cancelled = False, it_remaining = 0, it_result = Inr (), it_remaining_after = 0\<rparr>],
      sk_read = [\<lparr>it_cancelled = False, it_remaining = 0, it_result = Inr [], it_remaining_after = 0\<rparr>]\<rparr>"

theorem http_request_returns_witness:
  "\<exists>r n hints k'. http_request_on (demo_host False) demo_net_client (http_get ''/'') (\<lambda>n. demo_script) 0 = Some (r, n, hints, k')"
  by (rule http_request_returns [OF demo_host_clock]) (simp add: demo_script_def)

text \<open>C32: the attempts of one request on a host. At most \<open>retries + 1\<close> are made; the result is what
  the last of them gave, every earlier one failed with an error other than \<open>Interrupted\<close>, it
  stops early only on success, cancellation or a panic, and the failure hints are logged exactly when
  all attempts have failed. The number of retries is less than the largest \<open>u32\<close>, for which the sum overflows
  (the daemon sets at most three).\<close>

theorem http_request_attempts:
  assumes "unat (hc_retries c) < 4294967295"
    and "http_request_on os c q sks k = Some (r, m, hints, k')"
  shows "1 \<le> m \<and> m \<le> unat (hc_retries c) + 1 \<and> gives os c q (sks m) r
       \<and> (\<forall>i. 1 \<le> i \<and> i < m \<longrightarrow>
            (\<exists>e. gives os c q (sks i) (Ret (Inl e)) \<and> ioe_kind e \<noteq> IOK_Interrupted))
       \<and> (m < unat (hc_retries c) + 1 \<longrightarrow>
            r = Panic \<or> (\<exists>b. r = Ret (Inr b)) \<or> (\<exists>e. r = Ret (Inl e) \<and> ioe_kind e = IOK_Interrupted))
       \<and> (hints \<noteq> [] \<longleftrightarrow> (\<exists>e. r = Ret (Inl e) \<and> ioe_kind e \<noteq> IOK_Interrupted))"
proof -
  let ?e = "io_err IOK_Other ''no attempt made''"
  have "request_attempts os c q sks 1 (unat (hc_retries c) + 1) ?e k = Some (r, m, hints, k')"
    using assms by (simp add: http_request_on_def)
  from request_attempts_refine [OF this] obtain once
    where once: "attempt_loop once 1 (unat (hc_retries c) + 1) ?e = (r, m)"
      and gv: "\<forall>i. 1 \<le> i \<and> i \<le> m \<longrightarrow> gives os c q (sks i) (once i)"
      and hints: "hints \<noteq> [] \<longleftrightarrow> (\<exists>e. r = Ret (Inl e) \<and> ioe_kind e \<noteq> IOK_Interrupted)"
    by (auto simp: io_err_def)
  have "http_request_retry c once = (r, m)" using once assms(1) by (simp add: http_request_retry_def)
  note b = http_request_retry_bounded [OF assms(1) this]
  have "gives os c q (sks m) r" using b gv by (metis order_refl)
  moreover have "\<exists>e. gives os c q (sks i) (Ret (Inl e)) \<and> ioe_kind e \<noteq> IOK_Interrupted" if "1 \<le> i" "i < m" for i
    using b gv that by (metis less_imp_le)
  ultimately show ?thesis using b hints by blast
qed

theorem http_request_attempts_witness:
  "\<exists>r m hints k'. http_request_on (demo_host True) demo_net_client (http_get ''/'') (\<lambda>n. demo_script) 0 = Some (r, m, hints, k')
     \<and> 1 \<le> m \<and> m \<le> 4"
proof -
  have "unat (hc_retries demo_net_client) = 3" by (simp add: demo_net_client_def http_client_new_def)
  then have retries: "unat (hc_retries demo_net_client) < 4294967295" "unat (hc_retries demo_net_client) + 1 = 4" by simp_all
  have "\<forall>n::nat. script_ends demo_script" by (simp add: script_ends_def demo_script_def)
  from http_request_on_ends [OF demo_host_clock this] obtain r m hints k'
    where run: "http_request_on (demo_host True) demo_net_client (http_get ''/'') (\<lambda>n. demo_script) 0 = Some (r, m, hints, k')"
    by blast
  from http_request_attempts [OF retries(1) run] retries(2) run show ?thesis by auto
qed

end
