(* ===== verification/Wp_RadioProps.thy ===== *)
theory Wp_RadioProps
  imports Wp_Radio Wp_WorkerProps
begin

text \<open>
  The radio: what it reads from a scan, that each of its calls returns, what it leaves on the
  hub's settings, and that release leaves behind the directory of a supplicant.
\<close>

section \<open>Scan results\<close>

text \<open>Information elements as they are sent.\<close>

fun encode_ies :: "(char \<times> string) list \<Rightarrow> string" where
  "encode_ies [] = []"
| "encode_ies ((eid, d) # es) = eid # char_of (length d) # d @ encode_ies es"

fun first_ssid :: "(char \<times> string) list \<Rightarrow> string option" where
  "first_ssid [] = None"
| "first_ssid ((eid, d) # es) =
     (if byte eid = 0 then (if d = [] then None else Some (from_utf8_lossy d)) else first_ssid es)"

lemma ssid_from_encoded:
  "list_all (\<lambda>e. length (snd e) < 256) es \<Longrightarrow> ssid_from_ies (encode_ies es) = first_ssid es"
  by (induction es rule: encode_ies.induct) (auto simp: byte_char_of)

lemma parse_hex_02: "parse_hex_u8 (hex_02 b) = Some b"
proof -
  have b: "unat b < 256" using unsigned_less [of b, where ?'a = nat] by simp
  then have "unat b div 16 < 16" by (simp add: less_mult_imp_div_less)
  then have d: "digit_val 16 (hex_lower (unat b div 16)) = Some (unat b div 16)"
    "digit_val 16 (hex_lower (unat b mod 16)) = Some (unat b mod 16)"
    by (simp_all add: digit_val_hex_lower)
  have "hex_lower (unat b div 16) \<noteq> CHR ''+''"
    using hex_lower_alnum [OF \<open>unat b div 16 < 16\<close>] by (auto simp: is_ascii_alphanumeric_def
      is_ascii_digit_def is_ascii_upper_def is_ascii_lower_def)
  with d b show ?thesis
    by (simp add: parse_hex_u8_def parse_uint_def hex_02_def)
qed

lemma hex_02_clean: "CHR '':'' \<notin> set (hex_02 b)"
proof -
  have "is_ascii_alphanumeric c \<Longrightarrow> CHR '':'' \<noteq> c" for c
    by (auto simp: is_ascii_alphanumeric_def is_ascii_digit_def is_ascii_upper_def is_ascii_lower_def)
  moreover have "unat b < 256" using unsigned_less [of b, where ?'a = nat] by simp
  then have "unat b div 16 < 16" by (simp add: less_mult_imp_div_less)
  ultimately show ?thesis
    using hex_lower_alnum [of "unat b div 16"] hex_lower_alnum [of "unat b mod 16"] by (auto simp: hex_02_def)
qed

lemma split_format_bssid: "mac \<noteq> [] \<Longrightarrow> split_char (CHR '':'') (format_bssid mac) = map hex_02 mac"
proof (induction mac rule: induct_list012)
  case (2 x)
  then show ?case by (simp add: format_bssid_def split_char_clean hex_02_clean)
next
  case (3 x y zs)
  then show ?case by (simp add: format_bssid_def split_char_append hex_02_clean)
qed simp

lemma parse_format_bssid: "length mac = 6 \<Longrightarrow> parse_bssid (Some (format_bssid mac)) = Some mac"
proof -
  assume "length mac = 6"
  then have "split_char (CHR '':'') (format_bssid mac) = map hex_02 mac"
    by (intro split_format_bssid) auto
  moreover have "those (map (parse_hex_u8 \<circ> hex_02) ms) = Some ms" for ms
    by (induction ms) (simp_all add: parse_hex_02)
  ultimately show ?thesis using \<open>length mac = 6\<close> by (simp add: parse_bssid_def)
qed

text \<open>The reply stream: the first \<open>mx\<close> networks, unless the stream fails before its end is seen.\<close>

lemma dump_loop_collects:
  assumes "length acc \<le> mx"
  shows "dump_loop mx acc (map Inr ms) = Inr (take mx (acc @ List.map_filter parse_scan_attrs ms))"
  using assms
proof (induction ms arbitrary: acc)
  case Nil
  then show ?case by (simp add: List.map_filter_def)
next
  case (Cons m ms)
  show ?case
  proof (cases "length acc \<ge> mx")
    case True
    with Cons.prems show ?thesis by simp
  next
    case False
    then have "mx - length acc = Suc (mx - Suc (length acc))" by simp
    with False Cons.IH show ?thesis by (auto simp: List.map_filter_simps split: option.split)
  qed
qed

text \<open>A network as the kernel reports it: its address, its signal in mBm, its information elements.\<close>

type_synonym network = "u8 list \<times> int \<times> (char \<times> string) list"

definition network_attrs :: "network \<Rightarrow> nl_attr list" where
  "network_attrs n =
     (case n of (mac, mbm, es) \<Rightarrow>
        [NA_Other, NA_Bss [BI_Bssid mac, BI_RawInformationElements (encode_ies es), BI_SignalMbm mbm]])"

definition network_result :: "network \<Rightarrow> scan_result" where
  "network_result n =
     (case n of (mac, mbm, es) \<Rightarrow>
        \<lparr>sr_ssid = first_ssid es, sr_bssid = Some (format_bssid mac), sr_rssi = Some (div_trunc mbm 100)\<rparr>)"

definition well_formed_network :: "network \<Rightarrow> bool" where
  "well_formed_network n =
     (case n of (mac, mbm, es) \<Rightarrow> length mac = 6 \<and> list_all (\<lambda>e. length (snd e) < 256) es)"

lemma parse_network: "well_formed_network n \<Longrightarrow> parse_scan_attrs (network_attrs n) = Some (network_result n)"
  by (auto simp: well_formed_network_def network_attrs_def network_result_def parse_bss_infos_def no_result_def
      ssid_from_encoded split: prod.splits)

lemma parse_networks:
  "list_all well_formed_network ns \<Longrightarrow> List.map_filter parse_scan_attrs (map network_attrs ns) = map network_result ns"
  by (induction ns) (simp_all add: List.map_filter_simps parse_network)

text \<open>C25: a scan reads what the networks send. Of a reply that lists networks, the first \<open>mx\<close> are
  returned in order, each with the name in its first SSID element (none when that is empty or missing),
  its address and its signal; and the text of an address is read back as that address when
  the radio later joins that network.\<close>

theorem scan_reads_networks:
  assumes "list_all well_formed_network ns" and "ro_dump os idx k = map (\<lambda>n. Inr (network_attrs n)) ns"
    and "length mac = 6"
  shows "dump_bss os idx mx k = Inr (map network_result (take mx ns))
       \<and> parse_bssid (Some (format_bssid mac)) = Some mac"
proof -
  have "dump_bss os idx mx k = dump_loop mx [] (map Inr (map network_attrs ns))"
    by (simp add: dump_bss_def assms(2) comp_def)
  also have "\<dots> = Inr (take mx (map network_result ns))"
    using dump_loop_collects [of "[]" mx "map network_attrs ns"] parse_networks [OF assms(1)] by simp
  finally show ?thesis by (simp add: take_map parse_format_bssid assms(3))
qed

section \<open>Every call returns\<close>

text \<open>The clock advances by at least the time slept.\<close>

definition clock_law :: "('k, 'm) radio_os \<Rightarrow> bool" where
  "clock_law os \<longleftrightarrow> (\<forall>d k. ro_now os (ro_sleep os d k) \<ge> ro_now os k + d)"

lemma poll_until_ends:
  assumes "clock_law os" "deadline + ASSOCIATE_POLL \<le> (ro_now os k - t0) + ASSOCIATE_POLL * fuel" "t0 \<le> ro_now os k" "0 < fuel"
  shows "\<exists>b k'. poll_until os stop t0 deadline fuel k = Some (b, k') \<and> (if b then stop k' else \<not> stop k' \<and> ro_now os k' - t0 \<ge> deadline)"
  using assms(2-)
proof (induction fuel arbitrary: k)
  case (Suc fuel)
  let ?k = "ro_sleep os ASSOCIATE_POLL k"
  have step: "ro_now os k + ASSOCIATE_POLL \<le> ro_now os ?k"
    using assms(1) by (simp add: clock_law_def)
  show ?case
  proof (cases "stop k \<or> deadline \<le> ro_now os k - t0")
    case False
    then have "0 < fuel" using Suc.prems(1) by (cases fuel) (auto simp: ASSOCIATE_POLL_def)
    moreover have "deadline + ASSOCIATE_POLL \<le> (ro_now os ?k - t0) + ASSOCIATE_POLL * fuel" "t0 \<le> ro_now os ?k"
      using step Suc.prems by (auto simp: algebra_simps)
    ultimately show ?thesis using False Suc.IH [of ?k] by auto
  qed auto
qed simp

lemma poll_ends:
  assumes "clock_law os"
  obtains b k' where "poll_until os stop (ro_now os k) deadline (polls deadline) k = Some (b, k')"
    and "if b then stop k' else \<not> stop k' \<and> ro_now os k' - ro_now os k \<ge> deadline"
proof -
  have "deadline + ASSOCIATE_POLL \<le> ASSOCIATE_POLL * polls deadline"
    using dividend_less_times_div [of 100 deadline] by (simp add: polls_def ASSOCIATE_POLL_def)
  then show thesis using poll_until_ends [OF assms, of deadline k "ro_now os k" "polls deadline" stop] that
    by (auto simp: polls_def)
qed

lemma poll_not_None: "clock_law os \<Longrightarrow> poll_until os stop (ro_now os k) d (polls d) k \<noteq> None"
  by (rule poll_ends) auto

lemma wait_ends:
  assumes "clock_law os"
  shows "wait_associated os iface d k \<noteq> None" "wait_operstate_up os iface k \<noteq> None"
  using poll_not_None [OF assms] by (auto simp: wait_associated_def wait_operstate_up_def)

text \<open>How the wait for the handshake ends: the child is handed over running, or killed.\<close>

lemma wpa_wait_ends:
  assumes "clock_law os"
  obtains (connected) k1 k' where "wpa_wait os iface pid dir k = Some (Inr pid, k')"
      "four_way_ok os pid k1" "\<not> four_way_fail os pid k1"
  | (rejected) k1 where "wpa_wait os iface pid dir k = Some (Inl psk_rejected, kill_and_clean os pid dir k1)"
      "four_way_fail os pid k1"
  | (late) k1 where "wpa_wait os iface pid dir k = Some (Inl DE_AssociationTimedOut, kill_and_clean os pid dir k1)"
      "\<not> four_way_ok os pid k1" "ro_now os k1 - ro_now os k \<ge> WPA_ASSOCIATE_DEADLINE"
proof -
  obtain b k1 where p: "poll_until os (\<lambda>k. four_way_fail os pid k \<or> four_way_ok os pid k) (ro_now os k)
      WPA_ASSOCIATE_DEADLINE (polls WPA_ASSOCIATE_DEADLINE) k = Some (b, k1)"
    and b: "if b then four_way_fail os pid k1 \<or> four_way_ok os pid k1
      else \<not> (four_way_fail os pid k1 \<or> four_way_ok os pid k1) \<and> ro_now os k1 - ro_now os k \<ge> WPA_ASSOCIATE_DEADLINE"
    by (rule poll_ends [OF assms])
  obtain k2 where k2: "wait_operstate_up os iface k1 = Some k2" using wait_ends(2) [OF assms] by blast
  consider "b" "four_way_fail os pid k1" | "b" "\<not> four_way_fail os pid k1" | "\<not> b" by blast
  then show thesis
  proof cases
    case 1
    then show thesis using p rejected by (simp add: wpa_wait_def)
  next
    case 2
    then show thesis using p b k2 connected by (simp add: wpa_wait_def)
  next
    case 3
    then show thesis using p b late by (simp add: wpa_wait_def)
  qed
qed

lemma spawn_ends: "clock_law os \<Longrightarrow> spawn_wpa_supplicant os iface ssid psk k \<noteq> None"
proof -
  assume "clock_law os"
  then have "wpa_wait os iface pid dir k \<noteq> None" for pid dir k
    by (rule wpa_wait_ends [of os iface pid dir k]) simp_all
  then show ?thesis by (simp add: spawn_wpa_supplicant_def del: not_None_eq split: prod.split sum.split)
qed

lemma try_open_ends: "clock_law os \<Longrightarrow> try_open os iface idx ssid bssid k \<noteq> None"
  using wait_ends(1) [of os iface ASSOCIATE_DEADLINE]
  by (auto simp: try_open_def simp del: not_None_eq split: prod.split option.split bool.split)

lemma associate_open_ends: "clock_law os \<Longrightarrow> associate_open os iface idx ssid bssid k \<noteq> None"
  using try_open_ends [of os iface idx ssid bssid]
  by (auto simp: associate_open_def simp del: not_None_eq split: prod.split sum.split option.split)

lemma associate_ends: "clock_law os \<Longrightarrow> associate os iface idx ssid bssid psk k \<noteq> None"
  using spawn_ends [of os iface ssid] associate_open_ends [of os iface idx ssid bssid]
  by (auto simp: associate_def simp del: not_None_eq split: prod.split option.split)

lemma radio_connect_ends: "clock_law os \<Longrightarrow> radio_connect os ssid bssid psk st \<noteq> None"
  using associate_ends [of os _ _ ssid bssid psk]
  by (auto simp: radio_connect_def simp del: not_None_eq split: prod.split sum.split option.split)

lemma radio_step_ends: "clock_law os \<Longrightarrow> radio_step os c st \<noteq> None"
  using radio_connect_ends [of os]
  by (cases c) (auto split: prod.split sum.split simp del: not_None_eq)

lemma radio_steps_end: "clock_law os \<Longrightarrow> \<exists>st'. radio_steps os cs st = Some st'"
  using radio_step_ends [of os]
  by (induction cs arbitrary: st) (auto split: option.split prod.split)

text \<open>C7: association with a passphrase. With a clock that advances every call of the radio returns, and
  so does the start of \<open>wpa_supplicant\<close>, with one of these ends: a child that has reported the
  connection and no failed handshake; an error before there was a child; or a child
  that was killed, and its directory removed, because it reported a failed handshake or did not connect in time.\<close>

theorem psk_association_outcome:
  assumes "clock_law os"
  shows "(\<exists>e st'. radio_step os c st = Some (e, st'))
       \<and> (\<exists>res k'. spawn_wpa_supplicant os iface ssid psk k = Some (res, k')
            \<and> (case res of
                 Inr pid \<Rightarrow> \<exists>k1. four_way_ok os pid k1 \<and> \<not> four_way_fail os pid k1
               | Inl e \<Rightarrow> wpa_start os iface ssid psk (wpa_disconnect os iface k) = (Inl e, k')
                   \<or> (\<exists>pid k1. k' = kill_and_clean os pid (wpa_dir os ssid) k1
                        \<and> (e = psk_rejected \<and> four_way_fail os pid k1
                           \<or> e = DE_AssociationTimedOut \<and> \<not> four_way_ok os pid k1))))"
proof (intro conjI)
  show "\<exists>e st'. radio_step os c st = Some (e, st')" using radio_step_ends [OF assms, of c st] by auto
next
  obtain r1 k1 where k1: "wpa_start os iface ssid psk (wpa_disconnect os iface k) = (r1, k1)" by fastforce
  show "\<exists>res k'. spawn_wpa_supplicant os iface ssid psk k = Some (res, k')
            \<and> (case res of
                 Inr pid \<Rightarrow> \<exists>k1. four_way_ok os pid k1 \<and> \<not> four_way_fail os pid k1
               | Inl e \<Rightarrow> wpa_start os iface ssid psk (wpa_disconnect os iface k) = (Inl e, k')
                   \<or> (\<exists>pid k1. k' = kill_and_clean os pid (wpa_dir os ssid) k1
                        \<and> (e = psk_rejected \<and> four_way_fail os pid k1
                           \<or> e = DE_AssociationTimedOut \<and> \<not> four_way_ok os pid k1)))"
  proof (cases r1)
    case (Inl e)
    with k1 show ?thesis by (simp add: spawn_wpa_supplicant_def)
  next
    case (Inr pid)
    with k1 have spawn: "spawn_wpa_supplicant os iface ssid psk k = wpa_wait os iface pid (wpa_dir os ssid) k1"
      by (simp add: spawn_wpa_supplicant_def)
    show ?thesis
      by (rule wpa_wait_ends [OF assms, of iface pid "wpa_dir os ssid" k1]) (auto simp: spawn)
  qed
qed

section \<open>What the other calls do not touch\<close>

text \<open>The view \<open>V\<close> of the system is not changed by requests about the link and its scans, by requests
  about addresses, by sleeping and writing a file, by starting and killing a child, by making and
  removing a directory.\<close>

definition link_keeps :: "('k, 'm) radio_os \<Rightarrow> ('k \<Rightarrow> 'v) \<Rightarrow> bool" where
  "link_keeps os V \<longleftrightarrow>
     (\<forall>k idx up. V (snd (ro_link_set os idx up k)) = V k)
   \<and> (\<forall>k idx q. V (snd (ro_connect os idx q k)) = V k)
   \<and> (\<forall>k idx. V (ro_disconnect os idx k) = V k)
   \<and> (\<forall>k idx fs. V (snd (ro_trigger os idx fs k)) = V k)
   \<and> (\<forall>k d. list_all (\<lambda>e. V (snd e) = V k) (ro_events os d k))"

definition address_keeps :: "('k, 'm) radio_os \<Rightarrow> ('k \<Rightarrow> 'v) \<Rightarrow> bool" where
  "address_keeps os V \<longleftrightarrow>
     (\<forall>k m. V (snd (ro_addr_del os m k)) = V k) \<and> (\<forall>k idx a p. V (snd (ro_addr_add os idx a p k)) = V k)"

definition netlink_keeps :: "('k, 'm) radio_os \<Rightarrow> ('k \<Rightarrow> 'v) \<Rightarrow> bool" where
  "netlink_keeps os V \<longleftrightarrow> link_keeps os V \<and> address_keeps os V"

definition pauses_keep :: "('k, 'm) radio_os \<Rightarrow> ('k \<Rightarrow> 'v) \<Rightarrow> bool" where
  "pauses_keep os V \<longleftrightarrow>
     (\<forall>k d. V (ro_sleep os d k) = V k) \<and> (\<forall>k f s. V (snd (ro_write os f s k)) = V k)"

definition children_keep :: "('k, 'm) radio_os \<Rightarrow> ('k \<Rightarrow> 'v) \<Rightarrow> bool" where
  "children_keep os V \<longleftrightarrow>
     (\<forall>k args. V (snd (ro_spawn os args k)) = V k) \<and> (\<forall>k pid. V (ro_kill os pid k) = V k)"

definition process_keeps :: "('k, 'm) radio_os \<Rightarrow> ('k \<Rightarrow> 'v) \<Rightarrow> bool" where
  "process_keeps os V \<longleftrightarrow> pauses_keep os V \<and> children_keep os V"

definition files_keep :: "('k, 'm) radio_os \<Rightarrow> ('k \<Rightarrow> 'v) \<Rightarrow> bool" where
  "files_keep os V \<longleftrightarrow> (\<forall>k d. V (snd (ro_mkdir os d k)) = V k) \<and> (\<forall>k d. V (ro_rmdir os d k) = V k)"

lemmas keeps_defs = netlink_keeps_def link_keeps_def address_keeps_def process_keeps_def pauses_keep_def children_keep_def

lemma link_simps:
  assumes "link_keeps os V"
  shows "V (snd (ro_link_set os idx up k)) = V k" "V (snd (ro_connect os idx q k)) = V k"
    "V (ro_disconnect os idx k) = V k" "V (snd (ro_trigger os idx fs k)) = V k"
    "list_all (\<lambda>e. V (snd e) = V k) (ro_events os d k)"
  using assms by (simp_all add: link_keeps_def)

lemma address_simps:
  assumes "address_keeps os V"
  shows "V (snd (ro_addr_del os m k)) = V k" "V (snd (ro_addr_add os idx a p k)) = V k"
  using assms by (simp_all add: address_keeps_def)

lemma netlink_simps:
  assumes "netlink_keeps os V"
  shows "link_keeps os V" "address_keeps os V" "V (snd (ro_link_set os idx up k)) = V k"
    "V (ro_disconnect os idx k) = V k" "V (snd (ro_addr_add os idx a p k)) = V k"
  using assms by (simp_all add: netlink_keeps_def link_simps address_simps)

lemma pause_simps:
  assumes "pauses_keep os V"
  shows "V (ro_sleep os d k) = V k" "V (snd (ro_write os f s k)) = V k"
  using assms by (simp_all add: pauses_keep_def)

lemma process_simps:
  assumes "process_keeps os V"
  shows "V (ro_sleep os d k) = V k" "V (snd (ro_write os f s k)) = V k" "V (snd (ro_spawn os args k)) = V k"
    "V (ro_kill os pid k) = V k" "pauses_keep os V"
  using assms by (simp_all add: process_keeps_def pauses_keep_def children_keep_def)

lemma await_scan_keeps:
  "list_all (\<lambda>e. V (snd e) = v) ms \<Longrightarrow> V k = v \<Longrightarrow> V (await_scan ms k) = v"
  by (induction ms k rule: await_scan.induct) auto

lemma set_link_keeps: "link_keeps os V \<Longrightarrow> V (snd (set_link_up os idx k)) = V k"
  by (auto simp: set_link_up_def split: option.split prod.split dest: link_simps(1) [of os V idx True k])

lemma trigger_keeps: "link_keeps os V \<Longrightarrow> V (snd (trigger_scan os idx fs k)) = V k"
  by (cases "ro_trigger os idx fs k") (use link_simps(4) [of os V idx fs k] in \<open>simp add: trigger_scan_def\<close>)

lemma trigger_any_keeps: "link_keeps os V \<Longrightarrow> V (snd (trigger_any os idx k)) = V k"
  using trigger_keeps [of os V idx] by (auto simp: trigger_any_def split: prod.split option.split) (metis snd_conv)+

lemma run_scan_keeps:
  assumes "link_keeps os V" "pauses_keep os V"
  shows "V (snd (run_scan os idx mx k)) = V k"
proof -
  obtain r1 k1 where k1: "set_link_up os idx k = (r1, k1)" by fastforce
  obtain r2 k2 where k2: "trigger_any os idx k1 = (r2, k2)" by fastforce
  have "V k1 = V k" "V k2 = V k1"
    using set_link_keeps [OF assms(1), of idx k] k1 trigger_any_keeps [OF assms(1), of idx k1] k2 by simp_all
  moreover have "V (scan_settled os sub k2) = V k2" for sub
    using await_scan_keeps [OF link_simps(5) [OF assms(1)]] pause_simps(1) [OF assms(2)]
    by (simp add: scan_settled_def)
  ultimately show ?thesis
    using k1 k2 by (auto simp: run_scan_def Let_def split: option.split)
qed

lemma poll_keeps:
  "pauses_keep os V \<Longrightarrow> poll_until os stop t0 d fuel k = Some (b, k') \<Longrightarrow> V k' = V k"
  by (induction fuel arbitrary: k) (auto simp: pause_simps split: if_splits)

lemma wait_keeps:
  assumes "pauses_keep os V"
  shows "wait_associated os iface d k = Some (b, k') \<Longrightarrow> V k' = V k"
    and "wait_operstate_up os iface k = Some k' \<Longrightarrow> V k' = V k"
  using poll_keeps [OF assms] by (auto simp: wait_associated_def wait_operstate_up_def)

lemma connect_once_keeps: "link_keeps os V \<Longrightarrow> V (snd (connect_once os idx ssid bssid psk k)) = V k"
  using link_simps(2) [of os V idx] by (simp add: connect_once_def split: prod.split) (metis snd_conv)

lemma try_open_keeps:
  assumes "link_keeps os V" "pauses_keep os V" "try_open os iface idx ssid bssid k = Some (r, k')"
  shows "V k' = V k"
  using assms(3) connect_once_keeps [OF assms(1), of idx ssid bssid None k]
  by (auto simp: try_open_def pause_simps [OF assms(2)] dest: wait_keeps(1) [OF assms(2)]
      split: prod.splits option.splits bool.splits)

lemma associate_open_keeps:
  assumes "link_keeps os V" "pauses_keep os V" "associate_open os iface idx ssid bssid k = Some (r, k')"
  shows "V k' = V k"
proof -
  note opened = try_open_keeps [OF assms(1,2)]
  have scan: "run_scan os idx 64 k1 = (q, k2) \<Longrightarrow> V k2 = V k1" for k1 q k2
    using run_scan_keeps [OF assms(1,2), of idx 64 k1] by simp
  show ?thesis
    using assms(3) by (auto simp: associate_open_def split: prod.splits option.splits sum.splits dest!: opened scan)
qed

text \<open>Association, with the directories of a \<open>wpa_supplicant\<close> that come and go, does not change the view;
  with the addresses, nothing but \<open>ip\<close> does.\<close>

definition joins_keep :: "('k, 'm) radio_os \<Rightarrow> ('k \<Rightarrow> 'v) \<Rightarrow> bool" where
  "joins_keep os V \<longleftrightarrow> link_keeps os V \<and> process_keeps os V \<and> files_keep os V"

definition undisturbed :: "('k, 'm) radio_os \<Rightarrow> ('k \<Rightarrow> 'v) \<Rightarrow> bool" where
  "undisturbed os V \<longleftrightarrow> netlink_keeps os V \<and> process_keeps os V \<and> files_keep os V"

lemma undisturbed_joins: "undisturbed os V \<Longrightarrow> joins_keep os V"
  by (simp add: undisturbed_def joins_keep_def netlink_keeps_def)

lemma files_simps:
  assumes "files_keep os V"
  shows "V (snd (ro_mkdir os d k)) = V k" "V (ro_rmdir os d k) = V k"
  using assms by (simp_all add: files_keep_def)

lemma wpa_start_keeps:
  assumes "process_keeps os V" "files_keep os V"
  shows "V (snd (wpa_start os iface ssid psk k)) = V k"
proof -
  obtain r1 k1 where k1: "ro_mkdir os (wpa_dir os ssid) k = (r1, k1)" by fastforce
  obtain r2 k2 where k2: "ro_write os (wpa_conf_file (wpa_dir os ssid)) (wpa_config ssid psk) k1 = (r2, k2)" by fastforce
  obtain r3 k3 where k3: "ro_spawn os [''wpa_supplicant'', ''-i'', iface, ''-c'', wpa_conf_file (wpa_dir os ssid)] k2 = (r3, k3)"
    by fastforce
  have "V k1 = V k" "V k2 = V k1" "V k3 = V k2"
    using files_simps(1) [OF assms(2), of "wpa_dir os ssid" k] k1
      process_simps(2) [OF assms(1), of "wpa_conf_file (wpa_dir os ssid)" "wpa_config ssid psk" k1] k2
      process_simps(3) [OF assms(1), of _ k2] k3 by (simp_all, metis snd_conv)
  then show ?thesis using k1 k2 k3 by (simp add: wpa_start_def Let_def split: option.split sum.split)
qed

lemma wpa_wait_keeps:
  assumes "process_keeps os V" "files_keep os V" "wpa_wait os iface pid dir k = Some (r, k')"
  shows "V k' = V k"
  using assms(3)
  by (auto simp: wpa_wait_def kill_and_clean_def process_simps [OF assms(1)] files_simps [OF assms(2)]
      dest!: poll_keeps [OF process_simps(5) [OF assms(1)]] wait_keeps(2) [OF process_simps(5) [OF assms(1)]] split: option.splits bool.splits if_splits)

lemma spawn_keeps:
  assumes "joins_keep os V" "spawn_wpa_supplicant os iface ssid psk k = Some (r, k')"
  shows "V k' = V k"
proof -
  have V: "link_keeps os V" "process_keeps os V" "files_keep os V"
    using assms(1) by (simp_all add: joins_keep_def)
  have "V (wpa_disconnect os iface k) = V k"
    by (simp add: wpa_disconnect_def link_simps [OF V(1)])
  moreover obtain r1 k1 where k1: "wpa_start os iface ssid psk (wpa_disconnect os iface k) = (r1, k1)" by fastforce
  ultimately have "V k1 = V k"
    using wpa_start_keeps [OF V(2,3), of iface ssid psk "wpa_disconnect os iface k"] by simp
  then show ?thesis
    using assms(2) k1 by (auto simp: spawn_wpa_supplicant_def split: sum.splits dest!: wpa_wait_keeps [OF V(2,3)])
qed

lemma associate_keeps:
  assumes "joins_keep os V" "associate os iface idx ssid bssid psk k = Some (r, k')"
  shows "V k' = V k"
proof -
  have V: "link_keeps os V" "pauses_keep os V" using assms(1) by (simp_all add: joins_keep_def process_keeps_def)
  obtain r1 k1 where k1: "set_link_up os idx k = (r1, k1)" by fastforce
  have "V k1 = V k" using set_link_keeps [OF V(1), of idx k] k1 by simp
  then show ?thesis
    using assms(2) k1 by (auto simp: associate_def split: option.splits
      dest!: spawn_keeps [OF assms(1)] associate_open_keeps [OF V])
qed

lemma delete_each_keeps: "address_keeps os V \<Longrightarrow> V (delete_each os ms k) = V k"
  by (induction os ms k rule: delete_each.induct) (auto simp: address_simps)

lemma remove_address_keeps: "address_keeps os V \<Longrightarrow> V (remove_address os idx a k) = V k"
  by (simp add: remove_address_def delete_each_keeps)

text \<open>The calls that only use the link: neither settings nor what is to be undone changes.\<close>

definition link_only :: "radio_call \<Rightarrow> bool" where
  "link_only c = (case c of RC_PrepareSoftap s h \<Rightarrow> False | RC_Release \<Rightarrow> False | _ \<Rightarrow> True)"

lemma radio_connect_keeps:
  assumes "joins_keep os V" "radio_connect os ssid bssid psk (r, h) = Some (e, r', h')"
  shows "rd_saved r' = rd_saved r \<and> rd_policy r' = rd_policy r \<and> rd_iface r' = rd_iface r
       \<and> hub_sys h' = hub_sys h \<and> V (hub_os h') = V (hub_os h)"
  using assms(2) by (auto simp: radio_connect_def split: option.splits sum.splits
      dest!: associate_keeps [OF assms(1)])

lemma set_address_keeps:
  assumes "address_keeps os V" "radio_set_address os a p (r, h) = (e, r', h')"
  shows "rd_saved r' = rd_saved r \<and> rd_policy r' = rd_policy r \<and> rd_iface r' = rd_iface r
       \<and> hub_sys h' = hub_sys h \<and> V (hub_os h') = V (hub_os h)"
  using assms(2) address_simps(2) [OF assms(1), of "rd_index r" a p "remove_address os (rd_index r) a (hub_os h)"]
    remove_address_keeps [OF assms(1), of "rd_index r" a "hub_os h"]
  by (auto simp: radio_set_address_def Let_def split: option.splits prod.splits)

lemma link_only_keeps:
  assumes V: "undisturbed os V" and c: "link_only c" and step: "radio_step os c (r, h) = Some (e, r', h')"
  shows "rd_saved r' = rd_saved r \<and> rd_policy r' = rd_policy r \<and> rd_iface r' = rd_iface r
       \<and> hub_sys h' = hub_sys h \<and> V (hub_os h') = V (hub_os h)"
proof -
  have N: "link_keeps os V" "pauses_keep os V" and A: "address_keeps os V"
    using V by (simp_all add: undisturbed_def netlink_keeps_def process_keeps_def)
  show ?thesis
  proof (cases c)
    case (RC_Scan mx)
    with step run_scan_keeps [OF N, of "rd_index r" mx "hub_os h"] show ?thesis
      by (auto split: prod.splits sum.splits)
  next
    case RC_LinkUp
    with step set_link_keeps [OF N(1), of "rd_index r" "hub_os h"] show ?thesis
      by (auto simp: radio_link_up_def split: prod.splits)
  next
    case (RC_SetAddress a p)
    with step set_address_keeps [OF A, of a p r h] show ?thesis by simp
  qed (use c step in \<open>auto simp: link_only_def dest: radio_connect_keeps [OF undisturbed_joins [OF V]]\<close>)
qed

section \<open>Settings are undone\<close>

text \<open>What the radio relies on of \<open>ip\<close> and of everything else it runs, for the rules \<open>prefs\<close>.\<close>

definition rule_laws :: "('k, 'm) radio_os \<Rightarrow> ('k \<Rightarrow> nat set) \<Rightarrow> bool" where
  "rule_laws os prefs \<longleftrightarrow>
     ip_laws (ro_ip os) prefs \<and> adds_work (ro_ip os) \<and> dels_work (ro_ip os) prefs \<and> undisturbed os prefs"

text \<open>The settings of the hub, as its programs see them, are the same.\<close>

definition same_settings :: "('k \<Rightarrow> nat set) \<Rightarrow> 'k hub \<Rightarrow> 'k hub \<Rightarrow> bool" where
  "same_settings prefs h h' \<longleftrightarrow> same_conf (hub_sys h) (hub_sys h') \<and> prefs (hub_os h) = prefs (hub_os h')"

definition idle :: "nl_radio \<Rightarrow> bool" where
  "idle r \<longleftrightarrow> rd_saved r = [] \<and> rd_assigned r = None \<and> rd_policy r = None \<and> rd_supplicant r = None"

text \<open>The invariant: what the radio has noted is enough to undo what it has changed.\<close>

definition undoable :: "('k \<Rightarrow> nat set) \<Rightarrow> 'k hub \<Rightarrow> 'k radio_state \<Rightarrow> bool" where
  "undoable prefs h0 st \<longleftrightarrow>
     undoes (hub_sys h0) (rd_saved (fst st), hub_sys (snd st))
   \<and> (let now = prefs (hub_os (snd st)); before = prefs (hub_os h0) in
      if (case rd_policy (fst st) of None \<Rightarrow> False | Some p \<Rightarrow> po_relocated p)
      then 0 \<in> before \<and> now = insert 1 before - {0} else now = before)"

lemma undoable_start: "rd_saved r = [] \<Longrightarrow> rd_policy r = None \<Longrightarrow> undoable prefs h (r, h)"
  by (simp add: undoable_def undoes_def restore_conf_def same_conf_def)

lemma undoable_link_only:
  assumes "undisturbed os prefs" "link_only c" "radio_step os c st = Some (e, st')" "undoable prefs h0 st"
  shows "undoable prefs h0 st' \<and> rd_saved (fst st') = rd_saved (fst st) \<and> rd_policy (fst st') = rd_policy (fst st)"
  using assms(3,4) link_only_keeps [OF assms(1,2)]
  by (cases st; cases st') (auto simp: undoable_def)

lemma undoable_prepare:
  assumes L: "rule_laws os prefs" and "prefs (hub_os h0) \<noteq> {}" "1 \<notin> prefs (hub_os h0)"
    and "undoable prefs h0 st" "rd_saved (fst st) = []" "rd_policy (fst st) = None"
  shows "undoable prefs h0 (radio_prepare_softap os source host st)"
proof -
  obtain r h where st: "st = (r, h)" by fastforce
  obtain saved sys where s: "prepare_softap (rd_iface r) (hub_sys h) = (saved, sys)" by fastforce
  obtain p kern where p: "install_policy_route (ro_ip os) (ro_is_local os) source host (rd_iface r)
      (fresh_kern (hub_os h)) = (p, kern)" by fastforce
  have here: "prefs (hub_os h) = prefs (hub_os h0)" "same_conf (hub_sys h) (hub_sys h0)"
    using assms(4-6) by (simp_all add: st undoable_def undoes_def restore_conf_def)
  have "undoes (hub_sys h) (saved, sys)"
    using prepare_undone [of "hub_sys h" "rd_iface r"] s by simp
  then have "undoes (hub_sys h0) (saved, sys)"
    using here(2) by (auto simp: undoes_def intro: same_conf_trans)
  moreover have "delivers prefs (fresh_kern (hub_os h))"
    using here(1) assms(2) by (simp add: delivers_def fresh_kern_def)
  note inst = install_effect [OF _ _ this p [symmetric]]
  have "if po_relocated p then 0 \<in> prefs (hub_os h0) \<and> prefs (kn_now kern) = insert 1 (prefs (hub_os h0)) - {0}
        else prefs (kn_now kern) = prefs (hub_os h0)"
    using inst(2,3) L here(1) assms(3) by (simp add: rule_laws_def fresh_kern_def)
  ultimately show ?thesis
    by (simp add: st radio_prepare_softap_def s p undoable_def Let_def)
qed

lemma nl_release_undoes:
  assumes L: "rule_laws os prefs" and "prefs (hub_os h0) \<noteq> {}" "1 \<notin> prefs (hub_os h0)" "undoable prefs h0 st"
  shows "idle (fst (nl_release os st)) \<and> same_settings prefs (snd (nl_release os st)) h0"
proof -
  obtain r h where st: "st = (r, h)" by fastforce
  have U: "undisturbed os prefs" and N: "netlink_keeps os prefs" and P: "process_keeps os prefs" and F: "files_keep os prefs"
    using L by (simp_all add: rule_laws_def undisturbed_def)
  define k where "k = release_child os r (hub_os h)"
  have k: "prefs k = prefs (hub_os h)"
    by (simp add: k_def release_child_def kill_and_clean_def process_simps [OF P] files_simps [OF F] split: option.split)
  have link: "prefs (release_link os r k') = prefs k'" for k'
    by (auto simp: release_link_def Let_def netlink_simps [OF N] remove_address_keeps [OF netlink_simps(2) [OF N]] split: option.split)
  have "prefs (release_route os r k) = prefs (hub_os h0)"
  proof (cases "rd_policy r")
    case None
    with assms(4) k show ?thesis by (simp add: release_route_def st undoable_def)
  next
    case (Some p)
    have now: "if po_relocated p then 0 \<in> prefs (hub_os h0) \<and> prefs k = insert 1 (prefs (hub_os h0)) - {0}
               else prefs k = prefs (hub_os h0)"
      using assms(4) k Some by (simp add: st undoable_def Let_def)
    then have "delivers prefs (fresh_kern k)"
      using assms(2) by (auto simp: delivers_def fresh_kern_def split: if_splits)
    note rem = remove_effect [OF _ _ this, of "ro_ip os" p]
    show ?thesis
      using rem(2,3) now L assms(3) Some by (auto simp: release_route_def rule_laws_def fresh_kern_def split: if_splits)
  qed
  then show ?thesis
    using assms(4) by (simp add: nl_release_def st idle_def same_settings_def link k_def [symmetric] undoable_def undoes_def)
qed

text \<open>Each preparation is released before the next one.\<close>

fun brackets :: "bool \<Rightarrow> radio_call list \<Rightarrow> bool" where
  "brackets prepared [] = True"
| "brackets prepared (RC_PrepareSoftap s h # cs) = (\<not> prepared \<and> brackets True cs)"
| "brackets prepared (RC_Release # cs) = brackets False cs"
| "brackets prepared (c # cs) = brackets prepared cs"

lemma brackets_link_only: "link_only c \<Longrightarrow> brackets b (c # cs) = brackets b cs"
  by (cases c) (simp_all add: link_only_def)

lemma undoable_again: "idle (fst st) \<Longrightarrow> same_settings prefs (snd st) h0 \<Longrightarrow> undoable prefs h0 st"
  by (simp add: idle_def same_settings_def undoable_def undoes_def restore_conf_def)

lemma undoable_steps:
  assumes L: "rule_laws os prefs" and P: "prefs (hub_os h0) \<noteq> {}" "1 \<notin> prefs (hub_os h0)"
  shows "undoable prefs h0 st \<Longrightarrow> b \<or> rd_saved (fst st) = [] \<and> rd_policy (fst st) = None
         \<Longrightarrow> brackets b cs \<Longrightarrow> radio_steps os cs st = Some st' \<Longrightarrow> undoable prefs h0 st'"
proof (induction cs arbitrary: st b)
  case (Cons c cs)
  consider "link_only c" | s h where "c = RC_PrepareSoftap s h" | "c = RC_Release"
    by (cases c) (simp_all add: link_only_def)
  then show ?case
  proof cases
    case 1
    have U: "undisturbed os prefs" using L by (simp add: rule_laws_def)
    obtain e st1 where c: "radio_step os c st = Some (e, st1)" and cs: "radio_steps os cs st1 = Some st'"
      using Cons.prems(4) by (auto split: option.splits)
    from undoable_link_only [OF U 1 c Cons.prems(1)] Cons.prems(2,3) cs brackets_link_only [OF 1] show ?thesis
      by (intro Cons.IH [of st1 b]) auto
  next
    case 2
    with Cons.prems show ?thesis
      by (intro Cons.IH [of "radio_prepare_softap os s h st" True] undoable_prepare [OF L P]) auto
  next
    case 3
    have "undoable prefs h0 (nl_release os st)"
      using nl_release_undoes [OF L P Cons.prems(1)] by (intro undoable_again) simp_all
    with 3 Cons.prems nl_release_undoes [OF L P Cons.prems(1)] show ?thesis
      by (intro Cons.IH [of "nl_release os st" False]) (auto simp: idle_def)
  qed
qed simp

lemma radio_steps_append:
  "radio_steps os (cs @ ds) st = Option.bind (radio_steps os cs st) (radio_steps os ds)"
  by (induction cs arbitrary: st) (auto split: option.split)

text \<open>From an idle radio, any calls that release what they prepare, and a release at the end.\<close>

lemma radio_settings_undone:
  assumes L: "rule_laws os prefs" and P: "prefs (hub_os h) \<noteq> {}" "1 \<notin> prefs (hub_os h)"
    and "clock_law os" "idle r" "brackets False cs"
  obtains r' h' where "radio_steps os (cs @ [RC_Release]) (r, h) = Some (r', h')" "idle r'" "same_settings prefs h' h"
proof -
  obtain st where st: "radio_steps os cs (r, h) = Some st" using radio_steps_end [OF assms(4)] by blast
  have "undoable prefs h st"
    using undoable_steps [OF L P, of "(r, h)" False cs st] undoable_start [of r prefs h] assms(5,6) st
    by (simp add: idle_def)
  from nl_release_undoes [OF L P this] show thesis
    using st that [of "fst (nl_release os st)" "snd (nl_release os st)"] by (simp add: radio_steps_append)
qed

lemma brackets_take: "brackets b cs \<Longrightarrow> brackets b (take n cs)"
proof (induction b cs arbitrary: n rule: brackets.induct)
  case (1 b)
  then show ?case by simp
qed (case_tac n; simp)+

lemma join_brackets: "brackets False (take n (join_call d c # address_calls net))"
proof -
  have "link_only (join_call d c)"
    by (simp add: join_call_def radio_join_call_def link_only_def split: option.split)
  then have "brackets False (join_call d c # address_calls net)"
    by (simp add: brackets_link_only address_calls_def)
  then show ?thesis by (rule brackets_take)
qed

section \<open>The supplicant's directory\<close>

text \<open>The view \<open>has\<close> tells whether the directory \<open>d\<close> is there: making it succeeds and puts it there, removing
  another directory leaves it, and nothing else but removing it takes it away.\<close>

definition directory_laws :: "('k, 'm) radio_os \<Rightarrow> string \<Rightarrow> ('k \<Rightarrow> bool) \<Rightarrow> bool" where
  "directory_laws os d has \<longleftrightarrow>
     netlink_keeps os has \<and> process_keeps os has
   \<and> (\<forall>k. fst (ro_mkdir os d k) = None \<longrightarrow> has (snd (ro_mkdir os d k)))
   \<and> (\<forall>k d'. d' \<noteq> d \<longrightarrow> has (ro_rmdir os d' k) = has k)
   \<and> (\<forall>k args. has (snd (ro_ip os args k)) = has k)"

lemma remove_policy_route_keeps:
  assumes "\<And>args k. V (snd (L args k)) = V k"
  shows "V (kn_now (remove_policy_route L p k)) = V (kn_now k)"
  by (simp add: remove_policy_route_def Let_def ip_cmd_parts assms)

lemma wpa_start_makes_dir:
  assumes "directory_laws os (wpa_dir os ssid) has" "wpa_start os iface ssid psk k = (Inr pid, k')"
  shows "has k'"
proof -
  have P: "process_keeps os has" using assms(1) by (simp add: directory_laws_def)
  obtain k1 where k1: "ro_mkdir os (wpa_dir os ssid) k = (None, k1)"
    using assms(2) by (auto simp: wpa_start_def Let_def split: prod.splits option.splits)
  obtain k2 where k2: "ro_write os (wpa_conf_file (wpa_dir os ssid)) (wpa_config ssid psk) k1 = (None, k2)"
    using assms(2) k1 by (auto simp: wpa_start_def Let_def split: prod.splits option.splits)
  have k3: "ro_spawn os [''wpa_supplicant'', ''-i'', iface, ''-c'', wpa_conf_file (wpa_dir os ssid)] k2 = (Inr pid, k')"
    using assms(2) k1 k2 by (auto simp: wpa_start_def Let_def split: prod.splits sum.splits)
  have "has k1" using assms(1) k1 unfolding directory_laws_def by (metis fst_conv snd_conv)
  then have "has k2" using process_simps(2) [OF P] k2 by (metis snd_conv)
  then show ?thesis using process_simps(3) [OF P] k3 by (metis snd_conv)
qed

lemma wpa_wait_running_keeps:
  assumes "process_keeps os V" "wpa_wait os iface pid dir k = Some (Inr pid', k')"
  shows "V k' = V k"
  using assms(2)
  by (auto simp: wpa_wait_def process_simps [OF assms(1)]
      dest!: poll_keeps [OF process_simps(5) [OF assms(1)]] wait_keeps(2) [OF process_simps(5) [OF assms(1)]] split: option.splits bool.splits if_splits)

lemma connected_has_dir:
  assumes "directory_laws os (wpa_dir os ssid) has"
    and "radio_step os (RC_ConnectPsk ssid bssid psk) (r, h) = Some (None, r1, h1)"
  shows "has (hub_os h1)" "rd_iface r1 = rd_iface r" "rd_supplicant r1 \<noteq> None"
proof -
  have P: "process_keeps os has" using assms(1) by (simp add: directory_laws_def)
  obtain res k1 where a: "associate os (rd_iface r) (rd_index r) ssid bssid (Some psk) (hub_os h) = Some (res, k1)"
    using assms(2) by (auto simp: radio_connect_def split: option.splits)
  obtain e0 k0 where k0: "set_link_up os (rd_index r) (hub_os h) = (e0, k0)" by fastforce
  obtain res' where "spawn_wpa_supplicant os (rd_iface r) ssid psk k0 = Some (res', k1)" "res = ok_map Some res'"
    using a assms(2) k0 by (auto simp: radio_connect_def associate_def split: option.splits)
  then obtain pid where "spawn_wpa_supplicant os (rd_iface r) ssid psk k0 = Some (Inr pid, k1)"
    and r1h1: "r1 = r\<lparr>rd_supplicant := Some pid\<rparr>" "h1 = h\<lparr>hub_os := k1\<rparr>"
    using a assms(2) by (cases res') (auto simp: radio_connect_def)
  then obtain pid' k2 where k2: "wpa_start os (rd_iface r) ssid psk (wpa_disconnect os (rd_iface r) k0) = (Inr pid', k2)"
    and "wpa_wait os (rd_iface r) pid' (wpa_dir os ssid) k2 = Some (Inr pid, k1)"
    by (auto simp: spawn_wpa_supplicant_def split: prod.splits sum.splits)
  then show "has (hub_os h1)" "rd_iface r1 = rd_iface r" "rd_supplicant r1 \<noteq> None"
    using wpa_start_makes_dir [OF assms(1) k2] wpa_wait_running_keeps [OF P] r1h1 by simp_all
qed

text \<open>C24: the configuration with the passphrase outlives the association. \<open>spawn_wpa_supplicant\<close> puts it
  in a directory named after the network, \<open>release\<close> removes the directory named after the
  interface: after a successful association and the release that kills the supplicant, the directory
  of the network is still there, whenever the two names differ.\<close>

theorem release_leaves_wpa_config:
  assumes "directory_laws os (wpa_dir os ssid) has" and "wpa_dir os ssid \<noteq> wpa_dir os (rd_iface r)"
    and "radio_step os (RC_ConnectPsk ssid bssid psk) (r, h) = Some (None, r1, h1)"
  shows "rd_supplicant r1 \<noteq> None \<and> rd_supplicant (fst (nl_release os (r1, h1))) = None
       \<and> has (hub_os (snd (nl_release os (r1, h1))))"
proof -
  have N: "netlink_keeps os has" and P: "process_keeps os has"
    and "\<And>k d'. d' \<noteq> wpa_dir os ssid \<Longrightarrow> has (ro_rmdir os d' k) = has k"
    and ip: "\<And>k args. has (snd (ro_ip os args k)) = has k"
    using assms(1) by (simp_all add: directory_laws_def)
  note c = connected_has_dir [OF assms(1,3)]
  have "has (release_child os r1 (hub_os h1))"
    using assms(2) c \<open>\<And>k d'. d' \<noteq> wpa_dir os ssid \<Longrightarrow> has (ro_rmdir os d' k) = has k\<close>
    by (auto simp: release_child_def kill_and_clean_def process_simps [OF P])
  then have "has (release_route os r1 (release_child os r1 (hub_os h1)))"
    using remove_policy_route_keeps [of has "ro_ip os"] ip
    by (simp add: release_route_def fresh_kern_def split: option.split)
  then show ?thesis
    using c(3) by (auto simp: nl_release_def release_link_def Let_def netlink_simps [OF N] remove_address_keeps [OF netlink_simps(2) [OF N]]
      split: option.split)
qed

text \<open>The configuration has a line for each field, and one more for every line feed in the name or the
  passphrase: \<open>wpa_quote\<close> leaves them as they are.\<close>

lemma escape_char_LF: "q \<noteq> LF \<Longrightarrow> count_list (escape_char q s) LF = count_list s LF"
  by (induction s) (auto simp: LF_def)

lemma not_LF: "QUOTE \<noteq> LF" "BACKSLASH \<noteq> LF" "TAB \<noteq> LF"
  by (simp_all add: QUOTE_def BACKSLASH_def TAB_def LF_def)

lemma wpa_quote_LF: "count_list (wpa_quote s) LF = count_list s LF"
  by (simp add: wpa_quote_def escape_char_LF not_LF)

lemma length_split_char: "length (split_char d s) = Suc (count_list s d)"
  by (induction s) (auto split: list.split)

lemma split_char_snoc: "split_char d (s @ [d]) = split_char d s @ [[]]"
  by (induction s) (auto split: list.split)

lemma length_lines_snoc: "length (lines (s @ [LF])) = Suc (count_list s LF)"
  by (simp add: lines_def split_char_snoc length_split_char)

lemma wpa_config_lines:
  "length (lines (wpa_config ssid psk)) = 7 + count_list ssid LF + count_list psk LF"
proof -
  define body where "body = ''ap_scan=1'' @ [LF] @ ''network={'' @ [LF]
   @ [TAB] @ ''ssid='' @ [QUOTE] @ wpa_quote ssid @ [QUOTE, LF] @ [TAB] @ ''scan_ssid=1'' @ [LF]
   @ [TAB] @ ''psk='' @ [QUOTE] @ wpa_quote psk @ [QUOTE, LF] @ [TAB] @ ''key_mgmt=WPA-PSK'' @ [LF] @ ''}''"
  have texts: "count_list ''ap_scan=1'' LF = 0" "count_list ''network={'' LF = 0" "count_list ''ssid='' LF = 0"
    "count_list ''scan_ssid=1'' LF = 0" "count_list ''psk='' LF = 0" "count_list ''key_mgmt=WPA-PSK'' LF = 0"
    "count_list ''}'' LF = 0"
    by (simp_all add: LF_def)
  have "wpa_config ssid psk = body @ [LF]" by (simp add: wpa_config_def body_def)
  moreover have "count_list body LF = 6 + count_list ssid LF + count_list psk LF"
    unfolding body_def count_list_append texts
    by (simp only: wpa_quote_LF count_list.simps not_LF if_False if_True refl)
  ultimately show ?thesis by (simp add: length_lines_snoc)
qed

section \<open>A hub to run on\<close>

text \<open>A system with a clock, the two local rules, directories, addresses and children, on which every
  request succeeds, the link is up, and a \<open>wpa_supplicant\<close> connects at once.\<close>

type_synonym address = "u32 \<times> ipv4 \<times> u8"

record demo_state =
  dk_now :: nat
  dk_rules :: "bool \<times> bool"
  dk_dirs :: "string list"
  dk_addrs :: "address list"
  dk_kids :: "nat list"

definition demo_os :: "(demo_state, address) radio_os" where
  "demo_os =
     \<lparr>ro_ip = (\<lambda>args k. case demo_ip True args (dk_rules k) of (r, x) \<Rightarrow> (r, k\<lparr>dk_rules := x\<rparr>)),
      ro_fs = (\<lambda>k. \<lparr>sf_dir = \<lambda>p. Inr [], sf_exists = \<lambda>p. True, sf_read = \<lambda>p. Inr ''up''\<rparr>),
      ro_is_local = (\<lambda>a k. True), ro_now = dk_now, ro_sleep = (\<lambda>d k. k\<lparr>dk_now := dk_now k + d\<rparr>),
      ro_rtnl = (\<lambda>k. None), ro_genl = (\<lambda>k. None), ro_link_set = (\<lambda>i up k. (None, k)),
      ro_addr_dump = (\<lambda>i a k. map Inr (filter (\<lambda>t. fst t = i \<and> fst (snd t) = a) (dk_addrs k))),
      ro_addr_del = (\<lambda>m k. (None, k\<lparr>dk_addrs := removeAll m (dk_addrs k)\<rparr>)),
      ro_addr_add = (\<lambda>i a p k. (None, k\<lparr>dk_addrs := (i, a, p) # dk_addrs k\<rparr>)),
      ro_connect = (\<lambda>i q k. ([], k)), ro_disconnect = (\<lambda>i k. k), ro_trigger = (\<lambda>i fs k. ([], k)),
      ro_subscribe = (\<lambda>k. None), ro_events = (\<lambda>d k. [(SM_NewScanResults, k)]), ro_dump = (\<lambda>i k. []),
      ro_pbkdf2 = (\<lambda>p s n. []), ro_temp = ''/tmp'',
      ro_mkdir = (\<lambda>d k. (None, k\<lparr>dk_dirs := d # dk_dirs k\<rparr>)), ro_write = (\<lambda>f t k. (None, k)),
      ro_rmdir = (\<lambda>d k. k\<lparr>dk_dirs := removeAll d (dk_dirs k)\<rparr>),
      ro_spawn = (\<lambda>args k. (Inr (7 + sum_list (dk_kids k)), k\<lparr>dk_kids := (7 + sum_list (dk_kids k)) # dk_kids k\<rparr>)),
      ro_output = (\<lambda>pid k. ([Inr ''CTRL-EVENT-CONNECTED''], [])),
      ro_kill = (\<lambda>pid k. k\<lparr>dk_kids := removeAll pid (dk_kids k)\<rparr>)\<rparr>"

definition demo_start :: demo_state where
  "demo_start = \<lparr>dk_now = 0, dk_rules = (True, False), dk_dirs = [], dk_addrs = [], dk_kids = []\<rparr>"

definition demo_hub :: "demo_state hub" where
  "demo_hub = \<lparr>hub_os = demo_start, hub_sys = \<lparr>sy_text = (\<lambda>p. Some ''0''), sy_writable = (\<lambda>p. True)\<rparr>\<rparr>"

definition demo_radio :: nl_radio where
  "demo_radio = \<lparr>rd_iface = ''wlan0'', rd_index = 3, rd_saved = [], rd_assigned = None, rd_policy = None,
     rd_supplicant = None\<rparr>"

definition demo_rules :: "demo_state \<Rightarrow> nat set" where
  "demo_rules k = demo_prefs (dk_rules k)"

lemma demo_clock: "clock_law demo_os"
  by (simp add: clock_law_def demo_os_def)

lemma ip_law_found:
  assumes "ip_laws L prefs" "\<not> ip_succeeds L (local_args ''add'' p) k"
    and "is_exists (ip_error L (local_args ''add'' p) k)" "p \<le> 1"
  shows "p \<in> prefs k"
  using assms by (auto simp: ip_laws_def)

lemma demo_ip_lift:
  "ip_succeeds (ro_ip demo_os) args k = ip_succeeds (demo_ip True) args (dk_rules k)"
  "ip_error (ro_ip demo_os) args k = ip_error (demo_ip True) args (dk_rules k)"
  "ip_listing (ro_ip demo_os) k = ip_listing (demo_ip True) (dk_rules k)"
  "demo_rules (snd (ro_ip demo_os args k)) = demo_prefs (snd (demo_ip True args (dk_rules k)))"
  by (simp_all add: demo_os_def ip_succeeds_def ip_error_def ip_listing_def demo_rules_def split: prod.split)

lemma demo_rule_laws: "rule_laws demo_os demo_rules"
proof -
  have L: "ip_laws (demo_ip True) demo_prefs" by (rule demo_ip_laws)
  have "ip_laws (ro_ip demo_os) demo_rules"
    unfolding ip_laws_def demo_ip_lift
    by (simp add: ip_law_found [OF L] ip_law_simps [OF L] demo_rules_def demo_neutral ip_law_listed [OF L] del: One_nat_def)
  moreover have "adds_work (ro_ip demo_os)" "dels_work (ro_ip demo_os) demo_rules"
    using demo_adds(1) demo_dels [of True]
    unfolding adds_work_def dels_work_def demo_ip_lift demo_rules_def by blast+
  moreover have "undisturbed demo_os demo_rules"
    by (simp add: undisturbed_def keeps_defs files_keep_def demo_os_def demo_rules_def)
  ultimately show ?thesis by (simp add: rule_laws_def)
qed

theorem psk_association_outcome_witness:
  "\<exists>res k'. spawn_wpa_supplicant demo_os ''wlan0'' ''wiFred'' ''secret'' demo_start = Some (res, k')"
  using psk_association_outcome [OF demo_clock, of RC_LinkUp "(demo_radio, demo_hub)" "''wlan0''" "''wiFred''" "''secret''" demo_start]
  by blast

theorem scan_reads_networks_witness:
  "dump_bss (demo_os\<lparr>ro_dump := \<lambda>i k. map (\<lambda>n. Inr (network_attrs n))
     [([214, 178, 106, 168, 188, 177], - 3050, [(CHR 0x01, [CHR 0x82]), (CHR 0x00, ''Test-WIFI'')])]\<rparr>) 3 8 demo_start
   = Inr [\<lparr>sr_ssid = Some (from_utf8_lossy ''Test-WIFI''),
           sr_bssid = Some (format_bssid [214, 178, 106, 168, 188, 177]), sr_rssi = Some (- 30)\<rparr>]"
  using scan_reads_networks
    [of "[([214, 178, 106, 168, 188, 177], - 3050, [(CHR 0x01, [CHR 0x82]), (CHR 0x00, ''Test-WIFI'')])]"
        "demo_os\<lparr>ro_dump := \<lambda>i k. map (\<lambda>n. Inr (network_attrs n))
           [([214, 178, 106, 168, 188, 177], - 3050, [(CHR 0x01, [CHR 0x82]), (CHR 0x00, ''Test-WIFI'')])]\<rparr>"
        3 demo_start "[214, 178, 106, 168, 188, 177]" 8]
  by (simp add: well_formed_network_def network_result_def div_trunc_def)

text \<open>Association with a network named \<open>Red\<close> on the interface \<open>wlan0\<close>.\<close>

lemma demo_connected: "radio_step demo_os (RC_ConnectPsk ''Red'' None ''secret'') (demo_radio, demo_hub) =
  Some (None, demo_radio\<lparr>rd_supplicant := Some 7\<rparr>,
    demo_hub\<lparr>hub_os := demo_start\<lparr>dk_dirs := [wpa_dir demo_os ''Red''], dk_now := 3000, dk_kids := [7]\<rparr>\<rparr>)"
proof -
  let ?k = "demo_start\<lparr>dk_dirs := [wpa_dir demo_os ''Red''], dk_kids := [7]\<rparr>"
  have start: "wpa_start demo_os ''wlan0'' ''Red'' ''secret'' demo_start = (Inr 7, ?k)"
    by (simp add: wpa_start_def Let_def demo_os_def demo_start_def)
  have flags: "four_way_ok demo_os 7 k" "\<not> four_way_fail demo_os 7 k" for k
    unfolding four_way_ok_def four_way_fail_def child_reports_def demo_os_def by code_simp+
  have "iface_operstate (ro_fs demo_os k) ''wlan0'' = ''up''" for k
    unfolding demo_os_def by code_simp
  then have wait: "wpa_wait demo_os ''wlan0'' 7 d ?k = Some (Inr 7, ?k\<lparr>dk_now := 3000\<rparr>)" for d
    by (simp add: wpa_wait_def wait_operstate_up_def polls_def flags)
      (simp add: demo_os_def demo_start_def ASSOCIATE_SETTLE_def)
  have "wpa_disconnect demo_os ''wlan0'' demo_start = demo_start" "set_link_up demo_os 3 demo_start = (None, demo_start)"
    by (simp_all add: wpa_disconnect_def set_link_up_def demo_os_def)
  with start wait show ?thesis
    by (simp add: radio_connect_def associate_def spawn_wpa_supplicant_def demo_radio_def demo_hub_def)
qed

theorem release_leaves_wpa_config_witness:
  "wpa_dir demo_os ''Red''
     \<in> set (dk_dirs (hub_os (snd (nl_release demo_os (demo_radio\<lparr>rd_supplicant := Some 7\<rparr>,
         demo_hub\<lparr>hub_os := demo_start\<lparr>dk_dirs := [wpa_dir demo_os ''Red''], dk_now := 3000, dk_kids := [7]\<rparr>\<rparr>)))))"
proof -
  have "directory_laws demo_os (wpa_dir demo_os ''Red'') (\<lambda>k. wpa_dir demo_os ''Red'' \<in> set (dk_dirs k))"
    by (simp add: directory_laws_def keeps_defs)
      (simp add: demo_os_def split: prod.split)
  moreover have "wpa_dir demo_os ''Red'' \<noteq> wpa_dir demo_os (rd_iface demo_radio)"
    unfolding wpa_dir_def demo_os_def demo_radio_def by code_simp
  ultimately show ?thesis using release_leaves_wpa_config [OF _ _ demo_connected] by blast
qed

end
