(* ===== verification/Wp_RadioHub.thy ===== *)
theory Wp_RadioHub
  imports Wp_RadioProps
begin

text \<open>
  What a job leaves on the hub itself: the addresses of its interfaces and the children it has
  started, beside the settings of \<open>Wp_RadioProps\<close>. The radio's notes (\<open>rd_assigned\<close>,
  \<open>rd_supplicant\<close>) are followed call by call against the addresses and children that are there,
  and release is shown to take away what was noted.
\<close>

section \<open>Addresses\<close>

text \<open>The addresses of the hub are the view \<open>addrs\<close>; \<open>addr_of\<close> reads the address a netlink message of a
  dump is about. Netlink answers: a lookup lists the addresses asked for, deleting takes away the
  one of the message, adding puts at most the requested one, and nothing else touches them.\<close>

definition lookups_answer :: "('k, 'm) radio_os \<Rightarrow> ('m \<Rightarrow> address) \<Rightarrow> ('k \<Rightarrow> address set) \<Rightarrow> bool" where
  "lookups_answer os addr_of addrs \<longleftrightarrow>
     (\<forall>i a k. \<exists>ms. ro_addr_dump os i a k = map Inr ms
        \<and> addr_of ` set ms = {t \<in> addrs k. fst t = i \<and> fst (snd t) = a})"

definition address_laws :: "('k, 'm) radio_os \<Rightarrow> ('m \<Rightarrow> address) \<Rightarrow> ('k \<Rightarrow> address set) \<Rightarrow> bool" where
  "address_laws os addr_of addrs \<longleftrightarrow>
     joins_keep os addrs
   \<and> (\<forall>args k. addrs (snd (ro_ip os args k)) = addrs k)
   \<and> (\<forall>k. ro_rtnl os k = None)
   \<and> lookups_answer os addr_of addrs
   \<and> (\<forall>m k. addrs (snd (ro_addr_del os m k)) = addrs k - {addr_of m})
   \<and> (\<forall>i a p k. addrs (snd (ro_addr_add os i a p k)) \<in> {addrs k, insert (i, a, p) (addrs k)})"

text \<open>The addresses without those of interface \<open>i\<close> whose number is in \<open>used\<close>.\<close>

definition without :: "u32 \<Rightarrow> ipv4 set \<Rightarrow> address set \<Rightarrow> address set" where
  "without i used X = {t \<in> X. \<not> (fst t = i \<and> fst (snd t) \<in> used)}"

lemma without_simps [simp]:
  "without i {} X = X" "without i A (without i B X) = without i (A \<union> B) X"
  by (auto simp: without_def)

lemma address_lawsD:
  assumes "address_laws os addr_of addrs"
  shows "joins_keep os addrs" "link_keeps os addrs" "process_keeps os addrs" "files_keep os addrs"
    "addrs (snd (ro_ip os args k)) = addrs k" "ro_rtnl os k = None"
    "addrs (snd (ro_addr_del os m k)) = addrs k - {addr_of m}"
    "addrs (snd (ro_addr_add os i a p k)) \<in> {addrs k, insert (i, a, p) (addrs k)}"
  using assms by (simp_all add: address_laws_def joins_keep_def)

lemma without_union: "without i B (X \<union> Y) = without i B X \<union> without i B Y"
  by (auto simp: without_def)

lemma delete_each_addrs:
  assumes "address_laws os addr_of addrs"
  shows "addrs (delete_each os (map Inr ms) k) = addrs k - addr_of ` set ms"
  by (induction ms arbitrary: k) (auto simp: address_lawsD(7) [OF assms])

lemma remove_address_addrs:
  assumes "address_laws os addr_of addrs"
  shows "addrs (remove_address os i a k) = without i {a} (addrs k)"
proof -
  have "lookups_answer os addr_of addrs" using assms by (simp add: address_laws_def)
  then obtain ms where ms: "ro_addr_dump os i a k = map Inr ms"
      "addr_of ` set ms = {t \<in> addrs k. fst t = i \<and> fst (snd t) = a}"
    unfolding lookups_answer_def by blast
  show ?thesis
    unfolding remove_address_def ms(1) delete_each_addrs [OF assms] ms(2) by (auto simp: without_def)
qed

text \<open>The addresses of the interface that a list of calls sets.\<close>

fun set_by :: "radio_call list \<Rightarrow> ipv4 set" where
  "set_by [] = {}"
| "set_by (RC_SetAddress a p # cs) = insert a (set_by cs)"
| "set_by (c # cs) = set_by cs"

lemma set_by_append [simp]: "set_by (cs @ ds) = set_by cs \<union> set_by ds"
  by (induction cs rule: set_by.induct) auto

text \<open>What is noted is what is there: beside the addresses of before that no call has set, only the
  one that the radio has noted.\<close>

definition addresses_noted :: "('k \<Rightarrow> address set) \<Rightarrow> address set \<Rightarrow> ipv4 set \<Rightarrow> 'k radio_state \<Rightarrow> bool" where
  "addresses_noted addrs before used st \<longleftrightarrow>
     (case st of (r, h) \<Rightarrow>
        (\<exists>A. addrs (hub_os h) = without (rd_index r) used before \<union> A
           \<and> (\<forall>t \<in> A. fst t = rd_index r \<and> (\<exists>p. rd_assigned r = Some (fst (snd t), p))))
      \<and> (\<forall>a p. rd_assigned r = Some (a, p) \<longrightarrow> a \<in> used))"

section \<open>Children\<close>

text \<open>The children of the hub that are started and not yet reaped: a new one is new, killing reaps.\<close>

definition child_laws :: "('k, 'm) radio_os \<Rightarrow> ('k \<Rightarrow> nat set) \<Rightarrow> bool" where
  "child_laws os kids \<longleftrightarrow>
     netlink_keeps os kids \<and> pauses_keep os kids \<and> files_keep os kids
   \<and> (\<forall>args k. kids (snd (ro_ip os args k)) = kids k)
   \<and> (\<forall>args k. case ro_spawn os args k of
        (Inl e, k') \<Rightarrow> kids k' = kids k
      | (Inr pid, k') \<Rightarrow> pid \<notin> kids k \<and> kids k' = insert pid (kids k))
   \<and> (\<forall>pid k. kids (ro_kill os pid k) = kids k - {pid})"

text \<open>A result that hands over a child, or none.\<close>

definition hands_over :: "('k \<Rightarrow> nat set) \<Rightarrow> nat option \<Rightarrow> 'k \<Rightarrow> 'k \<Rightarrow> bool" where
  "hands_over kids child k k' \<longleftrightarrow>
     (case child of None \<Rightarrow> kids k' = kids k | Some pid \<Rightarrow> pid \<notin> kids k \<and> kids k' = insert pid (kids k))"

definition child_of :: "(driver_error + nat) \<Rightarrow> nat option" where
  "child_of r = (case r of Inl e \<Rightarrow> None | Inr pid \<Rightarrow> Some pid)"

lemma child_lawsD:
  assumes "child_laws os kids"
  shows "netlink_keeps os kids" "link_keeps os kids" "address_keeps os kids" "pauses_keep os kids" "files_keep os kids"
    "kids (snd (ro_ip os args k)) = kids k" "kids (ro_kill os pid k) = kids k - {pid}"
  using assms by (simp_all add: child_laws_def netlink_keeps_def)

lemma child_spawn:
  assumes "child_laws os kids" "ro_spawn os args k = (r, k')"
  shows "case r of Inl e \<Rightarrow> kids k' = kids k | Inr pid \<Rightarrow> pid \<notin> kids k \<and> kids k' = insert pid (kids k)"
proof -
  have "case ro_spawn os args k of (Inl e, k') \<Rightarrow> kids k' = kids k
      | (Inr pid, k') \<Rightarrow> pid \<notin> kids k \<and> kids k' = insert pid (kids k)"
    using assms(1) by (simp add: child_laws_def)
  with assms(2) show ?thesis by simp
qed

lemma wpa_start_children:
  assumes L: "child_laws os kids" and run: "wpa_start os iface ssid psk k = (r, k')"
  shows "hands_over kids (child_of r) k k'"
proof -
  note P = pause_simps [OF child_lawsD(4) [OF L]] and F = files_simps [OF child_lawsD(5) [OF L]]
  obtain r1 k1 where k1: "ro_mkdir os (wpa_dir os ssid) k = (r1, k1)" by fastforce
  obtain r2 k2 where k2: "ro_write os (wpa_conf_file (wpa_dir os ssid)) (wpa_config ssid psk) k1 = (r2, k2)" by fastforce
  obtain r3 k3 where k3: "ro_spawn os [''wpa_supplicant'', ''-i'', iface, ''-c'', wpa_conf_file (wpa_dir os ssid)] k2 = (r3, k3)"
    by fastforce
  have same: "kids k1 = kids k" "kids k2 = kids k1"
    using F(1) [of "wpa_dir os ssid" k] k1 P(2) [of "wpa_conf_file (wpa_dir os ssid)" "wpa_config ssid psk" k1] k2
    by simp_all
  have "case r3 of Inl e \<Rightarrow> kids k3 = kids k2 | Inr pid \<Rightarrow> pid \<notin> kids k2 \<and> kids k3 = insert pid (kids k2)"
    by (rule child_spawn [OF L k3])
  with run same k1 k2 k3 show ?thesis
    by (auto simp: wpa_start_def Let_def hands_over_def child_of_def split: option.splits sum.splits)
qed

lemma wpa_wait_children:
  assumes L: "child_laws os kids" and run: "wpa_wait os iface pid dir k = Some (r, k')"
  shows "case r of Inl e \<Rightarrow> kids k' = kids k - {pid} | Inr pid' \<Rightarrow> pid' = pid \<and> kids k' = kids k"
  using run
  by (auto simp: wpa_wait_def kill_and_clean_def child_lawsD(7) [OF L] files_simps [OF child_lawsD(5) [OF L]]
      pause_simps [OF child_lawsD(4) [OF L]]
      dest!: poll_keeps [OF child_lawsD(4) [OF L]] wait_keeps(2) [OF child_lawsD(4) [OF L]]
      split: option.splits bool.splits if_splits)

lemma spawn_children:
  assumes L: "child_laws os kids" and run: "spawn_wpa_supplicant os iface ssid psk k = Some (r, k')"
  shows "hands_over kids (child_of r) k k'"
proof -
  let ?k0 = "wpa_disconnect os iface k"
  have k0: "kids ?k0 = kids k" by (simp add: wpa_disconnect_def link_simps [OF child_lawsD(2) [OF L]])
  obtain r1 k1 where k1: "wpa_start os iface ssid psk ?k0 = (r1, k1)" by fastforce
  note h = wpa_start_children [OF L k1]
  show ?thesis
  proof (cases r1)
    case (Inl e)
    with run k1 h k0 show ?thesis by (auto simp: spawn_wpa_supplicant_def hands_over_def child_of_def)
  next
    case (Inr pid)
    with run k1 have "wpa_wait os iface pid (wpa_dir os ssid) k1 = Some (r, k')"
      by (simp add: spawn_wpa_supplicant_def)
    from wpa_wait_children [OF L this] h k0 Inr show ?thesis
      by (auto simp: hands_over_def child_of_def split: sum.splits)
  qed
qed

lemma associate_children:
  assumes L: "child_laws os kids" and run: "associate os iface idx ssid bssid psk k = Some (r, k')"
  shows "hands_over kids (case r of Inl e \<Rightarrow> None | Inr child \<Rightarrow> child) k k'"
proof -
  obtain r1 k1 where k1: "set_link_up os idx k = (r1, k1)" by fastforce
  have "kids k1 = kids k" using set_link_keeps [OF child_lawsD(2) [OF L], of idx k] k1 by simp
  moreover have "ok_map Some q = Inr child \<Longrightarrow> child = child_of q" "ok_map Some q = Inl e \<Longrightarrow> child_of q = None" for q child and e :: driver_error
    by (cases q; simp add: child_of_def)+
  moreover have "associate_open os iface idx ssid bssid k1 = Some (Inr child, k') \<Longrightarrow> child = None" for child
    by (auto simp: associate_open_def split: option.splits prod.splits sum.splits)
  ultimately show ?thesis
    using run k1 by (auto simp: associate_def hands_over_def split: option.splits sum.splits
      dest!: spawn_children [OF L] associate_open_keeps [OF child_lawsD(2,4) [OF L]])
qed

text \<open>The child that is noted is the only one there beside those of before.\<close>

definition child_noted :: "('k \<Rightarrow> nat set) \<Rightarrow> nat set \<Rightarrow> 'k radio_state \<Rightarrow> bool" where
  "child_noted kids before st \<longleftrightarrow>
     (case rd_supplicant (fst st) of
        None \<Rightarrow> kids (hub_os (snd st)) = before
      | Some pid \<Rightarrow> pid \<notin> before \<and> kids (hub_os (snd st)) = insert pid before)"

section \<open>The calls of the radio\<close>

text \<open>Between two releases at most one association and one address.\<close>

fun once :: "bool \<Rightarrow> bool \<Rightarrow> radio_call list \<Rightarrow> bool" where
  "once j a [] = True"
| "once j a (RC_ConnectOpen s b # cs) = (\<not> j \<and> once True a cs)"
| "once j a (RC_ConnectPsk s b p # cs) = (\<not> j \<and> once True a cs)"
| "once j a (RC_SetAddress i p # cs) = (\<not> a \<and> once j True cs)"
| "once j a (RC_Release # cs) = once False False cs"
| "once j a (c # cs) = once j a cs"

lemma install_policy_route_keeps:
  assumes "\<And>args k. V (snd (L args k)) = V k"
  shows "V (kn_now (snd (install_policy_route L is_local src host dev k))) = V (kn_now k)"
proof -
  have cmd: "V (kn_now (snd (ip_cmd L args k))) = V (kn_now k)" "V (kn_now (snd (ip_stdout L args k))) = V (kn_now k)"
    for args k
    by (simp_all add: ip_cmd_parts ip_stdout_parts assms)
  have cmd': "ip_cmd L args k = (e, k') \<Longrightarrow> V (kn_now k') = V (kn_now k)"
    "ip_stdout L args k = (o', k') \<Longrightarrow> V (kn_now k') = V (kn_now k)" for args k e k' o'
    using cmd by (metis snd_conv)+
  have park: "V (kn_now (snd (park_local L k))) = V (kn_now k)" for k
    by (auto simp: park_local_def Let_def cmd split: prod.split option.split dest!: cmd'(1))
  have "V (kn_now (snd (relocate_local L f k))) = V (kn_now k)" for f k
    by (auto simp: relocate_local_def park split: prod.split dest!: cmd'(2))
  then have move: "relocate_local L f k = (m, k') \<Longrightarrow> V (kn_now k') = V (kn_now k)" for f k m k' by (metis snd_conv)
  show ?thesis
    by (auto simp: install_policy_route_def Let_def cmd split: prod.split option.split dest!: cmd'(1) move)
qed

lemma prepare_softap_keeps:
  assumes "\<And>args k. V (snd (ro_ip os args k)) = V k" "radio_prepare_softap os source host (r, h) = (r', h')"
  shows "V (hub_os h') = V (hub_os h)" "rd_index r' = rd_index r" "rd_assigned r' = rd_assigned r"
    "rd_supplicant r' = rd_supplicant r"
  using assms(2) install_policy_route_keeps [of V "ro_ip os" "ro_is_local os" source host "rd_iface r" "fresh_kern (hub_os h)"]
  by (auto simp: radio_prepare_softap_def assms(1) fresh_kern_def split: prod.splits)

lemma release_route_keeps:
  "(\<And>args k. V (snd (ro_ip os args k)) = V k) \<Longrightarrow> V (release_route os r k) = V k"
  by (simp add: release_route_def remove_policy_route_keeps [of V "ro_ip os"] fresh_kern_def split: option.split)

subsection \<open>Addresses\<close>

lemma addresses_fresh:
  "rd_assigned r = None \<Longrightarrow> addrs (hub_os h) = without (rd_index r) used before \<Longrightarrow> addresses_noted addrs before used (r, h)"
  by (auto simp: addresses_noted_def intro: exI [of _ "{}"])

lemma addresses_same:
  assumes "addresses_noted addrs before used (r, h)" "addrs (hub_os h') = addrs (hub_os h)" "rd_index r' = rd_index r"
    "rd_assigned r' = rd_assigned r"
  shows "addresses_noted addrs before used (r', h')"
  using assms by (simp add: addresses_noted_def)

lemma addresses_set:
  assumes L: "address_laws os addr_of addrs" and inv: "addresses_noted addrs before used (r, h)"
    and "rd_assigned r = None" "radio_set_address os a p (r, h) = (e, r', h')"
  shows "addresses_noted addrs before (insert a used) (r', h') \<and> rd_index r' = rd_index r \<and> rd_supplicant r' = rd_supplicant r"
proof -
  let ?k = "remove_address os (rd_index r) a (hub_os h)"
  have now: "addrs (hub_os h) = without (rd_index r) used before"
    using inv assms(3) by (auto simp: addresses_noted_def)
  have k: "addrs ?k = without (rd_index r) (insert a used) before"
    by (simp add: remove_address_addrs [OF L] now)
  obtain e1 k1 where add: "ro_addr_add os (rd_index r) a p ?k = (e1, k1)" by fastforce
  have "addrs k1 = addrs ?k \<or> addrs k1 = addrs ?k \<union> {(rd_index r, a, p)}"
    using address_lawsD(8) [OF L, of "rd_index r" a p ?k] add by auto
  then obtain A where A: "addrs k1 = without (rd_index r) (insert a used) before \<union> A" "A \<subseteq> {(rd_index r, a, p)}"
    unfolding k by (metis Un_empty_right empty_subsetI order_refl)
  have "r' = r\<lparr>rd_assigned := Some (a, p)\<rparr>" "h' = h\<lparr>hub_os := k1\<rparr>"
    using assms(4) add by (simp_all add: radio_set_address_def address_lawsD(6) [OF L] Let_def)
  with A show ?thesis by (auto simp: addresses_noted_def intro!: exI [of _ A])
qed

lemma addresses_released:
  assumes L: "address_laws os addr_of addrs" and inv: "addresses_noted addrs before used (r, h)"
    and rel: "nl_release os (r, h) = (r', h')"
  shows "addrs (hub_os h') = without (rd_index r) used before" "rd_index r' = rd_index r" "rd_assigned r' = None"
proof -
  note J = link_simps [OF address_lawsD(2) [OF L]] and P = process_simps [OF address_lawsD(3) [OF L]]
    and F = files_simps [OF address_lawsD(4) [OF L]]
  define k where "k = release_route os r (release_child os r (hub_os h))"
  have "addrs (release_child os r (hub_os h)) = addrs (hub_os h)"
    by (simp add: release_child_def kill_and_clean_def P F split: option.split)
  then have k: "addrs k = addrs (hub_os h)"
    by (simp add: k_def release_route_keeps [of addrs os] address_lawsD(5) [OF L])
  have "addrs (release_link os r k) = without (rd_index r) used before"
  proof (cases "rd_assigned r")
    case None
    with inv k show ?thesis
      by (auto simp: release_link_def Let_def address_lawsD(6) [OF L] J addresses_noted_def)
  next
    case (Some q)
    obtain a p where q: "q = (a, p)" by fastforce
    have "addrs (release_link os r k) = without (rd_index r) {a} (addrs (hub_os h))"
      by (simp add: release_link_def Let_def address_lawsD(6) [OF L] J Some q remove_address_addrs [OF L] k)
    also have "\<dots> = without (rd_index r) used before"
    proof -
      obtain A where A: "addrs (hub_os h) = without (rd_index r) used before \<union> A"
          "\<forall>t \<in> A. fst t = rd_index r \<and> a = fst (snd t)" and "a \<in> used"
        using inv Some q by (simp add: addresses_noted_def) blast
      have "fst t = rd_index r \<and> fst (snd t) \<in> {a}" if "t \<in> A" for t using A(2) that by (metis singletonI)
      then have "without (rd_index r) {a} A = {}" unfolding without_def by blast
      with insert_absorb [OF \<open>a \<in> used\<close>] show ?thesis unfolding A(1) without_union by simp
    qed
    finally show ?thesis .
  qed
  moreover have "r' = r\<lparr>rd_saved := [], rd_assigned := None, rd_policy := None, rd_supplicant := None\<rparr>"
      "hub_os h' = release_link os r k"
    using rel unfolding nl_release_def k_def prod.case by (simp_all only: prod.inject) auto
  ultimately show "addrs (hub_os h') = without (rd_index r) used before" "rd_index r' = rd_index r" "rd_assigned r' = None"
    by simp_all
qed

subsection \<open>Children\<close>

lemma child_same:
  "child_noted kids before (r, h) \<Longrightarrow> kids (hub_os h') = kids (hub_os h) \<Longrightarrow> rd_supplicant r' = rd_supplicant r
     \<Longrightarrow> child_noted kids before (r', h')"
  by (simp add: child_noted_def split: option.splits)

lemma child_connected:
  assumes L: "child_laws os kids" and inv: "child_noted kids before (r, h)" and "rd_supplicant r = None"
    and run: "radio_connect os ssid bssid psk (r, h) = Some (e, r', h')"
  shows "child_noted kids before (r', h') \<and> rd_assigned r' = rd_assigned r \<and> rd_index r' = rd_index r"
proof -
  obtain res k where a: "associate os (rd_iface r) (rd_index r) ssid bssid psk (hub_os h) = Some (res, k)"
    using run by (auto simp: radio_connect_def split: option.splits)
  have before: "kids (hub_os h) = before" using inv assms(3) by (simp add: child_noted_def)
  have h: "hands_over kids (case res of Inl e \<Rightarrow> None | Inr child \<Rightarrow> child) (hub_os h) k"
    by (rule associate_children [OF L a])
  show ?thesis
  proof (cases res)
    case (Inl e')
    with run a have "r' = r" "h' = h\<lparr>hub_os := k\<rparr>" by (simp_all add: radio_connect_def)
    with Inl h before assms(3) show ?thesis by (simp add: child_noted_def hands_over_def)
  next
    case (Inr child)
    with run a have "r' = (case child of None \<Rightarrow> r | Some pid \<Rightarrow> r\<lparr>rd_supplicant := Some pid\<rparr>)" "h' = h\<lparr>hub_os := k\<rparr>"
      by (simp_all add: radio_connect_def split: option.splits)
    with Inr h before assms(3) show ?thesis by (cases child) (simp_all add: child_noted_def hands_over_def)
  qed
qed

lemma child_released:
  assumes L: "child_laws os kids" and inv: "child_noted kids before (r, h)" and rel: "nl_release os (r, h) = (r', h')"
  shows "kids (hub_os h') = before" "rd_supplicant r' = None"
proof -
  note N = link_simps [OF child_lawsD(2) [OF L]]
  have "kids (release_child os r (hub_os h)) = before"
    using inv by (auto simp: release_child_def kill_and_clean_def child_lawsD(7) [OF L] files_simps [OF child_lawsD(5) [OF L]]
        child_noted_def split: option.splits)
  then have "kids (release_route os r (release_child os r (hub_os h))) = before"
    by (simp add: release_route_keeps [of kids os] child_lawsD(6) [OF L])
  then have "kids (release_link os r (release_route os r (release_child os r (hub_os h)))) = before"
    by (auto simp: release_link_def Let_def N remove_address_keeps [OF child_lawsD(3) [OF L]] split: option.split)
  then show "kids (hub_os h') = before" "rd_supplicant r' = None" using rel by (auto simp: nl_release_def)
qed

section \<open>What a job leaves\<close>

text \<open>Both notes, kept by every list of calls that associates and sets an address at most once
  between two releases.\<close>

definition hub_laws ::
    "('k, 'm) radio_os \<Rightarrow> ('m \<Rightarrow> address) \<Rightarrow> ('k \<Rightarrow> address set) \<Rightarrow> ('k \<Rightarrow> nat set) \<Rightarrow> bool" where
  "hub_laws os addr_of addrs kids \<longleftrightarrow> address_laws os addr_of addrs \<and> child_laws os kids"

definition hub_noted ::
    "('k \<Rightarrow> address set) \<Rightarrow> ('k \<Rightarrow> nat set) \<Rightarrow> u32 \<Rightarrow> 'k hub \<Rightarrow> ipv4 set \<Rightarrow> bool \<Rightarrow> bool \<Rightarrow> 'k radio_state \<Rightarrow> bool" where
  "hub_noted addrs kids i h0 used j a st \<longleftrightarrow>
     addresses_noted addrs (addrs (hub_os h0)) used st \<and> child_noted kids (kids (hub_os h0)) st
   \<and> rd_index (fst st) = i \<and> (j \<or> rd_supplicant (fst st) = None) \<and> (a \<or> rd_assigned (fst st) = None)"

lemma hub_noted_start: "idle r \<Longrightarrow> hub_noted addrs kids (rd_index r) h {} False False (r, h)"
  by (simp add: hub_noted_def child_noted_def idle_def addresses_fresh)

lemma link_calls_keep:
  assumes "link_keeps os V" "pauses_keep os V" and "c = RC_LinkUp \<or> c = RC_Scan mx"
    and "radio_step os c (r, h) = Some (e, r', h')"
  shows "V (hub_os h') = V (hub_os h)" "r' = r"
  using assms(3,4) set_link_keeps [OF assms(1), of "rd_index r" "hub_os h"]
    run_scan_keeps [OF assms(1,2), of "rd_index r" mx "hub_os h"]
  by (auto simp: radio_link_up_def split: prod.splits sum.splits)

lemma hub_noted_connect:
  assumes L: "hub_laws os addr_of addrs kids" and "hub_noted addrs kids i h0 used False a st"
    and "radio_connect os ssid bssid psk st = Some (e, st')"
  shows "hub_noted addrs kids i h0 used True a st'"
proof -
  obtain r h where st: "st = (r, h)" by fastforce
  obtain r' h' where st': "st' = (r', h')" by fastforce
  have run: "radio_connect os ssid bssid psk (r, h) = Some (e, r', h')" using assms(3) st st' by simp
  have "address_laws os addr_of addrs" "child_laws os kids" using L by (simp_all add: hub_laws_def)
  with run radio_connect_keeps [OF address_lawsD(1) run] child_connected [OF _ _ _ run, of kids "kids (hub_os h0)"]
  show ?thesis
    using assms(2) addresses_same [of addrs "addrs (hub_os h0)" used r h h' r'] by (simp add: hub_noted_def st st')
qed

lemma hub_noted_set:
  assumes L: "hub_laws os addr_of addrs kids" and inv: "hub_noted addrs kids i h0 used j False st"
    and "radio_set_address os a p st = (e, st')"
  shows "hub_noted addrs kids i h0 (insert a used) j True st'"
proof -
  obtain r h where st: "st = (r, h)" by fastforce
  obtain r' h' where st': "st' = (r', h')" by fastforce
  have run: "radio_set_address os a p (r, h) = (e, r', h')" using assms(3) st st' by simp
  have A: "address_laws os addr_of addrs" and C: "child_laws os kids" using L by (simp_all add: hub_laws_def)
  have noted: "addresses_noted addrs (addrs (hub_os h0)) used (r, h)" "rd_assigned r = None"
    using inv by (simp_all add: hub_noted_def st)
  from addresses_set [OF A noted run] set_address_keeps [OF child_lawsD(3) [OF C] run] inv
    child_same [of kids "kids (hub_os h0)" r h h' r']
  show ?thesis by (simp add: hub_noted_def st st')
qed

lemma hub_noted_release:
  assumes L: "hub_laws os addr_of addrs kids" and inv: "hub_noted addrs kids i h0 used j a (r, h)"
    and rel: "nl_release os (r, h) = (r', h')"
  shows "hub_noted addrs kids i h0 used False False (r', h')"
    and "addrs (hub_os h') = without i used (addrs (hub_os h0))" "kids (hub_os h') = kids (hub_os h0)"
proof -
  have A: "address_laws os addr_of addrs" and C: "child_laws os kids" using L by (simp_all add: hub_laws_def)
  have noted: "addresses_noted addrs (addrs (hub_os h0)) used (r, h)" "child_noted kids (kids (hub_os h0)) (r, h)" "rd_index r = i"
    using inv by (simp_all add: hub_noted_def)
  note a = addresses_released [OF A noted(1) rel] and c = child_released [OF C noted(2) rel]
  show "addrs (hub_os h') = without i used (addrs (hub_os h0))" "kids (hub_os h') = kids (hub_os h0)"
    using a c noted(3) by simp_all
  with a c noted(3) show "hub_noted addrs kids i h0 used False False (r', h')"
    by (simp add: hub_noted_def child_noted_def addresses_fresh)
qed

lemma hub_noted_quiet:
  assumes L: "hub_laws os addr_of addrs kids" and inv: "hub_noted addrs kids i h0 used j a st"
    and c: "c = RC_LinkUp \<or> c = RC_Scan mx \<or> c = RC_PrepareSoftap s t" and run: "radio_step os c st = Some (e, st')"
  shows "hub_noted addrs kids i h0 used j a st'"
proof -
  obtain r h where st: "st = (r, h)" by fastforce
  obtain r' h' where st': "st' = (r', h')" by fastforce
  have A: "address_laws os addr_of addrs" and C: "child_laws os kids" using L by (simp_all add: hub_laws_def)
  have "addrs (hub_os h') = addrs (hub_os h) \<and> kids (hub_os h') = kids (hub_os h) \<and> rd_index r' = rd_index r
      \<and> rd_assigned r' = rd_assigned r \<and> rd_supplicant r' = rd_supplicant r"
  proof (cases "c = RC_PrepareSoftap s t")
    case True
    with run have p: "radio_prepare_softap os s t (r, h) = (r', h')" by (simp add: st st')
    show ?thesis
      using prepare_softap_keeps [of addrs os, OF address_lawsD(5) [OF A] p]
        prepare_softap_keeps [of kids os, OF child_lawsD(6) [OF C] p] by simp
  next
    case False
    with c have c': "c = RC_LinkUp \<or> c = RC_Scan mx" by blast
    have run': "radio_step os c (r, h) = Some (e, r', h')" using run by (simp add: st st')
    show ?thesis
      using link_calls_keep [OF address_lawsD(2) [OF A] process_simps(5) [OF address_lawsD(3) [OF A]] c' run']
        link_calls_keep [OF child_lawsD(2,4) [OF C] c' run'] by simp
  qed
  with inv addresses_same [of addrs "addrs (hub_os h0)" used r h h' r'] child_same [of kids "kids (hub_os h0)" r h h' r']
  show ?thesis by (simp add: hub_noted_def st st')
qed

lemma hub_noted_steps:
  assumes L: "hub_laws os addr_of addrs kids"
  shows "hub_noted addrs kids i h0 used j a st \<Longrightarrow> once j a cs \<Longrightarrow> radio_steps os cs st = Some st'
         \<Longrightarrow> \<exists>j' a'. hub_noted addrs kids i h0 (used \<union> set_by cs) j' a' st'"
proof (induction cs arbitrary: st j a used)
  case (Cons c cs)
  obtain e st1 where c: "radio_step os c st = Some (e, st1)" and cs: "radio_steps os cs st1 = Some st'"
    using Cons.prems(3) by (auto split: option.splits)
  show ?case
  proof (cases c)
    case (RC_ConnectOpen s b)
    with Cons.prems c hub_noted_connect [OF L, of i h0 used a st s b None e st1] Cons.IH [of used True a st1] cs
    show ?thesis by simp
  next
    case (RC_ConnectPsk s b p)
    with Cons.prems c hub_noted_connect [OF L, of i h0 used a st s b "Some p" e st1] Cons.IH [of used True a st1] cs
    show ?thesis by simp
  next
    case (RC_SetAddress x p)
    with Cons.prems c hub_noted_set [OF L, of i h0 used j st x p e st1] Cons.IH [of "insert x used" j True st1] cs
    show ?thesis by simp
  next
    case RC_Release
    with Cons.prems c hub_noted_release(1) [OF L, of i h0 used j a "fst st" "snd st" "fst st1" "snd st1"]
      Cons.IH [of used False False st1] cs
    show ?thesis by simp
  next
    case (RC_Scan mx)
    with Cons.prems hub_noted_quiet [OF L _ _ c, of i h0 used j a mx] Cons.IH [of used j a st1] cs show ?thesis by simp
  next
    case RC_LinkUp
    with Cons.prems hub_noted_quiet [OF L _ _ c, of i h0 used j a] Cons.IH [of used j a st1] cs show ?thesis by simp
  next
    case (RC_PrepareSoftap s t)
    with Cons.prems hub_noted_quiet [OF L _ _ c, of i h0 used j a _ s t] Cons.IH [of used j a st1] cs show ?thesis by simp
  qed
qed auto

lemma join_once: "once False False (take n (join_call d c # address_calls net))"
proof -
  have tail: "once True False (take m (address_calls net))" for m
    by (simp add: address_calls_def take_Cons' split: nat.split)
  have "once False False (join_call d c # cs) = once True False cs" for cs
    by (simp add: join_call_def radio_join_call_def split: option.split)
  then show ?thesis by (cases n) (simp_all add: tail)
qed

text \<open>From an idle radio, any such calls and a release at the end.\<close>

lemma radio_hub_undone:
  assumes L: "hub_laws os addr_of addrs kids" and "idle r" "once False False cs"
    and run: "radio_steps os (cs @ [RC_Release]) (r, h) = Some (r', h')"
  shows "addrs (hub_os h') = without (rd_index r) (set_by cs) (addrs (hub_os h)) \<and> kids (hub_os h') = kids (hub_os h)"
proof -
  obtain st where st: "radio_steps os cs (r, h) = Some st" "nl_release os st = (r', h')"
    using run by (auto simp: radio_steps_append bind_eq_Some_conv)
  obtain j a where "hub_noted addrs kids (rd_index r) h (set_by cs) j a st"
    using hub_noted_steps [OF L hub_noted_start [OF assms(2)] assms(3) st(1)] by auto
  then show ?thesis
    using hub_noted_release(2,3) [OF L, of "rd_index r" h "set_by cs" j a "fst st" "snd st" r' h'] st(2) by simp
qed

text \<open>C6: a job leaves the hub as it found it. Whatever a job does and whatever the radio answers, the
  calls it makes of an idle radio all return, and after them the radio is idle again, every sysctl
  reads as before, the rules for the local table are the same, no child that was started is left
  running or unreaped and none of before is gone, and the addresses of the interfaces are those of before,
  without the ones on the radio's interface whose number a call set (an address that
  was already there is replaced, and not put back). Relied on: a clock that advances by the time slept;
  an \<open>ip\<close> that keeps its contract; a netlink that opens, answers lookups and deletes what it is
  asked to; that only \<open>ip\<close> touches the rules, only address requests touch the addresses, and a
  child that is killed is reaped; and that the hub starts with a rule for the local table and without
  one at preference 1.\<close>

theorem job_leaves_hub_as_found:
  assumes "run_job E jid rt = (f, rt')" and "rule_laws os prefs" "clock_law os" "hub_laws os addr_of addrs kids"
    and "idle r" "prefs (hub_os h) \<noteq> {}" "1 \<notin> prefs (hub_os h)"
  shows "\<exists>calls r' h'. rt_radio rt' = rt_radio rt @ calls \<and> radio_steps os calls (r, h) = Some (r', h')
       \<and> idle r' \<and> same_settings prefs h' h \<and> kids (hub_os h') = kids (hub_os h)
       \<and> addrs (hub_os h') = without (rd_index r) (set_by calls) (addrs (hub_os h))"
proof -
  have none: "radio_steps os [] (r, h) = Some (r, h) \<and> same_settings prefs h h"
    by (simp add: same_settings_def same_conf_def)
  from job_radio_use [OF assms(1)] show ?thesis
  proof (elim disjE conjE exE)
    assume "rt_radio rt' = rt_radio rt"
    with none assms(5) show ?thesis by (intro exI [of _ "[]"] exI [of _ r] exI [of _ h]) simp
  next
    fix d c n
    let ?cs = "take n (join_call d c # address_calls (effective_net E d))"
    assume calls: "rt_radio rt' = rt_radio rt @ ?cs @ [RC_Release]"
    obtain r' h' where run: "radio_steps os (?cs @ [RC_Release]) (r, h) = Some (r', h')" and
        "idle r'" "same_settings prefs h' h"
      using radio_settings_undone [OF assms(2,6,7,3,5) join_brackets] by blast
    moreover have "addrs (hub_os h') = without (rd_index r) (set_by (?cs @ [RC_Release])) (addrs (hub_os h))"
        "kids (hub_os h') = kids (hub_os h)"
      using radio_hub_undone [OF assms(4,5) join_once run] by simp_all
    ultimately show ?thesis using calls by blast
  qed
qed

text \<open>The firmware job of \<open>Wp_WorkerProps\<close>, on a hub whose interface already has the address.\<close>

definition demo_addrs :: "demo_state \<Rightarrow> address set" where
  "demo_addrs k = set (dk_addrs k)"

definition demo_kids :: "demo_state \<Rightarrow> nat set" where
  "demo_kids k = set (dk_kids k)"

lemma demo_hub_laws: "hub_laws demo_os (\<lambda>m. m) demo_addrs demo_kids"
proof -
  have "lookups_answer demo_os (\<lambda>m. m) demo_addrs"
    unfolding lookups_answer_def
    by (intro allI exI [of _ "filter (\<lambda>t. fst t = _ \<and> fst (snd t) = _) (dk_addrs _)"])
      (auto simp: demo_os_def demo_addrs_def)
  moreover have "joins_keep demo_os demo_addrs"
    by (simp add: joins_keep_def keeps_defs files_keep_def) (simp add: demo_os_def demo_addrs_def)
  ultimately have "address_laws demo_os (\<lambda>m. m) demo_addrs"
    by (simp add: address_laws_def) (auto simp: demo_os_def demo_addrs_def split: prod.split)
  moreover have "n \<in> set ns \<Longrightarrow> n \<le> sum_list ns" for n :: nat and ns by (induction ns) auto
  then have fresh: "7 + sum_list ns \<notin> set ns" for ns :: "nat list" by fastforce
  have "child_laws demo_os demo_kids"
    by (simp add: child_laws_def keeps_defs files_keep_def) (auto simp: demo_os_def demo_kids_def fresh split: prod.split)
  ultimately show ?thesis by (simp add: hub_laws_def)
qed

theorem job_leaves_hub_as_found_witness:
  "\<exists>r' h'. radio_steps demo_os (ap_calls @ [RC_Release])
       (demo_radio, demo_hub\<lparr>hub_os := demo_start\<lparr>dk_addrs := [(3, [192, 168, 4, 2], 24), (3, [10, 0, 0, 9], 8)]\<rparr>\<rparr>) = Some (r', h')
     \<and> idle r' \<and> demo_addrs (hub_os h') = {(3, [10, 0, 0, 9], 8)} \<and> demo_kids (hub_os h') = {}"
proof -
  let ?h = "demo_hub\<lparr>hub_os := demo_start\<lparr>dk_addrs := [(3, [192, 168, 4, 2], 24), (3, [10, 0, 0, 9], 8)]\<rparr>\<rparr>"
  obtain rt' where run: "run_job demo_env ''job-1'' ap_start = (Go (), rt')"
      and calls: "rt_radio rt' = rt_radio ap_start @ ap_calls @ [RC_Release]"
    using ap_job_run by blast
  have "idle demo_radio" "demo_rules (hub_os ?h) \<noteq> {}" "1 \<notin> demo_rules (hub_os ?h)"
    by (simp_all add: idle_def demo_radio_def demo_start_def demo_rules_def demo_prefs_def)
  from job_leaves_hub_as_found [OF run demo_rule_laws demo_clock demo_hub_laws this] calls
  obtain r' h' where "radio_steps demo_os (ap_calls @ [RC_Release]) (demo_radio, ?h) = Some (r', h')" "idle r'"
      "demo_kids (hub_os h') = demo_kids (hub_os ?h)"
      "demo_addrs (hub_os h') = without (rd_index demo_radio) (set_by (ap_calls @ [RC_Release])) (demo_addrs (hub_os ?h))"
    by (metis same_append_eq)
  moreover have "rd_index demo_radio = 3" "set_by (ap_calls @ [RC_Release]) = {[192, 168, 4, 2]}"
      "demo_addrs (hub_os ?h) = {(3, [192, 168, 4, 2], 24), (3, [10, 0, 0, 9], 8)}" "demo_kids (hub_os ?h) = {}"
    by (simp_all add: demo_radio_def ap_calls_def demo_addrs_def demo_kids_def demo_start_def)
  moreover have "without 3 {[192, 168, 4, 2]} {(3, [192, 168, 4, 2], 24), (3, [10, 0, 0, 9], 8)} = {(3, [10, 0, 0, 9], 8)}"
    by (auto simp: without_def)
  ultimately show ?thesis by simp
qed

end
