(* ===== verification/Wp_Version.thy ===== *)
theory Wp_Version
  imports Wp_Config
begin

text \<open>
  \<open>crates/wireless-programmer/src/version.rs\<close>: the release version that is injected into the
  executable as an ELF section. The release profile checks arithmetic overflow and aborts, so
  a computation may panic, end early with \<open>None\<close> (the operator \<open>?\<close>), or go on. Integers read
  from the file are below \<open>2 ^ 64\<close>, as is every \<open>usize\<close>.
\<close>

section \<open>Computations that may panic or give up\<close>

datatype 'a checked = Panicked | Nothing | Just 'a

fun ck_bind :: "'a checked \<Rightarrow> ('a \<Rightarrow> 'b checked) \<Rightarrow> 'b checked" where
  "ck_bind Panicked f = Panicked"
| "ck_bind Nothing f = Nothing"
| "ck_bind (Just x) f = f x"

definition usize_add :: "nat \<Rightarrow> nat \<Rightarrow> nat checked" where
  "usize_add a b = (if a + b > usize_max then Panicked else Just (a + b))"

definition checked_add :: "nat \<Rightarrow> nat \<Rightarrow> nat checked" where
  "checked_add a b = (if a + b > usize_max then Nothing else Just (a + b))"

definition checked_mul :: "nat \<Rightarrow> nat \<Rightarrow> nat checked" where
  "checked_mul a b = (if a * b > usize_max then Nothing else Just (a * b))"

text \<open>\<open>data.get(a..b)\<close> of a slice.\<close>

definition get_range :: "string \<Rightarrow> nat \<Rightarrow> nat \<Rightarrow> string checked" where
  "get_range data a b = (if a \<le> b \<and> b \<le> length data then Just (take (b - a) (drop a data)) else Nothing)"

section \<open>Reading integers\<close>

fun bytes_le :: "string \<Rightarrow> nat" where
  "bytes_le [] = 0"
| "bytes_le (c # s) = byte c + 256 * bytes_le s"

definition bytes_int :: "bool \<Rightarrow> string \<Rightarrow> nat" where
  "bytes_int le b = (if le then bytes_le b else bytes_le (rev b))"

definition int_at :: "nat \<Rightarrow> string \<Rightarrow> nat \<Rightarrow> bool \<Rightarrow> nat checked" where
  "int_at width data off le =
     ck_bind (usize_add off width) (\<lambda>e. ck_bind (get_range data off e) (\<lambda>b. Just (bytes_int le b)))"

definition u16_at :: "string \<Rightarrow> nat \<Rightarrow> bool \<Rightarrow> nat checked" where
  "u16_at = int_at 2"

definition u32_at :: "string \<Rightarrow> nat \<Rightarrow> bool \<Rightarrow> nat checked" where
  "u32_at = int_at 4"

definition u64_at :: "string \<Rightarrow> nat \<Rightarrow> bool \<Rightarrow> nat checked" where
  "u64_at = int_at 8"

definition cstr_at :: "string \<Rightarrow> nat \<Rightarrow> string checked" where
  "cstr_at data off =
     ck_bind (get_range data off (length data)) (\<lambda>s.
       case from_utf8 (takeWhile (\<lambda>c. byte c \<noteq> 0) s) of None \<Rightarrow> Nothing | Some t \<Rightarrow> Just t)"

section \<open>Sections\<close>

text \<open>The slice that a header field pair names.\<close>

definition slice_of :: "string \<Rightarrow> nat \<Rightarrow> nat \<Rightarrow> string checked" where
  "slice_of data off n = ck_bind (checked_add off n) (\<lambda>e. get_range data off e)"

definition header_at :: "nat \<Rightarrow> nat \<Rightarrow> nat \<Rightarrow> nat checked" where
  "header_at shoff entsize i = ck_bind (checked_mul i entsize) (\<lambda>o'. checked_add shoff o')"

text \<open>A field of a header: the offset in it is added without a check of its own.\<close>

definition field64 :: "string \<Rightarrow> nat \<Rightarrow> nat \<Rightarrow> bool \<Rightarrow> nat checked" where
  "field64 data hdr k le = ck_bind (usize_add hdr k) (\<lambda>a. u64_at data a le)"

definition field32 :: "string \<Rightarrow> nat \<Rightarrow> nat \<Rightarrow> bool \<Rightarrow> nat checked" where
  "field32 data hdr k le = ck_bind (usize_add hdr k) (\<lambda>a. u32_at data a le)"

text \<open>The loop over the sections, from the \<open>i\<close>-th of \<open>i + n\<close>.\<close>

fun sections64 :: "string \<Rightarrow> string \<Rightarrow> bool \<Rightarrow> string \<Rightarrow> nat \<Rightarrow> nat \<Rightarrow> nat \<Rightarrow> nat \<Rightarrow> string checked" where
  "sections64 data name le strtab shoff entsize i 0 = Nothing"
| "sections64 data name le strtab shoff entsize i (Suc n) =
     ck_bind (header_at shoff entsize i) (\<lambda>hdr.
     ck_bind (u32_at data hdr le) (\<lambda>name_off.
     ck_bind (cstr_at strtab name_off) (\<lambda>sec_name.
       if sec_name \<noteq> name then sections64 data name le strtab shoff entsize (Suc i) n
       else ck_bind (field64 data hdr 24 le) (\<lambda>off.
            ck_bind (field64 data hdr 32 le) (\<lambda>len. slice_of data off len)))))"

fun sections32 :: "string \<Rightarrow> string \<Rightarrow> bool \<Rightarrow> string \<Rightarrow> nat \<Rightarrow> nat \<Rightarrow> nat \<Rightarrow> nat \<Rightarrow> string checked" where
  "sections32 data name le strtab shoff entsize i 0 = Nothing"
| "sections32 data name le strtab shoff entsize i (Suc n) =
     ck_bind (header_at shoff entsize i) (\<lambda>hdr.
     ck_bind (u32_at data hdr le) (\<lambda>name_off.
     ck_bind (cstr_at strtab name_off) (\<lambda>sec_name.
       if sec_name \<noteq> name then sections32 data name le strtab shoff entsize (Suc i) n
       else ck_bind (field32 data hdr 16 le) (\<lambda>off.
            ck_bind (field32 data hdr 20 le) (\<lambda>len. slice_of data off len)))))"

definition elf64_section :: "string \<Rightarrow> string \<Rightarrow> bool \<Rightarrow> string checked" where
  "elf64_section data name le =
     ck_bind (u64_at data 40 le) (\<lambda>shoff.
     ck_bind (u16_at data 58 le) (\<lambda>entsize.
     ck_bind (u16_at data 60 le) (\<lambda>shnum.
     ck_bind (u16_at data 62 le) (\<lambda>strndx.
       if entsize < 64 \<or> shnum = 0 \<or> strndx \<ge> shnum then Nothing
       else
         ck_bind (header_at shoff entsize strndx) (\<lambda>hdr.
         ck_bind (field64 data hdr 24 le) (\<lambda>off.
         ck_bind (field64 data hdr 32 le) (\<lambda>len.
         ck_bind (slice_of data off len) (\<lambda>strtab.
           sections64 data name le strtab shoff entsize 0 shnum))))))))"

definition elf32_section :: "string \<Rightarrow> string \<Rightarrow> bool \<Rightarrow> string checked" where
  "elf32_section data name le =
     ck_bind (u32_at data 32 le) (\<lambda>shoff.
     ck_bind (u16_at data 46 le) (\<lambda>entsize.
     ck_bind (u16_at data 48 le) (\<lambda>shnum.
     ck_bind (u16_at data 50 le) (\<lambda>strndx.
       if entsize < 40 \<or> shnum = 0 \<or> strndx \<ge> shnum then Nothing
       else
         ck_bind (header_at shoff entsize strndx) (\<lambda>hdr.
         ck_bind (field32 data hdr 16 le) (\<lambda>off.
         ck_bind (field32 data hdr 20 le) (\<lambda>len.
         ck_bind (slice_of data off len) (\<lambda>strtab.
           sections32 data name le strtab shoff entsize 0 shnum))))))))"

definition ELF_MAGIC :: string where
  "ELF_MAGIC = CHR 0x7F # ''ELF''"

definition elf_section_data :: "string \<Rightarrow> string \<Rightarrow> string checked" where
  "elf_section_data data name =
     (if length data < 16 \<or> take 4 data \<noteq> ELF_MAGIC then Nothing
      else
        let class_byte = byte (data ! 4); endian = byte (data ! 5); le = (endian = 1) in
        if \<not> le \<and> endian \<noteq> 2 then Nothing
        else if class_byte = 1 then elf32_section data name le
        else if class_byte = 2 then elf64_section data name le
        else Nothing)"

section \<open>The version\<close>

definition SECTION_NAME :: string where
  "SECTION_NAME = ''.wireless-programmer.version''"

text \<open>The text of the section: a JSON payload (the parser is a parameter) or a bare version.\<close>

definition section_version :: "(string \<Rightarrow> (string \<times> string) option) \<Rightarrow> string \<Rightarrow> (string \<times> string) option" where
  "section_version payload raw =
     (if raw = [] then None
      else case payload raw of
        Some (version, commit) \<Rightarrow>
          (let v = trim version; c = trim commit in if v = [] \<and> c = [] then None else Some (v, c))
      | None \<Rightarrow> (let v = trim (from_utf8_lossy raw) in if v = [] then None else Some (v, [])))"

definition read_section_from ::
    "(string \<Rightarrow> (string \<times> string) option) \<Rightarrow> (string \<Rightarrow> io_error + string) \<Rightarrow> string \<Rightarrow> (string \<times> string) checked" where
  "read_section_from payload read path =
     (case read path of
        Inl e \<Rightarrow> Nothing
      | Inr data \<Rightarrow>
          ck_bind (elf_section_data data SECTION_NAME) (\<lambda>raw.
            case section_version payload raw of None \<Rightarrow> Nothing | Some vc \<Rightarrow> Just vc))"

text \<open>\<open>load\<close>: the two build-time variables, the path of the executable (\<open>None\<close>: unknown).\<close>

definition load_version ::
    "string option \<Rightarrow> string option \<Rightarrow> (string \<Rightarrow> (string \<times> string) option) \<Rightarrow> (string \<Rightarrow> io_error + string)
       \<Rightarrow> string option \<Rightarrow> version_info checked" where
  "load_version commit_env time_env payload read exe =
     (let base = \<lparr>vi_version = ''dev'', vi_tag_commit = [],
                  vi_build_commit = (case commit_env of None \<Rightarrow> ''unknown'' | Some c \<Rightarrow> c),
                  vi_build_time = (case time_env of None \<Rightarrow> [] | Some t \<Rightarrow> t)\<rparr>
      in case exe of
           None \<Rightarrow> Just base
         | Some path \<Rightarrow>
             (case read_section_from payload read path of
                Panicked \<Rightarrow> Panicked
              | Nothing \<Rightarrow> Just base
              | Just (v, c) \<Rightarrow>
                  let out = (if v \<noteq> [] then base\<lparr>vi_version := v\<rparr> else base)
                  in Just (if c \<noteq> [] then out\<lparr>vi_tag_commit := c\<rparr> else out)))"

section \<open>A table inside the file\<close>

text \<open>The integer at an offset, without checks.\<close>

definition raw_int :: "nat \<Rightarrow> string \<Rightarrow> nat \<Rightarrow> bool \<Rightarrow> nat" where
  "raw_int width data off le = bytes_int le (take width (drop off data))"

lemma int_at_inside:
  assumes "off + width \<le> length data" "length data \<le> usize_max"
  shows "int_at width data off le = Just (raw_int width data off le)"
  using assms by (simp add: int_at_def usize_add_def get_range_def raw_int_def)

lemma field64_inside:
  assumes "hdr + k + 8 \<le> length data" "length data \<le> usize_max"
  shows "field64 data hdr k le = Just (raw_int 8 data (hdr + k) le)"
  using assms by (simp add: field64_def u64_at_def usize_add_def int_at_inside)

lemma header_inside:
  assumes "i < n" "shoff + n * entsize \<le> length data" "length data \<le> usize_max"
  shows "header_at shoff entsize i = Just (shoff + i * entsize)"
    and "shoff + i * entsize + entsize \<le> length data"
proof -
  have "i * entsize + entsize \<le> n * entsize"
    using mult_le_mono1 [of "Suc i" n entsize] assms(1) by simp
  with assms show "header_at shoff entsize i = Just (shoff + i * entsize)"
    and "shoff + i * entsize + entsize \<le> length data"
    by (simp_all add: header_at_def checked_mul_def checked_add_def)
qed

text \<open>The specification: the first section whose name is the one wanted, or unreadable, decides.\<close>

definition section_name :: "string \<Rightarrow> bool \<Rightarrow> string \<Rightarrow> nat \<Rightarrow> nat \<Rightarrow> nat \<Rightarrow> string option" where
  "section_name data le strtab shoff entsize i =
     (case cstr_at strtab (raw_int 4 data (shoff + i * entsize) le) of Just s \<Rightarrow> Some s | _ \<Rightarrow> None)"

definition deciding_section :: "string \<Rightarrow> string \<Rightarrow> bool \<Rightarrow> string \<Rightarrow> nat \<Rightarrow> nat \<Rightarrow> nat list \<Rightarrow> nat option" where
  "deciding_section data name le strtab shoff entsize is =
     (case dropWhile (\<lambda>i. section_name data le strtab shoff entsize i \<notin> {None, Some name}) is of
        [] \<Rightarrow> None
      | i # _ \<Rightarrow> if section_name data le strtab shoff entsize i = None then None else Some i)"

definition section_bytes64 :: "string \<Rightarrow> bool \<Rightarrow> nat \<Rightarrow> string checked" where
  "section_bytes64 data le hdr = slice_of data (raw_int 8 data (hdr + 24) le) (raw_int 8 data (hdr + 32) le)"

lemma cstr_at_no_panic: "cstr_at s off \<noteq> Panicked"
  by (auto simp: cstr_at_def get_range_def split: option.split)

lemma slice_of_no_panic: "slice_of data off n \<noteq> Panicked"
  by (simp add: slice_of_def checked_add_def get_range_def)

lemma sections64_spec:
  assumes "shoff + n * entsize \<le> length data" "length data \<le> usize_max" "64 \<le> entsize"
  shows "i + m = n \<Longrightarrow> sections64 data name le strtab shoff entsize i m =
           (case deciding_section data name le strtab shoff entsize [i..<n] of
              None \<Rightarrow> Nothing | Some j \<Rightarrow> section_bytes64 data le (shoff + j * entsize))"
proof (induction m arbitrary: i)
  case 0
  then show ?case by (simp add: deciding_section_def)
next
  case (Suc m)
  let ?hdr = "shoff + i * entsize"
  have i: "i < n" using Suc.prems by simp
  note hdr = header_inside [OF i assms(1,2)]
  have name_off: "u32_at data ?hdr le = Just (raw_int 4 data ?hdr le)"
    using hdr(2) assms(2,3) by (simp add: u32_at_def int_at_inside)
  have fields: "field64 data ?hdr 24 le = Just (raw_int 8 data (?hdr + 24) le)"
    "field64 data ?hdr 32 le = Just (raw_int 8 data (?hdr + 32) le)"
    using hdr(2) assms(2,3) by (simp_all add: field64_inside)
  show ?case
  proof (cases "cstr_at strtab (raw_int 4 data ?hdr le)")
    case Panicked
    then show ?thesis by (simp add: cstr_at_no_panic)
  next
    case Nothing
    then show ?thesis
      using i hdr(1) name_off by (simp add: deciding_section_def section_name_def upt_rec [of i])
  next
    case (Just s)
    have "sections64 data name le strtab shoff entsize (Suc i) m =
      (case deciding_section data name le strtab shoff entsize [Suc i..<n] of
         None \<Rightarrow> Nothing | Some j \<Rightarrow> section_bytes64 data le (shoff + j * entsize))"
      using Suc.prems by (intro Suc.IH) simp
    then show ?thesis
      using i hdr(1) name_off fields Just
      by (simp add: deciding_section_def section_name_def section_bytes64_def upt_rec [of i])
  qed
qed

lemma slices_differ: "slice_of data off n = Just t \<Longrightarrow> t = take n (drop off data)"
  by (auto simp: slice_of_def checked_add_def get_range_def split: if_splits)

text \<open>C39: the lookup of an ELF section. When the section table of a 64-bit file lies inside the file and
  so does its string table, the lookup never overflows nor stops at a header, and returns exactly the bytes named
  by the first header whose name is the one wanted (nothing when there is none, or when an unreadable name comes first).\<close>

theorem elf64_section_lookup:
  assumes "64 \<le> length data" "length data \<le> usize_max"
    and "raw_int 8 data 40 le = shoff" "raw_int 2 data 58 le = entsize" "raw_int 2 data 60 le = n"
    and "raw_int 2 data 62 le < n" "64 \<le> entsize" "shoff + n * entsize \<le> length data"
    and "section_bytes64 data le (shoff + raw_int 2 data 62 le * entsize) = Just strtab"
  shows "elf64_section data name le =
           (case deciding_section data name le strtab shoff entsize [0..<n] of
              None \<Rightarrow> Nothing | Some i \<Rightarrow> section_bytes64 data le (shoff + i * entsize))
       \<and> elf64_section data name le \<noteq> Panicked"
proof -
  let ?hdr = "shoff + raw_int 2 data 62 le * entsize"
  note hdr = header_inside [OF assms(6,8,2)]
  have start: "u64_at data 40 le = Just shoff" "u16_at data 58 le = Just entsize" "u16_at data 60 le = Just n"
    "u16_at data 62 le = Just (raw_int 2 data 62 le)"
    using assms(1-5) by (simp_all add: u64_at_def u16_at_def int_at_inside)
  have fields: "field64 data ?hdr 24 le = Just (raw_int 8 data (?hdr + 24) le)"
    "field64 data ?hdr 32 le = Just (raw_int 8 data (?hdr + 32) le)"
    using hdr(2) assms(2,7) by (simp_all add: field64_inside)
  have "elf64_section data name le = sections64 data name le strtab shoff entsize 0 n"
    using assms(6,7,9) hdr(1) by (simp add: elf64_section_def start fields section_bytes64_def)
  also have "\<dots> = (case deciding_section data name le strtab shoff entsize [0..<n] of
      None \<Rightarrow> Nothing | Some i \<Rightarrow> section_bytes64 data le (shoff + i * entsize))"
    by (rule sections64_spec [OF assms(8,2,7)]) simp
  finally show ?thesis by (simp add: section_bytes64_def slice_of_no_panic split: option.split)
qed

text \<open>Outside these bounds the unchecked additions show: a section table offset close to \<open>2 ^ 64\<close>
  aborts the process.\<close>

lemma elf64_offset_panics:
  assumes "64 \<le> length data" "length data \<le> usize_max" "raw_int 2 data 62 le = 0" "0 < raw_int 2 data 60 le"
    and "64 \<le> raw_int 2 data 58 le" "raw_int 8 data 40 le \<le> usize_max" "raw_int 8 data 40 le + 24 > usize_max"
  shows "elf64_section data name le = Panicked"
  using assms
  by (simp add: elf64_section_def u64_at_def u16_at_def int_at_inside header_at_def checked_mul_def checked_add_def
      field64_def usize_add_def)

section \<open>A file\<close>

text \<open>The header, two section headers of 64 bytes, the names, the version.\<close>

definition zeros :: "nat \<Rightarrow> string" where
  "zeros n = replicate n (CHR 0x00)"

definition demo_section :: "char \<Rightarrow> char \<Rightarrow> char \<Rightarrow> string" where
  "demo_section name_off off len = [name_off] @ zeros 23 @ [off] @ zeros 7 @ [len] @ zeros 31"

definition demo_names :: string where
  "demo_names = ''st'' @ zeros 1 @ ''v'' @ zeros 1"

definition demo_elf :: string where
  "demo_elf =
     ELF_MAGIC @ [CHR 0x02, CHR 0x01] @ zeros 34 @ [CHR 0x40] @ zeros 17
   @ [CHR 0x40, CHR 0x00, CHR 0x02, CHR 0x00, CHR 0x00, CHR 0x00]
   @ demo_section (CHR 0x00) (CHR 0xC0) (CHR 0x05) @ demo_section (CHR 0x03) (CHR 0xC5) (CHR 0x06)
   @ demo_names @ ''v1.2.3''"

lemma demo_elf_length: "length demo_elf = 203"
  by (simp add: demo_elf_def demo_section_def zeros_def ELF_MAGIC_def demo_names_def)

lemma demo_elf_ints:
  "raw_int 8 demo_elf 40 True = 64" "raw_int 2 demo_elf 58 True = 64" "raw_int 2 demo_elf 60 True = 2"
  "raw_int 2 demo_elf 62 True = 0" "raw_int 4 demo_elf 64 True = 0" "raw_int 4 demo_elf 128 True = 3"
  "raw_int 8 demo_elf 88 True = 192" "raw_int 8 demo_elf 96 True = 5"
  "raw_int 8 demo_elf 152 True = 197" "raw_int 8 demo_elf 160 True = 6"
  by code_simp+

lemma demo_elf_slices:
  "take 5 (drop 192 demo_elf) = demo_names" "take 6 (drop 197 demo_elf) = ''v1.2.3''"
  by code_simp+

lemma demo_elf_sections:
  "section_bytes64 demo_elf True 64 = Just demo_names"
  "section_bytes64 demo_elf True 128 = Just ''v1.2.3''"
  by (simp_all add: section_bytes64_def slice_of_def checked_add_def get_range_def usize_max_def demo_elf_length
      demo_elf_ints demo_elf_slices)

lemma demo_elf_names:
  "cstr_at demo_names 0 = Just ''st''" "cstr_at demo_names 3 = Just ''v''"
  by code_simp+

theorem elf64_section_lookup_witness:
  "elf64_section demo_elf ''v'' True = Just ''v1.2.3''"
proof -
  have "deciding_section demo_elf ''v'' True demo_names 64 64 [0..<2] = Some 1"
    by (simp add: deciding_section_def section_name_def upt_rec demo_elf_ints demo_elf_names)
  with elf64_section_lookup [of demo_elf True 64 64 2 demo_names "''v''"]
  show ?thesis
    by (simp add: demo_elf_length usize_max_def demo_elf_ints demo_elf_sections)
qed

end
